(* ===== verification/Prelude.thy ===== *)
theory Prelude
  imports Main "HOL-Library.Sublist" "HOL-Library.Word"
begin

text \<open>
  Shared vocabulary of the development: the type synonyms of the model, the two named
  collections every component feeds, generic facts on lists, options and finite maps, and
  the decimal rendering of numbers (Go's \<open>strconv.Itoa\<close>) with its inverse.

  Conventions. A Go \<open>string\<close> or \<open>[]byte\<close> that is treated as text is a HOL \<open>string\<close>, a list
  of 8-bit \<open>char\<close>s, so \<open>length\<close> counts bytes as Go's \<open>len\<close> does. A Go \<open>(T, error)\<close> result is
  \<open>('e, 't) result\<close>, with \<open>Inl\<close> for the error branch. A Go map is a HOL map \<open>'k \<rightharpoonup> 'v\<close>.
\<close>

type_synonym ('e, 'a) result = "'e + 'a"

named_theorems steps_simps \<open>unfolding rules of the components' step functions\<close>
named_theorems inv_intros \<open>preservation of the components' invariants\<close>

subsection \<open>Results\<close>

definition is_ok :: "('e, 'a) result \<Rightarrow> bool" where
  "is_ok r = (case r of Inl _ \<Rightarrow> False | Inr _ \<Rightarrow> True)"

lemma is_ok_simps [simp]: "is_ok (Inr a)" "\<not> is_ok (Inl e)"
  by (simp_all add: is_ok_def)

lemma is_ok_iff: "is_ok r \<longleftrightarrow> (\<exists>a. r = Inr a)"
  by (cases r) auto

subsection \<open>Lists\<close>

lemma take_nth_drop: "i < length xs \<Longrightarrow> take i xs @ xs ! i # drop (Suc i) xs = xs"
  by (simp add: id_take_nth_drop [symmetric])

lemma filter_filter_conj: "filter p (filter q xs) = filter (\<lambda>x. q x \<and> p x) xs"
  by (induction xs) auto

lemma concat_map_filter_append:
  "concat (map f (filter p (xs @ ys))) = concat (map f (filter p xs)) @ concat (map f (filter p ys))"
  by simp

lemma dropWhile_idem [simp]: "dropWhile p (dropWhile p xs) = dropWhile p xs"
  by (induction xs) auto

lemma dropWhile_hd_False: "xs \<noteq> [] \<Longrightarrow> \<not> p (hd xs) \<Longrightarrow> dropWhile p xs = xs"
  by (cases xs) auto

lemma dropWhile_id: "(\<And>x. x \<in> set xs \<Longrightarrow> \<not> p x) \<Longrightarrow> dropWhile p xs = xs"
  by (cases xs) auto

lemma takeWhile_id: "(\<And>x. x \<in> set xs \<Longrightarrow> p x) \<Longrightarrow> takeWhile p xs = xs"
  by (induction xs) auto

lemma find_SomeD: "find p xs = Some x \<Longrightarrow> x \<in> set xs \<and> p x"
  by (auto simp: find_Some_iff)

lemma find_NoneD: "find p xs = None \<Longrightarrow> x \<in> set xs \<Longrightarrow> \<not> p x"
  by (auto simp: find_None_iff)

subsection \<open>Finite maps\<close>

lemma finite_dom_upd [simp]: "finite (dom m) \<Longrightarrow> finite (dom (m(k \<mapsto> v)))"
  by simp

lemma finite_dom_del [simp]: "finite (dom m) \<Longrightarrow> finite (dom (m(k := None)))"
  by (simp add: finite_subset [of _ "dom m"] subset_iff dom_def)

lemma ran_del_subset: "ran (m(k := None)) \<subseteq> ran m"
  by (auto simp: ran_def split: if_splits)

lemma map_upd_SomeD: "(m(k \<mapsto> v)) x = Some y \<Longrightarrow> (x = k \<and> y = v) \<or> (x \<noteq> k \<and> m x = Some y)"
  by (auto split: if_splits)

subsection \<open>Exclusive ownership\<close>

text \<open>
  Each of the items \<open>ls\<close> is held by exactly one owner, once: the shape of the resource
  invariants of the components (listeners, registered names, addresses).
\<close>

definition exclusive :: "('x \<Rightarrow> 'i list) \<Rightarrow> 'i set \<Rightarrow> bool" where
  "exclusive own ls \<longleftrightarrow> (\<forall>x. distinct (own x) \<and> set (own x) \<subseteq> ls) \<and>
     (\<forall>l \<in> ls. \<exists>x. l \<in> set (own x)) \<and>
     (\<forall>x y l. l \<in> set (own x) \<longrightarrow> l \<in> set (own y) \<longrightarrow> x = y)"

lemma exclusiveI:
  assumes "\<And>x. distinct (own x)" "\<And>x l. l \<in> set (own x) \<Longrightarrow> l \<in> ls"
    and "\<And>l. l \<in> ls \<Longrightarrow> \<exists>x. l \<in> set (own x)"
    and "\<And>x y l. l \<in> set (own x) \<Longrightarrow> l \<in> set (own y) \<Longrightarrow> x = y"
  shows "exclusive own ls"
  using assms unfolding exclusive_def by blast

lemma exclusiveD:
  assumes "exclusive own ls"
  shows "distinct (own x)" "l \<in> set (own x) \<Longrightarrow> l \<in> ls" "l \<in> ls \<Longrightarrow> \<exists>x. l \<in> set (own x)"
    "l \<in> set (own x) \<Longrightarrow> l \<in> set (own y) \<Longrightarrow> x = y"
  using assms unfolding exclusive_def by blast+

lemma exclusive_add:
  assumes e: "exclusive own ls" and o: "own x = []" and l: "l \<notin> ls"
  shows "exclusive (own(x := [l])) (insert l ls)"
proof (rule exclusiveI)
  note D = exclusiveD [OF e]
  show "distinct ((own(x := [l])) y)" for y using D(1) by simp
  show "k \<in> insert l ls" if "k \<in> set ((own(x := [l])) y)" for y k
    using that D(2) by (auto split: if_splits)
  show "\<exists>y. k \<in> set ((own(x := [l])) y)" if "k \<in> insert l ls" for k
    using that D(3) [of k] o by (auto, metis empty_iff empty_set)
  show "y = z" if "k \<in> set ((own(x := [l])) y)" "k \<in> set ((own(x := [l])) z)" for y z k
    using that D(2) D(4) [of k y z] l by (auto split: if_splits)
qed

lemma exclusive_release:
  assumes e: "exclusive own ls" and o: "own x = l # xs"
  shows "exclusive (own(x := xs)) (ls - {l})"
proof (rule exclusiveI)
  note D = exclusiveD [OF e]
  have sub: "set ((own(x := xs)) y) \<subseteq> set (own y)" for y using o by auto
  have l: "l \<notin> set ((own(x := xs)) y)" for y
    using D(1) [of x] D(4) [of l x y] o by auto
  show "distinct ((own(x := xs)) y)" for y using D(1) [of x] D(1) [of y] o by simp
  show "k \<in> ls - {l}" if "k \<in> set ((own(x := xs)) y)" for y k
    using that sub D(2) l by blast
  show "\<exists>y. k \<in> set ((own(x := xs)) y)" if "k \<in> ls - {l}" for k
    using that D(3) [of k] o by (metis DiffE fun_upd_apply insertCI set_ConsD)
  show "y = z" if "k \<in> set ((own(x := xs)) y)" "k \<in> set ((own(x := xs)) z)" for y z k
    using that sub D(4) by blast
qed

text \<open>Moving what the owners \<open>xs\<close> hold to the idle owner \<open>y\<close>.\<close>

lemma exclusive_move:
  assumes e: "exclusive own ls" and o: "own y = []" and d: "distinct xs" and y: "y \<notin> set xs"
  shows "exclusive (\<lambda>z. if z = y then concat (map own xs) else if z \<in> set xs then [] else own z) ls"
    (is "exclusive ?own ls")
proof (rule exclusiveI)
  note D = exclusiveD [OF e]
  have "distinct (concat (map own xs))"
    using d
  proof (induction xs)
    case (Cons x xs)
    then show ?case using D(1) D(4) by auto
  qed simp
  then show "distinct (?own z)" for z using D(1) by simp
  show "k \<in> ls" if "k \<in> set (?own z)" for z k
    using that D(2) by (auto split: if_splits)
  show "\<exists>z. k \<in> set (?own z)" if k: "k \<in> ls" for k
  proof -
    obtain z where z: "k \<in> set (own z)" using D(3) [OF k] by blast
    show ?thesis
    proof (cases "z \<in> set xs")
      case True
      then show ?thesis using z by (intro exI [of _ y]) auto
    next
      case False
      moreover have "z \<noteq> y" using z o by auto
      ultimately show ?thesis using z by (intro exI [of _ z]) simp
    qed
  qed
  show "u = v" if "k \<in> set (?own u)" "k \<in> set (?own v)" for u v k
    using that D(4) [of k] by (auto split: if_splits)
qed

lemma exclusive_keep: "exclusive own ls \<Longrightarrow> own x = xs \<Longrightarrow> exclusive (own(x := xs)) ls"
  by (metis fun_upd_triv)

subsection \<open>Decimal numbers\<close>

definition digit_char :: "nat \<Rightarrow> char" where
  "digit_char d = char_of (48 + d)"

definition is_digit :: "char \<Rightarrow> bool" where
  "is_digit c = (48 \<le> (of_char c :: nat) \<and> (of_char c :: nat) \<le> 57)"

definition digit_val :: "char \<Rightarrow> nat" where
  "digit_val c = of_char c - 48"

fun nat_digits :: "nat \<Rightarrow> string" where
  "nat_digits n = (if n < 10 then [digit_char n] else nat_digits (n div 10) @ [digit_char (n mod 10)])"

declare nat_digits.simps [simp del]

definition Itoa :: "int \<Rightarrow> string" where
  "Itoa i = (if i < 0 then CHR ''-'' # nat_digits (nat (- i)) else nat_digits (nat i))"

definition digits_value :: "string \<Rightarrow> nat" where
  "digits_value s = foldl (\<lambda>a c. 10 * a + digit_val c) 0 s"

lemma of_char_digit_char: "d < 10 \<Longrightarrow> (of_char (digit_char d) :: nat) = 48 + d"
  by (simp add: digit_char_def)

lemma is_digit_digit_char [simp]: "d < 10 \<Longrightarrow> is_digit (digit_char d)"
  by (simp add: is_digit_def of_char_digit_char)

lemma digit_val_digit_char [simp]: "d < 10 \<Longrightarrow> digit_val (digit_char d) = d"
  by (simp add: digit_val_def of_char_digit_char)

lemma nat_digits_nonempty [simp]: "nat_digits n \<noteq> []"
  by (subst nat_digits.simps) simp

lemma nat_digits_all_digits: "c \<in> set (nat_digits n) \<Longrightarrow> is_digit c"
proof (induction n rule: nat_digits.induct)
  case (1 n)
  then show ?case
    by (cases "n < 10") (auto simp: nat_digits.simps [of n])
qed

lemma digits_value_nat_digits [simp]: "digits_value (nat_digits n) = n"
proof (induction n rule: nat_digits.induct)
  case (1 n)
  show ?case
  proof (cases "n < 10")
    case True
    then show ?thesis by (simp add: nat_digits.simps [of n] digits_value_def)
  next
    case False
    with "1.IH" have "digits_value (nat_digits (n div 10)) = n div 10" by simp
    with False show ?thesis
      by (simp add: nat_digits.simps [of n] digits_value_def)
  qed
qed

lemma nat_digits_inject [simp]: "nat_digits m = nat_digits n \<longleftrightarrow> m = n"
  by (metis digits_value_nat_digits)

lemma Itoa_of_nat [simp]: "Itoa (int n) = nat_digits n"
  by (simp add: Itoa_def)

end
