(* ===== verification/GoStrings.thy ===== *)
theory GoStrings
  imports Prelude
begin

text \<open>
  The functions of Go's \<open>strings\<close> and \<open>strconv\<close> packages the program uses, on byte strings.
  White space and letter case are those of ASCII: Go also treats some multi-byte Unicode
  characters as space and folds their case, which the program's inputs (host names, ssh
  options, identifiers) do not rely on.
\<close>

definition is_space :: "char \<Rightarrow> bool" where
  "is_space c = (c \<in> {CHR 0x09, CHR 0x0A, CHR 0x0B, CHR 0x0C, CHR 0x0D, CHR '' ''})"

definition trim_left :: "(char \<Rightarrow> bool) \<Rightarrow> string \<Rightarrow> string" where
  "trim_left p s = dropWhile p s"

definition trim_right :: "(char \<Rightarrow> bool) \<Rightarrow> string \<Rightarrow> string" where
  "trim_right p s = rev (dropWhile p (rev s))"

definition TrimFunc :: "(char \<Rightarrow> bool) \<Rightarrow> string \<Rightarrow> string" where
  "TrimFunc p s = trim_right p (trim_left p s)"

definition TrimSpace :: "string \<Rightarrow> string" where
  "TrimSpace s = TrimFunc is_space s"

definition Trim :: "string \<Rightarrow> string \<Rightarrow> string" where
  "Trim s cutset = TrimFunc (\<lambda>c. c \<in> set cutset) s"

definition lower_char :: "char \<Rightarrow> char" where
  "lower_char c = (if 65 \<le> (of_char c :: nat) \<and> (of_char c :: nat) \<le> 90
                   then char_of ((of_char c :: nat) + 32) else c)"

definition ToLower :: "string \<Rightarrow> string" where
  "ToLower s = map lower_char s"

definition HasPrefix :: "string \<Rightarrow> string \<Rightarrow> bool" where
  "HasPrefix s p = (take (length p) s = p)"

definition TrimPrefix :: "string \<Rightarrow> string \<Rightarrow> string" where
  "TrimPrefix s p = (if HasPrefix s p then drop (length p) s else s)"

definition EqualFold :: "string \<Rightarrow> string \<Rightarrow> bool" where
  "EqualFold s t = (ToLower s = ToLower t)"

definition ContainsAny :: "string \<Rightarrow> string \<Rightarrow> bool" where
  "ContainsAny s chars = list_ex (\<lambda>c. c \<in> set chars) s"

definition Contains :: "string \<Rightarrow> char \<Rightarrow> bool" where
  "Contains s c = (c \<in> set s)"

text \<open>\<open>strings.Cut(s, sep)\<close> for a one-byte separator: before, after, found.\<close>

definition Cut :: "string \<Rightarrow> char \<Rightarrow> string \<times> string \<times> bool" where
  "Cut s sep = (takeWhile (\<lambda>c. c \<noteq> sep) s, drop 1 (dropWhile (\<lambda>c. c \<noteq> sep) s), sep \<in> set s)"

fun Join :: "string list \<Rightarrow> string \<Rightarrow> string" where
  "Join [] sep = []"
| "Join [x] sep = x"
| "Join (x # y # xs) sep = x @ sep @ Join (y # xs) sep"

text \<open>\<open>strings.Split\<close> for a one-byte separator: always at least one piece.\<close>

fun Split :: "string \<Rightarrow> char \<Rightarrow> string list" where
  "Split [] sep = [[]]"
| "Split (c # s) sep =
     (if c = sep then [] # Split s sep
      else case Split s sep of [] \<Rightarrow> [[c]] | w # ws \<Rightarrow> (c # w) # ws)"

text \<open>\<open>strings.Fields\<close>: the maximal runs of bytes that are not white space.\<close>

definition Fields :: "string \<Rightarrow> string list" where
  "Fields s = filter (\<lambda>w. w \<noteq> []) (Split (map (\<lambda>c. if is_space c then CHR '' '' else c) s) CHR '' '')"

text \<open>\<open>strings.ReplaceAll\<close> with a one-byte pattern.\<close>

definition ReplaceAll :: "string \<Rightarrow> char \<Rightarrow> string \<Rightarrow> string" where
  "ReplaceAll s old new = concat (map (\<lambda>c. if c = old then new else [c]) s)"

text \<open>
  \<open>strconv.Atoi\<close>: an optional sign and at least one digit, within 64 bits; \<open>None\<close> is an error.
\<close>

definition parse_digits :: "string \<Rightarrow> nat option" where
  "parse_digits s = (if s \<noteq> [] \<and> list_all is_digit s then Some (digits_value s) else None)"

definition Atoi :: "string \<Rightarrow> int option" where
  "Atoi s = (case s of
       [] \<Rightarrow> None
     | c # t \<Rightarrow>
         (if c = CHR ''-'' then
            (case parse_digits t of None \<Rightarrow> None
             | Some n \<Rightarrow> if n \<le> 2 ^ 63 then Some (- int n) else None)
          else
            (case parse_digits (if c = CHR ''+'' then t else s) of None \<Rightarrow> None
             | Some n \<Rightarrow> if n < 2 ^ 63 then Some (int n) else None)))"

text \<open>\<open>strconv.ParseUint(s, 10, bits)\<close>: digits only, below \<open>2 ^ bits\<close>.\<close>

definition ParseUint :: "string \<Rightarrow> nat \<Rightarrow> nat option" where
  "ParseUint s bits = (case parse_digits s of None \<Rightarrow> None
     | Some n \<Rightarrow> if n < 2 ^ bits then Some n else None)"

subsection \<open>Laws\<close>

lemma trim_right_append_keep: "\<not> p c \<Longrightarrow> trim_right p (xs @ [c]) = xs @ [c]"
  by (simp add: trim_right_def)

lemma trim_right_append: "trim_right p (xs @ ys) =
    (if trim_right p ys = [] then trim_right p xs else xs @ trim_right p ys)"
  by (auto simp: trim_right_def dropWhile_append)

lemma trim_right_keep_last: "xs \<noteq> [] \<Longrightarrow> \<not> p (last xs) \<Longrightarrow> trim_right p (xs @ ys) = xs @ trim_right p ys"
proof -
  assume xs: "xs \<noteq> []" "\<not> p (last xs)"
  then obtain zs z where z: "xs = zs @ [z]" "\<not> p z" by (cases xs rule: rev_cases) auto
  then have "trim_right p xs = xs" by (simp add: trim_right_append_keep)
  then show ?thesis by (simp add: trim_right_append)
qed

lemma trim_left_keep_hd: "xs \<noteq> [] \<Longrightarrow> \<not> p (hd xs) \<Longrightarrow> trim_left p (xs @ ys) = xs @ ys"
  by (cases xs) (auto simp: trim_left_def)

lemma set_trim_right: "set (trim_right p s) \<subseteq> set s"
  by (auto simp: trim_right_def dest: set_dropWhileD)

lemma set_trim_left: "set (trim_left p s) \<subseteq> set s"
  by (auto simp: trim_left_def dest: set_dropWhileD)

lemma set_TrimFunc: "set (TrimFunc p s) \<subseteq> set s"
  using set_trim_left [of p s] set_trim_right [of p "trim_left p s"] by (auto simp: TrimFunc_def)

lemma TrimFunc_keep_front:
  "xs \<noteq> [] \<Longrightarrow> \<not> p (hd xs) \<Longrightarrow> \<not> p (last xs) \<Longrightarrow> TrimFunc p (xs @ ys) = xs @ trim_right p ys"
  by (simp add: TrimFunc_def trim_left_keep_hd trim_right_keep_last)

lemma TrimFunc_id:
  "(\<And>c. c \<in> set s \<Longrightarrow> \<not> p c) \<Longrightarrow> TrimFunc p s = s"
proof -
  assume *: "\<And>c. c \<in> set s \<Longrightarrow> \<not> p c"
  then have "dropWhile p s = s" "dropWhile p (rev s) = rev s"
    by (auto intro: dropWhile_id)
  then show ?thesis by (simp add: TrimFunc_def trim_left_def trim_right_def)
qed

lemma TrimSpace_id: "(\<And>c. c \<in> set s \<Longrightarrow> \<not> is_space c) \<Longrightarrow> TrimSpace s = s"
  by (simp add: TrimSpace_def TrimFunc_id)

lemma Trim_id: "(\<And>c. c \<in> set s \<Longrightarrow> c \<notin> set cs) \<Longrightarrow> Trim s cs = s"
  by (simp add: Trim_def TrimFunc_id)

lemma lower_char_idem [simp]: "lower_char (lower_char c) = lower_char c"
  by (auto simp: lower_char_def)

lemma ToLower_idem [simp]: "ToLower (ToLower s) = ToLower s"
  by (simp add: ToLower_def)

lemma ToLower_append [simp]: "ToLower (s @ t) = ToLower s @ ToLower t"
  by (simp add: ToLower_def)

lemma ToLower_Nil [simp]: "ToLower [] = []" "ToLower s = [] \<longleftrightarrow> s = []"
  by (simp_all add: ToLower_def)

lemma EqualFold_refl [simp]: "EqualFold s s"
  by (simp add: EqualFold_def)

lemma HasPrefix_iff: "HasPrefix s p \<longleftrightarrow> (\<exists>t. s = p @ t)"
  by (auto simp: HasPrefix_def) (metis append_take_drop_id)

lemma HasPrefix_Nil [simp]: "HasPrefix [] p \<longleftrightarrow> p = []" "HasPrefix s []"
  by (auto simp: HasPrefix_iff)

lemma HasPrefix_Cons [simp]: "HasPrefix (c # s) (d # p) \<longleftrightarrow> c = d \<and> HasPrefix s p"
  by (auto simp: HasPrefix_iff)

lemma Split_nonempty [simp]: "Split s sep \<noteq> []"
  by (induction s) (auto split: list.splits)

lemma Split_no_sep: "sep \<notin> set s \<Longrightarrow> Split s sep = [s]"
  by (induction s) auto

lemma Split_sep_append: "sep \<notin> set w \<Longrightarrow> Split (w @ sep # s) sep = w # Split s sep"
  by (induction w) auto

lemma Split_Join: "ws \<noteq> [] \<Longrightarrow> (\<And>w. w \<in> set ws \<Longrightarrow> sep \<notin> set w) \<Longrightarrow> Split (Join ws [sep]) sep = ws"
  by (induction ws "[sep]" rule: Join.induct) (auto simp: Split_no_sep Split_sep_append)

lemma Split_pieces: "w \<in> set (Split s sep) \<Longrightarrow> sep \<notin> set w"
  by (induction s arbitrary: w) (auto split: list.splits if_splits)

lemma Join_Split: "Join (Split s sep) [sep] = s"
proof (induction s)
  case Nil
  show ?case by simp
next
  case (Cons c s)
  obtain w ws where s: "Split s sep = w # ws" by (cases "Split s sep") auto
  with Cons show ?case by (cases ws) auto
qed

lemma Itoa_not_sep: "is_digit c \<Longrightarrow> c \<noteq> CHR ''-'' \<and> \<not> is_space c \<and> c \<noteq> CHR ''.'' \<and> lower_char c = c"
  by (auto simp: is_digit_def is_space_def lower_char_def)

lemma parse_digits_nat_digits [simp]: "parse_digits (nat_digits n) = Some n"
  by (auto simp: parse_digits_def list_all_iff dest: nat_digits_all_digits)

lemma Atoi_nat_digits: "n < 2 ^ 63 \<Longrightarrow> Atoi (nat_digits n) = Some (int n)"
proof -
  assume n: "n < 2 ^ 63"
  obtain c t where ct: "nat_digits n = c # t" by (cases "nat_digits n") auto
  then have "is_digit c" using nat_digits_all_digits [of c n] by simp
  then have "c \<noteq> CHR ''-'' \<and> c \<noteq> CHR ''+''" by (auto simp: is_digit_def)
  then show ?thesis
    using n parse_digits_nat_digits [of n] ct by (simp add: Atoi_def)
qed

end
