(* ===== verification/SshCompat.thy ===== *)
theory SshCompat
  imports GoStrings
begin

text \<open>
  \<open>internal/sshcompat/parse.go\<close>: splitting an OpenSSH command line into options, destination
  and remote command, and inserting options before the destination. The first part is the
  code; the second describes command lines as blocks of complete options and shows that
  parsing is a partition of the arguments, and that inserting options moves nothing.
\<close>

subsection \<open>Model\<close>

record Parsed =
  pArgs :: "string list"
  pTarget :: string
  pTargetIndex :: int
  pRemoteCommand :: "string list"
  pNoWrap :: bool
  pInfoMode :: bool

definition optionsWithRequiredValue :: "string \<Rightarrow> bool" where
  "optionsWithRequiredValue arg = (arg \<in> set
     [''-B'', ''-b'', ''-c'', ''-D'', ''-E'', ''-e'', ''-F'', ''-I'', ''-i'', ''-J'', ''-L'',
      ''-l'', ''-m'', ''-O'', ''-o'', ''-p'', ''-Q'', ''-R'', ''-S'', ''-W'', ''-w''])"

definition isInfoMode :: "string \<Rightarrow> bool" where
  "isInfoMode arg = (arg = ''-V'' \<or> arg = ''-G'' \<or> HasPrefix arg ''-Q'')"

definition consumesAttachedValue :: "string \<Rightarrow> bool" where
  "consumesAttachedValue arg =
     (if length arg < 3 \<or> \<not> HasPrefix arg ''-'' then False
      else optionsWithRequiredValue (take 2 arg))"

text \<open>The scan of \<open>Parse\<close>: \<open>i\<close> is the index of the first remaining argument.\<close>

fun parse_loop :: "Parsed \<Rightarrow> nat \<Rightarrow> string list \<Rightarrow> Parsed" where
  "parse_loop out i [] = out"
| "parse_loop out i (arg # rest) =
     (if arg = ''--'' then
        (case rest of
           [] \<Rightarrow> out
         | t # rc \<Rightarrow> out\<lparr>pTarget := t, pTargetIndex := int i + 1, pRemoteCommand := rc\<rparr>)
      else
        let out' = (if isInfoMode arg then out\<lparr>pInfoMode := True\<rparr> else out) in
        if \<not> HasPrefix arg ''-'' \<or> arg = ''-'' then
          out'\<lparr>pTarget := arg, pTargetIndex := int i, pRemoteCommand := rest\<rparr>
        else if optionsWithRequiredValue arg \<and> rest \<noteq> [] then parse_loop out' (i + 2) (tl rest)
        else if consumesAttachedValue arg then parse_loop out' (i + 1) rest
        else parse_loop out' (i + 1) rest)"

definition Parse :: "string list \<Rightarrow> Parsed" where
  "Parse args =
     (let kept = filter (\<lambda>arg. arg \<noteq> ''--no-wrap'') args in
      parse_loop \<lparr>pArgs = kept, pTarget = [], pTargetIndex = -1, pRemoteCommand = [],
                  pNoWrap = (''--no-wrap'' \<in> set args), pInfoMode = False\<rparr> 0 kept)"

definition InsertBeforeTarget :: "Parsed \<Rightarrow> string list \<Rightarrow> string list" where
  "InsertBeforeTarget parsed options =
     (if pTargetIndex parsed < 0 \<or> pTargetIndex parsed > int (length (pArgs parsed)) then pArgs parsed
      else
        let ti = nat (pTargetIndex parsed);
            insertAt = (if ti > 0 \<and> pArgs parsed ! (ti - 1) = ''--'' then ti - 1 else ti)
        in take insertAt (pArgs parsed) @ options @ drop insertAt (pArgs parsed))"

subsection \<open>Option blocks\<close>

text \<open>
  A block of complete options: every element is an option, and an option that needs a value
  is followed by one. The scan consumes a block without seeing a destination.
\<close>

fun opt_block :: "string list \<Rightarrow> bool" where
  "opt_block [] = True"
| "opt_block (a # rest) =
     (HasPrefix a ''-'' \<and> a \<noteq> ''-'' \<and> a \<noteq> ''--'' \<and>
      (if optionsWithRequiredValue a then rest \<noteq> [] \<and> opt_block (tl rest) else opt_block rest))"

text \<open>Whether the scan reads a \<open>--\<close> as the value of an option.\<close>

fun dashdash_as_value :: "string list \<Rightarrow> bool" where
  "dashdash_as_value [] = False"
| "dashdash_as_value (a # rest) =
     (if a = ''--'' \<or> \<not> HasPrefix a ''-'' \<or> a = ''-'' then False
      else if optionsWithRequiredValue a then
        (rest \<noteq> [] \<and> (hd rest = ''--'' \<or> dashdash_as_value (tl rest)))
      else dashdash_as_value rest)"

definition is_destination :: "string \<Rightarrow> bool" where
  "is_destination t \<longleftrightarrow> \<not> HasPrefix t ''-'' \<or> t = ''-''"

definition takes_value :: "string \<Rightarrow> string list \<Rightarrow> bool" where
  "takes_value a rest \<longleftrightarrow> optionsWithRequiredValue a \<and> rest \<noteq> []"

text \<open>The induction that follows the scan, one argument or one option with its value at a time.\<close>

lemma scan_induct [case_names Nil Sep Dest Val Flag]:
  assumes "\<And>i. P i []"
    and "\<And>i rest. P i (''--'' # rest)"
    and "\<And>i a rest. a \<noteq> ''--'' \<Longrightarrow> is_destination a \<Longrightarrow> P i (a # rest)"
    and "\<And>i a v rest. a \<noteq> ''--'' \<Longrightarrow> \<not> is_destination a \<Longrightarrow> optionsWithRequiredValue a \<Longrightarrow>
           P (i + 2) rest \<Longrightarrow> P i (a # v # rest)"
    and "\<And>i a rest. a \<noteq> ''--'' \<Longrightarrow> \<not> is_destination a \<Longrightarrow> \<not> takes_value a rest \<Longrightarrow>
           P (i + 1) rest \<Longrightarrow> P i (a # rest)"
  shows "P (i::nat) xs"
proof (induction xs arbitrary: i rule: length_induct)
  case (1 xs)
  show ?case
  proof (cases xs)
    case Nil
    then show ?thesis using assms(1) by simp
  next
    case (Cons a rest)
    show ?thesis
    proof (cases "a = ''--'' \<or> is_destination a")
      case True
      then show ?thesis unfolding Cons using assms(2) [of i rest] assms(3) [of a i rest] by metis
    next
      case False
      show ?thesis
      proof (cases "takes_value a rest")
        case True
        then obtain v rest' where "rest = v # rest'" "optionsWithRequiredValue a"
          by (cases rest) (auto simp: takes_value_def)
        then have "P (i + 2) rest'" using "1" Cons by (auto simp: less_Suc_eq)
        with False \<open>optionsWithRequiredValue a\<close> show ?thesis
          unfolding Cons \<open>rest = v # rest'\<close> by (intro assms(4)) auto
      next
        case novalue: False
        have "P (i + 1) rest" using "1" Cons by auto
        with False novalue show ?thesis unfolding Cons by (intro assms(5)) auto
      qed
    qed
  qed
qed

lemma scan_list_induct [case_names Nil Sep Dest Val Flag]:
  assumes "P []"
    and "\<And>rest. P (''--'' # rest)"
    and "\<And>a rest. a \<noteq> ''--'' \<Longrightarrow> is_destination a \<Longrightarrow> P (a # rest)"
    and "\<And>a v rest. a \<noteq> ''--'' \<Longrightarrow> \<not> is_destination a \<Longrightarrow> optionsWithRequiredValue a \<Longrightarrow>
           P rest \<Longrightarrow> P (a # v # rest)"
    and "\<And>a rest. a \<noteq> ''--'' \<Longrightarrow> \<not> is_destination a \<Longrightarrow> \<not> takes_value a rest \<Longrightarrow>
           P rest \<Longrightarrow> P (a # rest)"
  shows "P xs"
  by (rule scan_induct [where P = "\<lambda>_. P" and i = 0]) (fact assms)+

text \<open>The steps of the scan, one lemma per branch of the loop body.\<close>

definition saw_option :: "string \<Rightarrow> Parsed \<Rightarrow> Parsed" where
  "saw_option a out = (if isInfoMode a then out\<lparr>pInfoMode := True\<rparr> else out)"

lemma saw_option_fields [simp]:
  "pArgs (saw_option a out) = pArgs out" "pTarget (saw_option a out) = pTarget out"
  "pTargetIndex (saw_option a out) = pTargetIndex out"
  "pRemoteCommand (saw_option a out) = pRemoteCommand out" "pNoWrap (saw_option a out) = pNoWrap out"
  by (simp_all add: saw_option_def)

lemma parse_loop_Nil: "parse_loop out i [] = out"
  by simp

lemma parse_loop_sep_end: "parse_loop out i [''--''] = out"
  by simp

lemma parse_loop_sep:
  "parse_loop out i (''--'' # t # rc) = out\<lparr>pTarget := t, pTargetIndex := int i + 1, pRemoteCommand := rc\<rparr>"
  by simp

lemma parse_loop_dest:
  "a \<noteq> ''--'' \<Longrightarrow> is_destination a \<Longrightarrow>
   parse_loop out i (a # rest) =
     (saw_option a out)\<lparr>pTarget := a, pTargetIndex := int i, pRemoteCommand := rest\<rparr>"
  by (simp add: is_destination_def saw_option_def Let_def)

lemma parse_loop_val:
  "a \<noteq> ''--'' \<Longrightarrow> \<not> is_destination a \<Longrightarrow> optionsWithRequiredValue a \<Longrightarrow>
   parse_loop out i (a # v # rest) = parse_loop (saw_option a out) (i + 2) rest"
  by (simp add: is_destination_def saw_option_def Let_def)

lemma parse_loop_flag:
  "a \<noteq> ''--'' \<Longrightarrow> \<not> is_destination a \<Longrightarrow> \<not> takes_value a rest \<Longrightarrow>
   parse_loop out i (a # rest) = parse_loop (saw_option a out) (i + 1) rest"
  by (simp add: is_destination_def saw_option_def takes_value_def Let_def)

declare parse_loop.simps [simp del]

lemmas parse_loop_steps [steps_simps] =
  parse_loop_Nil parse_loop_sep_end parse_loop_sep parse_loop_dest parse_loop_val parse_loop_flag

lemma opt_block_Cons_iff:
  "opt_block (a # rest) \<longleftrightarrow> a \<noteq> ''--'' \<and> \<not> is_destination a \<and>
     (if optionsWithRequiredValue a then rest \<noteq> [] \<and> opt_block (tl rest) else opt_block rest)"
  by (auto simp: is_destination_def)

declare opt_block.simps(2) [simp del]

lemma opt_block_append: "opt_block xs \<Longrightarrow> opt_block ys \<Longrightarrow> opt_block (xs @ ys)"
proof (induction xs rule: scan_list_induct)
  case (Val a v rest)
  then show ?case by (simp add: opt_block_Cons_iff)
next
  case (Flag a rest)
  then show ?case by (auto simp: opt_block_Cons_iff takes_value_def)
qed (auto simp: opt_block_Cons_iff)

lemma parse_loop_block:
  "opt_block blk \<Longrightarrow> \<exists>im. parse_loop out i (blk @ xs) = parse_loop (out\<lparr>pInfoMode := im\<rparr>) (i + length blk) xs"
proof (induction i blk arbitrary: out rule: scan_induct)
  case (Nil i)
  have "out\<lparr>pInfoMode := pInfoMode out\<rparr> = out" by simp
  then show ?case by (metis append_Nil add_0_right list.size(3))
next
  case (Val i a v rest)
  then have "opt_block rest" by (simp add: opt_block_Cons_iff)
  with Val.IH obtain im where
    "parse_loop (saw_option a out) (i + 2) (rest @ xs) =
     parse_loop ((saw_option a out)\<lparr>pInfoMode := im\<rparr>) (i + 2 + length rest) xs"
    by blast
  then show ?case using Val.hyps by (auto simp: parse_loop_val saw_option_def)
next
  case (Flag i a rest)
  then have "opt_block rest" "\<not> optionsWithRequiredValue a"
    by (auto simp: opt_block_Cons_iff takes_value_def split: if_splits)
  with Flag.IH obtain im where
    "parse_loop (saw_option a out) (i + 1) (rest @ xs) =
     parse_loop ((saw_option a out)\<lparr>pInfoMode := im\<rparr>) (i + 1 + length rest) xs"
    by blast
  then show ?case
    using Flag.hyps \<open>\<not> optionsWithRequiredValue a\<close>
    by (auto simp: parse_loop_flag takes_value_def saw_option_def)
qed (simp_all add: opt_block_Cons_iff)

text \<open>The scan either finds no destination, or splits the arguments after a block.\<close>

definition splits_at :: "nat \<Rightarrow> string list \<Rightarrow> Parsed \<Rightarrow> bool" where
  "splits_at i xs r \<longleftrightarrow>
     (\<exists>blk. opt_block blk \<and>
        (xs = blk @ pTarget r # pRemoteCommand r \<and> is_destination (pTarget r) \<and>
           pTargetIndex r = int (i + length blk) \<or>
         xs = blk @ ''--'' # pTarget r # pRemoteCommand r \<and> pTargetIndex r = int (i + length blk) + 1))"

lemma found_prepend:
  assumes "splits_at (i + length pre) ys r" and "\<And>blk. opt_block blk \<Longrightarrow> opt_block (pre @ blk)"
  shows "splits_at i (pre @ ys) r"
proof -
  from assms(1) obtain blk where "opt_block blk"
    "ys = blk @ pTarget r # pRemoteCommand r \<and> is_destination (pTarget r) \<and>
       pTargetIndex r = int (i + length pre + length blk) \<or>
     ys = blk @ ''--'' # pTarget r # pRemoteCommand r \<and> pTargetIndex r = int (i + length pre + length blk) + 1"
    unfolding splits_at_def by blast
  then show ?thesis
    unfolding splits_at_def by (intro exI [of _ "pre @ blk"]) (auto simp: assms(2))
qed

definition unfound :: "Parsed \<Rightarrow> Parsed \<Rightarrow> bool" where
  "unfound out r \<longleftrightarrow> pTargetIndex r = pTargetIndex out \<and> pTarget r = pTarget out \<and>
     pRemoteCommand r = pRemoteCommand out"

lemma unfound_saw_option [simp]: "unfound (saw_option a out) r \<longleftrightarrow> unfound out r"
  by (simp add: unfound_def)

lemma parse_loop_cases:
  "unfound out (parse_loop out i xs) \<or> splits_at i xs (parse_loop out i xs)"
proof (induction i xs arbitrary: out rule: scan_induct)
  case (Sep i rest)
  show ?case
  proof (cases rest)
    case (Cons t rc)
    then show ?thesis
      by (auto simp: parse_loop_sep splits_at_def intro: exI [of _ "[]"])
  qed (simp add: parse_loop_sep_end unfound_def)
next
  case (Dest i a rest)
  then show ?case
    by (auto simp: parse_loop_dest splits_at_def intro: exI [of _ "[]"])
next
  case (Val i a v rest)
  have "splits_at i ([a, v] @ rest) r" if "splits_at (i + 2) rest r" for r
    by (rule found_prepend) (use that Val.hyps in \<open>simp_all add: opt_block_Cons_iff\<close>)
  with Val.IH [of "saw_option a out"] Val.hyps show ?case by (auto simp: parse_loop_val)
next
  case (Flag i a rest)
  show ?case
  proof (cases rest)
    case Nil
    with Flag show ?thesis by (simp add: parse_loop_flag parse_loop_Nil unfound_def)
  next
    case (Cons b bs)
    with Flag.hyps have noval: "\<not> optionsWithRequiredValue a" by (simp add: takes_value_def)
    have "splits_at i ([a] @ rest) r" if "splits_at (i + 1) rest r" for r
      by (rule found_prepend) (use that noval Flag.hyps in \<open>simp_all add: opt_block_Cons_iff\<close>)
    with Flag.IH [of "saw_option a out"] Flag.hyps show ?thesis by (auto simp: parse_loop_flag)
  qed
qed (simp_all add: parse_loop_Nil unfound_def)

lemma parse_loop_args: "pArgs (parse_loop out i xs) = pArgs out \<and> pNoWrap (parse_loop out i xs) = pNoWrap out"
proof (induction i xs arbitrary: out rule: scan_induct)
  case (Sep i rest)
  then show ?case by (cases rest) (simp_all add: parse_loop_steps)
qed (simp_all add: parse_loop_steps)

lemma pArgs_Parse [simp]: "pArgs (Parse args) = filter (\<lambda>arg. arg \<noteq> ''--no-wrap'') args"
  by (simp add: Parse_def Let_def parse_loop_args)

lemma Parse_loop_form:
  "\<exists>out. pTargetIndex out = -1 \<and> pTarget out = [] \<and> pRemoteCommand out = [] \<and>
         Parse args = parse_loop out 0 (filter (\<lambda>arg. arg \<noteq> ''--no-wrap'') args)"
  unfolding Parse_def Let_def
  by (rule exI [of _ "\<lparr>pArgs = filter (\<lambda>arg. arg \<noteq> ''--no-wrap'') args, pTarget = [],
      pTargetIndex = -1, pRemoteCommand = [], pNoWrap = (''--no-wrap'' \<in> set args), pInfoMode = False\<rparr>"]) simp

lemma Parse_cases:
  "pTargetIndex (Parse args) = -1 \<and> pTarget (Parse args) = [] \<and> pRemoteCommand (Parse args) = []
   \<or> splits_at 0 (pArgs (Parse args)) (Parse args)"
proof -
  obtain out where out: "pTargetIndex out = -1" "pTarget out = []" "pRemoteCommand out = []"
    and P: "Parse args = parse_loop out 0 (filter (\<lambda>arg. arg \<noteq> ''--no-wrap'') args)"
    using Parse_loop_form [of args] by blast
  show ?thesis
    using parse_loop_cases [of out 0 "filter (\<lambda>arg. arg \<noteq> ''--no-wrap'') args"] out
    unfolding P [symmetric] by (simp add: unfound_def)
qed

lemma Parse_found: "0 \<le> pTargetIndex (Parse args) \<Longrightarrow> splits_at 0 (pArgs (Parse args)) (Parse args)"
  using Parse_cases [of args] by linarith

lemma found_index: "splits_at i xs r \<Longrightarrow> 0 \<le> pTargetIndex r"
  unfolding splits_at_def by (elim exE conjE disjE) simp_all

lemma Parse_not_found:
  "pTargetIndex (Parse args) < 0 \<Longrightarrow>
   pTargetIndex (Parse args) = -1 \<and> pTarget (Parse args) = [] \<and> pRemoteCommand (Parse args) = []"
  using Parse_cases [of args] found_index [of 0 "pArgs (Parse args)" "Parse args"] by linarith

text \<open>Parsing a block followed by a destination, written out.\<close>

lemma Parse_block_dest:
  assumes "opt_block blk" and "is_destination t" and "''--no-wrap'' \<notin> set (blk @ t # rc)"
  shows "pTarget (Parse (blk @ t # rc)) = t \<and> pRemoteCommand (Parse (blk @ t # rc)) = rc \<and>
         pTargetIndex (Parse (blk @ t # rc)) = int (length blk)"
proof -
  let ?o = "\<lparr>pArgs = blk @ t # rc, pTarget = [], pTargetIndex = -1, pRemoteCommand = [],
             pNoWrap = False, pInfoMode = False\<rparr>"
  have "filter (\<lambda>arg. arg \<noteq> ''--no-wrap'') (blk @ t # rc) = blk @ t # rc"
    using assms(3) by (intro filter_True) auto
  then have P: "Parse (blk @ t # rc) = parse_loop ?o 0 (blk @ t # rc)"
    using assms(3) by (simp add: Parse_def Let_def)
  obtain im where "parse_loop ?o 0 (blk @ t # rc) = parse_loop (?o\<lparr>pInfoMode := im\<rparr>) (0 + length blk) (t # rc)"
    using parse_loop_block [OF assms(1)] by blast
  then show ?thesis
    using assms(2) unfolding P by (cases "t = ''--''") (auto simp: is_destination_def parse_loop_dest)
qed

lemma Parse_block_sep:
  assumes "opt_block blk" and "''--no-wrap'' \<notin> set (blk @ ''--'' # t # rc)"
  shows "pTarget (Parse (blk @ ''--'' # t # rc)) = t \<and> pRemoteCommand (Parse (blk @ ''--'' # t # rc)) = rc \<and>
         pTargetIndex (Parse (blk @ ''--'' # t # rc)) = int (length blk) + 1"
proof -
  let ?xs = "blk @ ''--'' # t # rc"
  let ?o = "\<lparr>pArgs = ?xs, pTarget = [], pTargetIndex = -1, pRemoteCommand = [],
             pNoWrap = False, pInfoMode = False\<rparr>"
  have "filter (\<lambda>arg. arg \<noteq> ''--no-wrap'') ?xs = ?xs"
    using assms(2) by (intro filter_True) auto
  then have P: "Parse ?xs = parse_loop ?o 0 ?xs"
    using assms(2) by (simp add: Parse_def Let_def)
  obtain im where "parse_loop ?o 0 ?xs = parse_loop (?o\<lparr>pInfoMode := im\<rparr>) (0 + length blk) (''--'' # t # rc)"
    using parse_loop_block [OF assms(1)] by blast
  then show ?thesis unfolding P by (simp add: parse_loop_sep)
qed

subsection \<open>Parsing is a partition\<close>

lemma found_split:
  "splits_at 0 xs r \<Longrightarrow> nat (pTargetIndex r) < length xs \<and>
   xs = take (nat (pTargetIndex r)) xs @ pTarget r # pRemoteCommand r"
  unfolding splits_at_def by (elim exE conjE disjE) (simp_all add: nat_add_distrib)


subsection \<open>Inserting options\<close>

lemma opt_block_no_dashdash:
  "opt_block blk \<Longrightarrow> \<not> dashdash_as_value (blk @ xs) \<Longrightarrow> ''--'' \<notin> set blk"
proof (induction blk rule: scan_list_induct)
  case (Val a v rest)
  then show ?case by (auto simp: opt_block_Cons_iff is_destination_def)
next
  case (Flag a rest)
  then show ?case by (auto simp: opt_block_Cons_iff takes_value_def is_destination_def split: if_splits)
qed (auto simp: opt_block_Cons_iff)

lemma no_dashdash_before:
  assumes "''--'' \<notin> set blk" and "0 < length blk"
  shows "(blk @ xs) ! (length blk - 1) \<noteq> ''--''"
  using assms by (metis diff_less length_greater_0_conv less_one nth_append nth_mem)

lemma Insert_found:
  assumes f: "splits_at 0 (pArgs p) p" and nd: "\<not> dashdash_as_value (pArgs p)"
  shows "\<exists>blk tail. opt_block blk \<and> pArgs p = blk @ tail \<and>
     InsertBeforeTarget p options = blk @ options @ tail \<and>
     (tail = pTarget p # pRemoteCommand p \<and> is_destination (pTarget p) \<and> pTargetIndex p = int (length blk) \<or>
      tail = ''--'' # pTarget p # pRemoteCommand p \<and> pTargetIndex p = int (length blk) + 1)"
proof -
  from f obtain blk where blk: "opt_block blk" and
    c: "pArgs p = blk @ pTarget p # pRemoteCommand p \<and> is_destination (pTarget p) \<and>
          pTargetIndex p = int (length blk) \<or>
        pArgs p = blk @ ''--'' # pTarget p # pRemoteCommand p \<and> pTargetIndex p = int (length blk) + 1"
    unfolding splits_at_def by auto
  have nodd: "''--'' \<notin> set blk" using c nd opt_block_no_dashdash [OF blk] by metis
  from c show ?thesis
  proof (elim disjE conjE)
    assume a: "pArgs p = blk @ pTarget p # pRemoteCommand p" and d: "is_destination (pTarget p)"
      and i: "pTargetIndex p = int (length blk)"
    have "\<not> (0 < length blk \<and> pArgs p ! (length blk - 1) = ''--'')"
      using no_dashdash_before [OF nodd, of "pTarget p # pRemoteCommand p"] a by auto
    then have "InsertBeforeTarget p options = blk @ options @ pTarget p # pRemoteCommand p"
      using i a by (auto simp: InsertBeforeTarget_def Let_def)
    then show ?thesis using blk a d i by blast
  next
    assume a: "pArgs p = blk @ ''--'' # pTarget p # pRemoteCommand p"
      and i: "pTargetIndex p = int (length blk) + 1"
    have "InsertBeforeTarget p options = blk @ options @ ''--'' # pTarget p # pRemoteCommand p"
      using i a by (simp add: InsertBeforeTarget_def Let_def nat_add_distrib)
    then show ?thesis using blk a i by blast
  qed
qed

text \<open>Inserting a block of complete options before the destination changes neither the
  destination nor the remote command: parsing the new command line finds the same
  destination, moved right by exactly the inserted arguments. The command line must not use
  \<open>--\<close> as the value of an option (see the theorem after this one).\<close>
theorem InsertBeforeTarget_preserves:
  assumes "0 \<le> pTargetIndex (Parse args)"
    and "\<not> dashdash_as_value (pArgs (Parse args))"
    and "opt_block options" and "''--no-wrap'' \<notin> set options"
  shows "pTarget (Parse (InsertBeforeTarget (Parse args) options)) = pTarget (Parse args) \<and>
         pRemoteCommand (Parse (InsertBeforeTarget (Parse args) options)) = pRemoteCommand (Parse args) \<and>
         pTargetIndex (Parse (InsertBeforeTarget (Parse args) options)) =
           pTargetIndex (Parse args) + int (length options)"
proof -
  let ?p = "Parse args"
  obtain blk tail where blk: "opt_block blk" and a: "pArgs ?p = blk @ tail"
    and ins: "InsertBeforeTarget ?p options = blk @ options @ tail"
    and c: "tail = pTarget ?p # pRemoteCommand ?p \<and> is_destination (pTarget ?p) \<and>
              pTargetIndex ?p = int (length blk) \<or>
            tail = ''--'' # pTarget ?p # pRemoteCommand ?p \<and> pTargetIndex ?p = int (length blk) + 1"
    using Insert_found [OF Parse_found [OF assms(1)] assms(2)] by blast
  have blk': "opt_block (blk @ options)" using blk assms(3) by (rule opt_block_append)
  have "''--no-wrap'' \<notin> set (pArgs ?p)" by simp
  then have "''--no-wrap'' \<notin> set (blk @ tail)" unfolding a .
  then have nw: "''--no-wrap'' \<notin> set ((blk @ options) @ tail)" using assms(4) by simp
  from c show ?thesis
  proof (elim disjE conjE)
    assume t: "tail = pTarget ?p # pRemoteCommand ?p" and d: "is_destination (pTarget ?p)"
      and i: "pTargetIndex ?p = int (length blk)"
    show ?thesis
      using Parse_block_dest [OF blk' d] nw unfolding ins t by (simp add: i)
  next
    assume t: "tail = ''--'' # pTarget ?p # pRemoteCommand ?p"
      and i: "pTargetIndex ?p = int (length blk) + 1"
    show ?thesis
      using Parse_block_sep [OF blk'] nw unfolding ins t by (simp add: i)
  qed
qed

theorem InsertBeforeTarget_preserves_witness:
  "pTarget (Parse (InsertBeforeTarget (Parse [''-p'', ''22'', ''host'', ''ls'']) [''-S'', ''/c''])) = ''host'' \<and>
   pRemoteCommand (Parse (InsertBeforeTarget (Parse [''-p'', ''22'', ''host'', ''ls'']) [''-S'', ''/c''])) = [''ls'']"
proof -
  have P: "Parse [''-p'', ''22'', ''host'', ''ls''] =
      \<lparr>pArgs = [''-p'', ''22'', ''host'', ''ls''], pTarget = ''host'', pTargetIndex = 2,
       pRemoteCommand = [''ls''], pNoWrap = False, pInfoMode = False\<rparr>"
    by code_simp
  have h: "0 \<le> pTargetIndex (Parse [''-p'', ''22'', ''host'', ''ls''])"
    "\<not> dashdash_as_value (pArgs (Parse [''-p'', ''22'', ''host'', ''ls'']))"
    "opt_block [''-S'', ''/c'']" "''--no-wrap'' \<notin> set [''-S'', ''/c'']"
    by code_simp+
  show ?thesis using InsertBeforeTarget_preserves [OF h] by (simp add: P)
qed

text \<open>The limit of \<open>InsertBeforeTarget\<close>: it takes any \<open>--\<close> before the destination for the
  end-of-options separator, also one that the parser itself read as the value of an option.
  Inserting there hands the first inserted option to that option and moves the destination.\<close>
theorem InsertBeforeTarget_dashdash_value:
  "pTarget (Parse [''-l'', ''--'', ''host'']) = ''host'' \<and>
   pTarget (Parse (InsertBeforeTarget (Parse [''-l'', ''--'', ''host'']) [''-S'', ''/ctl''])) = ''/ctl''"
  by code_simp

end
