(* ===== verification/SshArgs.thy ===== *)
theory SshArgs
  imports SshCompat
begin

text \<open>
  Rewriting OpenSSH command lines: \<open>internal/forward/control.go\<close> (removing control-socket,
  forwarding and auxiliary options, building \<open>-O\<close> control operations), the copies of its
  filters in \<open>internal/cli/integration_adapter.go\<close>, the control-socket arguments of
  \<open>internal/cli/proxy.go\<close>, \<open>sshControlPath\<close> of \<open>internal/cli/ssh_bridge.go\<close> and
  \<open>ConfigProbeArgs\<close> of \<open>internal/identity/identity.go\<close>.

  The interface \<open>unit_filter\<close> states the contract the filters share: on a command line of
  complete options they keep or drop whole options. Its lemmas are proved once and used for
  each filter by interpretation.
\<close>

subsection \<open>The filters of internal/forward/control.go\<close>

definition isControlSSHOption :: "string \<Rightarrow> bool" where
  "isControlSSHOption value =
     (let key = fst (Cut value CHR ''='') in
      ToLower (TrimSpace key) \<in> set [''controlmaster'', ''controlpath'', ''controlpersist''])"

definition isForwardingConfigOption :: "string \<Rightarrow> bool" where
  "isForwardingConfigOption key =
     (ToLower (TrimSpace key) \<in> set [''clearallforwardings'', ''exitonforwardfailure'',
        ''localforward'', ''remoteforward'', ''dynamicforward''])"

definition isTTYRequestFlag :: "string \<Rightarrow> bool" where
  "isTTYRequestFlag arg =
     (if length arg < 2 \<or> arg ! 0 \<noteq> CHR ''-'' \<or> arg ! 1 \<noteq> CHR ''t'' then False
      else list_all (\<lambda>c. c = CHR ''t'') (tl arg))"

fun stripControlSSHOptions :: "string list \<Rightarrow> string list" where
  "stripControlSSHOptions [] = []"
| "stripControlSSHOptions (arg # rest) =
     (if arg = ''-S'' then stripControlSSHOptions (tl rest)
      else if HasPrefix arg ''-S'' \<and> length arg > 2 then stripControlSSHOptions rest
      else if arg = ''-o'' \<and> rest \<noteq> [] then
        (if isControlSSHOption (hd rest) then stripControlSSHOptions (tl rest)
         else arg # hd rest # stripControlSSHOptions (tl rest))
      else if HasPrefix arg ''-o'' \<and> length arg > 2 \<and> isControlSSHOption (drop 2 arg)
        then stripControlSSHOptions rest
      else arg # stripControlSSHOptions rest)"

definition valueActions :: "string \<Rightarrow> bool" where
  "valueActions arg = (arg \<in> set [''-D'', ''-L'', ''-R'', ''-W''])"

fun stripAuxiliarySSHOptions :: "string list \<Rightarrow> string list" where
  "stripAuxiliarySSHOptions [] = []"
| "stripAuxiliarySSHOptions (arg # rest) =
     (if valueActions arg then stripAuxiliarySSHOptions (tl rest)
      else if length arg > 2 \<and> valueActions (take 2 arg) then stripAuxiliarySSHOptions rest
      else if arg = ''-N'' \<or> arg = ''-f'' \<or> isTTYRequestFlag arg then stripAuxiliarySSHOptions rest
      else arg # stripAuxiliarySSHOptions rest)"

fun stripForwardingConfigOptions :: "string list \<Rightarrow> string list" where
  "stripForwardingConfigOptions [] = []"
| "stripForwardingConfigOptions (arg # rest) =
     (if arg = ''-o'' \<and> rest \<noteq> [] \<and> isForwardingConfigOption (fst (Cut (hd rest) CHR ''=''))
        then stripForwardingConfigOptions (tl rest)
      else if HasPrefix arg ''-o'' \<and> length arg > 2 \<and>
              isForwardingConfigOption (fst (Cut (drop 2 arg) CHR ''=''))
        then stripForwardingConfigOptions rest
      else arg # stripForwardingConfigOptions rest)"

definition CleanSSHArgs :: "string list \<Rightarrow> string list" where
  "CleanSSHArgs args =
     stripForwardingConfigOptions (stripAuxiliarySSHOptions (stripControlSSHOptions args))"

definition ControlOperationArgs :: "string list \<Rightarrow> string \<Rightarrow> string \<Rightarrow> string \<Rightarrow> string \<Rightarrow> string list" where
  "ControlOperationArgs sshArgs controlPath operation direction forwardSpec =
     (let parsed = Parse (CleanSSHArgs sshArgs);
          options = [''-S'', controlPath, ''-O'', operation, ''-o'', ''ExitOnForwardFailure=yes'',
                     ''-'' @ direction, forwardSpec]
      in InsertBeforeTarget parsed options)"

definition NormalizeRemoteHost :: "string \<Rightarrow> string" where
  "NormalizeRemoteHost host =
     (let host' = Trim (TrimSpace host) ''[]'' in
      if ToLower host' = [] \<or> ToLower host' = ''localhost'' then ''127.0.0.1'' else host')"

text \<open>\<open>net.JoinHostPort\<close> brackets a host that contains a colon or a percent sign.\<close>

definition JoinHostPort :: "string \<Rightarrow> string \<Rightarrow> string" where
  "JoinHostPort host port =
     (if Contains host CHR '':'' \<or> Contains host CHR ''%'' then ''['' @ host @ '']:'' @ port
      else host @ '':'' @ port)"

definition LocalForwardSpec :: "string \<Rightarrow> int \<Rightarrow> string \<Rightarrow> string" where
  "LocalForwardSpec listenIP port remoteHost =
     JoinHostPort listenIP (Itoa port) @ '':'' @
     JoinHostPort (NormalizeRemoteHost remoteHost) (Itoa port)"

subsection \<open>The copies in internal/cli\<close>

definition isControlSSHOption_cli :: "string \<Rightarrow> bool" where
  "isControlSSHOption_cli value =
     (let key = fst (Cut value CHR ''='') in
      ToLower (TrimSpace key) \<in> set [''controlmaster'', ''controlpath'', ''controlpersist''])"

fun stripControlOptions :: "string list \<Rightarrow> string list" where
  "stripControlOptions [] = []"
| "stripControlOptions (arg # rest) =
     (if arg = ''-S'' then stripControlOptions (tl rest)
      else if HasPrefix arg ''-S'' \<and> length arg > 2 then stripControlOptions rest
      else if arg = ''-o'' \<and> rest \<noteq> [] then
        (if isControlSSHOption_cli (hd rest) then stripControlOptions (tl rest)
         else arg # hd rest # stripControlOptions (tl rest))
      else if HasPrefix arg ''-o'' \<and> length arg > 2 \<and> isControlSSHOption_cli (drop 2 arg)
        then stripControlOptions rest
      else arg # stripControlOptions rest)"

fun stripAuxiliaryActionOptions :: "string list \<Rightarrow> string list" where
  "stripAuxiliaryActionOptions [] = []"
| "stripAuxiliaryActionOptions (arg # rest) =
     (if valueActions arg then stripAuxiliaryActionOptions (tl rest)
      else if length arg > 2 \<and> valueActions (take 2 arg) then stripAuxiliaryActionOptions rest
      else if arg = ''-N'' \<or> arg = ''-f'' then stripAuxiliaryActionOptions rest
      else arg # stripAuxiliaryActionOptions rest)"

text \<open>The control socket a command line names; empty when it names none.\<close>

fun sshControlPath :: "string list \<Rightarrow> string" where
  "sshControlPath [] = []"
| "sshControlPath (arg # rest) =
     (if arg = ''-S'' \<and> rest \<noteq> [] then hd rest
      else if HasPrefix arg ''-S'' \<and> length arg > 2 then drop 2 arg
      else if arg = ''-o'' \<and> rest \<noteq> [] then
        (case Cut (hd rest) CHR ''='' of (key, value, ok) \<Rightarrow>
           if ok \<and> EqualFold key ''ControlPath'' then value else sshControlPath (tl rest))
      else sshControlPath rest)"

definition controlMasterArgs :: "string list \<Rightarrow> string \<Rightarrow> string list" where
  "controlMasterArgs sshArgs controlPath =
     InsertBeforeTarget (Parse (CleanSSHArgs sshArgs))
       [''-o'', ''ControlMaster=yes'', ''-o'', ''ControlPersist=no'', ''-S'', controlPath,
        ''-o'', ''ClearAllForwardings=yes'']"

definition controlMasterListenArgs :: "string list \<Rightarrow> string \<Rightarrow> string list" where
  "controlMasterListenArgs sshArgs controlPath =
     InsertBeforeTarget (Parse (controlMasterArgs sshArgs controlPath)) [''-N'']"

definition controlSlaveArgs :: "string list \<Rightarrow> string \<Rightarrow> string list" where
  "controlSlaveArgs sshArgs controlPath =
     InsertBeforeTarget (Parse (CleanSSHArgs sshArgs))
       [''-o'', ''ControlMaster=no'', ''-S'', controlPath, ''-o'', ''ClearAllForwardings=yes'']"

definition withControlSlave :: "string list \<Rightarrow> string \<Rightarrow> string list" where
  "withControlSlave args controlPath =
     (if controlPath = [] then args
      else InsertBeforeTarget (Parse args) [''-o'', ''ControlMaster=no'', ''-S'', controlPath])"

definition controlExitArgs :: "string list \<Rightarrow> string \<Rightarrow> string list" where
  "controlExitArgs sshArgs controlPath =
     InsertBeforeTarget (Parse (CleanSSHArgs sshArgs)) [''-S'', controlPath, ''-O'', ''exit'']"

subsection \<open>internal/identity: the arguments of the configuration probe\<close>

definition probeValueOptions :: "string \<Rightarrow> bool" where
  "probeValueOptions arg = (arg \<in> set
     [''-B'', ''-b'', ''-c'', ''-E'', ''-e'', ''-F'', ''-I'', ''-i'', ''-J'', ''-l'', ''-m'', ''-o'',
      ''-p'', ''-w''])"

definition probeActionOptions :: "string \<Rightarrow> bool" where
  "probeActionOptions arg = (arg \<in> set [''-D'', ''-L'', ''-O'', ''-R'', ''-S'', ''-W''])"

definition isControlOption :: "string \<Rightarrow> bool" where
  "isControlOption value =
     (let key = fst (Cut value CHR ''='') in
      ToLower (TrimSpace key) \<in> set [''controlmaster'', ''controlpath'', ''controlpersist''])"

fun ConfigProbeArgs :: "string list \<Rightarrow> string list" where
  "ConfigProbeArgs [] = []"
| "ConfigProbeArgs (arg # rest) =
     (if arg = ''--'' then take 1 rest
      else if \<not> HasPrefix arg ''-'' \<or> arg = ''-'' then [arg]
      else if probeActionOptions arg then ConfigProbeArgs (tl rest)
      else if length arg > 2 \<and> probeActionOptions (take 2 arg) then ConfigProbeArgs rest
      else if probeValueOptions arg then
        (if rest \<noteq> [] then
           (if arg \<noteq> ''-o'' \<or> \<not> isControlOption (hd rest) then [arg, hd rest] else [])
           @ ConfigProbeArgs (tl rest)
         else [])
      else if length arg > 2 \<and> probeValueOptions (take 2 arg) then
        (if take 2 arg \<noteq> ''-o'' \<or> \<not> isControlOption (drop 2 arg) then [arg] else [])
        @ ConfigProbeArgs rest
      else ConfigProbeArgs rest)"

subsection \<open>Complete options as units\<close>

text \<open>
  A command line written with complete options: an option without a value (or with an
  attached one), or an option and its value as two arguments.
\<close>

datatype ssh_unit = Flag string | Opt string string

primrec unit_args :: "ssh_unit \<Rightarrow> string list" where
  "unit_args (Flag f) = [f]"
| "unit_args (Opt c v) = [c, v]"

definition flatten :: "ssh_unit list \<Rightarrow> string list" where
  "flatten us = concat (map unit_args us)"

lemma flatten_simps [simp]:
  "flatten [] = []" "flatten (u # us) = unit_args u @ flatten us"
  "flatten (us @ vs) = flatten us @ flatten vs"
  by (simp_all add: flatten_def)

text \<open>Well-formed units: the option takes a value exactly when written with one, and no value starts like an option.\<close>

primrec wf_unit :: "ssh_unit \<Rightarrow> bool" where
  "wf_unit (Flag f) =
     (HasPrefix f ''-'' \<and> f \<noteq> ''-'' \<and> f \<noteq> ''--'' \<and> f \<noteq> ''--no-wrap'' \<and> \<not> optionsWithRequiredValue f)"
| "wf_unit (Opt c v) = (optionsWithRequiredValue c \<and> \<not> HasPrefix v ''-'')"

definition plain_dest :: "string \<Rightarrow> bool" where
  "plain_dest t \<longleftrightarrow> \<not> HasPrefix t ''-''"

lemma option_copies [simp]:
  "isControlSSHOption_cli = isControlSSHOption" "isControlOption = isControlSSHOption"
  by (simp_all add: fun_eq_iff isControlSSHOption_cli_def isControlOption_def isControlSSHOption_def)

lemma required_value_options:
  "optionsWithRequiredValue c \<Longrightarrow> HasPrefix c ''-'' \<and> length c = 2 \<and> c \<noteq> ''-'' \<and> c \<noteq> ''--'' \<and>
     c \<noteq> ''-N'' \<and> c \<noteq> ''-f'' \<and> \<not> isTTYRequestFlag c"
  by (auto simp: optionsWithRequiredValue_def isTTYRequestFlag_def)

lemma valueActions_required: "valueActions c \<Longrightarrow> optionsWithRequiredValue c"
  by (auto simp: valueActions_def optionsWithRequiredValue_def)

lemma no_dash_facts:
  assumes "\<not> HasPrefix v ''-''"
  shows "v \<noteq> ''-S''" "v \<noteq> ''-o''" "v \<noteq> ''-N''" "v \<noteq> ''-f''" "v \<noteq> ''-''" "v \<noteq> ''--''"
    "\<not> valueActions v" "\<not> valueActions (take 2 v)" "\<not> isTTYRequestFlag v"
    "\<not> HasPrefix v ''-S''" "\<not> HasPrefix v ''-o''" "v \<noteq> ''--no-wrap''"
    "\<not> optionsWithRequiredValue v" "\<not> probeActionOptions v" "\<not> probeValueOptions v"
  using assms
  by (cases v; force simp: valueActions_def isTTYRequestFlag_def take_Cons' optionsWithRequiredValue_def
        probeActionOptions_def probeValueOptions_def)+

lemma opt_block_flatten: "list_all wf_unit us \<Longrightarrow> opt_block (flatten us)"
proof (induction us)
  case (Cons u us)
  then show ?case
    by (cases u) (auto simp: opt_block_Cons_iff is_destination_def dest!: required_value_options)
qed simp

lemma flatten_no_nowrap: "list_all wf_unit us \<Longrightarrow> ''--no-wrap'' \<notin> set (flatten us)"
proof (induction us)
  case (Cons u us)
  then show ?case by (cases u) (auto dest: required_value_options no_dash_facts(12))
qed simp

lemma list_all_filter: "list_all p xs \<Longrightarrow> list_all p (filter q xs)"
  by (induction xs) auto

lemma Parse_units:
  assumes "list_all wf_unit us" and "plain_dest t"
  shows "pTarget (Parse (flatten us @ [t])) = t \<and> pRemoteCommand (Parse (flatten us @ [t])) = [] \<and>
         pTargetIndex (Parse (flatten us @ [t])) = int (length (flatten us))"
proof -
  have "t \<noteq> ''--no-wrap''" using assms(2) by (simp add: plain_dest_def no_dash_facts)
  then have "''--no-wrap'' \<notin> set (flatten us @ [t])" using flatten_no_nowrap [OF assms(1)] by simp
  then show ?thesis
    using Parse_block_dest [OF opt_block_flatten [OF assms(1)], of t "[]"] assms(2)
    by (simp add: is_destination_def plain_dest_def)
qed

lemma Insert_units:
  assumes "list_all wf_unit us" and "plain_dest t"
  shows "InsertBeforeTarget (Parse (flatten us @ [t])) options = flatten us @ options @ [t]"
proof -
  have nw: "''--no-wrap'' \<notin> set (flatten us @ [t])"
    using assms flatten_no_nowrap by (auto simp: plain_dest_def dest: no_dash_facts(12))
  then have a: "pArgs (Parse (flatten us @ [t])) = flatten us @ [t]"
    by (simp add: filter_id_conv) auto
  have nd: "''--'' \<notin> set (flatten us)"
    using assms(1)
  proof (induction us)
    case (Cons u us)
    then show ?case by (cases u) (auto dest: required_value_options no_dash_facts(6))
  qed simp
  have "\<not> (0 < length (flatten us) \<and> (flatten us @ [t]) ! (length (flatten us) - 1) = ''--'')"
    using no_dashdash_before [OF nd, of "[t]"] by blast
  moreover have "pTargetIndex (Parse (flatten us @ [t])) = int (length (flatten us))"
    using Parse_units [OF assms] by blast
  ultimately show ?thesis
    unfolding InsertBeforeTarget_def Let_def a by auto
qed

subsection \<open>The interface of the filters\<close>

locale unit_filter =
  fixes f :: "string list \<Rightarrow> string list" and keep :: "ssh_unit \<Rightarrow> bool"
  assumes unit_law: "wf_unit u \<Longrightarrow> f (unit_args u @ rest) = (if keep u then unit_args u else []) @ f rest"
    and dest_law: "plain_dest t \<Longrightarrow> f [t] = [t]"
begin

lemma units: "list_all wf_unit us \<Longrightarrow> f (flatten us @ rest) = flatten (filter keep us) @ f rest"
proof (induction us)
  case (Cons u us)
  then show ?case by (simp add: unit_law)
qed simp

lemma command: "list_all wf_unit us \<Longrightarrow> plain_dest t \<Longrightarrow> f (flatten us @ [t]) = flatten (filter keep us) @ [t]"
  by (simp add: units dest_law)

lemma idempotent:
  "list_all wf_unit us \<Longrightarrow> plain_dest t \<Longrightarrow> f (f (flatten us @ [t])) = f (flatten us @ [t])"
  by (simp add: command list_all_filter)

lemma destination_kept:
  "list_all wf_unit us \<Longrightarrow> plain_dest t \<Longrightarrow> pTarget (Parse (f (flatten us @ [t]))) = t"
  by (simp add: command list_all_filter Parse_units)

end

locale two_filters = one: unit_filter f1 keep1 + two: unit_filter f2 keep2
  for f1 keep1 f2 keep2

sublocale two_filters \<subseteq> comp: unit_filter "\<lambda>args. f2 (f1 args)" "\<lambda>u. keep1 u \<and> keep2 u"
  by unfold_locales (simp_all add: one.unit_law two.unit_law one.dest_law two.dest_law)

subsection \<open>What each filter keeps\<close>

primrec keep_control :: "ssh_unit \<Rightarrow> bool" where
  "keep_control (Flag f) \<longleftrightarrow> \<not> (HasPrefix f ''-S'' \<and> length f > 2) \<and>
     \<not> (HasPrefix f ''-o'' \<and> length f > 2 \<and> isControlSSHOption (drop 2 f))"
| "keep_control (Opt c v) \<longleftrightarrow> c \<noteq> ''-S'' \<and> \<not> (c = ''-o'' \<and> isControlSSHOption v)"

primrec keep_auxiliary :: "ssh_unit \<Rightarrow> bool" where
  "keep_auxiliary (Flag f) \<longleftrightarrow> \<not> (length f > 2 \<and> valueActions (take 2 f)) \<and>
     f \<noteq> ''-N'' \<and> f \<noteq> ''-f'' \<and> \<not> isTTYRequestFlag f"
| "keep_auxiliary (Opt c v) \<longleftrightarrow> \<not> valueActions c"

primrec keep_forwarding :: "ssh_unit \<Rightarrow> bool" where
  "keep_forwarding (Flag f) \<longleftrightarrow> \<not> (HasPrefix f ''-o'' \<and> length f > 2 \<and>
     isForwardingConfigOption (fst (Cut (drop 2 f) CHR ''='')))"
| "keep_forwarding (Opt c v) \<longleftrightarrow> \<not> (c = ''-o'' \<and> isForwardingConfigOption (fst (Cut v CHR ''='')))"

definition keep_clean :: "ssh_unit \<Rightarrow> bool" where
  "keep_clean u \<longleftrightarrow> (keep_control u \<and> keep_auxiliary u) \<and> keep_forwarding u"

lemma wf_Opt_facts:
  assumes "wf_unit (Opt c v)"
  shows "HasPrefix c ''-''" "c \<noteq> ''-''" "c \<noteq> ''--''" "c \<noteq> ''-N''" "c \<noteq> ''-f''" "\<not> isTTYRequestFlag c"
    "length c = 2" "\<not> HasPrefix v ''-''" "optionsWithRequiredValue c"
  using assms required_value_options [of c] by auto

lemma wf_Flag_facts:
  assumes "wf_unit (Flag f)"
  shows "f \<noteq> ''-S''" "f \<noteq> ''-o''" "\<not> valueActions f" "f \<noteq> ''--''" "f \<noteq> ''-''" "HasPrefix f ''-''"
    "\<not> optionsWithRequiredValue f"
  using assms by (auto simp: valueActions_def optionsWithRequiredValue_def)

interpretation control: unit_filter stripControlSSHOptions keep_control
proof
  fix u rest
  assume wf: "wf_unit u"
  show "stripControlSSHOptions (unit_args u @ rest) =
      (if keep_control u then unit_args u else []) @ stripControlSSHOptions rest"
  proof (cases u)
    case (Flag f)
    with wf have "wf_unit (Flag f)" by simp
    from wf_Flag_facts [OF this] show ?thesis by (simp add: Flag)
  next
    case (Opt c v)
    with wf have "wf_unit (Opt c v)" by simp
    from wf_Opt_facts [OF this] show ?thesis by (simp add: Opt no_dash_facts)
  qed
qed (simp add: plain_dest_def no_dash_facts)

interpretation auxiliary: unit_filter stripAuxiliarySSHOptions keep_auxiliary
proof
  fix u rest
  assume wf: "wf_unit u"
  show "stripAuxiliarySSHOptions (unit_args u @ rest) =
      (if keep_auxiliary u then unit_args u else []) @ stripAuxiliarySSHOptions rest"
  proof (cases u)
    case (Flag f)
    with wf have "wf_unit (Flag f)" by simp
    from wf_Flag_facts [OF this] show ?thesis by (simp add: Flag)
  next
    case (Opt c v)
    with wf have "wf_unit (Opt c v)" by simp
    from wf_Opt_facts [OF this] show ?thesis by (simp add: Opt no_dash_facts)
  qed
qed (simp add: plain_dest_def no_dash_facts)

interpretation forwarding: unit_filter stripForwardingConfigOptions keep_forwarding
proof
  fix u rest
  assume wf: "wf_unit u"
  show "stripForwardingConfigOptions (unit_args u @ rest) =
      (if keep_forwarding u then unit_args u else []) @ stripForwardingConfigOptions rest"
  proof (cases u)
    case (Flag f)
    with wf have "wf_unit (Flag f)" by simp
    from wf_Flag_facts [OF this] show ?thesis by (simp add: Flag)
  next
    case (Opt c v)
    with wf have "wf_unit (Opt c v)" by simp
    from wf_Opt_facts [OF this] show ?thesis by (simp add: Opt no_dash_facts)
  qed
qed (simp add: plain_dest_def no_dash_facts)

interpretation control_auxiliary: two_filters
    stripControlSSHOptions keep_control stripAuxiliarySSHOptions keep_auxiliary
  by unfold_locales

interpretation clean: two_filters
    "\<lambda>args. stripAuxiliarySSHOptions (stripControlSSHOptions args)" "\<lambda>u. keep_control u \<and> keep_auxiliary u"
    stripForwardingConfigOptions keep_forwarding
  by unfold_locales

lemma CleanSSHArgs_command:
  "list_all wf_unit us \<Longrightarrow> plain_dest t \<Longrightarrow> CleanSSHArgs (flatten us @ [t]) = flatten (filter keep_clean us) @ [t]"
  using clean.comp.command [of us t] by (simp add: CleanSSHArgs_def keep_clean_def [abs_def])

subsection \<open>Properties of the filters\<close>

text \<open>\<open>CleanSSHArgs\<close> on a command line of complete options removes exactly the control-socket,
  forwarding, \<open>-N\<close>, \<open>-f\<close> and tty-request options, keeps every other option with its value and
  in its order, and keeps the destination, so that parsing the cleaned line finds it again.\<close>
theorem CleanSSHArgs_spec:
  assumes "list_all wf_unit us" and "plain_dest t"
  shows "CleanSSHArgs (flatten us @ [t]) = flatten (filter keep_clean us) @ [t] \<and>
         pTarget (Parse (CleanSSHArgs (flatten us @ [t]))) = t \<and>
         CleanSSHArgs (CleanSSHArgs (flatten us @ [t])) = CleanSSHArgs (flatten us @ [t])"
  using assms by (simp add: CleanSSHArgs_command Parse_units list_all_filter)

theorem CleanSSHArgs_spec_witness:
  "CleanSSHArgs [''-S'', ''/old'', ''-p'', ''22'', ''-N'', ''-L'', ''8080:x:80'', ''host''] = [''-p'', ''22'', ''host'']"
proof -
  let ?us = "[Opt ''-S'' ''/old'', Opt ''-p'' ''22'', Flag ''-N'', Opt ''-L'' ''8080:x:80'']"
  have h: "list_all wf_unit ?us" "plain_dest ''host''" by code_simp+
  have "filter keep_clean ?us = [Opt ''-p'' ''22'']" by code_simp
  then show ?thesis using CleanSSHArgs_spec [OF h] by simp
qed

text \<open>The control socket found after the control options are stripped, on any command line.\<close>

lemma Cut_key: "Cut s c = (key, value, ok) \<Longrightarrow> key = fst (Cut s c)"
  by simp

lemma controlpath_is_control:
  assumes "EqualFold (fst (Cut v CHR ''='')) ''ControlPath''"
  shows "isControlSSHOption v"
proof -
  let ?k = "fst (Cut v CHR ''='')"
  have "ToLower ''ControlPath'' = ''controlpath''" by code_simp
  then have low: "ToLower ?k = ''controlpath''" using assms by (simp add: EqualFold_def)
  have "\<not> is_space c" if "c \<in> set ?k" for c
  proof -
    have "lower_char c \<in> set ''controlpath''"
      using that low by (metis ToLower_def image_eqI set_map)
    then show ?thesis by (auto simp: is_space_def lower_char_def split: if_splits)
  qed
  then have "TrimSpace ?k = ?k" by (rule TrimSpace_id)
  then show ?thesis using low by (simp add: isControlSSHOption_def Let_def)
qed

lemma sshControlPath_Cons_plain:
  assumes "arg \<noteq> ''-S''" and "\<not> (HasPrefix arg ''-S'' \<and> length arg > 2)" and "arg \<noteq> ''-o'' \<or> rest = []"
  shows "sshControlPath (arg # rest) = sshControlPath rest"
  using assms by auto

lemma sshControlPath_option:
  assumes "\<not> isControlSSHOption v"
  shows "sshControlPath (''-o'' # v # rest) = sshControlPath rest"
  using assms controlpath_is_control [of v] by (auto split: prod.splits)

text \<open>No control socket survives \<open>stripControlSSHOptions\<close>, whatever the command line:
  \<open>sshControlPath\<close> finds none in the result.\<close>
theorem stripControl_no_socket: "sshControlPath (stripControlSSHOptions args) = []"
proof (induction args rule: stripControlSSHOptions.induct)
  case (2 arg rest)
  consider (S) "arg = ''-S''" | (attached) "HasPrefix arg ''-S''" "length arg > 2" "arg \<noteq> ''-S''"
    | (opt) "arg = ''-o''" "rest \<noteq> []"
    | (other) "arg \<noteq> ''-S''" "\<not> (HasPrefix arg ''-S'' \<and> length arg > 2)" "arg \<noteq> ''-o'' \<or> rest = []"
    by blast
  then show ?case
  proof cases
    case S
    then show ?thesis using 2 by simp
  next
    case attached
    then show ?thesis using 2 by simp
  next
    case opt
    then have IH: "sshControlPath (stripControlSSHOptions (tl rest)) = []" using 2 by auto
    show ?thesis
    proof (cases "isControlSSHOption (hd rest)")
      case False
      then have "stripControlSSHOptions (arg # rest) = ''-o'' # hd rest # stripControlSSHOptions (tl rest)"
        using opt by simp
      then show ?thesis using IH sshControlPath_option [OF False] by metis
    qed (use opt IH in simp)
  next
    case other
    have cases: "stripControlSSHOptions (arg # rest) = stripControlSSHOptions rest \<or>
        stripControlSSHOptions (arg # rest) = arg # stripControlSSHOptions rest"
      using other by auto
    have IH: "sshControlPath (stripControlSSHOptions rest) = []" using 2 other by auto
    have "sshControlPath (arg # stripControlSSHOptions rest) = []"
      using sshControlPath_Cons_plain [of arg "stripControlSSHOptions rest"] other IH by auto
    with cases IH show ?thesis by metis
  qed
qed simp

text \<open>The two command packages agree: the control filter of \<open>internal/cli\<close> is that of
  \<open>internal/forward\<close>, and the auxiliary filter of \<open>internal/forward\<close> is that of
  \<open>internal/cli\<close> with the tty-request flags removed as well.\<close>
theorem filters_agree:
  "stripControlOptions args = stripControlSSHOptions args \<and>
   stripAuxiliarySSHOptions args = filter (\<lambda>arg. \<not> isTTYRequestFlag arg) (stripAuxiliaryActionOptions args)"
proof
  show "stripControlOptions args = stripControlSSHOptions args"
    by (induction args rule: stripControlSSHOptions.induct) simp_all
  show "stripAuxiliarySSHOptions args = filter (\<lambda>arg. \<not> isTTYRequestFlag arg) (stripAuxiliaryActionOptions args)"
  proof (induction args rule: stripAuxiliarySSHOptions.induct)
    case (2 arg rest)
    then show ?case
      by (cases "valueActions arg"; cases "length arg > 2 \<and> valueActions (take 2 arg)"; auto)
  qed simp
qed

subsection \<open>Properties of the constructed command lines\<close>

lemma keep_control_no_socket:
  "list_all wf_unit us \<Longrightarrow> list_all keep_control us \<Longrightarrow> sshControlPath (flatten us @ xs) = sshControlPath xs"
proof (induction us)
  case (Cons u us)
  then have IH: "sshControlPath (flatten us @ xs) = sshControlPath xs" by simp
  show ?case
  proof (cases u)
    case (Flag f)
    with Cons.prems have "wf_unit (Flag f)" "keep_control (Flag f)" by auto
    then have "sshControlPath (f # flatten us @ xs) = sshControlPath (flatten us @ xs)"
      using wf_Flag_facts(1,2) [of f] by (intro sshControlPath_Cons_plain) auto
    then show ?thesis using IH by (simp add: Flag del: sshControlPath.simps)
  next
    case (Opt c v)
    with Cons.prems have w: "wf_unit (Opt c v)" and k: "keep_control (Opt c v)" by auto
    note facts = wf_Opt_facts [OF w]
    have v: "sshControlPath (v # flatten us @ xs) = sshControlPath (flatten us @ xs)"
      by (rule sshControlPath_Cons_plain) (simp_all add: no_dash_facts facts)
    show ?thesis
    proof (cases "c = ''-o''")
      case True
      then show ?thesis using k IH sshControlPath_option [of v "flatten us @ xs"]
        by (simp add: Opt del: sshControlPath.simps)
    next
      case False
      have "sshControlPath (c # v # flatten us @ xs) = sshControlPath (v # flatten us @ xs)"
        by (rule sshControlPath_Cons_plain) (use False k facts in auto)
      then show ?thesis using v IH by (simp add: Opt del: sshControlPath.simps)
    qed
  qed
qed simp

lemma ControlOperationArgs_units:
  assumes "list_all wf_unit us" and "plain_dest t"
  shows "ControlOperationArgs (flatten us @ [t]) controlPath operation direction spec =
     flatten (filter keep_clean us) @
       [''-S'', controlPath, ''-O'', operation, ''-o'', ''ExitOnForwardFailure=yes'', ''-'' @ direction, spec] @ [t]"
  using assms
  by (simp add: ControlOperationArgs_def CleanSSHArgs_command Insert_units list_all_filter del: append.simps)

text \<open>A control operation addresses one control socket and one forward: the arguments are the
  cleaned options, then the control block, then the destination; the socket they name is
  the one given, whatever control options the user's command line had, and every option of
  the user's line that is kept is neither a control-socket nor a forwarding option.\<close>
theorem ControlOperationArgs_socket:
  assumes "list_all wf_unit us" and "plain_dest t"
  shows "sshControlPath (ControlOperationArgs (flatten us @ [t]) controlPath operation direction spec) = controlPath \<and>
     ControlOperationArgs (flatten us @ [t]) controlPath operation direction spec =
       flatten (filter keep_clean us) @
       [''-S'', controlPath, ''-O'', operation, ''-o'', ''ExitOnForwardFailure=yes'', ''-'' @ direction, spec, t]"
proof -
  have k: "list_all keep_control (filter keep_clean us)"
    by (auto simp: list_all_iff keep_clean_def)
  have "sshControlPath (flatten (filter keep_clean us) @ ''-S'' # controlPath # xs) = controlPath" for xs
    using keep_control_no_socket [OF list_all_filter [OF assms(1)] k] by simp
  then show ?thesis unfolding ControlOperationArgs_units [OF assms] by simp
qed

theorem ControlOperationArgs_socket_witness:
  "sshControlPath (ControlOperationArgs [''-oControlPath=/a'', ''-p'', ''22'', ''host''] ''/m'' ''forward'' ''L'' ''spec'') = ''/m''"
proof -
  let ?us = "[Flag ''-oControlPath=/a'', Opt ''-p'' ''22'']"
  have h: "list_all wf_unit ?us" "plain_dest ''host''" by code_simp+
  show ?thesis using ControlOperationArgs_socket [OF h, of "''/m''" "''forward''" "''L''" "''spec''"] by simp
qed

subsection \<open>The configuration probe\<close>

lemma probe_options_required:
  "a \<noteq> ''-Q'' \<Longrightarrow> optionsWithRequiredValue a \<longleftrightarrow> probeActionOptions a \<or> probeValueOptions a"
  by (auto simp: optionsWithRequiredValue_def probeActionOptions_def probeValueOptions_def)

lemma ConfigProbe_flag:
  assumes "a \<noteq> ''--''" and "\<not> is_destination a" and "\<not> optionsWithRequiredValue a"
  shows "\<exists>ys. ConfigProbeArgs (a # rest) = ys @ ConfigProbeArgs rest"
proof -
  have "a \<noteq> ''-Q''" using assms(3) by (auto simp: optionsWithRequiredValue_def)
  with assms(3) have "\<not> probeActionOptions a" "\<not> probeValueOptions a"
    by (simp_all add: probe_options_required)
  then show ?thesis using assms by (simp add: is_destination_def)
qed

lemma ConfigProbe_value:
  assumes "a \<noteq> ''--''" and "\<not> is_destination a" and "optionsWithRequiredValue a" and "a \<noteq> ''-Q''"
  shows "\<exists>ys. ConfigProbeArgs (a # v # rest) = ys @ ConfigProbeArgs rest"
proof (cases "probeActionOptions a")
  case True
  then show ?thesis using assms by (simp add: is_destination_def)
next
  case False
  then have "probeValueOptions a" using assms by (simp add: probe_options_required)
  moreover have "length a = 2" using assms(3) by (auto dest: required_value_options)
  ultimately show ?thesis using assms False by (simp add: is_destination_def)
qed

lemma ConfigProbe_block:
  "opt_block blk \<Longrightarrow> ''-Q'' \<notin> set blk \<Longrightarrow> \<exists>ys. ConfigProbeArgs (blk @ xs) = ys @ ConfigProbeArgs xs"
proof (induction blk rule: scan_list_induct)
  case (Val a v rest)
  then have "opt_block rest" "''-Q'' \<notin> set rest" "a \<noteq> ''-Q''" by (auto simp: opt_block_Cons_iff)
  then obtain ys zs where "ConfigProbeArgs (rest @ xs) = ys @ ConfigProbeArgs xs"
    "ConfigProbeArgs (a # v # rest @ xs) = zs @ ConfigProbeArgs (rest @ xs)"
    using Val ConfigProbe_value [of a v "rest @ xs"] by blast
  then show ?case by (metis append_Cons append_assoc)
next
  case (Flag a rest)
  then have "opt_block rest" "''-Q'' \<notin> set rest" and nv: "\<not> optionsWithRequiredValue a"
    by (auto simp: opt_block_Cons_iff takes_value_def split: if_splits)
  then obtain ys zs where "ConfigProbeArgs (rest @ xs) = ys @ ConfigProbeArgs xs"
    "ConfigProbeArgs (a # rest @ xs) = zs @ ConfigProbeArgs (rest @ xs)"
    using Flag ConfigProbe_flag [of a "rest @ xs"] by blast
  then show ?case by (metis append_Cons append_assoc)
qed (auto simp: opt_block_Cons_iff)

text \<open>The configuration probe asks OpenSSH about the destination the wrapper parsed: on a
  command line without \<open>--no-wrap\<close> and the query option \<open>-Q\<close>, whenever \<open>Parse\<close> finds a
  destination, \<open>ConfigProbeArgs\<close> is not empty and ends with that destination.\<close>
theorem ConfigProbe_destination:
  assumes "''--no-wrap'' \<notin> set args" and "''-Q'' \<notin> set args" and "0 \<le> pTargetIndex (Parse args)"
  shows "ConfigProbeArgs args \<noteq> [] \<and> last (ConfigProbeArgs args) = pTarget (Parse args)"
proof -
  have "filter (\<lambda>arg. arg \<noteq> ''--no-wrap'') args = args"
    using assms(1) by (intro filter_True) auto
  then have a: "pArgs (Parse args) = args" by simp
  from Parse_found [OF assms(3)] obtain blk where blk: "opt_block blk" and
    c: "args = blk @ pTarget (Parse args) # pRemoteCommand (Parse args) \<and> is_destination (pTarget (Parse args)) \<or>
        args = blk @ ''--'' # pTarget (Parse args) # pRemoteCommand (Parse args)"
    unfolding splits_at_def a by blast
  have "''-Q'' \<notin> set blk" using c assms(2) by (metis Un_iff set_append)
  note block = ConfigProbe_block [OF blk this]
  from c show ?thesis
  proof (elim disjE conjE)
    assume args: "args = blk @ pTarget (Parse args) # pRemoteCommand (Parse args)"
      and d: "is_destination (pTarget (Parse args))"
    have "pTarget (Parse args) \<noteq> ''--'' \<or> ConfigProbeArgs (pTarget (Parse args) # pRemoteCommand (Parse args)) = [pTarget (Parse args)]"
      using d by (auto simp: is_destination_def)
    then have "ConfigProbeArgs (pTarget (Parse args) # pRemoteCommand (Parse args)) = [pTarget (Parse args)]"
      using d by (auto simp: is_destination_def)
    then show ?thesis using block [of "pTarget (Parse args) # pRemoteCommand (Parse args)"] args by auto
  next
    assume args: "args = blk @ ''--'' # pTarget (Parse args) # pRemoteCommand (Parse args)"
    show ?thesis
      using block [of "''--'' # pTarget (Parse args) # pRemoteCommand (Parse args)"] args by auto
  qed
qed

theorem ConfigProbe_destination_witness:
  "last (ConfigProbeArgs [''-D'', ''1080'', ''-p'', ''22'', ''--'', ''host'', ''ls'']) = ''host''"
proof -
  have h: "''--no-wrap'' \<notin> set [''-D'', ''1080'', ''-p'', ''22'', ''--'', ''host'', ''ls'']"
    "''-Q'' \<notin> set [''-D'', ''1080'', ''-p'', ''22'', ''--'', ''host'', ''ls'']"
    "0 \<le> pTargetIndex (Parse [''-D'', ''1080'', ''-p'', ''22'', ''--'', ''host'', ''ls''])"
    by code_simp+
  have "pTarget (Parse [''-D'', ''1080'', ''-p'', ''22'', ''--'', ''host'', ''ls'']) = ''host''"
    by code_simp
  then show ?thesis using ConfigProbe_destination [OF h] by simp
qed

end
