(* ===== verification/GoNet.thy ===== *)
theory GoNet
  imports GoStrings
begin

text \<open>
  The functions of Go's \<open>net\<close> package the program uses on addresses. A \<open>net.IP\<close> is a byte
  slice of 4 or 16 bytes; the nil slice is the empty list. Big-endian integers are those of
  \<open>encoding/binary\<close>.
\<close>

type_synonym byte = "8 word"
type_synonym ip = "byte list"

definition To4 :: "ip \<Rightarrow> ip option" where
  "To4 ip =
     (if length ip = 4 then Some ip
      else if length ip = 16 \<and> take 10 ip = replicate 10 0 \<and> ip ! 10 = 0xff \<and> ip ! 11 = 0xff
        then Some (drop 12 ip)
      else None)"

definition IsLoopback :: "ip \<Rightarrow> bool" where
  "IsLoopback ip =
     (case To4 ip of Some ip4 \<Rightarrow> ip4 ! 0 = 127 | None \<Rightarrow> ip = replicate 15 0 @ [1])"

definition IsUnspecified :: "ip \<Rightarrow> bool" where
  "IsUnspecified ip = (To4 ip = Some [0, 0, 0, 0] \<or> ip = replicate 16 0)"

definition be16 :: "16 word \<Rightarrow> byte list" where
  "be16 w = [ucast (drop_bit 8 w), ucast w]"

definition be32 :: "32 word \<Rightarrow> byte list" where
  "be32 w = [ucast (drop_bit 24 w), ucast (drop_bit 16 w), ucast (drop_bit 8 w), ucast w]"

definition get16 :: "byte list \<Rightarrow> 16 word" where
  "get16 bs = push_bit 8 (ucast (bs ! 0)) + ucast (bs ! 1)"

definition get32 :: "byte list \<Rightarrow> 32 word" where
  "get32 bs = push_bit 24 (ucast (bs ! 0)) + push_bit 16 (ucast (bs ! 1)) + push_bit 8 (ucast (bs ! 2)) + ucast (bs ! 3)"

text \<open>\<open>string(b)\<close> and \<open>[]byte(s)\<close>.\<close>

definition string_of_bytes :: "byte list \<Rightarrow> string" where
  "string_of_bytes bs = map (\<lambda>b. char_of (unat b)) bs"

definition bytes_of_string :: "string \<Rightarrow> byte list" where
  "bytes_of_string s = map (\<lambda>c. of_nat (of_char c)) s"

text \<open>
  \<open>net.ParseIP\<close> on dotted decimals: four fields of one to three digits, no leading zero, at
  most 255; the result has 16 bytes, the IPv4-mapped form. Any other input reads as nil.
\<close>

definition parse_octet :: "string \<Rightarrow> byte option" where
  "parse_octet s =
     (if s \<noteq> [] \<and> list_all is_digit s \<and> length s \<le> 3 \<and> (length s > 1 \<longrightarrow> hd s \<noteq> CHR ''0'') \<and> digits_value s \<le> 255
      then Some (of_nat (digits_value s)) else None)"

definition ParseIPv4 :: "string \<Rightarrow> ip" where
  "ParseIPv4 s =
     (case map parse_octet (Split s CHR ''.'') of
        [Some a, Some b, Some c, Some d] \<Rightarrow> replicate 10 0 @ [0xff, 0xff, a, b, c, d]
      | _ \<Rightarrow> [])"

lemma length_be [simp]: "length (be16 w) = 2" "length (be32 v) = 4"
  by (simp_all add: be16_def be32_def)

lemma length_To4: "To4 ip = Some ip4 \<Longrightarrow> length ip4 = 4"
  by (auto simp: To4_def split: if_splits)

lemma To4_4 [simp]: "length ip = 4 \<Longrightarrow> To4 ip = Some ip"
  by (simp add: To4_def)

lemma get16_be16 [simp]: "get16 (be16 w @ rest) = w"
proof -
  have d: "push_bit 8 (ucast (ucast (drop_bit 8 w) :: byte)) + ucast (ucast w :: byte) =
      Bit_Operations.or (push_bit 8 (ucast (ucast (drop_bit 8 w) :: byte))) (ucast (ucast w :: byte) :: 16 word)"
    by (rule disjunctive_add) (auto simp: bit_simps)
  have "push_bit 8 (ucast (ucast (drop_bit 8 w) :: byte)) + ucast (ucast w :: byte) = w"
    unfolding d by (rule bit_word_eqI) (auto simp: bit_simps)
  then show ?thesis by (simp add: get16_def be16_def)
qed

lemma length_string_of_bytes [simp]: "length (string_of_bytes bs) = length bs"
  by (simp add: string_of_bytes_def)

lemma length_bytes_of_string [simp]: "length (bytes_of_string s) = length s"
  by (simp add: bytes_of_string_def)

lemma string_of_bytes_append [simp]: "string_of_bytes (xs @ ys) = string_of_bytes xs @ string_of_bytes ys"
  by (simp add: string_of_bytes_def)

lemma of_char_less_256: "(of_char c :: nat) < 256"
  by (metis nat_of_char_less_256)

lemma char_of_byte [simp]: "char_of (unat (of_nat (of_char c) :: byte)) = c"
proof -
  have "unat (of_nat (of_char c) :: byte) = of_char c"
    using of_char_less_256 [of c] by (simp add: unat_of_nat take_bit_nat_eq_self)
  then show ?thesis by simp
qed

lemma string_of_bytes_of_string [simp]: "string_of_bytes (bytes_of_string s) = s"
  by (induction s) (simp_all add: string_of_bytes_def bytes_of_string_def)

subsection \<open>Dotted decimals\<close>

lemma hd_nat_digits: "0 < n \<Longrightarrow> hd (nat_digits n) \<noteq> CHR ''0''"
proof (induction n rule: nat_digits.induct)
  case (1 n)
  have d: "digit_char n \<noteq> CHR ''0''" if "n < 10"
  proof
    assume "digit_char n = CHR ''0''"
    then have "digit_val (digit_char n) = 0" by (simp add: digit_val_def)
    with that "1.prems" show False by simp
  qed
  show ?case
  proof (cases "n < 10")
    case True
    then show ?thesis using d by (simp add: nat_digits.simps [of n])
  next
    case False
    then have "hd (nat_digits (n div 10)) \<noteq> CHR ''0''" using "1.IH" by simp
    then show ?thesis using False by (simp add: nat_digits.simps [of n])
  qed
qed

lemma length_nat_digits: "n < 1000 \<Longrightarrow> length (nat_digits n) \<le> 3"
  by (simp add: nat_digits.simps [of n] nat_digits.simps [of "n div 10"] nat_digits.simps [of "n div 10 div 10"])

lemma parse_octet_nat_digits: "n \<le> 255 \<Longrightarrow> parse_octet (nat_digits n) = Some (of_nat n)"
proof -
  assume n: "n \<le> 255"
  have "hd (nat_digits n) \<noteq> CHR ''0''" if "1 < length (nat_digits n)"
  proof (rule hd_nat_digits)
    show "0 < n" using that by (cases "n = 0") (simp_all add: nat_digits.simps [of 0])
  qed
  then show ?thesis
    using n length_nat_digits [of n] nat_digits_all_digits
    by (auto simp: parse_octet_def list_all_iff)
qed

lemma nat_digits_no_dot: "CHR ''.'' \<notin> set (nat_digits n)"
  using nat_digits_all_digits [of "CHR ''.''" n] by (auto simp: is_digit_def)

text \<open>Parsing inverts the dotted rendering.\<close>

lemma ParseIPv4_dotted:
  assumes "a \<le> 255" "b \<le> 255" "c \<le> 255" "d \<le> 255"
  shows "To4 (ParseIPv4 (nat_digits a @ ''.'' @ nat_digits b @ ''.'' @ nat_digits c @ ''.'' @ nat_digits d)) =
    Some [of_nat a, of_nat b, of_nat c, of_nat d]"
  using assms
  by (simp add: ParseIPv4_def Split_sep_append Split_no_sep nat_digits_no_dot parse_octet_nat_digits To4_def nth_append)

end
