(* ===== verification/Protocol.thy ===== *)
theory Protocol
  imports GoNet
begin

text \<open>
  \<open>internal/protocol\<close> (the control frames exchanged between client, server and requester and
  the version check on them) and \<open>internal/mux\<close> (the two channels of a multiplexed
  connection). The JSON codec and the smux streams are library code: a stream of frames is a
  list of \<open>Frame\<close>s, and the streams of a session come from a parameter.
\<close>

subsection \<open>internal/protocol/protocol.go\<close>

abbreviation TypeHello :: string where "TypeHello \<equiv> ''hello''"
abbreviation TypeCapabilities :: string where "TypeCapabilities \<equiv> ''capabilities''"
abbreviation TypeCommandExec :: string where "TypeCommandExec \<equiv> ''command.exec''"
abbreviation TypeCommandResult :: string where "TypeCommandResult \<equiv> ''command.result''"
abbreviation TypeCommandError :: string where "TypeCommandError \<equiv> ''command.error''"
abbreviation TypePortObserved :: string where "TypePortObserved \<equiv> ''port.observed''"
abbreviation TypePortGone :: string where "TypePortGone \<equiv> ''port.gone''"
abbreviation TypeError :: string where "TypeError \<equiv> ''error''"
abbreviation TypeHeartbeat :: string where "TypeHeartbeat \<equiv> ''heartbeat''"
abbreviation TypeHeartbeatAck :: string where "TypeHeartbeatAck \<equiv> ''heartbeat.ack''"
abbreviation TypeServerDrain :: string where "TypeServerDrain \<equiv> ''server.drain''"
abbreviation RoleClient :: string where "RoleClient \<equiv> ''client''"
abbreviation RoleRequester :: string where "RoleRequester \<equiv> ''requester''"

definition Version :: int where "Version = 1"
definition MinVersion :: int where "MinVersion = 1"
definition MaxVersion :: int where "MaxVersion = 1"

record Frame =
  fType :: string
  fID :: string
  fProtocolVersion :: int
  fProtocolMin :: int
  fProtocolMax :: int
  fRuntimeID :: string
  fAppVersion :: string
  fTargetID :: string
  fContextID :: string
  fSessionID :: string
  fRequestID :: string
  fSequence :: "64 word"
  fRole :: string
  fToken :: string
  fCapabilities :: "string list"
  fArgv :: "string list"
  fEnv :: "string \<rightharpoonup> string"
  fCwd :: string
  fRemoteFS :: bool
  fMountID :: string
  fMountPath :: string
  fMountReadOnly :: bool
  fStdin :: string
  fTimeoutMillis :: "64 word"
  fExitCode :: int
  fStdout :: string
  fStderr :: string
  fError :: string
  fPort :: int
  fHost :: string

text \<open>The zero value of the struct, the base of the composite literals of the code.\<close>

definition Frame0 :: Frame where
  "Frame0 = \<lparr>fType = [], fID = [], fProtocolVersion = 0, fProtocolMin = 0, fProtocolMax = 0,
     fRuntimeID = [], fAppVersion = [], fTargetID = [], fContextID = [], fSessionID = [],
     fRequestID = [], fSequence = 0, fRole = [], fToken = [], fCapabilities = [], fArgv = [],
     fEnv = (\<lambda>_. None), fCwd = [], fRemoteFS = False, fMountID = [], fMountPath = [],
     fMountReadOnly = False, fStdin = [], fTimeoutMillis = 0, fExitCode = 0, fStdout = [],
     fStderr = [], fError = [], fPort = 0, fHost = []\<rparr>"

definition FrameCompatible :: "Frame \<Rightarrow> bool" where
  "FrameCompatible frame =
     (if fProtocolMin frame = 0 \<and> fProtocolMax frame = 0 \<and> fProtocolVersion frame = 0 then False
      else
        let minVersion = fProtocolMin frame;
            maxVersion = fProtocolMax frame;
            minVersion = (if minVersion = 0 then fProtocolVersion frame else minVersion);
            maxVersion = (if maxVersion = 0 then fProtocolVersion frame else maxVersion);
            minVersion = (if minVersion = 0 then Version else minVersion);
            maxVersion = (if maxVersion = 0 then Version else maxVersion)
        in minVersion \<le> MaxVersion \<and> maxVersion \<ge> MinVersion)"

text \<open>The version interval a frame announces: explicit bounds first, then the single version,
  then the version of this build.\<close>

definition announced :: "Frame \<Rightarrow> int \<Rightarrow> int" where
  "announced f bound =
     (if bound \<noteq> 0 then bound else if fProtocolVersion f \<noteq> 0 then fProtocolVersion f else 1)"

lemma FrameCompatible_iff:
  "FrameCompatible f \<longleftrightarrow>
     \<not> (fProtocolMin f = 0 \<and> fProtocolMax f = 0 \<and> fProtocolVersion f = 0) \<and>
     Version \<in> {announced f (fProtocolMin f) .. announced f (fProtocolMax f)}"
  by (auto simp: FrameCompatible_def announced_def Let_def Version_def MinVersion_def MaxVersion_def)

lemma FrameCompatible_own [simp]:
  "fProtocolMin f = MinVersion \<Longrightarrow> fProtocolMax f = MaxVersion \<Longrightarrow> FrameCompatible f"
  by (simp add: FrameCompatible_def MinVersion_def MaxVersion_def Let_def)

subsection \<open>internal/mux/mux.go\<close>

text \<open>
  \<open>openMuxSession\<close> draws one stream per channel id in a fixed order, with \<open>OpenStream\<close> on the
  client and \<open>AcceptStream\<close> on the server (\<open>nextStream\<close>); \<open>st\<close> is the smux session.
\<close>

definition ChannelControl :: byte where "ChannelControl = 1"
definition ChannelFS :: byte where "ChannelFS = 2"

fun openChannels ::
  "('st \<Rightarrow> ('e, 'stream) result \<times> 'st) \<Rightarrow> byte list \<Rightarrow> (byte \<rightharpoonup> 'stream) \<Rightarrow> 'st \<Rightarrow>
   ('e, byte \<rightharpoonup> 'stream) result \<times> 'st" where
  "openChannels nextStream [] channels st = (Inr channels, st)"
| "openChannels nextStream (i # ids) channels st =
     (case nextStream st of
        (Inl err, st) \<Rightarrow> (Inl err, st)
      | (Inr stream, st) \<Rightarrow> openChannels nextStream ids (channels(i \<mapsto> stream)) st)"

definition openMuxSession ::
  "('st \<Rightarrow> ('e, 'stream) result \<times> 'st) \<Rightarrow> 'st \<Rightarrow> ('e, byte \<rightharpoonup> 'stream) result \<times> 'st" where
  "openMuxSession nextStream st = openChannels nextStream [ChannelControl, ChannelFS] Map.empty st"

datatype copy_error = ErrEOF | ErrClosedPipe | ErrOther string

definition normalizeCopyError :: "copy_error option \<Rightarrow> copy_error option" where
  "normalizeCopyError err =
     (if err = None \<or> err = Some ErrEOF \<or> err = Some ErrClosedPipe then None else err)"

text \<open>
  With a multiplexer that hands out streams in order (the k-th stream opened by the client is
  the k-th accepted by the server), both ends bind the same stream to the same channel id.
\<close>

definition in_order :: "nat \<Rightarrow> ('e, nat) result \<times> nat" where
  "in_order n = (Inr n, Suc n)"

lemma openSession_ok:
  assumes "nextStream st = (Inr a, st1)" "nextStream st1 = (Inr b, st2)"
  shows "openMuxSession nextStream st = (Inr [ChannelControl \<mapsto> a, ChannelFS \<mapsto> b], st2)"
  using assms by (simp add: openMuxSession_def)

lemma openSession_channels:
  assumes "openMuxSession nextStream st = (Inr ch, st')"
  shows "dom ch = {ChannelControl, ChannelFS}"
  using assms
  by (auto simp: openMuxSession_def ChannelControl_def ChannelFS_def split: prod.splits sum.splits if_splits)

end
