(* ===== verification/Ports.thy ===== *)
theory Ports
  imports Protocol "HOL-Library.AList"
begin

text \<open>
  \<open>internal/ports\<close> (which listening sockets of the remote host are forwarded) and
  \<open>internal/bridge/ports.go\<close> (turning successive scans into observed and gone events). A Go
  map is iterated in an unspecified order; the order is the parameter \<open>iter\<close>, any
  enumeration of the keys, and the results are shown not to depend on it.
\<close>

subsection \<open>internal/ports/listeners.go\<close>

record Listener =
  lPort :: int
  lConnectHost :: string

definition minForwardablePort :: int where
  "minForwardablePort = 1024"

definition listenerFromAddr :: "ip \<Rightarrow> int \<Rightarrow> Listener option" where
  "listenerFromAddr ip port =
     (if port < minForwardablePort \<or> port > 65535 \<or> ip = [] then None
      else case To4 ip of
        Some v4 \<Rightarrow>
          (if IsLoopback v4 \<or> IsUnspecified v4
           then Some \<lparr>lPort = port, lConnectHost = ''127.0.0.1''\<rparr> else None)
      | None \<Rightarrow>
          (if IsLoopback ip then Some \<lparr>lPort = port, lConnectHost = ''::1''\<rparr>
           else if IsUnspecified ip then Some \<lparr>lPort = port, lConnectHost = ''127.0.0.1''\<rparr>
           else None))"

definition mergeOne :: "Listener \<Rightarrow> (int \<times> Listener) list \<Rightarrow> (int \<times> Listener) list" where
  "mergeOne l byPort =
     (case map_of byPort (lPort l) of
        None \<Rightarrow> AList.update (lPort l) l byPort
      | Some existing \<Rightarrow>
          (if lConnectHost existing = ''::1'' \<and> lConnectHost l = ''127.0.0.1''
           then AList.update (lPort l) l byPort else byPort))"

definition listenersFromMap :: "(int \<times> Listener) list \<Rightarrow> Listener list" where
  "listenersFromMap byPort = sort_key lPort (map snd byPort)"

definition mergeListeners :: "Listener list list \<Rightarrow> Listener list" where
  "mergeListeners groups = listenersFromMap (fold mergeOne (concat groups) [])"

text \<open>
  \<open>ScanLoopbackListeners\<close> on Linux: the socket table is gopsutil's (status, local address,
  local port), a parameter, as is \<open>net.ParseIP\<close>.
\<close>

record socket =
  sStatus :: string
  sLaddrIP :: string
  sLaddrPort :: int

definition ScanLoopbackListeners ::
  "(string \<Rightarrow> ip) \<Rightarrow> ('e, socket list) result \<Rightarrow> ('e, Listener list) result" where
  "ScanLoopbackListeners ParseIP conns =
     (case conns of
        Inl err \<Rightarrow> Inl err
      | Inr cs \<Rightarrow> Inr (mergeListeners
          [List.map_filter (\<lambda>c. if sStatus c \<noteq> ''LISTEN'' then None
                                else listenerFromAddr (ParseIP (sLaddrIP c)) (sLaddrPort c)) cs]))"

subsection \<open>internal/bridge/ports.go\<close>

definition portGoneMissingScans :: nat where
  "portGoneMissingScans = 2"

record scan_state =
  observedPorts :: "int set"
  portMisses :: "int \<rightharpoonup> nat"

definition see_port :: "int \<Rightarrow> scan_state \<times> int list \<Rightarrow> scan_state \<times> int list" where
  "see_port port = (\<lambda>(s, observed).
     (s\<lparr>observedPorts := insert port (observedPorts s), portMisses := (portMisses s)(port := None)\<rparr>,
      if port \<in> observedPorts s then observed else observed @ [port]))"

definition miss_port :: "int set \<Rightarrow> int \<Rightarrow> scan_state \<times> int list \<Rightarrow> scan_state \<times> int list" where
  "miss_port current port = (\<lambda>(s, gone).
     if port \<in> current then (s, gone)
     else
       let misses = (case portMisses s port of None \<Rightarrow> 0 | Some m \<Rightarrow> m) + 1 in
       if misses \<ge> portGoneMissingScans then
         (s\<lparr>observedPorts := observedPorts s - {port}, portMisses := (portMisses s)(port := None)\<rparr>,
          gone @ [port])
       else (s\<lparr>portMisses := (portMisses s)(port \<mapsto> misses)\<rparr>, gone))"

definition applyPortScan ::
  "(int set \<Rightarrow> int list) \<Rightarrow> scan_state \<Rightarrow> int list \<Rightarrow> scan_state \<times> int list \<times> int list" where
  "applyPortScan iter s portList =
     (let current = Set.filter (\<lambda>port. port > 0) (set portList);
          (s1, observed) = fold see_port (iter current) (s, []);
          (s2, gone) = fold (miss_port current) (iter (observedPorts s1)) (s1, [])
      in (s2, sort observed, sort gone))"

definition currentPorts :: "(int set \<Rightarrow> int list) \<Rightarrow> scan_state \<Rightarrow> int list" where
  "currentPorts iter s = sort (iter (observedPorts s))"

text \<open>An enumeration of a map's keys: every key once.\<close>

definition enumerates :: "(int set \<Rightarrow> int list) \<Rightarrow> bool" where
  "enumerates iter \<longleftrightarrow> (\<forall>S. finite S \<longrightarrow> set (iter S) = S \<and> distinct (iter S))"

lemma enumerates_sorted_list: "enumerates sorted_list_of_set"
  by (simp add: enumerates_def)

definition hostMap :: "Listener list \<Rightarrow> int \<rightharpoonup> string" where
  "hostMap listeners = fold (\<lambda>l m. m(lPort l \<mapsto> lConnectHost l)) listeners Map.empty"

definition observedFrame :: "string \<Rightarrow> int \<Rightarrow> Frame" where
  "observedFrame host port = Frame0\<lparr>fType := TypePortObserved, fHost := host, fPort := port\<rparr>"

definition goneFrame :: "int \<Rightarrow> Frame" where
  "goneFrame port = Frame0\<lparr>fType := TypePortGone, fPort := port\<rparr>"

text \<open>
  \<open>scanAndBroadcastPorts\<close>: the new scan state and the frames broadcast, in order. A missing
  map key reads as the empty string. \<open>broadcast\<close> sends each frame to every client.
\<close>

definition scanAndBroadcastPorts ::
  "(int set \<Rightarrow> int list) \<Rightarrow> ('e, Listener list) result \<Rightarrow> scan_state \<Rightarrow> scan_state \<times> Frame list" where
  "scanAndBroadcastPorts iter scan s =
     (case scan of
        Inl err \<Rightarrow> (s, [])
      | Inr listeners \<Rightarrow>
          (let portList = map lPort listeners;
               hostByPort = hostMap listeners;
               (s', observed, gone) = applyPortScan iter s portList
           in (s', map (\<lambda>p. observedFrame (case hostByPort p of None \<Rightarrow> [] | Some h \<Rightarrow> h) p) observed
                   @ map goneFrame gone)))"

definition sendCurrentPorts ::
  "(int set \<Rightarrow> int list) \<Rightarrow> ('e, Listener list) result \<Rightarrow> scan_state \<Rightarrow> Frame list" where
  "sendCurrentPorts iter scan s =
     (let hostByPort = (case scan of Inl err \<Rightarrow> Map.empty | Inr listeners \<Rightarrow> hostMap listeners)
      in map (\<lambda>port.
           let host = (case hostByPort port of None \<Rightarrow> [] | Some h \<Rightarrow> h);
               host = (if host = [] then ''127.0.0.1'' else host)
           in observedFrame host port) (currentPorts iter s))"

definition broadcast :: "'c list \<Rightarrow> Frame list \<Rightarrow> ('c \<times> Frame) list" where
  "broadcast clients frames = concat (map (\<lambda>f. map (\<lambda>c. (c, f)) clients) frames)"

subsection \<open>Merging listeners\<close>

definition wf_listener :: "Listener \<Rightarrow> bool" where
  "wf_listener l \<longleftrightarrow>
     1024 \<le> lPort l \<and> lPort l \<le> 65535 \<and> lConnectHost l \<in> {''127.0.0.1'', ''::1''}"

lemma listenerFromAddr_wf: "listenerFromAddr ip port = Some l \<Longrightarrow> wf_listener l \<and> lPort l = port"
  by (auto simp: listenerFromAddr_def minForwardablePort_def wf_listener_def
      split: if_splits option.splits)

text \<open>The policy in one line: a forwardable port on a loopback or wildcard address.\<close>

lemma listenerFromAddr_iff:
  assumes "length ip \<in> {0, 4, 16}"
  shows "listenerFromAddr ip port \<noteq> None \<longleftrightarrow>
     1024 \<le> port \<and> port \<le> 65535 \<and> ip \<noteq> [] \<and> (IsLoopback ip \<or> IsUnspecified ip)"
proof -
  have "To4 ip = Some v4 \<Longrightarrow> IsLoopback v4 = IsLoopback ip \<and> IsUnspecified v4 = IsUnspecified ip" for v4
    using length_To4 [of ip v4] assms
    by (auto simp: IsLoopback_def IsUnspecified_def To4_def split: if_splits)
  then show ?thesis
    by (auto simp: listenerFromAddr_def minForwardablePort_def split: option.splits)
qed

definition preferred :: "Listener list \<Rightarrow> int \<Rightarrow> string" where
  "preferred ls p =
     (if \<lparr>lPort = p, lConnectHost = ''127.0.0.1''\<rparr> \<in> set ls then ''127.0.0.1'' else ''::1'')"

definition merged :: "Listener list \<Rightarrow> (int \<times> Listener) list \<Rightarrow> bool" where
  "merged ls m \<longleftrightarrow> distinct (map fst m) \<and>
     map_of m = (\<lambda>p. if p \<in> lPort ` set ls
                     then Some \<lparr>lPort = p, lConnectHost = preferred ls p\<rparr> else None)"

lemma merged_step:
  assumes m: "merged ls m" and l: "wf_listener l"
  shows "merged (ls @ [l]) (mergeOne l m)"
proof -
  define p where "p = lPort l"
  from l have h: "lConnectHost l = ''127.0.0.1'' \<or> lConnectHost l = ''::1''"
    by (simp add: wf_listener_def)
  have other: "preferred (ls @ [l]) q = preferred ls q" if "q \<noteq> p" for q
    using that by (auto simp: preferred_def p_def)
  have pref: "preferred (ls @ [l]) p =
      (if lConnectHost l = ''127.0.0.1'' then ''127.0.0.1'' else preferred ls p)"
    by (cases l) (auto simp: preferred_def p_def)
  have fresh: "preferred ls p = ''::1''" if "p \<notin> lPort ` set ls"
    using that by (force simp: preferred_def)
  have lp: "l = \<lparr>lPort = p, lConnectHost = preferred (ls @ [l]) p\<rparr>"
    if "p \<notin> lPort ` set ls \<or> lConnectHost l = ''127.0.0.1''"
    using that pref fresh h by (cases l) (auto simp: p_def)
  have dom: "distinct (map fst (mergeOne l m))"
    using m by (auto simp: merged_def mergeOne_def distinct_update split: option.splits)
  have "map_of (mergeOne l m) q =
      (if q \<in> lPort ` set (ls @ [l])
       then Some \<lparr>lPort = q, lConnectHost = preferred (ls @ [l]) q\<rparr> else None)" for q
  proof (cases "q = p")
    case False
    then show ?thesis using m other [OF False]
      by (auto simp: merged_def mergeOne_def p_def [symmetric] update_conv' split: option.splits)
  next
    case True
    show ?thesis
    proof (cases "p \<in> lPort ` set ls")
      case True
      then show ?thesis using \<open>q = p\<close> m h pref lp
        by (auto simp: merged_def mergeOne_def p_def [symmetric] update_conv' preferred_def)
    next
      case False
      then show ?thesis using \<open>q = p\<close> m lp
        by (auto simp: merged_def mergeOne_def p_def [symmetric] update_conv')
    qed
  qed
  with dom show ?thesis by (simp add: merged_def fun_eq_iff)
qed

lemma merged_fold:
  "\<forall>l \<in> set ls. wf_listener l \<Longrightarrow> merged ls (fold mergeOne ls [])"
proof (induction ls rule: rev_induct)
  case Nil
  then show ?case by (simp add: merged_def)
next
  case (snoc l ls)
  then show ?case by (simp add: merged_step)
qed

lemma sorted_distinct_list:
  "sorted xs \<Longrightarrow> distinct xs \<Longrightarrow> set xs = S \<Longrightarrow> xs = sorted_list_of_set S"
  by (metis sorted_list_of_set.idem_if_sorted_distinct)

lemma listenersFromMap_merged:
  assumes "merged ls m"
  shows "listenersFromMap m =
     map (\<lambda>p. \<lparr>lPort = p, lConnectHost = preferred ls p\<rparr>) (sorted_list_of_set (lPort ` set ls))"
proof -
  let ?L = "\<lambda>p. \<lparr>lPort = p, lConnectHost = preferred ls p\<rparr>"
  have snds: "map snd m = map ?L (map fst m)"
    using assms map_of_is_SomeI [of m]
    by (fastforce simp: merged_def comp_def split: if_splits)
  have keys: "fst ` set m = lPort ` set ls"
    using assms by (auto simp: merged_def dom_map_of_conv_image_fst [symmetric] split: if_splits)
  have sk: "sort_key lPort (map ?L ps) = map ?L (sort ps)" for ps
  proof -
    have ins: "insort_key lPort (?L q) (map ?L qs) = map ?L (insort q qs)" for q qs
      by (induction qs) auto
    show ?thesis by (induction ps) (auto simp: ins)
  qed
  have "sort (map fst m) = sorted_list_of_set (lPort ` set ls)"
    using assms keys by (intro sorted_distinct_list) (auto simp: merged_def)
  then show ?thesis by (simp only: listenersFromMap_def snds sk)
qed

text \<open>\<open>mergeListeners\<close> reports every port of its groups once, in increasing order, and
  gives a port the IPv4 host exactly when one of its listeners has it: the result depends on
  the set of listeners only, not on the order or the grouping of the scan.\<close>

theorem mergeListeners_canonical:
  assumes "\<forall>l \<in> set (concat groups). wf_listener l"
  shows "mergeListeners groups =
     map (\<lambda>p. \<lparr>lPort = p, lConnectHost = preferred (concat groups) p\<rparr>)
         (sorted_list_of_set (lPort ` set (concat groups)))"
  unfolding mergeListeners_def by (rule listenersFromMap_merged [OF merged_fold [OF assms]])

theorem mergeListeners_canonical_witness:
  "mergeListeners [[\<lparr>lPort = 9090, lConnectHost = ''127.0.0.1''\<rparr>, \<lparr>lPort = 8080, lConnectHost = ''::1''\<rparr>],
                   [\<lparr>lPort = 8080, lConnectHost = ''127.0.0.1''\<rparr>]] =
   [\<lparr>lPort = 8080, lConnectHost = ''127.0.0.1''\<rparr>, \<lparr>lPort = 9090, lConnectHost = ''127.0.0.1''\<rparr>]"
  by (subst mergeListeners_canonical) (auto simp: wf_listener_def preferred_def)

lemma mergeListeners_set:
  assumes "\<forall>l \<in> set (concat groups). wf_listener l"
  shows "\<forall>l \<in> set (mergeListeners groups). wf_listener l"
    and "map lPort (mergeListeners groups) = sorted_list_of_set (lPort ` set (concat groups))"
  using assms unfolding mergeListeners_def
  by (auto simp: listenersFromMap_merged [OF merged_fold [OF assms]] wf_listener_def preferred_def comp_def)

lemma ScanLoopbackListeners_wf:
  fixes conns :: "('e, socket list) result"
  assumes "ScanLoopbackListeners ParseIP conns = Inr ls"
  shows "\<forall>l \<in> set ls. wf_listener l" and "sorted (map lPort ls)" and "distinct (map lPort ls)"
proof -
  obtain cs where ls: "ls = mergeListeners [List.map_filter (\<lambda>c::socket. if sStatus c \<noteq> ''LISTEN'' then None
        else listenerFromAddr (ParseIP (sLaddrIP c)) (sLaddrPort c)) cs]"
  proof (cases conns)
    case Inl
    then show thesis using assms by (simp add: ScanLoopbackListeners_def)
  next
    case (Inr cs)
    then show thesis using assms by (intro that [of cs]) (simp add: ScanLoopbackListeners_def)
  qed
  let ?g = "List.map_filter (\<lambda>c::socket. if sStatus c \<noteq> ''LISTEN'' then None
        else listenerFromAddr (ParseIP (sLaddrIP c)) (sLaddrPort c)) cs"
  have "\<forall>l \<in> set (concat [?g]). wf_listener l"
    by (auto simp: List.map_filter_def dest: listenerFromAddr_wf split: if_splits)
  note * = mergeListeners_set [OF this]
  show "\<forall>l \<in> set ls. wf_listener l" "sorted (map lPort ls)" "distinct (map lPort ls)"
    using * unfolding ls by simp_all
qed

text \<open>C39. Whatever the socket table and its addresses are, a scan gives well-formed listeners: forwardable port numbers
  of 16 bits, a loopback address to connect to, and each port once, in increasing order.\<close>
theorem scan_listeners_typed:
  fixes conns :: "('e, socket list) result"
  shows "case ScanLoopbackListeners ParseIP conns of
     Inl err \<Rightarrow> conns = Inl err
   | Inr ls \<Rightarrow> list_all wf_listener ls \<and> sorted (map lPort ls) \<and> distinct (map lPort ls)"
proof (cases "ScanLoopbackListeners ParseIP conns")
  case (Inl err)
  then show ?thesis by (simp add: ScanLoopbackListeners_def split: sum.splits)
next
  case (Inr ls)
  then show ?thesis using ScanLoopbackListeners_wf [OF Inr] by (simp add: list_all_iff)
qed

subsection \<open>Port scans\<close>

text \<open>A port missing from a scan is dropped when it has been missed often enough before.\<close>

definition misses_of :: "scan_state \<Rightarrow> int \<Rightarrow> nat" where
  "misses_of s p = (case portMisses s p of None \<Rightarrow> 0 | Some m \<Rightarrow> m)"

definition expires :: "scan_state \<Rightarrow> int \<Rightarrow> bool" where
  "expires s p \<longleftrightarrow> portGoneMissingScans \<le> misses_of s p + 1"

lemma fold_see_port:
  "distinct ps \<Longrightarrow> fold see_port ps (s, obs) =
     (s\<lparr>observedPorts := observedPorts s \<union> set ps, portMisses := portMisses s |` (- set ps)\<rparr>,
      obs @ filter (\<lambda>p. p \<notin> observedPorts s) ps)"
proof (induction ps arbitrary: s obs)
  case Nil
  then show ?case by (cases s) (simp add: restrict_map_def)
next
  case (Cons p ps)
  then have f: "filter (\<lambda>q. q \<noteq> p \<and> q \<notin> observedPorts s) ps = filter (\<lambda>q. q \<notin> observedPorts s) ps"
    by (intro filter_cong) auto
  have r: "((portMisses s)(p := None)) |` (- set ps) = portMisses s |` (- set (p # ps))"
    by (auto simp: restrict_map_def)
  show ?case using Cons f r by (simp add: see_port_def)
qed

lemma scan_state_cong:
  "a = a' \<Longrightarrow> b = b' \<Longrightarrow>
   s\<lparr>observedPorts := a, portMisses := b\<rparr> = s\<lparr>observedPorts := a', portMisses := b'\<rparr>"
  by simp

lemma fold_miss_port:
  "distinct ps \<Longrightarrow> fold (miss_port cur) ps (s, gone) =
     (s\<lparr>observedPorts := observedPorts s - {p \<in> set ps. p \<notin> cur \<and> expires s p},
        portMisses := (\<lambda>p. if p \<in> set ps \<and> p \<notin> cur
          then (if expires s p then None else Some (misses_of s p + 1)) else portMisses s p)\<rparr>,
      gone @ filter (\<lambda>p. p \<notin> cur \<and> expires s p) ps)"
proof (induction ps arbitrary: s gone)
  case Nil
  then show ?case by (cases s) simp
next
  case (Cons p ps)
  then have p: "p \<notin> set ps" and d: "distinct ps" by simp_all
  have ex: "expires s' q = expires s q" "misses_of s' q = misses_of s q"
    if "portMisses s' q = portMisses s q" for s' q
    using that by (simp_all add: expires_def misses_of_def)
  show ?case
  proof (cases "p \<in> cur")
    case True
    then show ?thesis using Cons.IH [OF d]
      by (auto simp: miss_port_def fun_eq_iff intro!: scan_state_cong)
  next
    case False
    let ?s = "if expires s p
      then s\<lparr>observedPorts := observedPorts s - {p}, portMisses := (portMisses s)(p := None)\<rparr>
      else s\<lparr>portMisses := (portMisses s)(p \<mapsto> misses_of s p + 1)\<rparr>"
    have one: "miss_port cur p (s, gone) = (?s, if expires s p then gone @ [p] else gone)"
      using False by (simp add: miss_port_def expires_def misses_of_def Let_def)
    have same: "expires ?s q = expires s q \<and> misses_of ?s q = misses_of s q \<and>
        portMisses ?s q = portMisses s q" if "q \<noteq> p" for q
      using that by (simp add: expires_def misses_of_def)
    have set: "{q \<in> set ps. q \<notin> cur \<and> expires ?s q} = {q \<in> set ps. q \<notin> cur \<and> expires s q}"
      using p same by (intro Collect_cong) metis
    have flt: "filter (\<lambda>q. q \<notin> cur \<and> expires ?s q) ps = filter (\<lambda>q. q \<notin> cur \<and> expires s q) ps"
      using p same by (intro filter_cong refl) metis
    have mis: "(\<lambda>q. if q \<in> set ps \<and> q \<notin> cur
          then (if expires ?s q then None else Some (misses_of ?s q + 1)) else portMisses ?s q) =
        (\<lambda>q. if q \<in> set (p # ps) \<and> q \<notin> cur
          then (if expires s q then None else Some (misses_of s q + 1)) else portMisses s q)"
    proof
      fix q
      show "(if q \<in> set ps \<and> q \<notin> cur
          then (if expires ?s q then None else Some (misses_of ?s q + 1)) else portMisses ?s q) =
        (if q \<in> set (p # ps) \<and> q \<notin> cur
          then (if expires s q then None else Some (misses_of s q + 1)) else portMisses s q)"
        using False p same [of q] by (cases "q = p") simp_all
    qed
    have "fold (miss_port cur) (p # ps) (s, gone) =
        (?s\<lparr>observedPorts := observedPorts ?s - {q \<in> set ps. q \<notin> cur \<and> expires s q},
            portMisses := (\<lambda>q. if q \<in> set (p # ps) \<and> q \<notin> cur
              then (if expires s q then None else Some (misses_of s q + 1)) else portMisses s q)\<rparr>,
         (if expires s p then gone @ [p] else gone) @ filter (\<lambda>q. q \<notin> cur \<and> expires s q) ps)"
      unfolding fold.simps comp_apply one Cons.IH [OF d] set flt mis ..
    then show ?thesis
      using False by (auto intro!: scan_state_cong)
  qed
qed

lemma sort_filter_enum:
  assumes "enumerates iter" "finite S"
  shows "sort (filter q (iter S)) = sorted_list_of_set {p \<in> S. q p}"
  using assms by (intro sorted_distinct_list) (auto simp: enumerates_def)

definition current_of :: "int list \<Rightarrow> int set" where
  "current_of portList = {p \<in> set portList. p > 0}"

lemma applyPortScan_eq:
  assumes it: "enumerates iter" and fin: "finite (observedPorts s)"
  shows "applyPortScan iter s ps =
    (let cur = current_of ps; old = observedPorts s in
     (s\<lparr>observedPorts := cur \<union> {p \<in> old. \<not> expires s p},
        portMisses := (\<lambda>p. if p \<in> cur then None else if p \<in> old
          then (if expires s p then None else Some (misses_of s p + 1)) else portMisses s p)\<rparr>,
      sorted_list_of_set (cur - old), sorted_list_of_set {p \<in> old - cur. expires s p}))"
proof -
  let ?cur = "current_of ps" and ?old = "observedPorts s"
  have cur: "{p \<in> set ps. 0 < p} = ?cur" by (auto simp: current_of_def)
  have fc: "finite ?cur" by (simp add: current_of_def)
  have e: "distinct (iter ?cur)" "set (iter ?cur) = ?cur"
    "distinct (iter (?old \<union> ?cur))" "set (iter (?old \<union> ?cur)) = ?old \<union> ?cur"
    using it fin fc by (auto simp: enumerates_def)
  let ?s1 = "s\<lparr>observedPorts := ?old \<union> ?cur, portMisses := portMisses s |` (- ?cur)\<rparr>"
  have ex: "p \<notin> ?cur \<Longrightarrow> expires ?s1 p = expires s p \<and> misses_of ?s1 p = misses_of s p" for p
    by (simp add: expires_def misses_of_def)
  have flt: "filter (\<lambda>p. p \<notin> ?cur \<and> expires ?s1 p) (iter (?old \<union> ?cur)) =
      filter (\<lambda>p. p \<notin> ?cur \<and> expires s p) (iter (?old \<union> ?cur))"
    using ex by (intro filter_cong) auto
  have so: "sort (filter (\<lambda>p. p \<notin> ?old) (iter ?cur)) = sorted_list_of_set (?cur - ?old)"
    by (simp add: sort_filter_enum [OF it fc] set_diff_eq)
  have sg: "sort (filter (\<lambda>p. p \<notin> ?cur \<and> expires s p) (iter (?old \<union> ?cur))) =
      sorted_list_of_set {p \<in> ?old - ?cur. expires s p}"
    using fin fc by (subst sort_filter_enum [OF it]) (auto intro!: arg_cong [where f = sorted_list_of_set])
  have f1: "fold see_port (iter ?cur) (s, []) = (?s1, filter (\<lambda>p. p \<notin> ?old) (iter ?cur))"
    using e by (simp add: fold_see_port)
  have old1: "iter (observedPorts ?s1) = iter (?old \<union> ?cur)" by simp
  have f2: "fold (miss_port ?cur) (iter (?old \<union> ?cur)) (?s1, []) =
     (s\<lparr>observedPorts := ?cur \<union> {p \<in> ?old. \<not> expires s p},
        portMisses := (\<lambda>p. if p \<in> ?cur then None else if p \<in> ?old
          then (if expires s p then None else Some (misses_of s p + 1)) else portMisses s p)\<rparr>,
      filter (\<lambda>p. p \<notin> ?cur \<and> expires s p) (iter (?old \<union> ?cur)))"
    unfolding fold_miss_port [OF e(3)] e(4) flt prod.inject append_Nil
    using ex by (auto simp: fun_eq_iff restrict_map_def intro!: scan_state_cong)
  show ?thesis
    unfolding applyPortScan_def
    by (simp add: cur Let_def f1 f2 old1 so sg)
qed

text \<open>The invariant of the scan state: a counted miss is a first miss of an observed port.\<close>

definition scan_inv :: "scan_state \<Rightarrow> bool" where
  "scan_inv s \<longleftrightarrow> finite (observedPorts s) \<and> (\<forall>p \<in> observedPorts s. 0 < p) \<and>
     (\<forall>p m. portMisses s p = Some m \<longrightarrow> m = 1 \<and> p \<in> observedPorts s)"

definition scan0 :: scan_state where
  "scan0 = \<lparr>observedPorts = {}, portMisses = Map.empty\<rparr>"

lemma scan_inv_scan0 [simp]: "scan_inv scan0"
  by (simp add: scan_inv_def scan0_def)

lemma expires_iff: "scan_inv s \<Longrightarrow> expires s p \<longleftrightarrow> p \<in> dom (portMisses s)"
  by (auto simp: scan_inv_def expires_def misses_of_def portGoneMissingScans_def
      split: option.splits)

lemma applyPortScan_inv:
  assumes it: "enumerates iter" and inv: "scan_inv s"
  shows "scan_inv (fst (applyPortScan iter s ps))"
proof -
  have fin: "finite (observedPorts s)" using inv by (simp add: scan_inv_def)
  show ?thesis
    using inv expires_iff [OF inv]
    by (auto simp: applyPortScan_eq [OF it fin] scan_inv_def Let_def current_of_def
        misses_of_def split: if_splits option.splits)
qed

text \<open>After a scan, the ports kept although the scan missed them are exactly the expiring ones.\<close>

lemma applyPortScan_after:
  fixes ps :: "int list"
  assumes it: "enumerates iter" and inv: "scan_inv s"
  defines "s' \<equiv> fst (applyPortScan iter s ps)"
  shows "observedPorts s' = current_of ps \<union> (observedPorts s - dom (portMisses s))"
    and "p \<in> observedPorts s' \<Longrightarrow> p \<in> dom (portMisses s') \<longleftrightarrow> p \<notin> current_of ps"
proof -
  have fin: "finite (observedPorts s)" using inv by (simp add: scan_inv_def)
  show "observedPorts s' = current_of ps \<union> (observedPorts s - dom (portMisses s))"
    using expires_iff [OF inv] by (auto simp: s'_def applyPortScan_eq [OF it fin] Let_def)
  show "p \<in> observedPorts s' \<Longrightarrow> p \<in> dom (portMisses s') \<longleftrightarrow> p \<notin> current_of ps"
    by (auto simp: s'_def applyPortScan_eq [OF it fin] Let_def split: if_splits)
qed

definition afterScans :: "(int set \<Rightarrow> int list) \<Rightarrow> int list list \<Rightarrow> scan_state" where
  "afterScans iter scans = foldl (\<lambda>s ps. fst (applyPortScan iter s ps)) scan0 scans"

lemma afterScans_inv: "enumerates iter \<Longrightarrow> scan_inv (afterScans iter scans)"
  by (induction scans rule: rev_induct) (auto simp: afterScans_def applyPortScan_inv)

lemma afterScans_snoc: "afterScans iter (scans @ [a]) = fst (applyPortScan iter (afterScans iter scans) a)"
  by (simp add: afterScans_def)

text \<open>Debounce: from the second scan on, the observed ports are those seen by one of the last
  two scans, whatever the earlier scans said and in whatever order Go iterates its maps. A
  port survives one missing scan and is gone after two in a row.\<close>

theorem port_debounce:
  assumes "enumerates iter"
  shows "observedPorts (afterScans iter (scans @ [a, b])) = current_of a \<union> current_of b"
proof -
  let ?s = "afterScans iter scans"
  let ?t = "fst (applyPortScan iter ?s a)"
  note inv = afterScans_inv [OF assms, of scans]
  note t = applyPortScan_after [OF assms inv, where ps = a]
  have "afterScans iter (scans @ [a, b]) = fst (applyPortScan iter ?t b)"
    using afterScans_snoc [of iter "scans @ [a]" b] by (simp add: afterScans_snoc)
  then have "observedPorts (afterScans iter (scans @ [a, b])) =
      current_of b \<union> (observedPorts ?t - dom (portMisses ?t))"
    using applyPortScan_after(1) [OF assms applyPortScan_inv [OF assms inv], where ps = b] by simp
  also have "observedPorts ?t - dom (portMisses ?t) = current_of a"
    using t by auto
  finally show ?thesis by auto
qed

theorem port_debounce_witness:
  "observedPorts (afterScans sorted_list_of_set ([[8080]] @ [[3000], [5432, 8080]])) = {3000, 5432, 8080}"
  unfolding port_debounce [OF enumerates_sorted_list] by (auto simp: current_of_def)

text \<open>What a client makes of the frames it receives.\<close>

definition apply_port_frame :: "Frame \<Rightarrow> int set \<Rightarrow> int set" where
  "apply_port_frame f S =
     (if fType f = TypePortObserved \<and> fPort f > 0 then insert (fPort f) S
      else if fType f = TypePortGone \<and> fPort f > 0 then S - {fPort f} else S)"

lemma frame_types [simp]:
  "fType (observedFrame h p) = TypePortObserved" "fPort (observedFrame h p) = p"
  "fHost (observedFrame h p) = h" "fType (goneFrame p) = TypePortGone" "fPort (goneFrame p) = p"
  by (simp_all add: observedFrame_def goneFrame_def)

lemma fold_observed:
  "\<forall>p \<in> set ps. 0 < p \<Longrightarrow> fold apply_port_frame (map (\<lambda>p. observedFrame (h p) p) ps) S = S \<union> set ps"
  by (induction ps arbitrary: S) (auto simp: apply_port_frame_def)

lemma fold_gone:
  "\<forall>p \<in> set ps. 0 < p \<Longrightarrow> fold apply_port_frame (map goneFrame ps) S = S - set ps"
  by (induction ps arbitrary: S) (auto simp: apply_port_frame_def)

fun runScans ::
  "(int set \<Rightarrow> int list) \<Rightarrow> ('e, Listener list) result list \<Rightarrow> scan_state \<Rightarrow> scan_state \<times> Frame list" where
  "runScans iter [] s = (s, [])"
| "runScans iter (scan # scans) s =
     (let (s', fs) = scanAndBroadcastPorts iter scan s;
          (s'', gs) = runScans iter scans s'
      in (s'', fs @ gs))"

lemma scan_step_replay:
  assumes it: "enumerates iter" and inv: "scan_inv s"
    and st: "scanAndBroadcastPorts iter scan s = (s', fs)"
  shows "scan_inv s' \<and> fold apply_port_frame fs (observedPorts s) = observedPorts s'"
proof (cases scan)
  case (Inl e)
  then show ?thesis using st inv by (simp add: scanAndBroadcastPorts_def)
next
  case (Inr ls)
  have fin: "finite (observedPorts s)" using inv by (simp add: scan_inv_def)
  let ?ps = "map lPort ls"
  let ?obs = "sorted_list_of_set (current_of ?ps - observedPorts s)"
  let ?gone = "sorted_list_of_set {p \<in> observedPorts s - current_of ?ps. expires s p}"
  have pos: "\<forall>p \<in> set ?obs. 0 < p" "\<forall>p \<in> set ?gone. 0 < p"
    using inv fin by (auto simp: current_of_def scan_inv_def)
  have fs: "fs = map (\<lambda>p. observedFrame (case hostMap ls p of None \<Rightarrow> [] | Some h \<Rightarrow> h) p) ?obs @ map goneFrame ?gone"
    and s': "s' = fst (applyPortScan iter s ?ps)"
    using st Inr by (auto simp: scanAndBroadcastPorts_def applyPortScan_eq [OF it fin] Let_def)
  have "fold apply_port_frame fs (observedPorts s) = observedPorts s \<union> set ?obs - set ?gone"
    unfolding fs fold_append comp_apply fold_observed [OF pos(1)] fold_gone [OF pos(2)] ..
  also have "\<dots> = observedPorts s'"
    using fin by (auto simp: s' applyPortScan_eq [OF it fin] Let_def current_of_def)
  finally show ?thesis using applyPortScan_inv [OF it inv] s' by simp
qed

lemma runScans_replay:
  assumes it: "enumerates iter"
  shows "scan_inv s \<Longrightarrow> runScans iter scans s = (s', fs) \<Longrightarrow>
   scan_inv s' \<and> fold apply_port_frame fs (observedPorts s) = observedPorts s'"
proof (induction scans arbitrary: s fs s')
  case Nil
  then show ?case by simp
next
  case (Cons scan scans)
  obtain t gs where st: "scanAndBroadcastPorts iter scan s = (t, gs)" by fastforce
  obtain u hs where ru: "runScans iter scans t = (u, hs)" by fastforce
  have eq: "s' = u" "fs = gs @ hs" using Cons.prems(2) st ru by simp_all
  note one = scan_step_replay [OF it Cons.prems(1) st]
  have "scan_inv u \<and> fold apply_port_frame hs (observedPorts t) = observedPorts u"
    using Cons.IH [OF _ ru] one by simp
  with one show ?case by (simp add: eq)
qed

lemma sendCurrentPorts_replay:
  assumes "enumerates iter" "scan_inv s"
  shows "fold apply_port_frame (sendCurrentPorts iter scan s) {} = observedPorts s"
  using assms
  by (auto simp: sendCurrentPorts_def currentPorts_def fold_observed Let_def enumerates_def scan_inv_def)



end
