(* ===== verification/Allocator.thy ===== *)
theory Allocator
  imports GoStrings
begin

text \<open>
  The contract of a component that hands out names and takes them back: the domain manager
  (host names), the loopback pool (addresses). A handed-out handle \<open>k\<close> occupies the slot
  \<open>key k\<close>; the laws say a handle is given only for a slot nobody holds and that freeing
  releases that slot and no other. From them a history of allocations and releases by any
  number of owners never gives one slot to two owners.
\<close>

datatype ('o, 'r) alloc_op = Acquire 'o 'r | Release 'o

locale allocator =
  fixes alloc :: "'r \<Rightarrow> 's \<Rightarrow> ('k \<times> 's) option"
    and free :: "'k \<Rightarrow> 's \<Rightarrow> 's"
    and key :: "'k \<Rightarrow> 'i"
    and held :: "'s \<Rightarrow> 'i set"
    and ok :: "'s \<Rightarrow> bool"
  assumes alloc_fresh: "ok s \<Longrightarrow> alloc r s = Some (k, s') \<Longrightarrow> key k \<notin> held s"
    and alloc_held: "ok s \<Longrightarrow> alloc r s = Some (k, s') \<Longrightarrow> held s' = insert (key k) (held s)"
    and alloc_ok: "ok s \<Longrightarrow> alloc r s = Some (k, s') \<Longrightarrow> ok s'"
    and free_held: "ok s \<Longrightarrow> held (free k s) = held s - {key k}"
    and free_ok: "ok s \<Longrightarrow> ok (free k s)"
begin

text \<open>One owner acquires at most one handle and gives back its own; a failed allocation and a
  second acquire by the same owner change nothing.\<close>

fun step :: "('o, 'r) alloc_op \<Rightarrow> 's \<times> ('o \<rightharpoonup> 'k) \<Rightarrow> 's \<times> ('o \<rightharpoonup> 'k)" where
  "step (Acquire p r) (s, own) =
     (if own p \<noteq> None then (s, own)
      else case alloc r s of None \<Rightarrow> (s, own) | Some (k, s') \<Rightarrow> (s', own(p \<mapsto> k)))"
| "step (Release p) (s, own) =
     (case own p of None \<Rightarrow> (s, own) | Some k \<Rightarrow> (free k s, own(p := None)))"

definition consistent :: "'s \<times> ('o \<rightharpoonup> 'k) \<Rightarrow> bool" where
  "consistent = (\<lambda>(s, own). ok s \<and> (\<forall>p k. own p = Some k \<longrightarrow> key k \<in> held s) \<and>
     (\<forall>p q k l. own p = Some k \<and> own q = Some l \<and> key k = key l \<longrightarrow> p = q))"

lemma consistentI:
  assumes "ok s" "\<And>p k. own p = Some k \<Longrightarrow> key k \<in> held s"
    and "\<And>p q k l. own p = Some k \<Longrightarrow> own q = Some l \<Longrightarrow> key k = key l \<Longrightarrow> p = q"
  shows "consistent (s, own)"
  using assms unfolding consistent_def by blast

lemma consistentD:
  assumes "consistent (s, own)"
  shows "ok s" and "own p = Some k \<Longrightarrow> key k \<in> held s"
    and "own p = Some k \<Longrightarrow> own q = Some l \<Longrightarrow> key k = key l \<Longrightarrow> p = q"
  using assms unfolding consistent_def by blast+

lemma acquire_consistent:
  assumes c: "consistent (s, own)" and a: "alloc r s = Some (k, s')"
  shows "consistent (s', own(p \<mapsto> k))"
proof (rule consistentI)
  note D = consistentD [OF c]
  note F = alloc_fresh [OF D(1) a] and H = alloc_held [OF D(1) a]
  show "ok s'" by (rule alloc_ok [OF D(1) a])
  show "key l \<in> held s'" if "(own(p \<mapsto> k)) q = Some l" for q l
    using that D(2) H by (auto split: if_splits)
  show "q = q'" if "(own(p \<mapsto> k)) q = Some l" "(own(p \<mapsto> k)) q' = Some l'" "key l = key l'" for q q' l l'
    using that D(2) [of q] D(2) [of q'] D(3) [of q l q' l'] F
    by (auto simp del: not_None_eq split: if_splits)
qed

lemma release_consistent:
  assumes c: "consistent (s, own)" and o: "own p = Some k"
  shows "consistent (free k s, own(p := None))"
proof (rule consistentI)
  note D = consistentD [OF c]
  show "ok (free k s)" by (rule free_ok [OF D(1)])
  show "key l \<in> held (free k s)" if "(own(p := None)) q = Some l" for q l
    using that D(2) D(3) [OF o] by (auto simp: free_held [OF D(1)] split: if_splits)
  show "q = q'" if "(own(p := None)) q = Some l" "(own(p := None)) q' = Some l'" "key l = key l'" for q q' l l'
    using that D(3) by (auto split: if_splits)
qed

lemma step_consistent: "consistent c \<Longrightarrow> consistent (step e c)"
proof (cases c; cases e)
  fix s own p r assume c: "consistent c" "c = (s, own)" "e = Acquire p r"
  then show ?thesis
    by (cases "own p"; cases "alloc r s") (auto intro: acquire_consistent)
next
  fix s own p assume c: "consistent c" "c = (s, own)" "e = Release p"
  then show ?thesis
    by (cases "own p") (auto intro: release_consistent)
qed

lemma fold_consistent: "consistent c \<Longrightarrow> consistent (fold step es c)"
  by (induction es arbitrary: c) (simp_all add: step_consistent)

lemma history_consistent: "ok s \<Longrightarrow> consistent (fold step es (s, Map.empty))"
  by (rule fold_consistent, rule consistentI) simp_all

lemma owners_disjoint:
  assumes "ok s" "fold step es (s, Map.empty) = (s', own)" "own p = Some k" "own q = Some l" "p \<noteq> q"
  shows "key k \<noteq> key l"
  using history_consistent [OF assms(1), of es] assms(2-) consistentD(3) by metis

end

end
