(* ===== verification/Domain.thy ===== *)
theory Domain
  imports GoNet Allocator "HOL-Library.Monad_Syntax"
begin

text \<open>
  \<open>internal/domain/domain.go\<close>: the registry of local host names and the DNS responder that
  answers for them. The UDP socket is outside the model: \<open>serve_packet\<close> maps one received
  datagram to the datagram sent back, if any. \<open>RegisterTarget\<close> searches for a free name in
  an unbounded loop, modelled as a partial function; it is proved to return.
\<close>

unbundle bit_operations_syntax

subsection \<open>Names\<close>

definition normalizeSuffix :: "string \<Rightarrow> string" where
  "normalizeSuffix s = ToLower (Trim (TrimSpace s) ''.'')"

definition prefix_char :: "char \<Rightarrow> bool" where
  "prefix_char r = (let b = (of_char r :: nat) in
     (of_char CHR ''a'' \<le> b \<and> b \<le> of_char CHR ''z'') \<or> (of_char CHR ''0'' \<le> b \<and> b \<le> of_char CHR ''9''))"

text \<open>The loop of \<open>TargetPrefix\<close>: \<open>prevDash\<close> says the last byte written is a replacement dash.\<close>

fun dash_runs :: "bool \<Rightarrow> string \<Rightarrow> string" where
  "dash_runs prevDash [] = []"
| "dash_runs prevDash (r # host) =
     (if prefix_char r then r # dash_runs False host
      else if \<not> prevDash then CHR ''-'' # dash_runs True host
      else dash_runs prevDash host)"

definition TargetPrefix :: "string \<Rightarrow> string" where
  "TargetPrefix target =
     (let host = ToLower (Trim (TrimSpace target) ''.'');
          prefix = Trim (dash_runs False host) ''-''
      in if prefix = [] then ''host'' else prefix)"

subsection \<open>The registry\<close>

record Manager =
  mSuffix :: string
  dnsAddr :: string
  records :: "string \<rightharpoonup> ip"

definition NewManager :: "string \<Rightarrow> string \<Rightarrow> Manager" where
  "NewManager sfx addr = \<lparr>mSuffix = normalizeSuffix sfx, dnsAddr = addr, records = Map.empty\<rparr>"

definition Register :: "Manager \<Rightarrow> string \<Rightarrow> ip \<Rightarrow> (string, unit) result \<times> Manager" where
  "Register m name ip =
     (case To4 ip of
        None \<Rightarrow> (Inl (''domain record '' @ name @ '' requires an IPv4 address''), m)
      | Some ip4 \<Rightarrow>
          (let key = normalizeSuffix name in
           if records m key \<noteq> None
           then (Inl (''domain record '' @ name @ '' is already registered''), m)
           else (Inr (), m\<lparr>records := (records m)(key \<mapsto> ip4)\<rparr>)))"

definition candidate :: "string \<Rightarrow> string \<Rightarrow> nat \<Rightarrow> string" where
  "candidate pfx sfx k =
     (if k > 0 then pfx @ ''-'' @ nat_digits k else pfx) @ ''.'' @ sfx"

partial_function (option) register_loop ::
  "string \<Rightarrow> string \<Rightarrow> ip \<Rightarrow> (string \<rightharpoonup> ip) \<Rightarrow> nat \<Rightarrow> (string \<times> (string \<rightharpoonup> ip)) option" where
  "register_loop pfx sfx ip4 recs k =
     (let name = candidate pfx sfx k; key = normalizeSuffix name in
      if recs key \<noteq> None then register_loop pfx sfx ip4 recs (Suc k)
      else Some (name, recs(key \<mapsto> ip4)))"

definition RegisterTarget :: "Manager \<Rightarrow> string \<Rightarrow> ip \<Rightarrow> ((string, string) result \<times> Manager) option" where
  "RegisterTarget m target ip =
     (case To4 ip of
        None \<Rightarrow> Some (Inl (''target '' @ target @ '' requires an IPv4 address''), m)
      | Some ip4 \<Rightarrow>
          (case register_loop (TargetPrefix target) (mSuffix m) ip4 (records m) 0 of
             None \<Rightarrow> None
           | Some (name, recs) \<Rightarrow> Some (Inr name, m\<lparr>records := recs\<rparr>)))"

definition Unregister :: "Manager \<Rightarrow> string \<Rightarrow> Manager" where
  "Unregister m name = m\<lparr>records := (records m)(normalizeSuffix name := None)\<rparr>"

definition lookup :: "Manager \<Rightarrow> string \<Rightarrow> ip \<times> bool" where
  "lookup m name = (case records m (normalizeSuffix name) of None \<Rightarrow> ([], False) | Some ip \<Rightarrow> (ip, True))"

subsection \<open>DNS messages\<close>

function parse_labels :: "byte list \<Rightarrow> nat \<Rightarrow> string list \<Rightarrow> (string, string \<times> nat) result" where
  "parse_labels msg offset labels =
     (if offset \<ge> length msg then Inl ''qname overflow''
      else
        let l = msg ! offset; offset = offset + 1 in
        if l = 0 then Inr (Join labels ''.'', offset)
        else if l AND 0xc0 \<noteq> 0 then Inl ''compressed qname unsupported in question''
        else if offset + unat l > length msg then Inl ''qname label overflow''
        else parse_labels msg (offset + unat l) (labels @ [string_of_bytes (take (unat l) (drop offset msg))]))"
  by pat_completeness auto
termination by (relation "measure (\<lambda>(msg, offset, labels). length msg - offset)") auto

declare parse_labels.simps [simp del]

definition parseQName :: "byte list \<Rightarrow> nat \<Rightarrow> (string, string \<times> nat) result" where
  "parseQName msg offset = parse_labels msg offset []"

definition buildDNSResponse :: "byte list \<Rightarrow> nat \<Rightarrow> 16 word \<Rightarrow> ip \<Rightarrow> bool \<Rightarrow> byte list" where
  "buildDNSResponse req qEnd qtype ip found =
     (let answer = (found \<and> To4 ip \<noteq> None);
          flags = (if answer then 0x8180 else 0x8183);
          resp = take 2 req @ be16 flags @ take 2 (drop 4 req);
          resp = resp @ (if answer \<and> (qtype = 1 \<or> qtype = 255) then be16 1 else be16 0);
          resp = resp @ be16 0 @ be16 0 @ take (qEnd + 4 - 12) (drop 12 req)
      in if answer \<and> (qtype = 1 \<or> qtype = 255)
         then resp @ [0xc0, 0x0c] @ be16 1 @ be16 1 @ be32 30 @ be16 4 @ the (To4 ip)
         else resp)"

definition serve_packet :: "Manager \<Rightarrow> byte list \<Rightarrow> byte list option" where
  "serve_packet m msg =
     (case parseQName msg 12 of
        Inl err \<Rightarrow> None
      | Inr (name, qEnd) \<Rightarrow>
          if qEnd + 4 > length msg then None
          else
            let qtype = get16 (take 2 (drop qEnd msg));
                (ip, found) = lookup m name
            in Some (buildDNSResponse msg qEnd qtype ip found))"

subsection \<open>Prefixes are host labels\<close>

lemma prefix_char_props:
  assumes "prefix_char c"
  shows "c \<noteq> CHR ''-'' \<and> c \<noteq> CHR ''.'' \<and> \<not> is_space c \<and> lower_char c = c"
proof -
  have "of_char c \<in> {97..122::nat} \<or> of_char c \<in> {48..57::nat}"
    using assms by (auto simp: prefix_char_def Let_def)
  then show ?thesis by (auto simp: is_space_def lower_char_def)
qed

lemma is_digit_prefix_char: "is_digit c \<Longrightarrow> prefix_char c"
  by (simp add: is_digit_def prefix_char_def)

definition ldh_char :: "char \<Rightarrow> bool" where
  "ldh_char c = (prefix_char c \<or> c = CHR ''-'')"

lemma ldh_char_props: "ldh_char c \<Longrightarrow> c \<noteq> CHR ''.'' \<and> \<not> is_space c \<and> lower_char c = c"
  by (auto simp: ldh_char_def dest: prefix_char_props) (simp_all add: is_space_def lower_char_def)

lemma dash_runs_ldh: "c \<in> set (dash_runs b s) \<Longrightarrow> ldh_char c"
  by (induction b s rule: dash_runs.induct) (auto simp: ldh_char_def split: if_splits)

text \<open>No two dashes in a row, and none at the start when one was just written.\<close>

fun no_double_dash :: "string \<Rightarrow> bool" where
  "no_double_dash (c # d # s) = (\<not> (c = CHR ''-'' \<and> d = CHR ''-'') \<and> no_double_dash (d # s))"
| "no_double_dash _ = True"

lemma no_double_dash_Cons:
  "no_double_dash (c # s) \<longleftrightarrow> (s = [] \<or> \<not> (c = CHR ''-'' \<and> hd s = CHR ''-'')) \<and> no_double_dash s"
  by (cases s) auto

lemma dash_runs_no_double:
  "no_double_dash (dash_runs b s) \<and>
   (b \<longrightarrow> dash_runs b s = [] \<or> hd (dash_runs b s) \<noteq> CHR ''-'')"
  by (induction b s rule: dash_runs.induct)
     (auto simp: no_double_dash_Cons dest: prefix_char_props)

lemma no_double_dash_sublist: "no_double_dash (xs @ ys @ zs) \<Longrightarrow> no_double_dash ys"
proof (induction xs)
  case Nil
  then show ?case
  proof (induction ys)
    case (Cons y ys)
    then show ?case by (cases ys) (auto simp: no_double_dash_Cons)
  qed simp
next
  case (Cons x xs)
  then show ?case by (simp add: no_double_dash_Cons)
qed

lemma TrimFunc_infix: "\<exists>xs zs. s = xs @ TrimFunc p s @ zs"
proof -
  let ?t = "dropWhile p s"
  have "s = takeWhile p s @ ?t" by simp
  moreover have "rev ?t = takeWhile p (rev ?t) @ dropWhile p (rev ?t)" by simp
  then have "?t = rev (dropWhile p (rev ?t)) @ rev (takeWhile p (rev ?t))"
    by (metis rev_append rev_rev_ident)
  ultimately show ?thesis unfolding TrimFunc_def trim_left_def trim_right_def by metis
qed

lemma TrimFunc_ends:
  assumes "TrimFunc p s \<noteq> []"
  shows "\<not> p (hd (TrimFunc p s))" "\<not> p (last (TrimFunc p s))"
proof -
  let ?u = "dropWhile p (rev (dropWhile p s))"
  have u: "TrimFunc p s = rev ?u" by (simp add: TrimFunc_def trim_left_def trim_right_def)
  with assms have ne: "?u \<noteq> []" by auto
  have "\<not> p (hd ?u)" using ne hd_dropWhile by blast
  then show "\<not> p (last (TrimFunc p s))" using u ne by (simp add: last_rev)
  have "dropWhile p s \<noteq> []" using ne by (metis dropWhile.simps(1) rev.simps(1))
  then have h: "\<not> p (hd (dropWhile p s))" by (rule hd_dropWhile)
  obtain ys where ys: "rev (dropWhile p s) = ys @ ?u" by (metis takeWhile_dropWhile_id)
  then have "dropWhile p s = rev ?u @ rev ys" by (metis rev_append rev_rev_ident)
  then have "hd (dropWhile p s) = hd (rev ?u)" using ne by (metis hd_append2 rev_is_Nil_conv)
  with h show "\<not> p (hd (TrimFunc p s))" using u by simp
qed

text \<open>What \<open>TargetPrefix\<close> promises: a label of lower-case letters, digits and inner single dashes.\<close>

definition host_label :: "string \<Rightarrow> bool" where
  "host_label s \<longleftrightarrow> s \<noteq> [] \<and> list_all ldh_char s \<and> hd s \<noteq> CHR ''-'' \<and> last s \<noteq> CHR ''-'' \<and> no_double_dash s"

lemma TargetPrefix_label: "host_label (TargetPrefix target)"
proof -
  let ?d = "dash_runs False (ToLower (Trim (TrimSpace target) ''.''))"
  let ?p = "Trim ?d ''-''"
  show ?thesis
  proof (cases "?p = []")
    case True
    then have "TargetPrefix target = ''host''" by (simp add: TargetPrefix_def)
    then show ?thesis by (simp add: host_label_def ldh_char_def prefix_char_def)
  next
    case False
    then have t: "TargetPrefix target = ?p" by (simp add: TargetPrefix_def)
    have chars: "list_all ldh_char ?p"
      using set_TrimFunc [of _ ?d] dash_runs_ldh by (fastforce simp: list_all_iff Trim_def)
    obtain xs zs where "?d = xs @ ?p @ zs" using TrimFunc_infix unfolding Trim_def by blast
    then have "no_double_dash ?p"
      using dash_runs_no_double no_double_dash_sublist by metis
    with t chars False show ?thesis
      using TrimFunc_ends [of "\<lambda>c. c \<in> set ''-''" ?d] by (simp add: host_label_def Trim_def)
  qed
qed

subsection \<open>Registration\<close>

lemma normalize_append:
  assumes "xs \<noteq> []" and ends: "\<not> is_space (hd xs)" "hd xs \<noteq> CHR ''.''" "\<not> is_space (last xs)" "last xs \<noteq> CHR ''.''"
  shows "normalizeSuffix (xs @ ys) =
    ToLower xs @ ToLower (trim_right (\<lambda>c. c = CHR ''.'') (trim_right is_space ys))"
  using assms by (simp add: normalizeSuffix_def TrimSpace_def Trim_def TrimFunc_keep_front)

text \<open>The key of the k-th candidate is the candidate label with one fixed tail.\<close>

definition label :: "string \<Rightarrow> nat \<Rightarrow> string" where
  "label pfx k = (if k > 0 then pfx @ ''-'' @ nat_digits k else pfx)"

definition key_tail :: "string \<Rightarrow> string" where
  "key_tail sfx = ToLower (trim_right (\<lambda>c. c = CHR ''.'') (trim_right is_space (''.'' @ sfx)))"

lemma label_props:
  assumes "host_label pfx"
  shows "host_label pfx \<Longrightarrow> label pfx k \<noteq> []" "hd (label pfx k) = hd pfx" "prefix_char (last (label pfx k))"
    and "list_all ldh_char (label pfx k)"
proof -
  have pfx: "pfx \<noteq> []" "list_all ldh_char pfx" "last pfx \<noteq> CHR ''-''"
    using assms by (auto simp: host_label_def)
  show "label pfx k \<noteq> []" "hd (label pfx k) = hd pfx" using pfx by (auto simp: label_def)
  have "ldh_char (last pfx)" using pfx last_in_set [of pfx] by (auto simp: list_all_iff)
  moreover have "is_digit (last (nat_digits k))"
    using nat_digits_all_digits last_in_set nat_digits_nonempty by blast
  ultimately show "prefix_char (last (label pfx k))"
    using pfx by (auto simp: label_def ldh_char_def intro: is_digit_prefix_char)
  have "list_all ldh_char (nat_digits k)"
    by (auto simp: list_all_iff ldh_char_def intro: is_digit_prefix_char nat_digits_all_digits)
  then show "list_all ldh_char (label pfx k)"
    using pfx by (simp add: label_def ldh_char_def)
qed

lemma ToLower_ldh: "list_all ldh_char s \<Longrightarrow> ToLower s = s"
  by (induction s) (auto simp: ToLower_def dest: ldh_char_props)

lemma candidate_key:
  assumes "host_label pfx"
  shows "normalizeSuffix (candidate pfx sfx k) = label pfx k @ key_tail sfx"
proof -
  have c: "candidate pfx sfx k = label pfx k @ ''.'' @ sfx" by (simp add: candidate_def label_def)
  have "ldh_char (hd pfx)" "hd pfx \<noteq> CHR ''-''"
    using assms by (auto simp: host_label_def list_all_iff)
  then have "prefix_char (hd (label pfx k))" "prefix_char (last (label pfx k))"
    using label_props [OF assms, of k] by (auto simp: ldh_char_def)
  note ends = this [THEN prefix_char_props]
  have "normalizeSuffix (label pfx k @ ''.'' @ sfx) =
      ToLower (label pfx k) @ ToLower (trim_right (\<lambda>c. c = CHR ''.'') (trim_right is_space (''.'' @ sfx)))"
    using ends label_props(1) [OF assms assms] by (intro normalize_append) simp_all
  also have "ToLower (label pfx k) = label pfx k"
    by (rule ToLower_ldh [OF label_props(4) [OF assms]])
  finally show ?thesis by (simp add: c key_tail_def)
qed

lemma label_inj: "label pfx i = label pfx j \<Longrightarrow> i = j"
  by (auto simp: label_def split: if_splits)

definition key_of :: "Manager \<Rightarrow> string \<Rightarrow> nat \<Rightarrow> string" where
  "key_of m target k = label (TargetPrefix target) k @ key_tail (mSuffix m)"

lemma key_of_inj: "inj (key_of m target)"
  by (auto simp: inj_def key_of_def dest: label_inj)

lemma register_loop_first:
  assumes free: "recs (normalizeSuffix (candidate pfx sfx (k + n))) = None"
    and taken: "\<And>i. i < n \<Longrightarrow> recs (normalizeSuffix (candidate pfx sfx (k + i))) \<noteq> None"
  shows "register_loop pfx sfx ip4 recs k =
    Some (candidate pfx sfx (k + n), recs(normalizeSuffix (candidate pfx sfx (k + n)) \<mapsto> ip4))"
  using assms
proof (induction n arbitrary: k)
  case 0
  then show ?case by (subst register_loop.simps) (simp add: Let_def)
next
  case (Suc n)
  have "recs (normalizeSuffix (candidate pfx sfx k)) \<noteq> None" using Suc.prems(2) [of 0] by simp
  then have "register_loop pfx sfx ip4 recs k = register_loop pfx sfx ip4 recs (Suc k)"
    by (subst register_loop.simps) (simp add: Let_def)
  also have "\<dots> = Some (candidate pfx sfx (Suc k + n), recs(normalizeSuffix (candidate pfx sfx (Suc k + n)) \<mapsto> ip4))"
    using Suc.prems(1) Suc.prems(2) [of "Suc i" for i] by (intro Suc.IH) auto
  finally show ?case by (simp only: add_Suc add_Suc_right)
qed

definition manager_ok :: "Manager \<Rightarrow> bool" where
  "manager_ok m \<longleftrightarrow> finite (dom (records m)) \<and> (\<forall>ip \<in> ran (records m). length ip = 4)"

text \<open>The number of the first candidate name nobody holds.\<close>

definition first_free :: "Manager \<Rightarrow> string \<Rightarrow> nat" where
  "first_free m target = (LEAST k. records m (key_of m target k) = None)"

lemma first_free:
  assumes "finite (dom (records m))"
  shows "records m (key_of m target (first_free m target)) = None"
    and "i < first_free m target \<Longrightarrow> records m (key_of m target i) \<noteq> None"
    and "first_free m target \<le> card (dom (records m))"
proof -
  let ?n = "card (dom (records m))"
  have inj: "inj_on (key_of m target) {0..?n}" by (rule inj_on_subset [OF key_of_inj]) simp
  have "\<not> key_of m target ` {0..?n} \<subseteq> dom (records m)"
  proof
    assume "key_of m target ` {0..?n} \<subseteq> dom (records m)"
    then have "card {0..?n} \<le> ?n" using card_inj_on_le [OF inj _ assms] by blast
    then show False by simp
  qed
  then obtain x where "x \<in> key_of m target ` {0..?n}" "x \<notin> dom (records m)" by blast
  then obtain k where k: "k \<le> ?n" "records m (key_of m target k) = None" by (auto simp: domIff)
  show "records m (key_of m target (first_free m target)) = None"
    unfolding first_free_def using k(2) by (rule LeastI)
  show "i < first_free m target \<Longrightarrow> records m (key_of m target i) \<noteq> None"
    unfolding first_free_def by (blast dest: not_less_Least)
  show "first_free m target \<le> ?n"
    unfolding first_free_def using k by (meson Least_le le_trans)
qed

lemma RegisterTarget_eq:
  assumes fin: "finite (dom (records m))" and ip: "To4 ip = Some ip4"
  shows "RegisterTarget m target ip =
    Some (Inr (candidate (TargetPrefix target) (mSuffix m) (first_free m target)),
          m\<lparr>records := (records m)(key_of m target (first_free m target) \<mapsto> ip4)\<rparr>)"
proof -
  let ?p = "TargetPrefix target" and ?n = "first_free m target"
  have key: "normalizeSuffix (candidate ?p (mSuffix m) k) = key_of m target k" for k
    by (simp add: candidate_key [OF TargetPrefix_label] key_of_def)
  have "register_loop ?p (mSuffix m) ip4 (records m) 0 =
      Some (candidate ?p (mSuffix m) (0 + ?n), (records m)(normalizeSuffix (candidate ?p (mSuffix m) (0 + ?n)) \<mapsto> ip4))"
    using first_free(1,2) [OF fin] by (intro register_loop_first) (simp_all add: key)
  then show ?thesis by (simp add: RegisterTarget_def ip key)
qed

lemma Register_ok:
  "manager_ok m \<Longrightarrow> manager_ok (snd (Register m name ip))"
  by (auto simp: Register_def manager_ok_def Let_def length_To4 ran_def split: option.splits)

lemma Unregister_ok: "manager_ok m \<Longrightarrow> manager_ok (Unregister m name)"
  by (auto simp: Unregister_def manager_ok_def ran_def)

lemma NewManager_ok [simp]: "manager_ok (NewManager sfx addr)"
  by (simp add: NewManager_def manager_ok_def)

text \<open>C4. \<open>RegisterTarget\<close> returns on every IPv4 address: it takes the first name of the series
  label, label-1, label-2, ... that nobody holds (at most one step per existing record),
  binds it to the address and changes no other name; the returned name then resolves to it.\<close>

theorem RegisterTarget_spec:
  assumes "manager_ok m" "To4 ip = Some ip4"
  shows "\<exists>k m'. let name = candidate (TargetPrefix target) (mSuffix m) k in
    RegisterTarget m target ip = Some (Inr name, m') \<and> manager_ok m' \<and>
    lookup m name = ([], False) \<and> lookup m' name = (ip4, True) \<and> k \<le> card (dom (records m)) \<and>
    (\<forall>i < k. snd (lookup m (candidate (TargetPrefix target) (mSuffix m) i))) \<and>
    (\<forall>n. normalizeSuffix n \<noteq> normalizeSuffix name \<longrightarrow> lookup m' n = lookup m n)"
proof (intro exI)
  let ?k = "first_free m target"
  let ?m = "m\<lparr>records := (records m)(key_of m target ?k \<mapsto> ip4)\<rparr>"
  have fin: "finite (dom (records m))" using assms(1) by (simp add: manager_ok_def)
  have key: "normalizeSuffix (candidate (TargetPrefix target) (mSuffix m) k) = key_of m target k" for k
    by (simp add: candidate_key [OF TargetPrefix_label] key_of_def)
  note ff = first_free [OF fin, where target = target]
  have ok: "manager_ok ?m"
    using assms length_To4 [OF assms(2)] by (auto simp: manager_ok_def ran_def split: if_splits)
  have taken: "\<forall>i < ?k. snd (lookup m (candidate (TargetPrefix target) (mSuffix m) i))"
    using ff(2) by (fastforce simp: lookup_def key)
  show "let name = candidate (TargetPrefix target) (mSuffix m) ?k in
    RegisterTarget m target ip = Some (Inr name, ?m) \<and> manager_ok ?m \<and>
    lookup m name = ([], False) \<and> lookup ?m name = (ip4, True) \<and> ?k \<le> card (dom (records m)) \<and>
    (\<forall>i < ?k. snd (lookup m (candidate (TargetPrefix target) (mSuffix m) i))) \<and>
    (\<forall>n. normalizeSuffix n \<noteq> normalizeSuffix name \<longrightarrow> lookup ?m n = lookup m n)"
    using ff ok taken by (simp add: RegisterTarget_eq [OF fin assms(2)] lookup_def key Let_def)
qed

theorem RegisterTarget_spec_witness:
  "\<exists>m'. RegisterTarget (NewManager ''xiaot.sshx'' ''127.0.0.1:0'') ''root@debian:2222'' [127, 64, 0, 1] =
      Some (Inr ''root-debian-2222.xiaot.sshx'', m') \<and>
    lookup m' ''root-debian-2222.xiaot.sshx'' = ([127, 64, 0, 1], True)"
proof -
  have m: "manager_ok (NewManager ''xiaot.sshx'' ''127.0.0.1:0'')" by simp
  have ip: "To4 [127, 64, 0, 1] = Some [127, 64, 0, 1]" by simp
  let ?m = "NewManager ''xiaot.sshx'' ''127.0.0.1:0''"
  have "card (dom (records ?m)) = 0" by (simp add: NewManager_def)
  then have "\<exists>m'. let name = candidate (TargetPrefix ''root@debian:2222'') (mSuffix ?m) 0 in
      RegisterTarget ?m ''root@debian:2222'' [127, 64, 0, 1] = Some (Inr name, m') \<and>
      lookup m' name = ([127, 64, 0, 1], True)"
    using RegisterTarget_spec [OF m ip, of "''root@debian:2222''"] unfolding Let_def by fastforce
  moreover have "candidate (TargetPrefix ''root@debian:2222'') (mSuffix ?m) 0 = ''root-debian-2222.xiaot.sshx''"
    by code_simp
  ultimately show ?thesis by (simp add: Let_def)
qed

subsection \<open>The registry as an allocator\<close>

definition allocName :: "string \<times> ip \<Rightarrow> Manager \<Rightarrow> (string \<times> Manager) option" where
  "allocName r m =
     (case RegisterTarget m (fst r) (snd r) of Some (Inr name, m') \<Rightarrow> Some (name, m') | _ \<Rightarrow> None)"

lemma allocName_eq:
  assumes "manager_ok m" "allocName r m = Some (name, m')"
  shows "\<exists>ip4. To4 (snd r) = Some ip4 \<and> records m (normalizeSuffix name) = None \<and>
    m' = m\<lparr>records := (records m)(normalizeSuffix name \<mapsto> ip4)\<rparr>"
proof -
  have fin: "finite (dom (records m))" using assms(1) by (simp add: manager_ok_def)
  have key: "normalizeSuffix (candidate (TargetPrefix (fst r)) (mSuffix m) k) = key_of m (fst r) k" for k
    by (simp add: candidate_key [OF TargetPrefix_label] key_of_def)
  show ?thesis
  proof (cases "To4 (snd r)")
    case None
    then show ?thesis using assms(2) by (simp add: allocName_def RegisterTarget_def)
  next
    case (Some ip4)
    then show ?thesis
      using assms(2) first_free(1) [OF fin, of "fst r"]
      by (auto simp: allocName_def RegisterTarget_eq [OF fin Some] key)
  qed
qed

interpretation names: allocator allocName "\<lambda>name m. Unregister m name" normalizeSuffix
  "\<lambda>m. dom (records m)" manager_ok
proof
  fix m m' :: Manager and r k
  assume ok: "manager_ok m" and a: "allocName r m = Some (k, m')"
  obtain ip4 where ip: "To4 (snd r) = Some ip4" and none: "records m (normalizeSuffix k) = None"
    and m': "m' = m\<lparr>records := (records m)(normalizeSuffix k \<mapsto> ip4)\<rparr>"
    using allocName_eq [OF ok a] by blast
  show "normalizeSuffix k \<notin> dom (records m)" using none by (simp add: domIff)
  show "dom (records m') = insert (normalizeSuffix k) (dom (records m))" by (simp add: m')
  show "manager_ok m'" using ok length_To4 [OF ip] none
    by (auto simp: manager_ok_def m' ran_def)
qed (auto simp: Unregister_def Unregister_ok [unfolded Unregister_def])

subsection \<open>DNS queries\<close>

text \<open>The question of a query, as a resolver writes it: length-prefixed labels, then zero.\<close>

definition encode_label :: "string \<Rightarrow> byte list" where
  "encode_label w = of_nat (length w) # bytes_of_string w"

definition encode_qname :: "string list \<Rightarrow> byte list" where
  "encode_qname ws = concat (map encode_label ws) @ [0]"

definition dns_label :: "string \<Rightarrow> bool" where
  "dns_label w \<longleftrightarrow> 0 < length w \<and> length w < 64"

lemma label_length_byte:
  assumes "dns_label w"
  shows "unat (of_nat (length w) :: byte) = length w" "(of_nat (length w) :: byte) \<noteq> 0"
    "(of_nat (length w) :: byte) AND 0xc0 = 0"
proof -
  let ?b = "of_nat (length w) :: byte"
  have n: "length w < 64" "0 < length w" using assms by (auto simp: dns_label_def)
  then show u: "unat ?b = length w" by (simp add: unat_of_nat take_bit_nat_eq_self)
  then show "?b \<noteq> 0" using n by (metis unat_0 less_numeral_extra(3))
  have "?b = take_bit 6 ?b"
  proof (rule word_unat_eq_iff [THEN iffD2])
    have "unat (take_bit 6 ?b) = take_bit 6 (unat ?b)" by (simp add: unsigned_take_bit_eq)
    then show "unat ?b = unat (take_bit 6 ?b)" using u n by (simp add: take_bit_nat_eq_self)
  qed
  moreover have "take_bit 6 ?b AND 0xc0 = 0"
    by (rule bit_word_eqI) (auto simp: bit_simps bit_numeral_rec less_Suc_eq numeral_eq_Suc)
  ultimately show "?b AND 0xc0 = 0" by simp
qed

lemma parse_labels_step:
  assumes "offset < length msg" "msg ! offset = l" "l \<noteq> 0" "l AND 0xc0 = 0"
    and "offset + 1 + unat l \<le> length msg"
  shows "parse_labels msg offset acc = parse_labels msg (offset + 1 + unat l)
    (acc @ [string_of_bytes (take (unat l) (drop (offset + 1) msg))])"
  using assms by (subst parse_labels.simps) (simp add: Let_def)

lemma parse_labels_encoded:
  assumes "\<And>w. w \<in> set ws \<Longrightarrow> dns_label w"
  shows "parse_labels (pre @ encode_qname ws @ post) (length pre) acc =
    Inr (Join (acc @ ws) ''.'', length pre + length (encode_qname ws))"
  using assms
proof (induction ws arbitrary: pre acc)
  case Nil
  then show ?case by (subst parse_labels.simps) (simp add: encode_qname_def nth_append Let_def)
next
  case (Cons w ws)
  let ?msg = "pre @ encode_qname (w # ws) @ post"
  let ?pre = "pre @ encode_label w"
  have w: "dns_label w" using Cons.prems by simp
  note b = label_length_byte [OF w]
  have msg: "?msg = ?pre @ encode_qname ws @ post" by (simp add: encode_qname_def)
  have split: "?msg = pre @ of_nat (length w) # bytes_of_string w @ encode_qname ws @ post"
    by (simp add: encode_qname_def encode_label_def)
  have at: "?msg ! length pre = of_nat (length w)" by (simp add: split nth_append)
  have seg: "take (length w) (drop (length pre + 1) ?msg) = bytes_of_string w"
    by (simp add: split)
  have len: "length pre < length ?msg" "length pre + 1 + length w \<le> length ?msg"
    by (simp_all add: split)
  have "parse_labels ?msg (length pre) acc = parse_labels ?msg (length pre + 1 + length w) (acc @ [w])"
    using parse_labels_step [OF len(1) at b(2,3), of acc] len(2) by (simp only: b(1) seg string_of_bytes_of_string)
  also have "\<dots> = parse_labels (?pre @ encode_qname ws @ post) (length ?pre) (acc @ [w])"
    by (simp add: msg encode_label_def)
  also have "\<dots> = Inr (Join ((acc @ [w]) @ ws) ''.'', length ?pre + length (encode_qname ws))"
    using Cons.prems by (intro Cons.IH) simp
  finally show ?case by (simp add: encode_qname_def encode_label_def)
qed

text \<open>\<open>parseQName\<close> reads back any encoded question name, at any offset, and returns the
  offset just behind it.\<close>

theorem parseQName_roundtrip:
  assumes "list_all dns_label ws"
  shows "parseQName (pre @ encode_qname ws @ post) (length pre) =
    Inr (Join ws ''.'', length pre + length (encode_qname ws))"
  using parse_labels_encoded [of ws pre post "[]"] assms by (simp add: parseQName_def list_all_iff)

theorem parseQName_roundtrip_witness:
  "parseQName ([7] @ encode_qname [''foo'', ''sshx''] @ [0, 1]) 1 = Inr (''foo.sshx'', 11)"
  using parseQName_roundtrip [of "[''foo'', ''sshx'']" "[7]" "[0, 1]"]
  by (simp add: dns_label_def encode_qname_def encode_label_def)

lemma parse_labels_bounds:
  "parse_labels msg offset labels = Inr (name, qEnd) \<Longrightarrow> offset < qEnd \<and> qEnd \<le> length msg"
proof (induction msg offset labels rule: parse_labels.induct)
  case (1 msg offset labels)
  let ?l = "msg ! offset"
  have in1: "\<not> length msg \<le> offset"
    using "1.prems" by (subst (asm) parse_labels.simps) (auto split: if_splits)
  show ?case
  proof (cases "?l = 0")
    case True
    then show ?thesis using "1.prems" in1
      by (subst (asm) parse_labels.simps) (auto simp: Let_def split: if_splits)
  next
    case False
    then have "offset + 1 + unat ?l < qEnd \<and> qEnd \<le> length msg"
      using "1.prems" in1 "1.IH" [OF in1 refl refl False]
      by (subst (asm) parse_labels.simps) (auto simp: Let_def split: if_splits)
    then show ?thesis by simp
  qed
qed

text \<open>A query datagram: a 12 byte header, the question, its type and class, and whatever follows.\<close>

definition query :: "byte list \<Rightarrow> string list \<Rightarrow> 16 word \<Rightarrow> 16 word \<Rightarrow> byte list \<Rightarrow> byte list" where
  "query hdr ws qtype qclass rest = hdr @ encode_qname ws @ be16 qtype @ be16 qclass @ rest"

text \<open>The response the protocol asks for: the query's id and question, one address record when
  the name exists and an address was asked for, name error when it does not exist.\<close>

definition response :: "byte list \<Rightarrow> string list \<Rightarrow> 16 word \<Rightarrow> 16 word \<Rightarrow> ip option \<Rightarrow> byte list" where
  "response hdr ws qtype qclass answer =
     take 2 hdr @ be16 (if answer = None then 0x8183 else 0x8180) @ take 2 (drop 4 hdr) @
     be16 (if answer \<noteq> None \<and> qtype \<in> {1, 255} then 1 else 0) @ be16 0 @ be16 0 @
     encode_qname ws @ be16 qtype @ be16 qclass @
     (case answer of None \<Rightarrow> []
      | Some ip4 \<Rightarrow> if qtype \<in> {1, 255} then [0xc0, 12] @ be16 1 @ be16 1 @ be32 30 @ be16 4 @ ip4 else [])"

lemma serve_query:
  assumes hdr: "length hdr = 12" and ws: "list_all dns_label ws" and ok: "manager_ok m"
  shows "serve_packet m (query hdr ws qtype qclass rest) =
    Some (response hdr ws qtype qclass (records m (normalizeSuffix (Join ws ''.''))))"
proof -
  let ?q = "encode_qname ws" and ?msg = "query hdr ws qtype qclass rest"
  let ?qe = "12 + length ?q" and ?name = "Join ws ''.''"
  have parse: "parseQName ?msg 12 = Inr (?name, ?qe)"
    using parse_labels_encoded [of ws hdr "be16 qtype @ be16 qclass @ rest" "[]"] ws hdr
    by (simp add: parseQName_def query_def list_all_iff)
  have qt: "get16 (take 2 (drop ?qe ?msg)) = qtype"
    using hdr get16_be16 [of qtype "[]"] by (simp add: query_def)
  have question: "take (?qe + 4 - 12) (drop 12 ?msg) = ?q @ be16 qtype @ be16 qclass"
    using hdr by (simp add: query_def)
  have head: "take 2 ?msg = take 2 hdr" "take 2 (drop 4 ?msg) = take 2 (drop 4 hdr)"
    using hdr by (simp_all add: query_def)
  have len: "\<not> ?qe + 4 > length ?msg" using hdr by (simp add: query_def)
  have serve: "serve_packet m ?msg =
      Some (buildDNSResponse ?msg ?qe qtype (fst (lookup m ?name)) (snd (lookup m ?name)))"
    using len by (simp add: serve_packet_def parse qt Let_def split: prod.splits)
  show ?thesis
  proof (cases "records m (normalizeSuffix ?name)")
    case None
    then show ?thesis
      unfolding serve buildDNSResponse_def question head
      by (simp add: lookup_def response_def Let_def)
  next
    case (Some ip)
    then have "length ip = 4" using ok by (auto simp: manager_ok_def ran_def)
    then have "To4 ip = Some ip" by simp
    with Some show ?thesis
      unfolding serve buildDNSResponse_def question head
      by (simp add: lookup_def response_def Let_def)
  qed
qed

text \<open>C2. From registration to resolution: after \<open>RegisterTarget\<close> gave a target a name, an A
  query for it is answered with exactly that address, and the answer for any other name is
  what it was before.\<close>

theorem registered_name_resolves:
  assumes "manager_ok m" "To4 ip = Some ip4" "RegisterTarget m target ip = Some (Inr name, m')"
    and "name = Join ws ''.''" "list_all dns_label ws" "list_all dns_label ws'" "length hdr = 12"
    and "normalizeSuffix (Join ws' ''.'') \<noteq> normalizeSuffix name"
  shows "serve_packet m' (query hdr ws 1 1 rest) = Some (response hdr ws 1 1 (Some ip4)) \<and>
    serve_packet m' (query hdr ws' qtype 1 rest) = serve_packet m (query hdr ws' qtype 1 rest)"
proof -
  have a: "allocName (target, ip) m = Some (name, m')" using assms(3) by (simp add: allocName_def)
  then have ok: "manager_ok m'" by (rule names.alloc_ok [OF assms(1)])
  obtain "records m' = (records m)(normalizeSuffix name \<mapsto> ip4)"
    using allocName_eq [OF assms(1) a] assms(2) by auto
  then show ?thesis using assms ok by (simp add: serve_query)
qed

theorem registered_name_resolves_witness:
  "\<exists>m'. serve_packet m' (query (replicate 12 7) [''debian'', ''sshx''] 1 1 []) =
    Some (response (replicate 12 7) [''debian'', ''sshx''] 1 1 (Some [127, 64, 0, 1]))"
proof -
  let ?m = "NewManager ''sshx'' ''127.0.0.1:0''"
  have m: "manager_ok ?m" by simp
  have fin: "finite (dom (records ?m))" by (simp add: NewManager_def)
  have ip: "To4 [127, 64, 0, 1] = Some [127, 64, 0, 1]" by simp
  have "first_free ?m ''debian'' = 0"
    using first_free(3) [OF fin, of "''debian''"] by (simp add: NewManager_def)
  then obtain m' where reg: "RegisterTarget ?m ''debian'' [127, 64, 0, 1] =
      Some (Inr (candidate (TargetPrefix ''debian'') (mSuffix ?m) 0), m')"
    using RegisterTarget_eq [OF fin ip, of "''debian''"] by simp
  have name: "candidate (TargetPrefix ''debian'') (mSuffix ?m) 0 = ''debian.sshx''" by code_simp
  have ws: "''debian.sshx'' = Join [''debian'', ''sshx''] ''.''" by simp
  have n1: "normalizeSuffix (Join [''other''] ''.'') \<noteq> normalizeSuffix ''debian.sshx''" by code_simp
  have l: "list_all dns_label [''debian'', ''sshx'']" "list_all dns_label [''other'']"
    by (simp_all add: dns_label_def)
  show ?thesis
    using registered_name_resolves [OF m ip reg [unfolded name] ws l(1) l(2) _ n1,
      of "replicate 12 7" "[]"] by auto
qed

end
