(* ===== verification/Loopback.thy ===== *)
theory Loopback
  imports GoStrings
begin

text \<open>
  \<open>internal/loopback/pool.go\<close> (the pool of loopback addresses targets listen on) and
  \<open>internal/cli/loopback.go\<close> (which pool addresses are not configured yet on macOS, read from
  the output of \<open>ifconfig lo0\<close>). Go's leftmost-first search for
  \<open>(?m)^\s*inet\s+127\.64\.0\.(\d+)\s\<close> never has to back track, so a match at a line start is
  a function, \<open>match_alias\<close>; its character class \<open>\s\<close> is tab, line feed, form feed, return, blank.
\<close>

definition Prefix :: string where
  "Prefix = ''127.64.0.''"

definition Size :: nat where
  "Size = 64"

definition Address :: "int \<Rightarrow> string" where
  "Address index = (if index < 0 \<or> index \<ge> int Size then [] else Prefix @ Itoa (index + 1))"

definition re_space :: "char \<Rightarrow> bool" where
  "re_space c = (c \<in> {CHR 0x09, CHR 0x0A, CHR 0x0C, CHR 0x0D, CHR '' ''})"

text \<open>A match from the start of \<open>s\<close>: the captured digits, the last byte of the match and the text
  behind it.\<close>

definition match_alias :: "string \<Rightarrow> (string \<times> char \<times> string) option" where
  "match_alias s =
     (let t = dropWhile re_space s in
      if \<not> HasPrefix t ''inet'' then None
      else
        let u = drop 4 t in
        if u = [] \<or> \<not> re_space (hd u) then None
        else
          let v = dropWhile re_space u in
          if \<not> HasPrefix v Prefix then None
          else
            let w = drop (length Prefix) v; d = takeWhile is_digit w; r = dropWhile is_digit w in
            if d = [] \<or> r = [] \<or> \<not> re_space (hd r) then None else Some (d, hd r, tl r))"

lemma length_dropWhile_bound: "length xs \<le> n \<Longrightarrow> length (dropWhile p xs) \<le> n"
  using length_dropWhile_le [of p xs] by simp

lemma match_alias_shorter: "match_alias s = Some (d, c, r) \<Longrightarrow> length r < length s"
proof -
  assume m: "match_alias s = Some (d, c, r)"
  define t where "t = dropWhile re_space s"
  define v where "v = dropWhile re_space (drop 4 t)"
  define w where "w = dropWhile is_digit (drop (length Prefix) v)"
  have r: "w \<noteq> []" "r = tl w"
    using m by (auto simp: match_alias_def Let_def t_def v_def w_def split: if_splits)
  have "length w \<le> length s"
    unfolding w_def v_def t_def
    by (intro length_dropWhile_bound) (auto intro!: le_trans [OF diff_le_self] length_dropWhile_bound)
  with r show ?thesis by (cases w) auto
qed

text \<open>All matches, left to right; \<open>bol\<close> says the position is the start of a line.\<close>

function find_aliases :: "bool \<Rightarrow> string \<Rightarrow> string list" where
  "find_aliases bol s =
     (case (if bol then match_alias s else None) of
        Some (d, c, r) \<Rightarrow> d # find_aliases (c = CHR 0x0A) r
      | None \<Rightarrow> (case s of [] \<Rightarrow> [] | c # s' \<Rightarrow> find_aliases (c = CHR 0x0A) s'))"
  by pat_completeness auto
termination
  by (relation "measure (\<lambda>(bol, s). length s)") (auto dest: match_alias_shorter split: if_splits)

declare find_aliases.simps [simp del]

definition missingLoopbackAliases :: "string \<Rightarrow> string list" where
  "missingLoopbackAliases ifconfigOutput =
     (let present = set (map (\<lambda>d. Prefix @ d) (find_aliases True ifconfigOutput))
      in filter (\<lambda>ip. ip \<notin> present) (map (\<lambda>i. Address (int i)) [0..<Size]))"

definition loopbackAliasCommands :: "string \<Rightarrow> string option \<Rightarrow> string list" where
  "loopbackAliasCommands goos out =
     (if goos \<noteq> ''darwin'' then []
      else map (\<lambda>ip. ''ifconfig lo0 alias '' @ ip @ '' up'')
             (missingLoopbackAliases (case out of None \<Rightarrow> [] | Some o' \<Rightarrow> o')))"

definition joinShellCommands :: "string list \<Rightarrow> string" where
  "joinShellCommands cmds = Join cmds '' ; ''"

subsection \<open>Addresses\<close>

lemma Address_in_pool: "i < Size \<Longrightarrow> Address (int i) = Prefix @ nat_digits (i + 1)"
  by (simp add: Address_def) (metis Itoa_of_nat of_nat_Suc add.commute)

lemma Address_inj: "i < Size \<Longrightarrow> j < Size \<Longrightarrow> Address (int i) = Address (int j) \<Longrightarrow> i = j"
  by (simp add: Address_in_pool)

lemma Address_nonempty: "i < Size \<Longrightarrow> Address (int i) \<noteq> []"
  by (simp add: Address_in_pool Prefix_def)

definition pool :: "string list" where
  "pool = map (\<lambda>i. Address (int i)) [0..<Size]"

lemma distinct_pool: "distinct pool"
  by (auto simp: pool_def distinct_map inj_on_def dest: Address_inj)

lemma length_pool [simp]: "length pool = 64"
  by (simp add: pool_def Size_def)

subsection \<open>Reading the output of ifconfig\<close>

text \<open>A line that shows an address: blanks, \<open>inet\<close>, the address, a blank and other text.\<close>

definition inet_line :: "string \<Rightarrow> string \<Rightarrow> string" where
  "inet_line ip tail = CHR 0x09 # ''inet '' @ ip @ '' '' @ tail @ [CHR 0x0A]"

lemma find_aliases_skip:
  "CHR 0x0A \<notin> set xs \<Longrightarrow> find_aliases False (xs @ CHR 0x0A # rest) = find_aliases True rest"
proof (induction xs)
  case Nil
  show ?case by (subst find_aliases.simps) simp
next
  case (Cons x xs)
  then have "(x = CHR 0x0A) = False" "CHR 0x0A \<notin> set xs" by auto
  with Cons.IH show ?case by (subst find_aliases.simps) simp
qed

lemma dropWhile_digits: "(\<And>c. c \<in> set d \<Longrightarrow> is_digit c) \<Longrightarrow> \<not> is_digit x \<Longrightarrow>
    takeWhile is_digit (d @ x # r) = d \<and> dropWhile is_digit (d @ x # r) = x # r"
  by (simp add: takeWhile_append dropWhile_append)

lemma match_inet_line:
  "match_alias (inet_line (Prefix @ nat_digits n) tail @ rest) =
     Some (nat_digits n, CHR '' '', tail @ CHR 0x0A # rest)"
proof -
  have d: "takeWhile is_digit (nat_digits n @ CHR '' '' # r) = nat_digits n"
      "dropWhile is_digit (nat_digits n @ CHR '' '' # r) = CHR '' '' # r" for r
    using dropWhile_digits [of "nat_digits n" "CHR '' ''" r] nat_digits_all_digits
    by (auto simp: is_digit_def)
  show ?thesis
    by (simp add: match_alias_def inet_line_def re_space_def Prefix_def d Let_def is_digit_def [of "CHR '' ''"])
qed

lemma find_aliases_inet_lines:
  "\<forall>(n, tail) \<in> set ls. CHR 0x0A \<notin> set tail \<Longrightarrow>
   find_aliases True (concat (map (\<lambda>(n, tail). inet_line (Prefix @ nat_digits n) tail) ls)) =
     map (\<lambda>(n, tail). nat_digits n) ls"
proof (induction ls)
  case Nil
  show ?case by (simp add: find_aliases.simps [of True "[]"] match_alias_def)
next
  case (Cons l ls)
  obtain n tail where l: "l = (n, tail)" by (cases l)
  let ?rest = "concat (map (\<lambda>(n, tail). inet_line (Prefix @ nat_digits n) tail) ls)"
  have "find_aliases True (inet_line (Prefix @ nat_digits n) tail @ ?rest) =
      nat_digits n # find_aliases False (tail @ CHR 0x0A # ?rest)"
    by (subst find_aliases.simps) (simp add: match_inet_line)
  also have "\<dots> = nat_digits n # find_aliases True ?rest"
    using Cons.prems l by (simp add: find_aliases_skip)
  finally show ?case using Cons l by simp
qed

text \<open>On an interface listing that shows the addresses \<open>127.64.0.n\<close> of \<open>ls\<close>, exactly the pool
  addresses that are not among them are reported missing, in pool order.\<close>

theorem missing_aliases_of_listing:
  assumes "\<forall>(n, tail) \<in> set ls. CHR 0x0A \<notin> set tail"
  shows "missingLoopbackAliases (concat (map (\<lambda>(n, tail). inet_line (Prefix @ nat_digits n) tail) ls)) =
    filter (\<lambda>ip. ip \<notin> (\<lambda>(n, tail). Prefix @ nat_digits n) ` set ls) pool"
  using find_aliases_inet_lines [OF assms]
  by (auto simp: missingLoopbackAliases_def pool_def image_image case_prod_beta intro!: filter_cong)

theorem missing_aliases_of_listing_witness:
  "length (missingLoopbackAliases (inet_line ''127.64.0.1'' ''netmask 0xff000000'')) = 63"
proof -
  have l: "\<forall>(n, tail) \<in> set [(1, ''netmask 0xff000000'')]. CHR 0x0A \<notin> set tail" by simp
  have one: "Prefix @ nat_digits 1 = ''127.64.0.1''" by code_simp
  have "''127.64.0.1'' = Address (int 0)" by code_simp
  then have "''127.64.0.1'' \<in> set pool" unfolding pool_def Size_def by (metis imageI atLeastLessThan_iff set_map set_upt zero_le zero_less_numeral)
  then have "length (remove1 ''127.64.0.1'' pool) = 63" by (simp add: length_remove1)
  then have "length (removeAll ''127.64.0.1'' pool) = 63"
    using distinct_remove1_removeAll [OF distinct_pool] by simp
  moreover have "filter (\<lambda>ip. ip \<noteq> ''127.64.0.1'') pool = filter ((\<noteq>) ''127.64.0.1'') pool"
    by (rule filter_cong) auto
  ultimately have "length (filter (\<lambda>ip. ip \<noteq> ''127.64.0.1'') pool) = 63"
    by (simp add: removeAll_filter_not_eq)
  then show ?thesis
    using missing_aliases_of_listing [OF l] one by simp
qed

end
