(* ===== verification/ForwardManager.thy ===== *)
theory ForwardManager
  imports SshArgs
begin

text \<open>
  \<open>internal/forward/forward.go\<close>: the manager of the local port forwards of one target. Its
  methods hold the mutex only around the map \<open>byRemote\<close> and open and close listeners and run
  ssh control commands outside it. Each method is a sequence of the definitions below, one per
  locked region and one per outside action; \<open>fstep\<close> interleaves any number of callers at that
  granularity. The outcome of \<open>net.Listen\<close> and of the control command is the choice of the
  step; \<open>sshFwds\<close> records the forwards an ssh master has been told to hold.
\<close>

record Forward =
  fwRemotePort :: int
  fwLocalPort :: int
  fwListenIP :: string
  fwSpec :: string
  fwSshPath :: string
  fwSshArgs :: "string list"
  fwControlPath :: string
  fwListener :: "nat option"

record Entry =
  eRemotePort :: int
  eLocalPort :: int
  eListenIP :: string

record FwdManager =
  byRemote :: "int \<rightharpoonup> Forward"
  stopped :: bool

definition NewDynamicManager :: FwdManager where
  "NewDynamicManager = \<lparr>byRemote = Map.empty, stopped = False\<rparr>"

type_synonym ensured = "(string, Forward) result"

text \<open>The first locked region of \<open>Ensure\<close> and the check behind it; \<open>None\<close> goes on.\<close>

definition ensure_check :: "FwdManager \<Rightarrow> int \<Rightarrow> string \<Rightarrow> ensured option" where
  "ensure_check m remotePort listenIP =
     (if stopped m then Some (Inl ''forward manager is stopped'')
      else case byRemote m remotePort of
        Some f \<Rightarrow> Some (Inr f)
      | None \<Rightarrow> if listenIP = [] then Some (Inl ''listen IP is required'') else None)"

definition control_forward :: "int \<Rightarrow> string \<Rightarrow> string \<Rightarrow> string \<Rightarrow> string list \<Rightarrow> string \<Rightarrow> Forward" where
  "control_forward remotePort listenIP remoteHost sshPath sshArgs controlPath =
     \<lparr>fwRemotePort = remotePort, fwLocalPort = remotePort, fwListenIP = listenIP,
      fwSpec = LocalForwardSpec listenIP remotePort remoteHost, fwSshPath = sshPath,
      fwSshArgs = sshArgs, fwControlPath = controlPath, fwListener = None\<rparr>"

definition listener_forward :: "int \<Rightarrow> string \<Rightarrow> nat \<Rightarrow> Forward" where
  "listener_forward remotePort listenIP ln =
     \<lparr>fwRemotePort = remotePort, fwLocalPort = remotePort, fwListenIP = listenIP, fwSpec = [],
      fwSshPath = [], fwSshArgs = [], fwControlPath = [], fwListener = Some ln\<rparr>"

text \<open>After a failed control command: another caller may have registered the port meanwhile.\<close>

definition ensure_recover :: "FwdManager \<Rightarrow> int \<Rightarrow> string \<Rightarrow> ensured" where
  "ensure_recover m remotePort err =
     (case byRemote m remotePort of Some existing \<Rightarrow> Inr existing | None \<Rightarrow> Inl err)"

text \<open>The last locked region of \<open>Ensure\<close>: what to do with the freshly opened forward.\<close>

datatype registration = Registered | LostRace Forward | Stopped

definition ensure_register :: "FwdManager \<Rightarrow> Forward \<Rightarrow> int \<Rightarrow> registration \<times> FwdManager" where
  "ensure_register m f remotePort =
     (if stopped m then (Stopped, m)
      else case byRemote m remotePort of
        Some existing \<Rightarrow> (LostRace existing, m)
      | None \<Rightarrow> (Registered, m\<lparr>byRemote := (byRemote m)(remotePort \<mapsto> f)\<rparr>))"

definition List_entry :: "Forward \<Rightarrow> Entry" where
  "List_entry f = \<lparr>eRemotePort = fwRemotePort f, eLocalPort = fwLocalPort f, eListenIP = fwListenIP f\<rparr>"

definition ListForwards :: "(int set \<Rightarrow> int list) \<Rightarrow> FwdManager \<Rightarrow> Entry list" where
  "ListForwards iter m = map (\<lambda>p. List_entry (the (byRemote m p))) (iter (dom (byRemote m)))"

text \<open>The locked regions of \<open>Remove\<close> and \<open>Stop\<close>: the forwards to drop afterwards.\<close>

definition remove_locked :: "FwdManager \<Rightarrow> int \<Rightarrow> FwdManager \<times> Forward list" where
  "remove_locked m remotePort =
     (m\<lparr>byRemote := (byRemote m)(remotePort := None)\<rparr>,
      case byRemote m remotePort of None \<Rightarrow> [] | Some f \<Rightarrow> [f])"

definition stop_locked :: "(int set \<Rightarrow> int list) \<Rightarrow> FwdManager \<Rightarrow> FwdManager \<times> Forward list" where
  "stop_locked iter m =
     (if stopped m then (m, [])
      else (m\<lparr>stopped := True, byRemote := Map.empty\<rparr>, map (\<lambda>p. the (byRemote m p)) (iter (dom (byRemote m)))))"

text \<open>The outside actions: \<open>abandon\<close> closes the listener, \<open>drop\<close> also cancels the ssh forward.\<close>

definition abandon :: "Forward \<Rightarrow> nat set \<Rightarrow> nat set" where
  "abandon f ls = (case fwListener f of None \<Rightarrow> ls | Some l \<Rightarrow> ls - {l})"

definition drop_cancels :: "Forward \<Rightarrow> bool" where
  "drop_cancels f = (\<not> (fwControlPath f = [] \<or> fwSpec f = [] \<or> fwSshPath f = []))"

definition dropForward ::
  "Forward \<Rightarrow> nat set \<times> (string \<times> string) set \<Rightarrow> nat set \<times> (string \<times> string) set" where
  "dropForward f = (\<lambda>(ls, ssh).
     (abandon f ls, if drop_cancels f then ssh - {(fwControlPath f, fwSpec f)} else ssh))"

text \<open>The command line of a control operation of the manager.\<close>

definition controlOp :: "string list \<Rightarrow> string \<Rightarrow> string \<Rightarrow> string \<Rightarrow> string list" where
  "controlOp sshArgs controlPath operation spec = ControlOperationArgs sshArgs controlPath operation ''L'' spec"

subsection \<open>Interleaved callers\<close>

datatype pc =
    EnsureOpen int string string
  | EnsureFailed int string
  | EnsureOpened Forward
  | Abandoning Forward ensured
  | Dropping "Forward list" "ensured option"
  | Returned "ensured option"

text \<open>
  The middle part of \<open>Ensure\<close>: with a control path the ssh master is asked to forward
  (\<open>controlErr\<close> is its error, if any), without one the manager listens itself.
\<close>

definition ensure_open ::
  "int \<Rightarrow> string \<Rightarrow> string \<Rightarrow> string \<times> string list \<times> string \<Rightarrow> string option \<Rightarrow> (string, nat) result \<Rightarrow> pc" where
  "ensure_open remotePort listenIP remoteHost transport controlErr listen =
     (let (sshPath, sshArgs, controlPath) = transport in
      if controlPath \<noteq> [] then
        if sshPath = [] then Returned (Some (Inl ''ssh control transport is unavailable''))
        else case controlErr of
          Some err \<Rightarrow> EnsureFailed remotePort err
        | None \<Rightarrow> EnsureOpened (control_forward remotePort listenIP remoteHost sshPath sshArgs controlPath)
      else case listen of
        Inl err \<Rightarrow> Returned (Some (Inl err))
      | Inr ln \<Rightarrow> EnsureOpened (listener_forward remotePort listenIP ln))"

text \<open>\<open>Ensure\<close> without interference, and the forward it has to drop again, if any.\<close>

definition Ensure ::
  "FwdManager \<Rightarrow> int \<Rightarrow> string \<Rightarrow> string \<Rightarrow> string \<times> string list \<times> string \<Rightarrow> string option \<Rightarrow>
   (string, nat) result \<Rightarrow> ensured \<times> FwdManager \<times> Forward option" where
  "Ensure m remotePort listenIP remoteHost transport controlErr listen =
     (case ensure_check m remotePort listenIP of
        Some r \<Rightarrow> (r, m, None)
      | None \<Rightarrow>
          (case ensure_open remotePort listenIP remoteHost transport controlErr listen of
             EnsureOpened f \<Rightarrow>
               (case ensure_register m f remotePort of
                  (Registered, m') \<Rightarrow> (Inr f, m', None)
                | (LostRace existing, m') \<Rightarrow> (Inr existing, m', Some f)
                | (Stopped, m') \<Rightarrow> (Inl ''forward manager is stopped'', m', Some f))
           | EnsureFailed port err \<Rightarrow> (ensure_recover m port err, m, None)
           | Returned (Some r) \<Rightarrow> (r, m, None)
           | _ \<Rightarrow> (Inl [], m, None)))"

lemma Ensure_ok:
  assumes "Ensure m port ip host transport controlErr listen = (Inr f, m', d)"
  shows "\<not> stopped m' \<and> byRemote m' port = Some f \<and> d = None \<and>
    (m' = m \<or> byRemote m port = None \<and> m' = m\<lparr>byRemote := (byRemote m)(port \<mapsto> f)\<rparr>)"
  using assms
  by (auto simp: Ensure_def ensure_check_def ensure_open_def ensure_recover_def ensure_register_def Let_def
      split: if_splits option.splits sum.splits prod.splits)

lemma Ensure_err:
  assumes "Ensure m port ip host transport controlErr listen = (Inl e, m', d)"
  shows "m' = m \<and> d = None"
  using assms
  by (auto simp: Ensure_def ensure_check_def ensure_open_def ensure_recover_def ensure_register_def Let_def
      split: if_splits option.splits sum.splits prod.splits)

record fstate =
  man :: FwdManager
  listeners :: "nat set"
  sshFwds :: "(string \<times> string) set"
  nextL :: nat
  pcs :: "nat \<rightharpoonup> pc"

definition finit :: fstate where
  "finit = \<lparr>man = NewDynamicManager, listeners = {}, sshFwds = {}, nextL = 0, pcs = Map.empty\<rparr>"

text \<open>The resource a successful middle part holds: a new listener or a forward of the ssh master.\<close>

definition acquire :: "pc \<Rightarrow> fstate \<Rightarrow> fstate" where
  "acquire p s =
     (case p of
        EnsureOpened f \<Rightarrow>
          (case fwListener f of
             Some l \<Rightarrow> s\<lparr>listeners := insert l (listeners s), nextL := Suc l\<rparr>
           | None \<Rightarrow> s\<lparr>sshFwds := insert (fwControlPath f, fwSpec f) (sshFwds s)\<rparr>)
      | _ \<Rightarrow> s)"

inductive fstep :: "fstate \<Rightarrow> fstate \<Rightarrow> bool" where
  start: "pcs s t = None \<Longrightarrow>
    fstep s (s\<lparr>pcs := (pcs s)(t \<mapsto> (case ensure_check (man s) port ip of
       Some r \<Rightarrow> Returned (Some r) | None \<Rightarrow> EnsureOpen port ip host))\<rparr>)"
| acquired: "pcs s t = Some (EnsureOpen port ip host) \<Longrightarrow> listen \<in> {Inl e, Inr (nextL s)} \<Longrightarrow>
    ensure_open port ip host transport controlErr listen = p \<Longrightarrow>
    fstep s ((acquire p s)\<lparr>pcs := (pcs s)(t \<mapsto> p)\<rparr>)"
| recover: "pcs s t = Some (EnsureFailed port err) \<Longrightarrow>
    fstep s (s\<lparr>pcs := (pcs s)(t \<mapsto> Returned (Some (ensure_recover (man s) port err)))\<rparr>)"
| register: "pcs s t = Some (EnsureOpened f) \<Longrightarrow> ensure_register (man s) f (fwRemotePort f) = (r, m') \<Longrightarrow>
    fstep s (s\<lparr>man := m', pcs := (pcs s)(t \<mapsto> (case r of
       Registered \<Rightarrow> Returned (Some (Inr f))
     | LostRace existing \<Rightarrow> Abandoning f (Inr existing)
     | Stopped \<Rightarrow> Dropping [f] (Some (Inl ''forward manager is stopped''))))\<rparr>)"
| abandoned: "pcs s t = Some (Abandoning f r) \<Longrightarrow>
    fstep s (s\<lparr>listeners := abandon f (listeners s), pcs := (pcs s)(t \<mapsto> Returned (Some r))\<rparr>)"
| remove: "pcs s t = None \<Longrightarrow> remove_locked (man s) port = (m', fs) \<Longrightarrow>
    fstep s (s\<lparr>man := m', pcs := (pcs s)(t \<mapsto> Dropping fs None)\<rparr>)"
| stop: "pcs s t = None \<Longrightarrow> set (iter (dom (byRemote (man s)))) = dom (byRemote (man s)) \<Longrightarrow>
    distinct (iter (dom (byRemote (man s)))) \<Longrightarrow> stop_locked iter (man s) = (m', fs) \<Longrightarrow>
    fstep s (s\<lparr>man := m', pcs := (pcs s)(t \<mapsto> Dropping fs None)\<rparr>)"
| dropped: "pcs s t = Some (Dropping (f # fs) r) \<Longrightarrow> dropForward f (listeners s, sshFwds s) = (ls, ssh) \<Longrightarrow>
    fstep s (s\<lparr>listeners := ls, sshFwds := ssh, pcs := (pcs s)(t \<mapsto> Dropping fs r)\<rparr>)"
| finished: "pcs s t = Some (Dropping [] r) \<Longrightarrow>
    fstep s (s\<lparr>pcs := (pcs s)(t \<mapsto> Returned r)\<rparr>)"

inductive freach :: "fstate \<Rightarrow> bool" where
  init: "freach finit"
| step: "freach s \<Longrightarrow> fstep s s' \<Longrightarrow> freach s'"

subsection \<open>Listeners have one owner\<close>

definition lis1 :: "Forward \<Rightarrow> nat list" where
  "lis1 f = (case fwListener f of None \<Rightarrow> [] | Some l \<Rightarrow> [l])"

fun held_by :: "pc \<Rightarrow> nat list" where
  "held_by (EnsureOpened f) = lis1 f"
| "held_by (Abandoning f r) = lis1 f"
| "held_by (Dropping fs r) = concat (map lis1 fs)"
| "held_by _ = []"

definition held :: "fstate \<Rightarrow> nat \<Rightarrow> nat list" where
  "held s t = (case pcs s t of None \<Rightarrow> [] | Some p \<Rightarrow> held_by p)"

definition registered :: "FwdManager \<Rightarrow> int \<Rightarrow> nat list" where
  "registered m p = (case byRemote m p of None \<Rightarrow> [] | Some f \<Rightarrow> lis1 f)"

text \<open>
  The invariant: every forward is filed under its own port, a stopped manager has none, and
  each open listener belongs to exactly one registered forward or one running caller.
\<close>

definition owner :: "fstate \<Rightarrow> int + nat \<Rightarrow> nat list" where
  "owner s o' = (case o' of Inl p \<Rightarrow> registered (man s) p | Inr t \<Rightarrow> held s t)"

definition finv :: "fstate \<Rightarrow> bool" where
  "finv s \<longleftrightarrow> exclusive (owner s) (listeners s) \<and> (\<forall>l \<in> listeners s. l < nextL s) \<and>
     (\<forall>p f. byRemote (man s) p = Some f \<longrightarrow> fwRemotePort f = p) \<and>
     (stopped (man s) \<longrightarrow> byRemote (man s) = Map.empty)"

lemma owner_simps [simp]: "owner s (Inl p) = registered (man s) p" "owner s (Inr t) = held s t"
  by (simp_all add: owner_def)

lemma owner_pc:
  "man s' = man s \<Longrightarrow> pcs s' = (pcs s)(t \<mapsto> p) \<Longrightarrow> owner s' = (owner s)(Inr t := held_by p)"
  by (rule ext) (auto simp: owner_def held_def split: sum.splits)

lemma finv_pc:
  assumes "finv s" "man s' = man s" "pcs s' = (pcs s)(t \<mapsto> p)"
    and "exclusive ((owner s)(Inr t := held_by p)) (listeners s')" "\<forall>l \<in> listeners s'. l < nextL s'"
  shows "finv s'"
  using assms owner_pc [OF assms(2,3)] by (simp add: finv_def)

lemma finv_same:
  assumes "finv s" "held s t = held_by p"
    and "s' = s\<lparr>sshFwds := ssh, pcs := (pcs s)(t \<mapsto> p)\<rparr>"
  shows "finv s'"
  using assms by (intro finv_pc [of s s' t p]) (auto simp: finv_def intro!: exclusive_keep)

lemma finv_idle:
  "finv s \<Longrightarrow> held s t = held_by p \<Longrightarrow> finv (s\<lparr>pcs := (pcs s)(t \<mapsto> p)\<rparr>)"
  by (rule finv_pc [where s = s and t = t and p = p]) (simp_all add: finv_def exclusive_keep)

lemma ensure_open_held:
  assumes "ensure_open port ip host transport controlErr listen = p"
    and "listen \<in> {Inl e, Inr n}"
  shows "(held_by p = [] \<and> (\<exists>ssh. acquire p s = s\<lparr>sshFwds := ssh\<rparr>)) \<or>
    (\<exists>f. p = EnsureOpened f \<and> fwListener f = Some n)"
proof (cases p)
  case (EnsureOpened f)
  show ?thesis
  proof (cases "fwListener f")
    case None
    then show ?thesis using EnsureOpened by (auto simp: acquire_def lis1_def)
  next
    case (Some l)
    then show ?thesis using assms EnsureOpened
      by (auto simp: ensure_open_def control_forward_def listener_forward_def Let_def
          split: if_splits option.splits sum.splits prod.splits)
  qed
next
  case (Returned r)
  then show ?thesis by (auto simp: acquire_def intro: exI [of _ "sshFwds s"])
next
  case (EnsureFailed a b)
  then show ?thesis by (auto simp: acquire_def intro: exI [of _ "sshFwds s"])
qed (use assms in \<open>auto simp: ensure_open_def Let_def split: if_splits option.splits sum.splits prod.splits\<close>)

lemma finv_acquired:
  assumes inv: "finv s" and pc: "pcs s t = Some (EnsureOpen port ip host)"
    and l: "listen \<in> {Inl e, Inr (nextL s)}" and p: "ensure_open port ip host transport controlErr listen = p"
  shows "finv ((acquire p s)\<lparr>pcs := (pcs s)(t \<mapsto> p)\<rparr>)"
  using ensure_open_held [OF p l, of s]
proof
  assume "held_by p = [] \<and> (\<exists>ssh. acquire p s = s\<lparr>sshFwds := ssh\<rparr>)"
  then obtain ssh where "held_by p = []" "acquire p s = s\<lparr>sshFwds := ssh\<rparr>" by blast
  then show ?thesis using pc by (intro finv_same [OF inv, of t p _ ssh]) (simp_all add: held_def)
next
  assume "\<exists>f. p = EnsureOpened f \<and> fwListener f = Some (nextL s)"
  then obtain f where f: "p = EnsureOpened f" "fwListener f = Some (nextL s)" by blast
  have fresh: "nextL s \<notin> listeners s" using inv by (auto simp: finv_def)
  have "exclusive ((owner s)(Inr t := [nextL s])) (insert (nextL s) (listeners s))"
    using inv fresh pc by (intro exclusive_add) (simp_all add: finv_def held_def)
  then show ?thesis
    using inv f by (intro finv_pc [OF inv, of _ t p]) (auto simp: acquire_def lis1_def finv_def less_SucI)
qed

lemma finv_release:
  assumes inv: "finv s" and h: "held s t = lis1 f @ held_by p" and ls: "ls = abandon f (listeners s)"
  shows "finv (s\<lparr>listeners := ls, sshFwds := ssh, pcs := (pcs s)(t \<mapsto> p)\<rparr>)"
proof (rule finv_pc [OF inv, of _ t p])
  have e: "exclusive (owner s) (listeners s)" using inv by (simp add: finv_def)
  show "exclusive ((owner s)(Inr t := held_by p)) (listeners (s\<lparr>listeners := ls, sshFwds := ssh, pcs := (pcs s)(t \<mapsto> p)\<rparr>))"
  proof (cases "fwListener f")
    case None
    then have "owner s (Inr t) = held_by p" using h by (simp add: lis1_def)
    then show ?thesis using exclusive_keep [OF e, of "Inr t"] None ls by (simp add: abandon_def)
  next
    case (Some l)
    then have "owner s (Inr t) = l # held_by p" using h by (simp add: lis1_def)
    then show ?thesis using exclusive_release [OF e] Some ls by (simp add: abandon_def)
  qed
  show "\<forall>l \<in> listeners (s\<lparr>listeners := ls, sshFwds := ssh, pcs := (pcs s)(t \<mapsto> p)\<rparr>). l < nextL (s\<lparr>listeners := ls, sshFwds := ssh, pcs := (pcs s)(t \<mapsto> p)\<rparr>)"
    using inv ls by (auto simp: finv_def abandon_def split: option.splits)
qed simp_all

lemma finv_move:
  assumes inv: "finv s" and idle: "owner s y = []" and xs: "distinct xs" "y \<notin> set xs"
    and own: "owner s' = (\<lambda>z. if z = y then concat (map (owner s) xs) else if z \<in> set xs then [] else owner s z)"
    and same: "listeners s' = listeners s" "nextL s' = nextL s"
    and reg: "\<And>p f. byRemote (man s') p = Some f \<Longrightarrow> fwRemotePort f = p"
      "stopped (man s') \<Longrightarrow> byRemote (man s') = Map.empty"
  shows "finv s'"
proof -
  have e: "exclusive (owner s) (listeners s)" using inv by (simp add: finv_def)
  show ?thesis
    using exclusive_move [where own = "owner s" and y = y, OF e idle xs] inv own same reg
    by (simp add: finv_def)
qed

lemma finv_register:
  assumes inv: "finv s" and pc: "pcs s t = Some (EnsureOpened f)"
    and r: "ensure_register (man s) f (fwRemotePort f) = (r, m')"
  shows "finv (s\<lparr>man := m', pcs := (pcs s)(t \<mapsto> (case r of
       Registered \<Rightarrow> Returned (Some (Inr f))
     | LostRace existing \<Rightarrow> Abandoning f (Inr existing)
     | Stopped \<Rightarrow> Dropping [f] (Some (Inl ''forward manager is stopped''))))\<rparr>)"
proof (cases "r = Registered")
  case True
  then have ns: "\<not> stopped (man s)" "byRemote (man s) (fwRemotePort f) = None"
    and m': "m' = (man s)\<lparr>byRemote := (byRemote (man s))(fwRemotePort f \<mapsto> f)\<rparr>"
    using r by (auto simp: ensure_register_def split: if_splits option.splits)
  show ?thesis
    by (rule finv_move [OF inv, where xs = "[Inr t]" and y = "Inl (fwRemotePort f)"])
       (use inv ns pc True in \<open>auto simp: m' finv_def registered_def held_def owner_def fun_eq_iff split: sum.splits if_splits\<close>)
next
  case False
  then have m': "m' = man s" using r by (auto simp: ensure_register_def split: if_splits option.splits)
  show ?thesis
    by (rule finv_same [OF inv, where ssh = "sshFwds s" and t = t])
       (use pc False in \<open>auto simp: m' held_def split: registration.splits\<close>)
qed

lemma finv_remove:
  assumes inv: "finv s" and pc: "pcs s t = None" and r: "remove_locked (man s) port = (m', fs)"
  shows "finv (s\<lparr>man := m', pcs := (pcs s)(t \<mapsto> Dropping fs None)\<rparr>)"
proof -
  have m': "m' = (man s)\<lparr>byRemote := (byRemote (man s))(port := None)\<rparr>"
    and fs: "concat (map lis1 fs) = registered (man s) port"
    using r by (auto simp: remove_locked_def registered_def split: option.splits)
  show ?thesis
    by (rule finv_move [OF inv, where xs = "[Inl port]" and y = "Inr t"])
       (use inv pc in \<open>auto simp: m' fs finv_def registered_def held_def owner_def fun_eq_iff split: sum.splits if_splits\<close>)
qed

lemma finv_stop:
  assumes inv: "finv s" and pc: "pcs s t = None"
    and it: "set (iter (dom (byRemote (man s)))) = dom (byRemote (man s))"
      "distinct (iter (dom (byRemote (man s))))"
    and r: "stop_locked iter (man s) = (m', fs)"
  shows "finv (s\<lparr>man := m', pcs := (pcs s)(t \<mapsto> Dropping fs None)\<rparr>)"
proof (cases "stopped (man s)")
  case True
  then have "m' = man s" "fs = []" using r by (simp_all add: stop_locked_def)
  then show ?thesis
    by (intro finv_same [OF inv, where ssh = "sshFwds s" and t = t]) (use pc in \<open>simp_all add: held_def\<close>)
next
  case False
  let ?ks = "iter (dom (byRemote (man s)))"
  have m': "m' = (man s)\<lparr>stopped := True, byRemote := Map.empty\<rparr>"
    and fs: "fs = map (\<lambda>p. the (byRemote (man s) p)) ?ks"
    using r False by (simp_all add: stop_locked_def)
  have ks: "p \<in> set ?ks \<longleftrightarrow> byRemote (man s) p \<noteq> None" for p using it by (auto simp: domIff)
  have "map lis1 fs = map (owner s \<circ> Inl) ?ks"
    unfolding fs map_map by (rule map_cong) (auto simp: ks registered_def)
  then have cc: "concat (map lis1 fs) = concat (map (owner s) (map Inl ?ks))" by simp
  show ?thesis
  proof (rule finv_move [OF inv, where xs = "map Inl ?ks" and y = "Inr t"])
    show "owner (s\<lparr>man := m', pcs := (pcs s)(t \<mapsto> Dropping fs None)\<rparr>) =
      (\<lambda>z. if z = Inr t then concat (map (owner s) (map Inl ?ks)) else if z \<in> set (map Inl ?ks) then [] else owner s z)"
    proof
      fix z :: "int + nat"
      show "owner (s\<lparr>man := m', pcs := (pcs s)(t \<mapsto> Dropping fs None)\<rparr>) z =
        (if z = Inr t then concat (map (owner s) (map Inl ?ks)) else if z \<in> set (map Inl ?ks) then [] else owner s z)"
        using cc ks by (cases z) (auto simp: m' registered_def held_def split: option.splits)
    qed
  qed (use it pc in \<open>auto simp: m' held_def distinct_map\<close>)
qed

lemma finv_step: "fstep s s' \<Longrightarrow> finv s \<Longrightarrow> finv s'"
proof (induction rule: fstep.induct)
  case (start s t port ip host)
  then show ?case
    by (intro finv_idle) (simp_all add: held_def split: option.split)
next
  case (recover s t port err)
  then show ?case
    by (intro finv_idle) (simp_all add: held_def)
next
  case (abandoned s t f r)
  then have "finv (s\<lparr>listeners := abandon f (listeners s), sshFwds := sshFwds s, pcs := (pcs s)(t \<mapsto> Returned (Some r))\<rparr>)"
    by (intro finv_release) (auto simp: held_def)
  then show ?case by simp
next
  case (dropped s t f fs r ls ssh)
  then show ?case by (intro finv_release) (auto simp: held_def dropForward_def)
next
  case (finished s t r)
  then show ?case
    by (intro finv_idle) (simp_all add: held_def)
next
  case (acquired s t port ip host listen e transport controlErr p)
  then show ?case by (intro finv_acquired)
next
  case (register s t f r m')
  then show ?case by (intro finv_register)
next
  case (remove s t port m' fs)
  then show ?case by (intro finv_remove)
next
  case (stop s t iter m' fs)
  then show ?case by (intro finv_stop)
qed

lemma finv_init: "finv finit"
  by (auto simp: finv_def finit_def NewDynamicManager_def exclusive_def owner_def registered_def held_def
      split: sum.splits)

lemma freach_inv: "freach s \<Longrightarrow> finv s"
  by (induction rule: freach.induct) (auto intro: finv_init finv_step)

text \<open>All callers have returned.\<close>

definition quiescent :: "fstate \<Rightarrow> bool" where
  "quiescent s \<longleftrightarrow> (\<forall>t p. pcs s t = Some p \<longrightarrow> (\<exists>r. p = Returned r))"

lemma quiescent_held: "quiescent s \<Longrightarrow> held s t = []"
  unfolding quiescent_def held_def by (cases "pcs s t") fastforce+

text \<open>C3. No listener leaks: however calls of \<open>Ensure\<close>, \<open>Remove\<close> and \<open>Stop\<close> interleave, once all of
  them have returned the open listeners are exactly those of the registered forwards, each of
  one forward only and filed under its port; after \<open>Stop\<close> there are none.\<close>

theorem listeners_accounted:
  assumes "freach s" "quiescent s"
  shows "listeners s = {l. \<exists>p f. byRemote (man s) p = Some f \<and> fwListener f = Some l} \<and>
    (\<forall>p f. byRemote (man s) p = Some f \<longrightarrow> fwRemotePort f = p) \<and>
    (\<forall>p q f g l. byRemote (man s) p = Some f \<longrightarrow> byRemote (man s) q = Some g \<longrightarrow>
       fwListener f = Some l \<longrightarrow> fwListener g = Some l \<longrightarrow> p = q) \<and>
    (stopped (man s) \<longrightarrow> listeners s = {})"
proof -
  have inv: "finv s" by (rule freach_inv [OF assms(1)])
  then have e: "exclusive (owner s) (listeners s)" by (simp add: finv_def)
  note D = exclusiveD [OF e]
  have reg: "l \<in> set (owner s (Inl p)) \<longleftrightarrow> (\<exists>f. byRemote (man s) p = Some f \<and> fwListener f = Some l)" for l p
  proof (cases "byRemote (man s) p")
    case (Some f)
    then show ?thesis by (cases "fwListener f") (auto simp: registered_def lis1_def)
  qed (simp add: registered_def)
  have ls: "listeners s = {l. \<exists>p f. byRemote (man s) p = Some f \<and> fwListener f = Some l}"
  proof (intro set_eqI iffI)
    fix l assume "l \<in> listeners s"
    then obtain z where z: "l \<in> set (owner s z)" using D(3) by blast
    then obtain p where "z = Inl p" using quiescent_held [OF assms(2)] by (cases z) auto
    with z reg show "l \<in> {l. \<exists>p f. byRemote (man s) p = Some f \<and> fwListener f = Some l}" by auto
  next
    fix l assume "l \<in> {l. \<exists>p f. byRemote (man s) p = Some f \<and> fwListener f = Some l}"
    then show "l \<in> listeners s" using reg D(2) by blast
  qed
  moreover have "p = q" if "byRemote (man s) p = Some f" "byRemote (man s) q = Some g"
      "fwListener f = Some l" "fwListener g = Some l" for p q f g l
    using that reg D(4) [of l "Inl p" "Inl q"] by blast
  moreover have "stopped (man s) \<longrightarrow> listeners s = {}" using ls inv by (auto simp: finv_def)
  ultimately show ?thesis using inv unfolding finv_def by blast
qed

lemma freach_ensure_listen:
  "freach (finit\<lparr>man := NewDynamicManager\<lparr>byRemote := [8080 \<mapsto> listener_forward 8080 ''127.64.0.1'' 0]\<rparr>,
     listeners := {0}, nextL := 1,
     pcs := [0 \<mapsto> Returned (Some (Inr (listener_forward 8080 ''127.64.0.1'' 0)))]\<rparr>)"
proof -
  let ?f = "listener_forward 8080 ''127.64.0.1'' 0"
  have s1: "freach (finit\<lparr>pcs := [0 \<mapsto> EnsureOpen 8080 ''127.64.0.1'' []]\<rparr>)"
    using freach.step [OF freach.init fstep.start [of finit 0 8080 "''127.64.0.1''" "[]"]]
    by (simp add: finit_def NewDynamicManager_def ensure_check_def)
  have o: "ensure_open 8080 ''127.64.0.1'' [] ([], [], []) None (Inr 0) = EnsureOpened ?f"
    by (simp add: ensure_open_def)
  have s2: "freach (finit\<lparr>listeners := {0}, nextL := 1, pcs := [0 \<mapsto> EnsureOpened ?f]\<rparr>)"
    using freach.step [OF s1 fstep.acquired [where t = 0, OF _ _ o]]
    by (simp add: finit_def acquire_def listener_forward_def)
  have r: "ensure_register NewDynamicManager ?f (fwRemotePort ?f) =
      (Registered, NewDynamicManager\<lparr>byRemote := [8080 \<mapsto> ?f]\<rparr>)"
    by (simp add: ensure_register_def NewDynamicManager_def listener_forward_def)
  show ?thesis
    using freach.step [OF s2 fstep.register [where t = 0 and f = ?f]] r
    by (simp add: finit_def)
qed

theorem listeners_accounted_witness:
  "\<exists>s. freach s \<and> nextL s = 1 \<and> listeners s = {0} \<and> byRemote (man s) 8080 \<noteq> None"
proof -
  let ?s = "finit\<lparr>man := NewDynamicManager\<lparr>byRemote := [8080 \<mapsto> listener_forward 8080 ''127.64.0.1'' 0]\<rparr>,
     listeners := {0}, nextL := 1,
     pcs := [0 \<mapsto> Returned (Some (Inr (listener_forward 8080 ''127.64.0.1'' 0)))]\<rparr>"
  have q: "quiescent ?s" by (simp add: quiescent_def)
  have "listeners ?s = {l. \<exists>p f. byRemote (man ?s) p = Some f \<and> fwListener f = Some l}"
    using listeners_accounted [OF freach_ensure_listen q] by blast
  then show ?thesis using freach_ensure_listen by (intro exI [of _ ?s]) simp
qed

text \<open>A race between \<open>Remove\<close> and \<open>Ensure\<close>: \<open>Remove\<close> takes the forward out of the map and only
  then cancels it at the ssh master. When another caller ensures the same port in between, the
  late cancel tears down the forward that caller has just registered: all calls have returned,
  the manager lists the port as forwarded (and will keep answering with it), and no forward is
  left at the master.\<close>

theorem remove_cancels_new_forward:
  "\<exists>s f. freach s \<and> quiescent s \<and> byRemote (man s) 8080 = Some f \<and> fwControlPath f \<noteq> [] \<and>
     (fwControlPath f, fwSpec f) \<notin> sshFwds s"
proof -
  let ?ip = "''127.64.0.1''"
  define f where "f = control_forward 8080 ?ip [] ''ssh'' [''host''] ''/tmp/ctl''"
  let ?m = "NewDynamicManager\<lparr>byRemote := [8080 \<mapsto> f]\<rparr>" and ?k = "(''/tmp/ctl'', fwSpec f)"
  let ?done = "Returned (Some (Inr f))"
  have ff: "fwRemotePort f = 8080" "fwListener f = None" "fwControlPath f = ''/tmp/ctl''" "drop_cancels f"
    by (auto simp: f_def control_forward_def drop_cancels_def LocalForwardSpec_def JoinHostPort_def)
  have chk: "ensure_check NewDynamicManager 8080 ?ip = None"
    by (simp add: ensure_check_def NewDynamicManager_def)
  have o: "ensure_open 8080 ?ip [] (''ssh'', [''host''], ''/tmp/ctl'') None (Inl []) = EnsureOpened f"
    by (simp add: ensure_open_def f_def)
  have r: "ensure_register NewDynamicManager f (fwRemotePort f) = (Registered, ?m)"
    by (simp add: ensure_register_def NewDynamicManager_def ff)
  have rm: "remove_locked ?m 8080 = (NewDynamicManager, [f])"
    by (simp add: remove_locked_def NewDynamicManager_def)
  have s1: "freach (finit\<lparr>pcs := [0 \<mapsto> EnsureOpen 8080 ?ip []]\<rparr>)"
    using freach.step [OF freach.init fstep.start [of finit 0 8080 ?ip "[]"]] chk by (simp add: finit_def)
  have s2: "freach (finit\<lparr>sshFwds := {?k}, pcs := [0 \<mapsto> EnsureOpened f]\<rparr>)"
    using freach.step [OF s1 fstep.acquired [where t = 0, OF _ _ o]] by (simp add: finit_def acquire_def ff)
  have s3: "freach (finit\<lparr>man := ?m, sshFwds := {?k}, pcs := [0 \<mapsto> ?done]\<rparr>)"
    using freach.step [OF s2 fstep.register [where t = 0 and f = f]] r by (simp add: finit_def)
  have s4: "freach (finit\<lparr>sshFwds := {?k}, pcs := [0 \<mapsto> ?done, 1 \<mapsto> Dropping [f] None]\<rparr>)"
    using freach.step [OF s3 fstep.remove [where t = 1 and port = 8080]] rm by (simp add: finit_def)
  have s5: "freach (finit\<lparr>sshFwds := {?k}, pcs := [0 \<mapsto> ?done, 1 \<mapsto> Dropping [f] None, 2 \<mapsto> EnsureOpen 8080 ?ip []]\<rparr>)"
    using freach.step [OF s4 fstep.start [where t = 2 and port = 8080 and ip = ?ip and host = "[]"]] chk
    by (simp add: finit_def)
  have s6: "freach (finit\<lparr>sshFwds := {?k}, pcs := [0 \<mapsto> ?done, 1 \<mapsto> Dropping [f] None, 2 \<mapsto> EnsureOpened f]\<rparr>)"
    using freach.step [OF s5 fstep.acquired [where t = 2, OF _ _ o]] by (simp add: finit_def acquire_def ff)
  have s7: "freach (finit\<lparr>man := ?m, sshFwds := {?k}, pcs := [0 \<mapsto> ?done, 1 \<mapsto> Dropping [f] None, 2 \<mapsto> ?done]\<rparr>)"
    using freach.step [OF s6 fstep.register [where t = 2 and f = f]] r by (simp add: finit_def)
  let ?s8 = "finit\<lparr>man := ?m, sshFwds := {}, pcs := [0 \<mapsto> ?done, 1 \<mapsto> Dropping [] None, 2 \<mapsto> ?done]\<rparr>"
  have s8: "freach ?s8"
    using freach.step [OF s7 fstep.dropped [where t = 1 and f = f]]
    by (simp add: finit_def dropForward_def abandon_def ff fun_upd_twist)
  let ?s9 = "finit\<lparr>man := ?m, sshFwds := {}, pcs := [0 \<mapsto> ?done, 1 \<mapsto> Returned None, 2 \<mapsto> ?done]\<rparr>"
  have s9: "freach ?s9"
    using freach.step [OF s8 fstep.finished [where t = 1]] by (simp add: finit_def fun_upd_twist)
  have "quiescent ?s9" by (auto simp: quiescent_def split: if_splits)
  with s9 show ?thesis by (intro exI [of _ ?s9] exI [of _ f]) (simp add: ff)
qed

end
