(* ===== verification/GoPath.thy ===== *)
theory GoPath
  imports GoNet
begin

text \<open>
  Lexical paths: \<open>path.Clean\<close> and the functions of \<open>path/filepath\<close> the program uses, on a system
  with the separator \<open>/\<close> and no volume names. A path is resolved into its components: empty ones
  and \<open>.\<close> are dropped, \<open>..\<close> removes the component before it, and is dropped at the root.
\<close>

subsection \<open>Functions\<close>

abbreviation slash :: char where "slash \<equiv> CHR ''/''"

fun clean_stack :: "bool \<Rightarrow> string list \<Rightarrow> string list \<Rightarrow> string list" where
  "clean_stack rooted acc [] = rev acc"
| "clean_stack rooted acc (c # cs) =
     (if c = [] \<or> c = ''.'' then clean_stack rooted acc cs
      else if c = ''..'' then
        (case acc of
           [] \<Rightarrow> clean_stack rooted (if rooted then [] else [c]) cs
         | prev # rest \<Rightarrow> (if prev = ''..'' then clean_stack rooted (c # acc) cs else clean_stack rooted rest cs))
      else clean_stack rooted (c # acc) cs)"

definition IsAbs :: "string \<Rightarrow> bool" where
  "IsAbs p = HasPrefix p [slash]"

definition components :: "string \<Rightarrow> string list" where
  "components p = clean_stack (IsAbs p) [] (Split p slash)"

definition from_components :: "bool \<Rightarrow> string list \<Rightarrow> string" where
  "from_components rooted cs =
     (if rooted then slash # Join cs [slash] else if cs = [] then ''.'' else Join cs [slash])"

definition Clean :: "string \<Rightarrow> string" where
  "Clean p = from_components (IsAbs p) (components p)"

text \<open>\<open>filepath.Join\<close> of two elements: empty ones are ignored.\<close>

definition JoinPath :: "string \<Rightarrow> string \<Rightarrow> string" where
  "JoinPath a b =
     (if a = [] \<and> b = [] then []
      else if a = [] then Clean b else if b = [] then Clean a else Clean (a @ slash # b))"

definition Abs :: "string \<Rightarrow> string \<Rightarrow> string" where
  "Abs wd p = (if IsAbs p then Clean p else JoinPath wd p)"

text \<open>\<open>filepath.Rel\<close>: \<open>None\<close> is an error.\<close>

fun strip_common :: "string list \<Rightarrow> string list \<Rightarrow> string list \<times> string list" where
  "strip_common (a # as) (b # bs) = (if a = b then strip_common as bs else (a # as, b # bs))"
| "strip_common as bs = (as, bs)"

definition Rel :: "string \<Rightarrow> string \<Rightarrow> string option" where
  "Rel base targ =
     (if IsAbs base \<noteq> IsAbs targ then None
      else case strip_common (components base) (components targ) of
        (up, down) \<Rightarrow>
          (if ''..'' \<in> set up then None
           else Some (from_components False (map (\<lambda>_. ''..'') up @ down))))"

definition Dir :: "string \<Rightarrow> string" where
  "Dir p = Clean (rev (dropWhile (\<lambda>c. c \<noteq> slash) (rev p)))"

definition Base :: "string \<Rightarrow> string" where
  "Base p =
     (if p = [] then ''.''
      else
        let q = trim_right (\<lambda>c. c = slash) p in
        if q = [] then ''/'' else rev (takeWhile (\<lambda>c. c \<noteq> slash) (rev q)))"

subsection \<open>Components\<close>

text \<open>A proper name; a path that stays below where it starts consists of proper names.\<close>

definition proper :: "string \<Rightarrow> bool" where
  "proper c \<longleftrightarrow> c \<noteq> [] \<and> c \<noteq> ''.'' \<and> c \<noteq> ''..'' \<and> slash \<notin> set c"

definition ups :: "string list \<Rightarrow> bool" where
  "ups cs \<longleftrightarrow> (\<exists>n ns. cs = replicate n ''..'' @ ns \<and> list_all proper ns)"

lemma clean_stack_names [simp]:
  "list_all proper ns \<Longrightarrow> clean_stack rooted acc (ns @ cs) = clean_stack rooted (rev ns @ acc) cs"
  by (induction ns arbitrary: acc) (auto simp: proper_def)

lemma clean_stack_append:
  "clean_stack rooted acc (xs @ ys) = clean_stack rooted (rev (clean_stack rooted acc xs)) ys"
  by (induction rooted acc xs rule: clean_stack.induct) (auto split: list.splits)

lemma clean_stack_rooted:
  "list_all proper acc \<Longrightarrow> \<forall>c \<in> set cs. slash \<notin> set c \<Longrightarrow> list_all proper (clean_stack True acc cs)"
  by (induction True acc cs rule: clean_stack.induct) (auto simp: proper_def split: list.splits)

lemma clean_stack_relative:
  "ups (rev acc) \<Longrightarrow> \<forall>c \<in> set cs. slash \<notin> set c \<Longrightarrow> ups (clean_stack False acc cs)"
proof (induction False acc cs rule: clean_stack.induct)
  case (2 acc c cs)
  obtain n ns where acc: "rev acc = replicate n ''..'' @ ns" and ns: "list_all proper ns"
    using 2(6) by (auto simp: ups_def)
  have add: "ups (rev (c # acc))" if "proper c"
    using acc ns that by (auto simp: ups_def intro!: exI [of _ n] exI [of _ "ns @ [c]"])
  have dots: "ups (rev (''..'' # acc))" if start: "acc = [] \<or> (\<exists>rest. acc = ''..'' # rest)"
  proof -
    have "ns = []"
    proof (rule ccontr)
      assume "ns \<noteq> []"
      then have "last (rev acc) = last ns" "last ns \<in> set ns" using acc by simp_all
      have "acc \<noteq> []" using acc \<open>ns \<noteq> []\<close> by (metis Nil_is_append_conv rev.simps(1))
      then obtain rest where "acc = ''..'' # rest" using start by blast
      then have "last ns = ''..''" using \<open>last (rev acc) = last ns\<close> by simp
      moreover have "proper (last ns)" using ns \<open>last ns \<in> set ns\<close> by (simp add: list_all_iff)
      ultimately show False by (simp add: proper_def)
    qed
    then have "rev (''..'' # acc) = replicate (Suc n) ''..'' @ []"
      using acc by (simp add: replicate_append_same)
    then show ?thesis unfolding ups_def by (intro exI [of _ "Suc n"] exI [of _ "[]"]) simp
  qed
  have pop: "ups (rev rest)" if "acc = prev # rest" "prev \<noteq> ''..''" for prev rest
  proof -
    have "ns \<noteq> []" using that acc
      by (metis append.right_neutral in_set_replicate last_in_set last_snoc rev.simps(2) snoc_eq_iff_butlast)
    then have "rev rest = replicate n ''..'' @ butlast ns" using that acc
      by (metis butlast_append butlast_snoc rev.simps(2))
    then show ?thesis using ns unfolding ups_def
      by (intro exI [of _ n] exI [of _ "butlast ns"]) (auto simp: list_all_iff dest: in_set_butlastD)
  qed
  have sl: "slash \<notin> set c" "\<forall>c \<in> set cs. slash \<notin> set c" using 2(7) by simp_all
  show ?case
  proof (cases "c = [] \<or> c = ''.''")
    case True
    then show ?thesis using 2(1) [OF True 2(6) sl(2)] by simp
  next
    case skip: False
    show ?thesis
    proof (cases "c = ''..''")
      case False
      then have "proper c" using skip sl(1) by (simp add: proper_def)
      then show ?thesis using 2(5) [OF skip False add sl(2)] skip False by simp
    next
      case up: True
      show ?thesis
      proof (cases acc)
        case Nil
        have "ups (rev [c])" using dots Nil up by simp
        then have "ups (clean_stack False [c] cs)" using 2(2) [OF skip up Nil _ sl(2)] by simp
        then show ?thesis using skip up Nil by simp
      next
        case (Cons prev rest)
        show ?thesis
        proof (cases "prev = ''..''")
          case True
          have "ups (rev (c # acc))" using dots Cons True up by simp
          from 2(3) [OF skip up Cons True this sl(2)] show ?thesis using skip up Cons True by simp
        next
          case False
          from 2(4) [OF skip up Cons False pop [OF Cons False] sl(2)] show ?thesis using skip up Cons False by simp
        qed
      qed
    qed
  qed
qed simp

lemma Split_append: "Split (s @ sep # t) sep = Split s sep @ Split t sep"
  by (induction s) (auto split: list.split)

lemma Split_no_slash: "\<forall>c \<in> set (Split p slash). slash \<notin> set c"
  using Split_pieces by blast

lemma components_rooted: "IsAbs p \<Longrightarrow> list_all proper (components p)"
  unfolding components_def using clean_stack_rooted [OF _ Split_no_slash] by simp

lemma components_relative: "\<not> IsAbs p \<Longrightarrow> ups (components p)"
  unfolding components_def using clean_stack_relative [OF _ Split_no_slash, of "[]"]
  by (simp add: ups_def [of "[]"] exI [of _ 0])

lemma push_up: "clean_stack False (replicate m ''..'') (''..'' # cs) = clean_stack False (replicate (Suc m) ''..'') cs"
  by (cases m) simp_all

lemma clean_stack_ups: "clean_stack False (replicate m ''..'') (replicate n ''..'' @ cs) =
    clean_stack False (replicate (m + n) ''..'') cs"
proof (induction n arbitrary: m)
  case (Suc n)
  have "clean_stack False (replicate m ''..'') (replicate (Suc n) ''..'' @ cs) =
      clean_stack False (replicate (Suc m) ''..'') (replicate n ''..'' @ cs)"
    unfolding replicate_Suc append.simps by (rule push_up [unfolded replicate_Suc])
  then show ?case using Suc.IH [of "Suc m"] by (simp only: add_Suc_shift)
qed simp

lemma ups_no_slash: "ups cs \<Longrightarrow> c \<in> set cs \<Longrightarrow> slash \<notin> set c \<and> c \<noteq> []"
proof -
  assume "ups cs" "c \<in> set cs"
  then obtain n ns where "cs = replicate n ''..'' @ ns" "list_all proper ns" by (auto simp: ups_def)
  then have "c = ''..'' \<or> proper c" using \<open>c \<in> set cs\<close> by (auto simp: list_all_iff)
  then show ?thesis by (elim disjE) (simp_all add: proper_def)
qed

lemma proper_ups [simp]: "list_all proper cs \<Longrightarrow> ups cs"
  unfolding ups_def by (intro exI [of _ 0] exI [of _ cs]) simp

lemma clean_ups: "ups cs \<Longrightarrow> clean_stack False [] cs = cs"
proof -
  assume "ups cs"
  then obtain n ns where cs: "cs = replicate n ''..'' @ ns" "list_all proper ns" by (auto simp: ups_def)
  have "clean_stack False [] cs = clean_stack False (replicate n ''..'') (ns @ [])"
    using clean_stack_ups [of 0 n ns] cs by simp
  then show ?thesis unfolding clean_stack_names [OF cs(2)] using cs by simp
qed

lemma clean_proper: "list_all proper cs \<Longrightarrow> clean_stack r [] cs = cs"
  using clean_stack_names [of cs r "[]" "[]"] by simp

lemma hd_Join: "cs \<noteq> [] \<Longrightarrow> hd cs \<noteq> [] \<Longrightarrow> Join cs sep \<noteq> [] \<and> hd (Join cs sep) = hd (hd cs)"
  by (cases "(cs, sep)" rule: Join.cases) auto

lemma IsAbs_iff: "IsAbs p \<longleftrightarrow> p \<noteq> [] \<and> hd p = slash"
  by (cases p) (simp_all add: IsAbs_def)

lemma IsAbs_from [simp]: "IsAbs (from_components True cs)"
  by (simp add: from_components_def IsAbs_def)

lemma not_IsAbs_from [simp]: "ups cs \<Longrightarrow> \<not> IsAbs (from_components False cs)"
proof (cases cs)
  case Nil
  then show ?thesis by (simp add: from_components_def IsAbs_def)
next
  case (Cons c rest)
  assume "ups cs"
  then have "slash \<notin> set c" "c \<noteq> []" using ups_no_slash Cons by (metis list.set_intros(1))+
  then have "hd c \<noteq> slash" by (metis list.set_sel(1))
  then show ?thesis using hd_Join [of cs "[slash]"] Cons \<open>c \<noteq> []\<close>
    by (simp add: from_components_def IsAbs_iff)
qed

lemma components_from_rooted [simp]:
  assumes "list_all proper cs"
  shows "components (from_components True cs) = cs"
proof (cases cs)
  case Nil
  then show ?thesis by (simp add: components_def from_components_def IsAbs_def)
next
  case (Cons c rest)
  have "Split (Join cs [slash]) slash = cs"
    using Cons ups_no_slash [OF proper_ups [OF assms]] by (intro Split_Join) auto
  then have "Split (from_components True cs) slash = [] # cs" by (simp add: from_components_def)
  then show ?thesis using assms by (simp add: components_def clean_proper)
qed

lemma components_from_relative [simp]:
  assumes "ups cs"
  shows "components (from_components False cs) = cs"
proof (cases cs)
  case Nil
  then show ?thesis by (simp add: components_def from_components_def IsAbs_def)
next
  case (Cons c rest)
  have "Split (Join cs [slash]) slash = cs"
    using Cons ups_no_slash [OF assms] by (intro Split_Join) auto
  then have "Split (from_components False cs) slash = cs" using Cons by (simp add: from_components_def)
  then show ?thesis using assms by (simp add: components_def clean_ups)
qed

lemma IsAbs_Clean [simp]: "IsAbs (Clean p) = IsAbs p"
  by (cases "IsAbs p") (simp_all add: Clean_def components_relative)

lemma components_Clean [simp]: "components (Clean p) = components p"
  by (cases "IsAbs p") (simp_all add: Clean_def components_relative components_rooted)

lemma Clean_Clean [simp]: "Clean (Clean p) = Clean p"
  by (subst Clean_def [of "Clean p"]) (simp only: IsAbs_Clean components_Clean Clean_def [symmetric])

lemma Clean_eq_iff:
  assumes "IsAbs p = IsAbs q"
  shows "Clean p = Clean q \<longleftrightarrow> components p = components q"
proof
  assume "Clean p = Clean q"
  then have "components (Clean p) = components (Clean q)" by (rule arg_cong)
  then show "components p = components q" by simp
qed (simp add: Clean_def assms)

subsection \<open>Joining below a directory\<close>

lemma clean_stack_escaped: "\<exists>r. clean_stack False (xs @ [''..'']) cs = ''..'' # r"
proof (induction cs arbitrary: xs)
  case (Cons c cs)
  show ?case
  proof (cases "c = [] \<or> c = ''.''")
    case skip: False
    show ?thesis
    proof (cases "c = ''..''")
      case False
      then show ?thesis using skip Cons.IH [of "c # xs"] by simp
    next
      case True
      show ?thesis
      proof (cases xs)
        case Nil
        then show ?thesis using True Cons.IH [of "[''..'']"] by simp
      next
        case (Cons x xs')
        then show ?thesis using True Cons.IH [of "c # xs"] Cons.IH [of xs'] by (cases "x = ''..''") simp_all
      qed
    qed
  qed (use Cons.IH in auto)
qed simp

lemma clean_stack_below:
  assumes "list_all proper (clean_stack False acc1 cs)" "list_all proper acc1" "\<forall>c \<in> set cs. slash \<notin> set c"
  shows "clean_stack r (acc1 @ acc) cs = rev acc @ clean_stack False acc1 cs"
  using assms
proof (induction cs arbitrary: acc1)
  case (Cons c cs)
  have c: "slash \<notin> set c" "\<forall>c \<in> set cs. slash \<notin> set c" using Cons.prems(3) by simp_all
  show ?case
  proof (cases "c = [] \<or> c = ''.''")
    case True
    then show ?thesis using Cons.IH [OF _ Cons.prems(2) c(2)] Cons.prems(1) by simp
  next
    case skip: False
    show ?thesis
    proof (cases "c = ''..''")
      case False
      then have step: "clean_stack False acc1 (c # cs) = clean_stack False (c # acc1) cs" using skip by simp
      then show ?thesis using step skip False Cons.IH [of "c # acc1"] Cons.prems c by (simp add: proper_def)
    next
      case up: True
      show ?thesis
      proof (cases acc1)
        case Nil
        then have "clean_stack False acc1 (c # cs) = clean_stack False ([] @ [''..'']) cs" using up by simp
        moreover obtain t where "clean_stack False ([] @ [''..'']) cs = ''..'' # t" using clean_stack_escaped by blast
        ultimately have "proper ''..''" using Cons.prems(1) by simp
        then show ?thesis by (simp add: proper_def)
      next
        case acc1: (Cons x xs)
        then have "proper x" and xs: "list_all proper xs" using Cons.prems(2) by simp_all
        then have "x \<noteq> ''..''" by (simp add: proper_def)
        then show ?thesis using up acc1 Cons.IH [of xs, OF _ xs c(2)] Cons.prems(1) by simp
      qed
    qed
  qed
qed simp

lemma components_below:
  assumes "IsAbs a" "\<not> IsAbs b" "b \<noteq> []" "list_all proper (components b)"
  shows "components (JoinPath a b) = components a @ components b" "IsAbs (JoinPath a b)"
proof -
  have a: "a \<noteq> []" "IsAbs (a @ slash # b)" using assms(1) by (auto simp: IsAbs_iff)
  have j: "JoinPath a b = Clean (a @ slash # b)" using assms(3) a by (simp add: JoinPath_def)
  show "IsAbs (JoinPath a b)" using a j by simp
  have b: "components b = clean_stack False [] (Split b slash)" using assms(2) by (simp add: components_def)
  have "components (JoinPath a b) = clean_stack True [] (Split a slash @ Split b slash)"
    unfolding j components_Clean using a(2) by (simp add: components_def Split_append)
  also have "\<dots> = clean_stack True (rev (components a)) (Split b slash)"
    using assms(1) by (subst clean_stack_append) (simp add: components_def)
  also have "\<dots> = components a @ components b"
    using clean_stack_below [of "[]" "Split b slash" True "rev (components a)"] assms(4) b Split_no_slash by simp
  finally show "components (JoinPath a b) = components a @ components b" .
qed

subsection \<open>Paths that stay below\<close>

text \<open>The test of the code on a clean relative path.\<close>

definition leaves :: "string \<Rightarrow> bool" where
  "leaves p = (p = ''..'' \<or> HasPrefix p ''../'')"

lemma leaves_components: "leaves p \<Longrightarrow> \<not> list_all proper (components p)"
proof -
  assume "leaves p"
  then have "\<not> IsAbs p" "\<exists>cs. Split p slash = ''..'' # cs"
    by (auto simp: leaves_def IsAbs_def HasPrefix_iff)
  then obtain cs where "components p = clean_stack False ([] @ [''..'']) cs" by (auto simp: components_def)
  moreover obtain t where "clean_stack False ([] @ [''..'']) cs = ''..'' # t" using clean_stack_escaped by blast
  ultimately have "components p = ''..'' # t" by (rule trans)
  moreover have "\<not> proper ''..''" by (simp add: proper_def)
  ultimately show ?thesis by simp
qed

lemma leaves_from: "ups cs \<Longrightarrow> leaves (from_components False cs) \<longleftrightarrow> \<not> list_all proper cs"
proof
  assume ups: "ups cs" and "\<not> list_all proper cs"
  then obtain n ns where cs: "cs = replicate (Suc n) ''..'' @ ns" unfolding ups_def
    by (metis append_Nil gr0_implies_Suc not_gr_zero replicate_0)
  then have "cs = ''..'' # (replicate n ''..'' @ ns)" by simp
  then show "leaves (from_components False cs)"
    by (cases "replicate n ''..'' @ ns") (simp_all add: leaves_def from_components_def HasPrefix_iff)
next
  assume "ups cs" "leaves (from_components False cs)"
  then show "\<not> list_all proper cs" using leaves_components by fastforce
qed

lemma leaves_Clean: "\<not> IsAbs p \<Longrightarrow> leaves (Clean p) \<longleftrightarrow> \<not> list_all proper (components p)"
  by (simp add: Clean_def leaves_from components_relative)

lemma strip_common_spec:
  "strip_common xs ys = (up, down) \<Longrightarrow> \<exists>c. xs = c @ up \<and> ys = c @ down \<and> \<not> (up \<noteq> [] \<and> down \<noteq> [] \<and> hd up = hd down)"
proof (induction xs ys rule: strip_common.induct)
  case (1 x xs y ys)
  show ?case
  proof (cases "x = y")
    case True
    then obtain c where "xs = c @ up" "ys = c @ down" "\<not> (up \<noteq> [] \<and> down \<noteq> [] \<and> hd up = hd down)" using 1 by auto
    then show ?thesis using True by (intro exI [of _ "x # c"]) simp
  qed (use 1 in auto)
qed auto

text \<open>\<open>Rel\<close> between absolute paths: it exists, leads from the one to the other, and stays below
  exactly when the components of the base are a prefix of the others.\<close>

lemma Rel_absolute:
  assumes "IsAbs base" "IsAbs targ"
  obtains cs where "Rel base targ = Some (from_components False cs)" "ups cs"
    "list_all proper cs \<longleftrightarrow> (\<exists>d. components targ = components base @ d)"
    "list_all proper cs \<Longrightarrow> components targ = components base @ cs"
proof -
  obtain up down where s: "strip_common (components base) (components targ) = (up, down)" by (meson surj_pair)
  obtain c where c: "components base = c @ up" "components targ = c @ down" "\<not> (up \<noteq> [] \<and> down \<noteq> [] \<and> hd up = hd down)"
    using strip_common_spec [OF s] by blast
  have pr: "list_all proper up" "list_all proper down"
    using components_rooted [OF assms(1)] components_rooted [OF assms(2)] c by simp_all
  have "\<not> proper ''..''" by (simp add: proper_def)
  then have nodots: "''..'' \<notin> set up" using pr(1) by (auto simp: list_all_iff)
  let ?cs = "replicate (length up) ''..'' @ down"
  have m: "map (\<lambda>_. ''..'') up = replicate (length up) ''..''" by (rule map_replicate_const)
  have up0: "list_all proper ?cs \<longleftrightarrow> up = []" using pr(2) \<open>\<not> proper ''..''\<close> by (cases up) auto
  have pre: "(\<exists>d. components targ = components base @ d) \<longleftrightarrow> up = []"
  proof
    assume "\<exists>d. components targ = components base @ d"
    then obtain d where "down = up @ d" using c by auto
    then show "up = []" using c(3) by (cases up) auto
  qed (use c in auto)
  show thesis
  proof (rule that)
    show "Rel base targ = Some (from_components False ?cs)"
      using assms nodots by (simp add: Rel_def s m)
    show "ups ?cs" using pr(2) by (auto simp: ups_def)
    show "list_all proper ?cs \<longleftrightarrow> (\<exists>d. components targ = components base @ d)" using up0 pre by simp
    show "list_all proper ?cs \<Longrightarrow> components targ = components base @ ?cs" using up0 c by simp
  qed
qed

lemma Abs_absolute: "IsAbs wd \<Longrightarrow> IsAbs (Abs wd p)"
proof -
  assume "IsAbs wd"
  then have "wd \<noteq> []" "IsAbs (wd @ slash # p)" by (auto simp: IsAbs_iff)
  then show ?thesis using \<open>IsAbs wd\<close> by (simp add: Abs_def JoinPath_def)
qed

subsection \<open>Characters of a clean path\<close>

lemma clean_stack_subset: "set (clean_stack r acc cs) \<subseteq> set acc \<union> set cs"
  by (induction r acc cs rule: clean_stack.induct) (auto split: list.splits if_splits)

lemma Join_chars: "set (Join ws sep) \<subseteq> (\<Union>w \<in> set ws. set w) \<union> set sep"
  by (induction ws sep rule: Join.induct) auto

lemma Split_chars: "w \<in> set (Split s sep) \<Longrightarrow> set w \<subseteq> set s"
  by (induction s sep arbitrary: w rule: Split.induct) (fastforce split: list.splits if_splits)+

lemma Clean_chars: "set (Clean p) \<subseteq> set p \<union> {slash, CHR ''.''}"
proof -
  have "set w \<subseteq> set p" if "w \<in> set (components p)" for w
    using that clean_stack_subset [of "IsAbs p" "[]" "Split p slash"] Split_chars [of w p slash] by (auto simp: components_def)
  then show ?thesis using Join_chars [of "components p" "[slash]"]
    by (auto simp: Clean_def from_components_def)
qed

end
