(* ===== verification/Identity.thy ===== *)
theory Identity
  imports SshArgs GoPath
begin

text \<open>
  \<open>internal/identity/identity.go\<close>: the identities of an installation, a target, a context and a
  session. SHA-256, the JSON and UUID libraries and the clock are parameters; the installation file
  is shared by all processes of a user, and its creation is a step system over the file and its lock.
\<close>

subsection \<open>Identifiers\<close>

definition ContextABI :: string where "ContextABI = ''context-v1''"

definition RuntimeID :: string where "RuntimeID = ''bridge-v1.mux-v2.remotefs-v3''"

definition LocalRuntimeID :: string where "LocalRuntimeID = ''locald-v1.forward-v1''"

record ssh_target =
  tgUser :: string
  tgHostname :: string
  tgPort :: int
  tgHostKeyAlias :: string

text \<open>What is hashed: every part after a zero byte; the digest is the first 32 hexadecimal digits.\<close>

definition digestInput :: "string list \<Rightarrow> string" where
  "digestInput parts = concat (map (\<lambda>part. CHR 0x00 # part) parts)"

definition digest :: "(string \<Rightarrow> string) \<Rightarrow> string list \<Rightarrow> string" where
  "digest hexsha parts = take 32 (hexsha (digestInput parts))"

definition TargetID :: "(string \<Rightarrow> string) \<Rightarrow> (ssh_target \<Rightarrow> string) \<Rightarrow> ssh_target \<Rightarrow> string" where
  "TargetID hexsha marshal target = digest hexsha [''target'', marshal target]"

definition ContextID :: "(string \<Rightarrow> string) \<Rightarrow> string \<Rightarrow> string \<Rightarrow> string \<Rightarrow> string" where
  "ContextID hexsha clientInstallID targetID profile =
     digest hexsha [''context'', clientInstallID, targetID, ToLower profile, ContextABI]"

definition RuntimeHomeID :: "(string \<Rightarrow> string) \<Rightarrow> string \<Rightarrow> string" where
  "RuntimeHomeID hexsha targetID = digest hexsha [''runtime-home'', targetID, RuntimeID]"

subsection \<open>The target of a command line\<close>

text \<open>The lines of \<open>ssh -G\<close>: the first value of a key counts.\<close>

definition probeLine :: "string \<Rightarrow> (string \<rightharpoonup> string) \<Rightarrow> (string \<rightharpoonup> string)" where
  "probeLine line values =
     (case Cut (TrimSpace line) CHR '' '' of (key, value, ok) \<Rightarrow>
        if \<not> ok then values
        else let key = ToLower (TrimSpace key) in
             if values key \<noteq> None then values else values(key \<mapsto> TrimSpace value))"

definition probeValues :: "string \<Rightarrow> (string \<rightharpoonup> string)" where
  "probeValues out = fold probeLine (Split out CHR 0x0A) Map.empty"

definition valueOf :: "(string \<rightharpoonup> string) \<Rightarrow> string \<Rightarrow> string" where
  "valueOf values key = (case values key of None \<Rightarrow> [] | Some v \<Rightarrow> v)"

definition targetOf :: "(string \<rightharpoonup> string) \<Rightarrow> (string, ssh_target) result" where
  "targetOf values =
     (case Atoi (valueOf values ''port'') of
        None \<Rightarrow> Inl (''invalid SSH target port '' @ valueOf values ''port'')
      | Some port \<Rightarrow>
          (if port \<le> 0 \<or> port > 65535 then Inl (''invalid SSH target port '' @ valueOf values ''port'')
           else
             let target = \<lparr>tgUser = valueOf values ''user'', tgHostname = ToLower (valueOf values ''hostname''), tgPort = port,
                   tgHostKeyAlias = ToLower (valueOf values ''hostkeyalias'')\<rparr>;
                 target = (if tgHostKeyAlias target = ''none'' then target\<lparr>tgHostKeyAlias := []\<rparr> else target)
             in if tgUser target = [] \<or> tgHostname target = [] then Inl ''ssh -G did not return user and hostname''
                else Inr target))"

text \<open>\<open>run\<close> is what running ssh with the given arguments prints.\<close>

definition ResolveTarget ::
  "(string \<Rightarrow> string list \<Rightarrow> (string, string) result) \<Rightarrow> string \<Rightarrow> string list \<Rightarrow> (string, ssh_target) result" where
  "ResolveTarget run sshPath args =
     (let sshPath = (if sshPath = [] then ''ssh'' else sshPath);
          probe = ConfigProbeArgs args
      in if probe = [] then Inl ''SSH target is required''
         else case run sshPath (''-G'' # probe) of
           Inl err \<Rightarrow> Inl (''resolve SSH target with '' @ sshPath @ '' -G: '' @ err)
         | Inr out \<Rightarrow> targetOf (probeValues out))"

subsection \<open>The installation\<close>

record install =
  inID :: string
  inCreatedAt :: string

datatype install_error = NotExist | OtherError string

text \<open>A file that is not there, cannot be read, or has a content.\<close>

datatype file_content = Missing | Refused string | Content string

definition readInstall ::
  "(string \<Rightarrow> (string, install) result) \<Rightarrow> (string \<Rightarrow> bool) \<Rightarrow> file_content \<Rightarrow> (install_error, install) result" where
  "readInstall unmarshal valid f =
     (case f of
        Missing \<Rightarrow> Inl NotExist
      | Refused err \<Rightarrow> Inl (OtherError err)
      | Content b \<Rightarrow>
          (case unmarshal b of
             Inl err \<Rightarrow> Inl (OtherError (''decode client install identity: '' @ err))
           | Inr i \<Rightarrow> (if valid (inID i) then Inr i else Inl (OtherError ''client install identity is invalid''))))"

text \<open>Where a process is in \<open>EnsureInstall\<close>: before the first read, waiting for the lock, holding it before
  and after the second read, about to release it, and after the return.\<close>

datatype install_at =
    First | Waiting | Holding | Creating | Leaving "(install_error, install) result" | Returned "(install_error, install) result"

definition firstRead :: "(install_error, install) result \<Rightarrow> install_at" where
  "firstRead r = (case r of Inr i \<Rightarrow> Returned (Inr i) | Inl NotExist \<Rightarrow> Waiting | Inl (OtherError e) \<Rightarrow> Returned (Inl (OtherError e)))"

definition lockedRead :: "(install_error, install) result \<Rightarrow> install_at" where
  "lockedRead r = (case r of Inr i \<Rightarrow> Leaving (Inr i) | Inl NotExist \<Rightarrow> Creating | Inl (OtherError e) \<Rightarrow> Leaving (Inl (OtherError e)))"

text \<open>The creation under the lock: the new identity, or the error of the generator, and the outcome of the
  atomic write, which replaces the file or leaves it.\<close>

definition createInstall ::
  "(install \<Rightarrow> string) \<Rightarrow> (install_error, install) result \<Rightarrow> install_error option \<Rightarrow> file_content \<Rightarrow> install_at \<times> file_content" where
  "createInstall marshal generated writeErr f =
     (case generated of
        Inl err \<Rightarrow> (Leaving (Inl err), f)
      | Inr i \<Rightarrow>
          (case writeErr of
             Some err \<Rightarrow> (Leaving (Inl err), f)
           | None \<Rightarrow> (Leaving (Inr i), Content (marshal i @ [CHR 0x0A]))))"

record install_world =
  iwFile :: file_content
  iwLock :: "nat option"
  iwAt :: "nat \<Rightarrow> install_at"

inductive install_step ::
  "(string \<Rightarrow> (string, install) result) \<Rightarrow> (install \<Rightarrow> string) \<Rightarrow> (string \<Rightarrow> bool) \<Rightarrow> install_world \<Rightarrow> install_world \<Rightarrow> bool"
  for unmarshal marshal valid where
  first_read: "iwAt w p = First \<Longrightarrow>
    install_step unmarshal marshal valid w (w\<lparr>iwAt := (iwAt w)(p := firstRead (readInstall unmarshal valid (iwFile w)))\<rparr>)"
| lock: "iwAt w p = Waiting \<Longrightarrow> iwLock w = None \<Longrightarrow>
    install_step unmarshal marshal valid w (w\<lparr>iwLock := Some p, iwAt := (iwAt w)(p := Holding)\<rparr>)"
| lock_fails: "iwAt w p = Waiting \<Longrightarrow>
    install_step unmarshal marshal valid w (w\<lparr>iwAt := (iwAt w)(p := Returned (Inl (OtherError err)))\<rparr>)"
| locked_read: "iwAt w p = Holding \<Longrightarrow>
    install_step unmarshal marshal valid w (w\<lparr>iwAt := (iwAt w)(p := lockedRead (readInstall unmarshal valid (iwFile w)))\<rparr>)"
| create: "iwAt w p = Creating \<Longrightarrow> (case generated of Inl err \<Rightarrow> err \<noteq> NotExist | Inr i \<Rightarrow> valid (inID i)) \<Longrightarrow>
    createInstall marshal generated writeErr (iwFile w) = (at, f) \<Longrightarrow>
    install_step unmarshal marshal valid w (w\<lparr>iwFile := f, iwAt := (iwAt w)(p := at)\<rparr>)"
| unlock: "iwAt w p = Leaving r \<Longrightarrow>
    install_step unmarshal marshal valid w (w\<lparr>iwLock := None, iwAt := (iwAt w)(p := Returned r)\<rparr>)"

inductive_cases install_stepE: "install_step unmarshal marshal valid w w'"

definition install_start :: "file_content \<Rightarrow> install_world" where
  "install_start f = \<lparr>iwFile = f, iwLock = None, iwAt = (\<lambda>_. First)\<rparr>"

text \<open>\<open>EnsureInstall\<close> of one process that no other one disturbs.\<close>

definition EnsureInstall ::
  "(string \<Rightarrow> (string, install) result) \<Rightarrow> (install \<Rightarrow> string) \<Rightarrow> (string \<Rightarrow> bool) \<Rightarrow> (install_error, install) result \<Rightarrow>
   install_error option \<Rightarrow> install_error option \<Rightarrow> file_content \<Rightarrow> (install_error, install) result \<times> file_content" where
  "EnsureInstall unmarshal marshal valid generated lockErr writeErr f =
     (case firstRead (readInstall unmarshal valid f) of
        Returned r \<Rightarrow> (r, f)
      | _ \<Rightarrow>
          (case lockErr of
             Some err \<Rightarrow> (Inl err, f)
           | None \<Rightarrow>
               (case lockedRead (readInstall unmarshal valid f) of
                  Leaving r \<Rightarrow> (r, f)
                | _ \<Rightarrow> (case createInstall marshal generated writeErr f of
                     (Leaving r, f') \<Rightarrow> (r, f') | (_, f') \<Rightarrow> (Inl NotExist, f')))))"

record connection =
  cnTargetID :: string
  cnContextID :: string
  cnSessionID :: string

definition NewConnection ::
  "(string \<Rightarrow> string) \<Rightarrow> (ssh_target \<Rightarrow> string) \<Rightarrow> (install_error, install) result \<Rightarrow> (string, ssh_target) result \<Rightarrow>
   (string, string) result \<Rightarrow> string \<Rightarrow> (string, connection) result" where
  "NewConnection hexsha marshal installed target uuid profile =
     (case installed of
        Inl err \<Rightarrow> Inl (case err of NotExist \<Rightarrow> ''not found'' | OtherError e \<Rightarrow> e)
      | Inr install \<Rightarrow>
          (case target of
             Inl err \<Rightarrow> Inl err
           | Inr t \<Rightarrow>
               (let targetID = TargetID hexsha marshal t in
                case uuid of
                  Inl err \<Rightarrow> Inl err
                | Inr sessionID \<Rightarrow>
                    Inr \<lparr>cnTargetID = targetID, cnContextID = ContextID hexsha (inID install) targetID profile,
                         cnSessionID = sessionID\<rparr>)))"

subsection \<open>Identities separate what they name\<close>

lemma digestInput_simps: "digestInput [] = []" "digestInput (p # ps) = CHR 0x00 # p @ digestInput ps"
  by (simp_all add: digestInput_def)

definition nul_free :: "string \<Rightarrow> bool" where "nul_free s \<longleftrightarrow> CHR 0x00 \<notin> set s"

lemma digestInput_head: "digestInput ps = [] \<or> (\<exists>r. digestInput ps = CHR 0x00 # r)"
  by (cases ps) (simp_all add: digestInput_simps)

lemma nul_split:
  assumes "nul_free a" "nul_free b" "a @ x = b @ y"
    and "x = [] \<or> (\<exists>r. x = CHR 0x00 # r)" "y = [] \<or> (\<exists>r. y = CHR 0x00 # r)"
  shows "a = b \<and> x = y"
proof -
  have t: "takeWhile (\<lambda>c. c \<noteq> CHR 0x00) (s @ z) = s" if "nul_free s" "z = [] \<or> (\<exists>r. z = CHR 0x00 # r)" for s z
  proof -
    have "takeWhile (\<lambda>c. c \<noteq> CHR 0x00) (s @ z) = s @ takeWhile (\<lambda>c. c \<noteq> CHR 0x00) z"
      using that(1) by (intro takeWhile_append2) (auto simp: nul_free_def)
    then show ?thesis using that(2) by auto
  qed
  have "a = takeWhile (\<lambda>c. c \<noteq> CHR 0x00) (a @ x)" using t [OF assms(1,4)] by simp
  also have "\<dots> = b" unfolding assms(3) using t [OF assms(2,5)] .
  finally have "a = b" .
  then show ?thesis using assms(3) by simp
qed

lemma digestInput_inject:
  "list_all nul_free ps \<Longrightarrow> list_all nul_free qs \<Longrightarrow> digestInput ps = digestInput qs \<longleftrightarrow> ps = qs"
proof (induction ps arbitrary: qs)
  case Nil
  then show ?case by (cases qs) (simp_all add: digestInput_simps)
next
  case (Cons p ps)
  show ?case
  proof (cases qs)
    case Nil
    then show ?thesis by (simp add: digestInput_simps)
  next
    case (Cons q qs')
    have nf: "nul_free p" "nul_free q" "list_all nul_free ps" "list_all nul_free qs'" using Cons.prems Cons by simp_all
    have "p @ digestInput ps = q @ digestInput qs' \<longleftrightarrow> p = q \<and> digestInput ps = digestInput qs'"
      using nul_split [OF nf(1,2) _ digestInput_head digestInput_head] by blast
    then show ?thesis using Cons.IH [OF nf(3,4)] Cons by (simp add: digestInput_simps)
  qed
qed

text \<open>The hashed inputs keep all identities apart: two contexts have one input exactly when installation, target
  and profile (up to case) are the same, and no target, context or runtime home shares its input with
  one of another kind; so identities can coincide only where the hash itself collides.\<close>

theorem identities_separate:
  assumes "list_all nul_free [install, target, profile, install', target', profile']"
  shows "(digestInput [''context'', install, target, ToLower profile, ContextABI] =
          digestInput [''context'', install', target', ToLower profile', ContextABI] \<longleftrightarrow>
            install = install' \<and> target = target' \<and> EqualFold profile profile') \<and>
    digestInput [''context'', install, target, ToLower profile, ContextABI] \<noteq> digestInput [''target'', install'] \<and>
    digestInput [''runtime-home'', target, RuntimeID] \<noteq> digestInput [''context'', install', target', ToLower profile', ContextABI] \<and>
    digestInput [''runtime-home'', target, RuntimeID] \<noteq> digestInput [''target'', target']"
proof -
  have low: "nul_free (ToLower s)" if "nul_free s" for s
  proof -
    have "lower_char c \<noteq> CHR 0x00" if "c \<noteq> CHR 0x00" for c
    proof
      assume "lower_char c = CHR 0x00"
      then have l: "of_char (lower_char c) = (0 :: nat)" by simp
      show False
      proof (cases "lower_char c = c")
        case True
        then show False using that \<open>lower_char c = CHR 0x00\<close> by simp
      next
        case False
        then have "(of_char c :: nat) \<le> 90" "lower_char c = char_of (of_char c + 32 :: nat)"
          by (simp_all add: lower_char_def split: if_splits)
        then show False using l by simp
      qed
    qed
    then show ?thesis using that unfolding nul_free_def ToLower_def by (metis (no_types) image_iff set_map)
  qed
  have c: "nul_free ''context''" "nul_free ''target''" "nul_free ''runtime-home''" "nul_free ContextABI" "nul_free RuntimeID"
    by code_simp+
  have nf: "nul_free install" "nul_free target" "nul_free install'" "nul_free target'" "nul_free (ToLower profile)"
      "nul_free (ToLower profile')"
    using assms low by simp_all
  have e: "digestInput [''context'', install, target, ToLower profile, ContextABI] =
          digestInput [''context'', install', target', ToLower profile', ContextABI] \<longleftrightarrow>
            install = install' \<and> target = target' \<and> EqualFold profile profile'"
    unfolding EqualFold_def using nf c by (subst digestInput_inject) simp_all
  have d: "digestInput [''context'', install, target, ToLower profile, ContextABI] \<noteq> digestInput [''target'', install']"
    "digestInput [''runtime-home'', target, RuntimeID] \<noteq> digestInput [''context'', install', target', ToLower profile', ContextABI]"
    "digestInput [''runtime-home'', target, RuntimeID] \<noteq> digestInput [''target'', target']"
    using nf c by (simp_all add: digestInput_inject)
  show ?thesis using e d by blast
qed


subsection \<open>Reading the probe\<close>

definition probe_pair :: "string \<times> string \<Rightarrow> bool" where
  "probe_pair kv \<longleftrightarrow> fst kv \<noteq> [] \<and> snd kv \<noteq> [] \<and> (\<forall>c \<in> set (fst kv). \<not> is_space c \<and> lower_char c = c) \<and>
     \<not> is_space (hd (snd kv)) \<and> \<not> is_space (last (snd kv)) \<and> CHR 0x0A \<notin> set (snd kv)"

definition probe_output :: "(string \<times> string) list \<Rightarrow> string" where
  "probe_output kvs = Join (map (\<lambda>(k, v). k @ '' '' @ v) kvs) [CHR 0x0A]"

lemma TrimFunc_trimmed: "s \<noteq> [] \<Longrightarrow> \<not> p (hd s) \<Longrightarrow> \<not> p (last s) \<Longrightarrow> TrimFunc p s = s"
  using TrimFunc_keep_front [of s p "[]"] by (simp add: trim_right_def)

lemma probeLine_pair:
  assumes "probe_pair (k, v)"
  shows "probeLine (k @ '' '' @ v) values = (if values k \<noteq> None then values else values(k \<mapsto> v))"
proof -
  have k: "k \<noteq> []" "\<forall>c \<in> set k. \<not> is_space c \<and> lower_char c = c" and v: "v \<noteq> []" "\<not> is_space (hd v)" "\<not> is_space (last v)"
    using assms by (simp_all add: probe_pair_def)
  have t: "TrimSpace (k @ '' '' @ v) = k @ '' '' @ v"
    unfolding TrimSpace_def by (rule TrimFunc_trimmed) (use k v in auto)
  have c: "Cut (k @ '' '' @ v) CHR '' '' = (k, v, True)"
    using k(2) by (auto simp: Cut_def is_space_def takeWhile_append dropWhile_append)
  have "ToLower (TrimSpace k) = k"
    using k(2) by (simp add: TrimSpace_id ToLower_def map_idI)
  moreover have "TrimSpace v = v" unfolding TrimSpace_def by (rule TrimFunc_trimmed) (use v in auto)
  ultimately show ?thesis unfolding probeLine_def t c by (simp add: Let_def)
qed

lemma probeValues_output:
  assumes "list_all probe_pair kvs" "kvs \<noteq> []"
  shows "probeValues (probe_output kvs) = map_of kvs"
proof -
  have nl: "CHR 0x0A \<notin> set k" if "probe_pair (k, v)" for k v
    using that unfolding probe_pair_def is_space_def by force
  have nl2: "CHR 0x0A \<notin> set v" if "probe_pair (k, v)" for k v
    using that unfolding probe_pair_def by simp
  have "CHR 0x0A \<notin> set w" if "w \<in> set (map (\<lambda>(k, v). k @ '' '' @ v) kvs)" for w
  proof -
    from that obtain kv where kv: "kv \<in> set kvs" "w = (case kv of (k, v) \<Rightarrow> k @ '' '' @ v)" by auto
    obtain k v where "kv = (k, v)" by (cases kv)
    with kv have "(k, v) \<in> set kvs" "w = k @ '' '' @ v" by simp_all
    then show ?thesis using assms(1) nl nl2 by (auto simp: list_all_iff)
  qed
  then have "Split (probe_output kvs) CHR 0x0A = map (\<lambda>(k, v). k @ '' '' @ v) kvs"
    unfolding probe_output_def using assms(2) by (intro Split_Join) auto
  moreover have "fold probeLine (map (\<lambda>(k, v). k @ '' '' @ v) kvs) m = map_of kvs ++ m" if "list_all probe_pair kvs" for m kvs
    using that
  proof (induction kvs arbitrary: m)
    case (Cons kv kvs)
    obtain k v where kv: "kv = (k, v)" by (cases kv)
    then have "probe_pair (k, v)" using Cons.prems by simp
    from probeLine_pair [OF this] have "probeLine (k @ CHR '' '' # v) m = (if m k \<noteq> None then m else m(k \<mapsto> v))" by simp
    then show ?case using Cons kv by (auto simp: fun_eq_iff map_add_def split: option.splits)
  qed simp
  ultimately show ?thesis using assms by (simp add: probeValues_def)
qed

text \<open>The target of a command line is what ssh reports for its configuration options and destination: user,
  host name and host key alias in lower case, and a port in range; of a key that is reported several
  times the first value counts, and the alias \<open>none\<close> is no alias.\<close>

theorem ResolveTarget_spec:
  assumes "list_all probe_pair kvs" "run ''ssh'' (''-G'' # ConfigProbeArgs args) = Inr (probe_output kvs)"
    and "map_of kvs ''user'' = Some u" "map_of kvs ''hostname'' = Some h" "map_of kvs ''port'' = Some (nat_digits p)"
    and "0 < p" "p \<le> 65535" "ConfigProbeArgs args \<noteq> []"
  shows "ResolveTarget run [] args = Inr \<lparr>tgUser = u, tgHostname = ToLower h, tgPort = int p,
     tgHostKeyAlias = (case map_of kvs ''hostkeyalias'' of None \<Rightarrow> [] | Some a \<Rightarrow> if ToLower a = ''none'' then [] else ToLower a)\<rparr>"
proof -
  have v: "probeValues (probe_output kvs) = map_of kvs"
    by (rule probeValues_output) (use assms in auto)
  have p: "Atoi (nat_digits p) = Some (int p)" using assms(7) by (intro Atoi_nat_digits) simp
  have "(''user'', u) \<in> set kvs" "(''hostname'', h) \<in> set kvs" using assms(3,4) by (blast intro: map_of_SomeD)+
  then have "u \<noteq> []" "h \<noteq> []" using assms(1) by (auto simp: list_all_iff probe_pair_def)
  then show ?thesis
    using assms p by (auto simp: ResolveTarget_def targetOf_def valueOf_def v Let_def split: option.splits)
qed

theorem ResolveTarget_spec_witness:
  "ResolveTarget (\<lambda>path args. Inr (probe_output [(''user'', ''me''), (''hostname'', ''Web.LAN''), (''port'', ''2222''), (''port'', ''22'')])) []
     [''-L'', ''80:x:80'', ''-p'', ''2222'', ''web''] =
   Inr \<lparr>tgUser = ''me'', tgHostname = ''web.lan'', tgPort = 2222, tgHostKeyAlias = []\<rparr>"
proof -
  let ?kvs = "[(''user'', ''me''), (''hostname'', ''Web.LAN''), (''port'', ''2222''), (''port'', ''22'')]"
  have d: "nat_digits 2222 = ''2222''" by code_simp
  have w: "list_all probe_pair ?kvs" by code_simp
  have a: "ConfigProbeArgs [''-L'', ''80:x:80'', ''-p'', ''2222'', ''web''] \<noteq> []" by code_simp
  have l: "ToLower ''Web.LAN'' = ''web.lan''" by code_simp
  show ?thesis
    using ResolveTarget_spec [where run = "\<lambda>path args. Inr (probe_output ?kvs)" and kvs = ?kvs and u = "''me''" and h = "''Web.LAN''"
        and p = 2222 and args = "[''-L'', ''80:x:80'', ''-p'', ''2222'', ''web'']", OF w _ _ _ _ _ _ a]
    by (simp add: d l)
qed

subsection \<open>One installation\<close>

fun in_section :: "install_at \<Rightarrow> bool" where
  "in_section Holding = True"
| "in_section Creating = True"
| "in_section (Leaving r) = True"
| "in_section _ = False"

definition install_inv ::
  "(string \<Rightarrow> (string, install) result) \<Rightarrow> (string \<Rightarrow> bool) \<Rightarrow> file_content \<Rightarrow> install_world \<Rightarrow> bool" where
  "install_inv unmarshal valid f w \<longleftrightarrow>
     (\<forall>p. in_section (iwAt w p) = (iwLock w = Some p)) \<and>
     (f = Missing \<or> iwFile w = f) \<and>
     (\<forall>p. iwAt w p = Creating \<longrightarrow> iwFile w = Missing) \<and>
     (\<forall>p i. iwAt w p = Leaving (Inr i) \<or> iwAt w p = Returned (Inr i) \<longrightarrow> readInstall unmarshal valid (iwFile w) = Inr i)"

lemma readInstall_missing: "readInstall unmarshal valid f = Inl NotExist \<longleftrightarrow> f = Missing"
  by (auto simp: readInstall_def split: file_content.splits sum.splits)

lemma install_inv_step:
  assumes "install_step unmarshal marshal valid w w'" "install_inv unmarshal valid f w"
    and codec: "\<And>i. valid (inID i) \<Longrightarrow> unmarshal (marshal i @ [CHR 0x0A]) = Inr i"
  shows "install_inv unmarshal valid f w'"
proof -
  have lk: "in_section (iwAt w q) = (iwLock w = Some q)" for q
    using assms(2) by (simp add: install_inv_def)
  show ?thesis using assms(1)
  proof cases
    case (first_read p)
    then show ?thesis using assms(2) lk [of p]
      by (auto simp: install_inv_def firstRead_def split: sum.splits install_error.splits)
  next
    case (lock p)
    then show ?thesis using assms(2) by (auto simp: install_inv_def)
  next
    case (lock_fails p err)
    then show ?thesis using assms(2) lk [of p] by (auto simp: install_inv_def)
  next
    case (locked_read p)
    then show ?thesis using assms(2) lk [of p] readInstall_missing [of unmarshal valid "iwFile w"]
      by (auto simp: install_inv_def lockedRead_def split: sum.splits install_error.splits)
  next
    case (create p generated writeErr at' f')
    have m: "iwFile w = Missing" "iwLock w = Some p" "f = Missing"
      using assms(2) create(2) lk [of p] by (auto simp: install_inv_def)
    have none: "iwAt w q \<noteq> Leaving (Inr i) \<and> iwAt w q \<noteq> Returned (Inr i)" for q i
      using assms(2) m(1) by (auto simp: install_inv_def readInstall_def)
    have only: "iwAt w q = Creating \<Longrightarrow> q = p" for q
      using lk [of q] m(2) by simp
    have r: "readInstall unmarshal valid (Content (marshal i @ [CHR 0x0A])) = Inr i" if "valid (inID i)" for i
      using codec [OF that] that by (simp add: readInstall_def)
    have f': "at' = Leaving (Inr i) \<longrightarrow> readInstall unmarshal valid f' = Inr i" for i
      using create(3,4) r by (auto simp: createInstall_def split: sum.splits option.splits)
    obtain x where x: "at' = Leaving x"
      using create(4) by (auto simp: createInstall_def split: sum.splits option.splits)
    show ?thesis
      using create(1) m none only lk f' unfolding install_inv_def x by auto
  next
    case (unlock p r)
    then show ?thesis using assms(2) lk [of p] by (auto simp: install_inv_def)
  qed
qed

lemma install_inv_reachable:
  assumes "(install_step unmarshal marshal valid)\<^sup>*\<^sup>* (install_start f) w"
    and "\<And>i. valid (inID i) \<Longrightarrow> unmarshal (marshal i @ [CHR 0x0A]) = Inr i"
  shows "install_inv unmarshal valid f w"
  using assms(1)
proof (induction rule: rtranclp_induct)
  case base
  then show ?case by (auto simp: install_inv_def install_start_def)
next
  case (step w w')
  then show ?case using install_inv_step assms(2) by blast
qed

text \<open>C30. One user has one installation identity: whatever processes run \<open>EnsureInstall\<close> at the same time, and
  wherever some of them fail, all that return an identity return the same one, which is the one in the
  file; an identity that was in the file before is kept.\<close>

theorem one_installation:
  assumes "(install_step unmarshal marshal valid)\<^sup>*\<^sup>* (install_start f) w"
    and "\<And>i. valid (inID i) \<Longrightarrow> unmarshal (marshal i @ [CHR 0x0A]) = Inr i"
    and "iwAt w p = Returned (Inr i)"
  shows "readInstall unmarshal valid (iwFile w) = Inr i \<and>
    (case iwAt w q of Returned (Inr j) \<Rightarrow> j = i | _ \<Rightarrow> True) \<and>
    (case readInstall unmarshal valid f of Inr k \<Rightarrow> k = i | Inl err \<Rightarrow> f = Missing)"
proof -
  have inv: "install_inv unmarshal valid f w" using install_inv_reachable [OF assms(1,2)] .
  then have r: "readInstall unmarshal valid (iwFile w) = Inr i"
    and q: "\<And>j. iwAt w q = Returned (Inr j) \<Longrightarrow> readInstall unmarshal valid (iwFile w) = Inr j"
    and f: "f = Missing \<or> iwFile w = f"
    using assms(3) by (auto simp: install_inv_def)
  have "case readInstall unmarshal valid f of Inr k \<Rightarrow> k = i | Inl err \<Rightarrow> f = Missing"
    using f r by (cases "f = Missing") (auto simp: readInstall_def split: sum.splits)
  then show ?thesis using r q by (auto split: install_at.splits sum.splits)
qed

definition toy_install_unmarshal :: "string \<Rightarrow> (string, install) result" where
  "toy_install_unmarshal b = (if b = [] then Inl ''unexpected end'' else
     Inr \<lparr>inID = takeWhile (\<lambda>c. c \<noteq> CHR '';'') b, inCreatedAt = butlast (drop 1 (dropWhile (\<lambda>c. c \<noteq> CHR '';'') b))\<rparr>)"

definition toy_install_marshal :: "install \<Rightarrow> string" where
  "toy_install_marshal i = inID i @ '';'' @ inCreatedAt i"

definition toy_valid :: "string \<Rightarrow> bool" where
  "toy_valid s = (CHR '';'' \<notin> set s)"

lemma toy_codec: "toy_valid (inID i) \<Longrightarrow> toy_install_unmarshal (toy_install_marshal i @ [CHR 0x0A]) = Inr i"
  by (auto simp: toy_valid_def toy_install_unmarshal_def toy_install_marshal_def takeWhile_append dropWhile_append)

text \<open>Two processes find no file; the second one gets the lock first.\<close>

theorem one_installation_witness:
  "\<exists>w. (install_step toy_install_unmarshal toy_install_marshal toy_valid)\<^sup>*\<^sup>* (install_start Missing) w \<and>
     iwAt w 1 = Returned (Inr \<lparr>inID = ''a'', inCreatedAt = ''t''\<rparr>) \<and>
     readInstall toy_install_unmarshal toy_valid (iwFile w) = Inr \<lparr>inID = ''a'', inCreatedAt = ''t''\<rparr>"
proof -
  let ?R = "install_step toy_install_unmarshal toy_install_marshal toy_valid"
  let ?i = "\<lparr>inID = ''a'', inCreatedAt = ''t''\<rparr>"
  define w0 where "w0 = install_start Missing"
  define w1 where "w1 = w0\<lparr>iwAt := (iwAt w0)(0 := Waiting)\<rparr>"
  define w2 where "w2 = w1\<lparr>iwAt := (iwAt w1)(1 := Waiting)\<rparr>"
  define w3 where "w3 = w2\<lparr>iwLock := Some 1, iwAt := (iwAt w2)(1 := Holding)\<rparr>"
  define w4 where "w4 = w3\<lparr>iwAt := (iwAt w3)(1 := Creating)\<rparr>"
  define w5 where "w5 = w4\<lparr>iwFile := Content (''a;t'' @ [CHR 0x0A]), iwAt := (iwAt w4)(1 := Leaving (Inr ?i))\<rparr>"
  define w6 where "w6 = w5\<lparr>iwLock := None, iwAt := (iwAt w5)(1 := Returned (Inr ?i))\<rparr>"
  note ws = w1_def w2_def w3_def w4_def w5_def w6_def w0_def install_start_def
  have m: "readInstall toy_install_unmarshal toy_valid Missing = Inl NotExist" by (simp add: readInstall_def)
  have "?R w0 w1" using install_step.first_read [of w0 0 toy_install_unmarshal toy_install_marshal toy_valid] by (simp add: ws m firstRead_def)
  moreover have "?R w1 w2" using install_step.first_read [of w1 1 toy_install_unmarshal toy_install_marshal toy_valid] by (simp add: ws m firstRead_def)
  moreover have "?R w2 w3" using install_step.lock [of w2 1 toy_install_unmarshal toy_install_marshal toy_valid] by (simp add: ws)
  moreover have "?R w3 w4" using install_step.locked_read [of w3 1 toy_install_unmarshal toy_install_marshal toy_valid] by (simp add: ws m lockedRead_def)
  moreover have "?R w4 w5"
    using install_step.create [where w = w4 and p = 1 and generated = "Inr ?i" and writeErr = None and at = "Leaving (Inr ?i)"
        and f = "Content (''a;t'' @ [CHR 0x0A])" and valid = toy_valid and marshal = toy_install_marshal and unmarshal = toy_install_unmarshal]
    by (simp add: ws createInstall_def toy_install_marshal_def toy_valid_def)
  moreover have "?R w5 w6" using install_step.unlock [of w5 1 "Inr ?i" toy_install_unmarshal toy_install_marshal toy_valid] by (simp add: ws)
  ultimately have r: "?R\<^sup>*\<^sup>* (install_start Missing) w6" unfolding w0_def [symmetric]
    by (meson converse_rtranclp_into_rtranclp rtranclp.rtrancl_refl)
  have a: "iwAt w6 1 = Returned (Inr ?i)" by (simp add: w6_def)
  show ?thesis using one_installation [OF r toy_codec a, of 1] r a by blast
qed

end
