(* ===== verification/Locald.thy ===== *)
theory Locald
  imports Domain Loopback ForwardManager Protocol Identity
begin

text \<open>
  \<open>internal/locald\<close>: the local daemon that keeps, per ssh target, a loopback address, a host
  name and the port forwards, for as long as sessions lease it. The server's maps hold pointers
  to target records that callers keep across locked regions, so \<open>targets\<close> maps a key to an
  address in \<open>heap\<close>. Every locked region of \<open>server_session.go\<close> and \<open>server_target.go\<close> is one
  definition; the handlers are their compositions. Starting a DNS responder and the outcome of a
  forward are parameters; connections are outside the model.
\<close>

subsection \<open>Requests and responses\<close>

abbreviation TypePing :: string where "TypePing \<equiv> ''ping''"
abbreviation TypeEnsureTargetPort :: string where "TypeEnsureTargetPort \<equiv> ''ensureTargetPort''"
abbreviation TypeRemoveTargetPort :: string where "TypeRemoveTargetPort \<equiv> ''removeTargetPort''"
abbreviation TypeListPorts :: string where "TypeListPorts \<equiv> ''listPorts''"
abbreviation TypeOpenSession :: string where "TypeOpenSession \<equiv> ''session.open''"
abbreviation TypeShutdown :: string where "TypeShutdown \<equiv> ''shutdown''"

record Request =
  rqType :: string
  rqSSHPath :: string
  rqTarget :: string
  rqSSHArgs :: "string list"
  rqRemotePort :: int
  rqRemoteHost :: string
  rqDomainSuffix :: string
  rqDNSAddr :: string
  rqSessionID :: string
  rqLeaseID :: string
  rqTargetID :: string
  rqControlPath :: string
  rqRuntimeID :: string
  rqAppVersion :: string
  rqSequence :: "64 word"
  rqProtocolVersion :: int
  rqProtocolMin :: int
  rqProtocolMax :: int

record Forwarded =
  fdTarget :: string
  fdDomain :: string
  fdListenIP :: string
  fdLocalPort :: int
  fdRemotePort :: int

record Response =
  rsOK :: bool
  rsError :: string
  rsType :: string
  rsVersion :: string
  rsSequence :: "64 word"
  rsProtocolVersion :: int
  rsProtocolMin :: int
  rsProtocolMax :: int
  rsRuntimeID :: string
  rsLocalPort :: int
  rsDomain :: string
  rsListenIP :: string
  rsForwards :: "Forwarded list"

definition Response0 :: Response where
  "Response0 = \<lparr>rsOK = False, rsError = [], rsType = [], rsVersion = [], rsSequence = 0,
     rsProtocolVersion = 0, rsProtocolMin = 0, rsProtocolMax = 0, rsRuntimeID = [], rsLocalPort = 0,
     rsDomain = [], rsListenIP = [], rsForwards = []\<rparr>"

definition defaultSSHArgs :: "Request \<Rightarrow> string list" where
  "defaultSSHArgs req = (if rqSSHArgs req \<noteq> [] then rqSSHArgs req else [rqTarget req])"

definition requestKey :: "string \<Rightarrow> string list \<Rightarrow> string" where
  "requestKey sshPath sshArgs = sshPath @ [CHR 0x00] @ Join sshArgs [CHR 0x00]"

definition targetKey :: "Request \<Rightarrow> string" where
  "targetKey req =
     (if rqTargetID req \<noteq> [] then rqTargetID req
      else requestKey (rqSSHPath req) (defaultSSHArgs req))"

definition requestLeaseID :: "Request \<Rightarrow> string" where
  "requestLeaseID req = (if rqLeaseID req \<noteq> [] then rqLeaseID req else rqSessionID req)"

definition requestCompatible :: "Request \<Rightarrow> bool" where
  "requestCompatible req =
     (FrameCompatible (Frame0\<lparr>fProtocolVersion := rqProtocolVersion req,
        fProtocolMin := rqProtocolMin req, fProtocolMax := rqProtocolMax req\<rparr>)
      \<and> rqRuntimeID req = LocalRuntimeID)"

definition responseCompatible :: "Response \<Rightarrow> bool" where
  "responseCompatible resp =
     (FrameCompatible (Frame0\<lparr>fProtocolVersion := rsProtocolVersion resp,
        fProtocolMin := rsProtocolMin resp, fProtocolMax := rsProtocolMax resp\<rparr>)
      \<and> rsRuntimeID resp = LocalRuntimeID)"

definition protocolResponse :: "string \<Rightarrow> bool \<Rightarrow> Response" where
  "protocolResponse version ok = Response0\<lparr>rsOK := ok, rsVersion := version,
     rsProtocolVersion := Protocol.Version, rsProtocolMin := MinVersion,
     rsProtocolMax := MaxVersion, rsRuntimeID := LocalRuntimeID\<rparr>"

definition errResponse :: "string \<Rightarrow> Response" where
  "errResponse err = Response0\<lparr>rsError := err\<rparr>"

text \<open>The error literal of the session handler, with the server's version.\<close>

definition versionedError :: "string \<Rightarrow> string \<Rightarrow> Response" where
  "versionedError version err =
     Response0\<lparr>rsError := err, rsVersion := version, rsProtocolVersion := Protocol.Version\<rparr>"

subsection \<open>State\<close>

record targetRecord =
  trTarget :: string
  trDomain :: string
  trListenIP :: string
  trSessions :: nat
  trDomainManager :: string

record sessionRecord =
  srTargetKey :: string
  srSSHPath :: string
  srSSHArgs :: "string list"
  srControlPath :: string

record daemon =
  version :: string
  handoffGrace :: bool
  targets :: "string \<rightharpoonup> nat"
  heap :: "nat \<Rightarrow> targetRecord"
  nextRec :: nat
  domains :: "string \<rightharpoonup> Manager"
  sessions :: "string \<rightharpoonup> sessionRecord"
  forwarders :: "string \<rightharpoonup> FwdManager"
  draining :: bool
  shutdownClosed :: bool

definition NewServer :: "string \<Rightarrow> bool \<Rightarrow> daemon" where
  "NewServer v grace = \<lparr>version = v, handoffGrace = grace, targets = Map.empty,
     heap = (\<lambda>_. \<lparr>trTarget = [], trDomain = [], trListenIP = [], trSessions = 0, trDomainManager = []\<rparr>),
     nextRec = 0, domains = Map.empty, sessions = Map.empty, forwarders = Map.empty,
     draining = False, shutdownClosed = False\<rparr>"

definition initiateShutdown :: "daemon \<Rightarrow> daemon" where
  "initiateShutdown d = (if shutdownClosed d then d else d\<lparr>draining := True, shutdownClosed := True\<rparr>)"

definition hasSession :: "daemon \<Rightarrow> string \<Rightarrow> bool" where
  "hasSession d sessionID = (if sessionID = [] then False else sessions d sessionID \<noteq> None)"

subsection \<open>Targets: internal/locald/server_target.go\<close>

definition allocateLoopbackIP :: "string set \<Rightarrow> (string, string) result" where
  "allocateLoopbackIP used =
     (case find (\<lambda>ip. ip \<notin> used) (map (\<lambda>i. Address (int i)) [0..<Size]) of
        Some ip \<Rightarrow> Inr ip
      | None \<Rightarrow> Inl (''target loopback address pool exhausted ('' @ nat_digits Size @ '' addresses in use)''))"

definition usedIPs :: "daemon \<Rightarrow> string set" where
  "usedIPs d = {trListenIP (heap d p) | k p. targets d k = Some p}"

definition allocateLoopbackIPLocked :: "daemon \<Rightarrow> (string, string) result" where
  "allocateLoopbackIPLocked d = allocateLoopbackIP (usedIPs d)"

definition domainKey :: "Request \<Rightarrow> string" where
  "domainKey req = rqDomainSuffix req @ [CHR 0x00] @ rqDNSAddr req"

text \<open>\<open>start\<close> is the outcome of binding the DNS socket: the error, if any.\<close>

definition domainFor :: "daemon \<Rightarrow> string option \<Rightarrow> Request \<Rightarrow> (string, string) result \<times> daemon" where
  "domainFor d start req =
     (let key = domainKey req in
      case domains d key of
        Some _ \<Rightarrow> (Inr key, d)
      | None \<Rightarrow>
          (let m = NewManager (rqDomainSuffix req) (rqDNSAddr req) in
           if mSuffix m = [] then (Inl ''domain suffix is required'', d)
           else case start of
             Some err \<Rightarrow> (Inl err, d)
           | None \<Rightarrow> (Inr key, d\<lparr>domains := (domains d)(key \<mapsto> m)\<rparr>)))"

text \<open>
  \<open>ensureTarget\<close>: the checks and the first lookup (\<open>None\<close> goes on), then, with the domain manager
  at hand, the second locked region that allocates and registers. \<open>RegisterTarget\<close> is partial in
  the model, hence the outer option; \<open>ensureTarget_create_returns\<close> shows it never is \<open>None\<close>.
\<close>

definition ensureTarget_lookup :: "daemon \<Rightarrow> Request \<Rightarrow> (string, nat) result option" where
  "ensureTarget_lookup d req =
     (if rqTarget req = [] \<or> rqSSHPath req = [] \<or> rqDomainSuffix req = [] \<or> rqDNSAddr req = []
      then Some (Inl ''sshPath, target, domainSuffix and dnsAddr are required'')
      else case targets d (targetKey req) of Some p \<Rightarrow> Some (Inr p) | None \<Rightarrow> None)"

definition newTarget :: "daemon \<Rightarrow> string \<Rightarrow> string \<Rightarrow> targetRecord \<Rightarrow> Manager \<Rightarrow> daemon" where
  "newTarget d key domkey rec m =
     d\<lparr>targets := (targets d)(key \<mapsto> nextRec d), heap := (heap d)(nextRec d := rec),
       nextRec := Suc (nextRec d), domains := (domains d)(domkey \<mapsto> m)\<rparr>"

definition ensureTarget_create :: "daemon \<Rightarrow> Request \<Rightarrow> string \<Rightarrow> ((string, nat) result \<times> daemon) option" where
  "ensureTarget_create d req domkey =
     (case targets d (targetKey req) of
        Some p \<Rightarrow> Some (Inr p, d)
      | None \<Rightarrow>
          (case allocateLoopbackIPLocked d of
             Inl err \<Rightarrow> Some (Inl err, d)
           | Inr listenIP \<Rightarrow>
               (case RegisterTarget (the (domains d domkey)) (rqTarget req) (ParseIPv4 listenIP) of
                  None \<Rightarrow> None
                | Some (Inl err, m) \<Rightarrow> Some (Inl err, d)
                | Some (Inr domainName, m) \<Rightarrow>
                    Some (Inr (nextRec d), newTarget d (targetKey req) domkey
                      \<lparr>trTarget = rqTarget req, trDomain = domainName, trListenIP = listenIP,
                       trSessions = 0, trDomainManager = domkey\<rparr> m))))"

definition ensureTarget ::
  "daemon \<Rightarrow> string option \<Rightarrow> Request \<Rightarrow> ((string, nat) result \<times> daemon) option" where
  "ensureTarget d start req =
     (case ensureTarget_lookup d req of
        Some r \<Rightarrow> Some (r, d)
      | None \<Rightarrow>
          (case domainFor d start req of
             (Inl err, d1) \<Rightarrow> Some (Inl err, d1)
           | (Inr domkey, d1) \<Rightarrow> ensureTarget_create d1 req domkey))"

text \<open>The transport of a target's forwards: the first session of the target in map order.\<close>

definition transportOf :: "daemon \<Rightarrow> (string set \<Rightarrow> string list) \<Rightarrow> string \<Rightarrow> string \<times> string list \<times> string" where
  "transportOf d iter key =
     (case find (\<lambda>l. case sessions d l of Some sr \<Rightarrow> srTargetKey sr = key | None \<Rightarrow> False)
             (iter (dom (sessions d))) of
        Some l \<Rightarrow> (let sr = the (sessions d l) in (srSSHPath sr, srSSHArgs sr, srControlPath sr))
      | None \<Rightarrow> ([], [], []))"

definition forwarder :: "daemon \<Rightarrow> string \<Rightarrow> FwdManager \<times> daemon" where
  "forwarder d key =
     (case forwarders d key of
        Some f \<Rightarrow> (f, d)
      | None \<Rightarrow> (NewDynamicManager, d\<lparr>forwarders := (forwarders d)(key \<mapsto> NewDynamicManager)\<rparr>))"

text \<open>What the outside world contributes to a port request.\<close>

record world =
  wStart :: "string option"
  wControlErr :: "string option"
  wListen :: "(string, nat) result"

definition ensurePort_forward ::
  "daemon \<Rightarrow> (string set \<Rightarrow> string list) \<Rightarrow> world \<Rightarrow> Request \<Rightarrow> nat \<Rightarrow> Response \<times> daemon" where
  "ensurePort_forward d iter w req p =
     (let key = targetKey req; rec = heap d p; (fwd, d1) = forwarder d key in
      case Ensure fwd (rqRemotePort req) (trListenIP rec) (rqRemoteHost req) (transportOf d1 iter key)
             (wControlErr w) (wListen w) of
        (Inl err, fwd', _) \<Rightarrow> (errResponse err, d1\<lparr>forwarders := (forwarders d1)(key \<mapsto> fwd')\<rparr>)
      | (Inr f, fwd', _) \<Rightarrow>
          (Response0\<lparr>rsOK := True, rsLocalPort := fwLocalPort f, rsDomain := trDomain rec, rsListenIP := trListenIP rec\<rparr>,
           d1\<lparr>forwarders := (forwarders d1)(key \<mapsto> fwd')\<rparr>))"

definition ensureTargetPort ::
  "daemon \<Rightarrow> (string set \<Rightarrow> string list) \<Rightarrow> world \<Rightarrow> Request \<Rightarrow> (Response \<times> daemon) option" where
  "ensureTargetPort d iter w req =
     (if rqRemotePort req \<le> 0 then Some (errResponse ''remotePort is required'', d)
      else case ensureTarget d (wStart w) req of
        None \<Rightarrow> None
      | Some (Inl err, d1) \<Rightarrow> Some (errResponse err, d1)
      | Some (Inr p, d1) \<Rightarrow> Some (ensurePort_forward d1 iter w req p))"

definition removeTargetPort :: "daemon \<Rightarrow> Request \<Rightarrow> Response \<times> daemon" where
  "removeTargetPort d req =
     (if rqTarget req = [] \<or> rqSSHPath req = [] \<or> rqRemotePort req \<le> 0
      then (errResponse ''sshPath, target and remotePort are required'', d)
      else (Response0\<lparr>rsOK := True\<rparr>,
        (case forwarders d (targetKey req) of
           None \<Rightarrow> d
         | Some fwd \<Rightarrow> d\<lparr>forwarders := (forwarders d)(targetKey req \<mapsto>
             fst (remove_locked fwd (rqRemotePort req)))\<rparr>)))"

definition listPorts :: "daemon \<Rightarrow> (string set \<Rightarrow> string list) \<Rightarrow> (int set \<Rightarrow> int list) \<Rightarrow> Response" where
  "listPorts d iterk iterp =
     Response0\<lparr>rsOK := True, rsForwards := concat (map (\<lambda>key.
        map (\<lambda>entry. \<lparr>fdTarget = (case targets d key of None \<Rightarrow> [] | Some p \<Rightarrow> trTarget (heap d p)),
               fdDomain = (case targets d key of None \<Rightarrow> [] | Some p \<Rightarrow> trDomain (heap d p)),
               fdListenIP = eListenIP entry, fdLocalPort = eLocalPort entry, fdRemotePort = eRemotePort entry\<rparr>)
          (ListForwards iterp (the (forwarders d key)))) (iterk (dom (forwarders d))))\<rparr>"

subsection \<open>Sessions: internal/locald/server_session.go\<close>

text \<open>The checks at the start of \<open>handleSession\<close>; \<open>None\<close> goes on to \<open>ensureTarget\<close>.\<close>

definition handleSession_check :: "daemon \<Rightarrow> Request \<Rightarrow> Response option" where
  "handleSession_check d req =
     (if requestLeaseID req = [] then Some (versionedError (version d) ''leaseId is required'')
      else if \<not> requestCompatible req then
        Some ((protocolResponse (version d) False)\<lparr>rsError := ''local daemon runtime protocol is incompatible''\<rparr>)
      else if draining d then Some (versionedError (version d) ''local daemon is draining'')
      else None)"

definition openedResponse :: "daemon \<Rightarrow> nat \<Rightarrow> Response" where
  "openedResponse d p = (protocolResponse (version d) True)
     \<lparr>rsType := TypeOpenSession, rsDomain := trDomain (heap d p), rsListenIP := trListenIP (heap d p)\<rparr>"

text \<open>The locked region that registers the session on the target record it was given.\<close>

definition handleSession_register :: "daemon \<Rightarrow> Request \<Rightarrow> nat \<Rightarrow> Response \<times> daemon" where
  "handleSession_register d req p =
     (if draining d then (versionedError (version d) ''local daemon is draining'', d)
      else if sessions d (requestLeaseID req) \<noteq> None
        then (versionedError (version d) ''session already exists'', d)
      else
        let sr = \<lparr>srTargetKey = targetKey req, srSSHPath = rqSSHPath req,
                  srSSHArgs = defaultSSHArgs req, srControlPath = rqControlPath req\<rparr>;
            d1 = d\<lparr>sessions := (sessions d)(requestLeaseID req \<mapsto> sr),
                   heap := (heap d)(p := (heap d p)\<lparr>trSessions := trSessions (heap d p) + 1\<rparr>)\<rparr>
        in (openedResponse d1 p, d1))"

definition openSession :: "daemon \<Rightarrow> string option \<Rightarrow> Request \<Rightarrow> (Response \<times> daemon) option" where
  "openSession d start req =
     (case handleSession_check d req of
        Some resp \<Rightarrow> Some (resp, d)
      | None \<Rightarrow>
          (case ensureTarget d start req of
             None \<Rightarrow> None
           | Some (Inl err, d1) \<Rightarrow> Some (versionedError (version d1) err, d1)
           | Some (Inr p, d1) \<Rightarrow> Some (handleSession_register d1 req p)))"

text \<open>One round of the heartbeat loop: the reply and whether the loop goes on.\<close>

definition heartbeatRound :: "string \<Rightarrow> string \<Rightarrow> Request \<Rightarrow> Response \<times> bool" where
  "heartbeatRound v leaseID heartbeat =
     (if rqType heartbeat \<noteq> TypeHeartbeat \<or> requestLeaseID heartbeat \<noteq> leaseID
        then (versionedError v ''invalid session heartbeat'', False)
      else if \<not> requestCompatible heartbeat then
        ((protocolResponse v False)\<lparr>rsError := ''local daemon runtime protocol is incompatible'',
           rsSequence := rqSequence heartbeat\<rparr>, False)
      else ((protocolResponse v True)\<lparr>rsType := TypeHeartbeatAck, rsSequence := rqSequence heartbeat\<rparr>, True))"

text \<open>What a release leaves to do outside the lock: stop the forwards, give back the name.\<close>

record teardown =
  tdForwarder :: "FwdManager option"
  tdDomain :: string
  tdDomainManager :: string

definition delete_target :: "daemon \<Rightarrow> string \<Rightarrow> nat \<Rightarrow> daemon \<times> teardown option" where
  "delete_target d key p =
     (d\<lparr>forwarders := (forwarders d)(key := None), targets := (targets d)(key := None)\<rparr>,
      Some \<lparr>tdForwarder = forwarders d key, tdDomain = trDomain (heap d p),
            tdDomainManager = trDomainManager (heap d p)\<rparr>)"

definition decrement :: "daemon \<Rightarrow> nat \<Rightarrow> daemon" where
  "decrement d p = d\<lparr>heap := (heap d)(p := (heap d p)\<lparr>trSessions := trSessions (heap d p) - 1\<rparr>)\<rparr>"

text \<open>The locked regions of \<open>releaseSessionNow\<close>, \<open>releaseSessionWithGrace\<close> (the key whose timer
  is started, if any) and \<open>cleanupIdleTarget\<close>.\<close>

definition releaseNow_locked :: "daemon \<Rightarrow> string \<Rightarrow> daemon \<times> teardown option \<times> bool" where
  "releaseNow_locked d sessionID =
     (let (d2, td) =
        (case sessions d sessionID of
           None \<Rightarrow> (d, None)
         | Some sr \<Rightarrow>
             (let d1 = d\<lparr>sessions := (sessions d)(sessionID := None)\<rparr> in
              case targets d (srTargetKey sr) of
                None \<Rightarrow> (d1, None)
              | Some p \<Rightarrow>
                  (let d1 = (if trSessions (heap d1 p) > 0 then decrement d1 p else d1) in
                   if trSessions (heap d1 p) = 0 then delete_target d1 (srTargetKey sr) p else (d1, None))));
          sd = (sessions d2 = Map.empty)
      in (if sd then d2\<lparr>draining := True\<rparr> else d2, td, sd))"

definition releaseWithGrace_locked :: "daemon \<Rightarrow> string \<Rightarrow> daemon \<times> string option" where
  "releaseWithGrace_locked d sessionID =
     (case sessions d sessionID of
        None \<Rightarrow> (d, None)
      | Some sr \<Rightarrow>
          (let d1 = d\<lparr>sessions := (sessions d)(sessionID := None)\<rparr> in
           (case targets d (srTargetKey sr) of
              None \<Rightarrow> d1
            | Some p \<Rightarrow> (if trSessions (heap d1 p) > 0 then decrement d1 p else d1),
            Some (srTargetKey sr))))"

definition cleanupIdleTarget_locked :: "daemon \<Rightarrow> string \<Rightarrow> daemon \<times> teardown option \<times> bool" where
  "cleanupIdleTarget_locked d key =
     (let (d1, td) =
        (case targets d key of
           None \<Rightarrow> (d, None)
         | Some p \<Rightarrow> if trSessions (heap d p) = 0 then delete_target d key p else (d, None));
          sd = (sessions d1 = Map.empty \<and> targets d1 = Map.empty)
      in (if sd then d1\<lparr>draining := True\<rparr> else d1, td, sd))"

text \<open>The outside part: \<open>fwd.Stop()\<close>, \<open>domainManager.Unregister\<close>, \<open>initiateShutdown\<close>.\<close>

definition unregisterDomain :: "daemon \<Rightarrow> teardown \<Rightarrow> daemon" where
  "unregisterDomain d td =
     (case domains d (tdDomainManager td) of
        Some m \<Rightarrow> if tdDomain td \<noteq> []
          then d\<lparr>domains := (domains d)(tdDomainManager td \<mapsto> Unregister m (tdDomain td))\<rparr> else d
      | None \<Rightarrow> d)"

definition finish :: "daemon \<times> teardown option \<times> bool \<Rightarrow> daemon" where
  "finish = (\<lambda>(d, td, sd).
     let d1 = (case td of None \<Rightarrow> d | Some t \<Rightarrow> unregisterDomain d t) in
     if sd then initiateShutdown d1 else d1)"

definition releaseSessionNow :: "daemon \<Rightarrow> string \<Rightarrow> daemon" where
  "releaseSessionNow d sessionID = finish (releaseNow_locked d sessionID)"

definition cleanupIdleTarget :: "daemon \<Rightarrow> string \<Rightarrow> daemon" where
  "cleanupIdleTarget d key = finish (cleanupIdleTarget_locked d key)"

text \<open>\<open>releaseSession\<close>: the new state and the key of a started grace timer.\<close>

definition releaseSession :: "daemon \<Rightarrow> string \<Rightarrow> daemon \<times> string option" where
  "releaseSession d sessionID =
     (if handoffGrace d then releaseWithGrace_locked d sessionID
      else (releaseSessionNow d sessionID, None))"

definition monitorStartup :: "daemon \<Rightarrow> daemon" where
  "monitorStartup d =
     (if sessions d = Map.empty then initiateShutdown (d\<lparr>draining := True\<rparr>) else d)"

text \<open>\<open>handleConn\<close> for everything but session requests, and \<open>handle\<close>.\<close>

definition handle ::
  "daemon \<Rightarrow> (string set \<Rightarrow> string list) \<Rightarrow> (int set \<Rightarrow> int list) \<Rightarrow> world \<Rightarrow> Request \<Rightarrow> (Response \<times> daemon) option" where
  "handle d iterk iterp w req =
     (if rqType req = TypePing then Some (protocolResponse (version d) True, d)
      else if rqType req = TypeEnsureTargetPort then ensureTargetPort d iterk w req
      else if rqType req = TypeRemoveTargetPort then Some (removeTargetPort d req)
      else if rqType req = TypeListPorts then Some (listPorts d iterk iterp, d)
      else if rqType req = TypeShutdown then Some (Response0\<lparr>rsOK := True, rsVersion := version d\<rparr>, d)
      else Some (errResponse ''unknown local daemon request type'', d))"

definition handleConn ::
  "daemon \<Rightarrow> (string set \<Rightarrow> string list) \<Rightarrow> (int set \<Rightarrow> int list) \<Rightarrow> world \<Rightarrow> Request \<Rightarrow> (Response \<times> daemon) option" where
  "handleConn d iterk iterp w req =
     (if rqType req = TypeOpenSession then openSession d (wStart w) req
      else if (rqType req = TypeEnsureTargetPort \<or> rqType req = TypeRemoveTargetPort) \<and>
              \<not> hasSession d (requestLeaseID req)
        then Some (versionedError (version d) ''active session lease is required'', d)
      else case handle d iterk iterp w req of
        None \<Rightarrow> None
      | Some (resp, d1) \<Rightarrow>
          Some (resp, if rqType req = TypeShutdown \<and> rsOK resp then initiateShutdown d1 else d1))"

subsection \<open>The client side: internal/locald/session.go\<close>

text \<open>The request \<open>OpenSession\<close> sends, its reading of the reply, and the check of each heartbeat.\<close>

definition openSessionRequest :: "Request \<Rightarrow> (string, Request) result" where
  "openSessionRequest req =
     (if requestLeaseID req = [] then Inl ''leaseId is required''
      else Inr (req\<lparr>rqLeaseID := requestLeaseID req, rqType := TypeOpenSession,
        rqProtocolVersion := Protocol.Version, rqProtocolMin := MinVersion,
        rqProtocolMax := MaxVersion, rqRuntimeID := LocalRuntimeID\<rparr>))"

definition openSessionReply :: "Response \<Rightarrow> (string, string \<times> string) result" where
  "openSessionReply resp =
     (if \<not> rsOK resp then Inl (rsError resp)
      else if \<not> responseCompatible resp then Inl ''local daemon runtime changed during session open''
      else Inr (rsDomain resp, rsListenIP resp))"

definition Request0 :: Request where
  "Request0 = \<lparr>rqType = [], rqSSHPath = [], rqTarget = [], rqSSHArgs = [], rqRemotePort = 0,
     rqRemoteHost = [], rqDomainSuffix = [], rqDNSAddr = [], rqSessionID = [], rqLeaseID = [],
     rqTargetID = [], rqControlPath = [], rqRuntimeID = [], rqAppVersion = [], rqSequence = 0,
     rqProtocolVersion = 0, rqProtocolMin = 0, rqProtocolMax = 0\<rparr>"

definition clientHeartbeat :: "Request \<Rightarrow> 64 word \<Rightarrow> Request" where
  "clientHeartbeat req sq = Request0\<lparr>rqType := TypeHeartbeat, rqLeaseID := rqLeaseID req,
     rqAppVersion := rqAppVersion req, rqRuntimeID := LocalRuntimeID,
     rqProtocolVersion := Protocol.Version, rqProtocolMin := MinVersion, rqProtocolMax := MaxVersion,
     rqSequence := sq\<rparr>"

definition clientAccepts :: "Response \<Rightarrow> 64 word \<Rightarrow> bool" where
  "clientAccepts resp sq =
     (\<not> (\<not> rsOK resp \<or> rsType resp \<noteq> TypeHeartbeatAck \<or> rsSequence resp \<noteq> sq \<or> \<not> responseCompatible resp))"

text \<open>\<open>ClientRequest\<close>: a reply that is not OK is an error.\<close>

definition clientResult :: "Response \<Rightarrow> (string, Response) result" where
  "clientResult resp = (if \<not> rsOK resp then Inl (rsError resp) else Inr resp)"

subsection \<open>The address pool\<close>

lemma allocateLoopbackIP_Inr: "allocateLoopbackIP used = Inr ip \<Longrightarrow> ip \<in> set pool \<and> ip \<notin> used"
  by (auto simp: allocateLoopbackIP_def pool_def find_Some_iff split: option.splits)

lemma allocateLoopbackIP_Inl: "allocateLoopbackIP used = Inl e \<Longrightarrow> set pool \<subseteq> used"
  by (auto simp: allocateLoopbackIP_def pool_def find_None_iff split: option.splits)

definition allocIP :: "unit \<Rightarrow> string set \<Rightarrow> (string \<times> string set) option" where
  "allocIP _ used = (case allocateLoopbackIP used of Inl _ \<Rightarrow> None | Inr ip \<Rightarrow> Some (ip, insert ip used))"

interpretation addresses: allocator allocIP "\<lambda>ip used. used - {ip}" "\<lambda>ip. ip" "\<lambda>used. used" "\<lambda>_. True"
  by standard (auto simp: allocIP_def dest: allocateLoopbackIP_Inr split: sum.splits)

lemma pool_parse: "ip \<in> set pool \<Longrightarrow> \<exists>n. ip = Prefix @ nat_digits n \<and> To4 (ParseIPv4 ip) = Some [127, 64, 0, of_nat n]"
proof -
  assume "ip \<in> set pool"
  then obtain i where i: "i < 64" "ip = Address (int i)" by (auto simp: pool_def Size_def)
  then have ip: "ip = Prefix @ nat_digits (i + 1)" by (simp add: Address_in_pool Size_def)
  have "nat_digits 127 = ''127''" "nat_digits 64 = ''64''" "nat_digits 0 = ''0''" by code_simp+
  then have "ip = nat_digits 127 @ ''.'' @ nat_digits 64 @ ''.'' @ nat_digits 0 @ ''.'' @ nat_digits (i + 1)"
    by (simp add: ip Prefix_def)
  then have "To4 (ParseIPv4 ip) = Some [of_nat 127, of_nat 64, of_nat 0, of_nat (i + 1)]"
    using i by (simp only: ParseIPv4_dotted)
  with ip show ?thesis by (intro exI [of _ "i + 1"]) simp
qed

text \<open>The pool hands out every address at most once and refuses only when all 64 are in use.\<close>

theorem allocateLoopbackIP_spec:
  "case allocateLoopbackIPLocked d of
     Inr ip \<Rightarrow> ip \<in> set pool \<and> ip \<notin> usedIPs d
   | Inl err \<Rightarrow> set pool \<subseteq> usedIPs d \<and> length pool = 64 \<and> distinct pool"
  using allocateLoopbackIP_Inr allocateLoopbackIP_Inl distinct_pool
  by (auto simp: allocateLoopbackIPLocked_def split: sum.splits)

subsection \<open>The invariant of the daemon\<close>

definition leases :: "daemon \<Rightarrow> string \<Rightarrow> string set" where
  "leases d k = {l. \<exists>sr. sessions d l = Some sr \<and> srTargetKey sr = k}"

definition rec_of :: "daemon \<Rightarrow> string \<Rightarrow> targetRecord option" where
  "rec_of d k = map_option (heap d) (targets d k)"

definition name_of :: "targetRecord \<Rightarrow> string \<times> string" where
  "name_of r = (trDomainManager r, normalizeSuffix (trDomain r))"

definition registered_names :: "daemon \<Rightarrow> (string \<times> string) set" where
  "registered_names d = {(dk, n). \<exists>m. domains d dk = Some m \<and> records m n \<noteq> None}"

definition names_by :: "daemon \<Rightarrow> string \<Rightarrow> (string \<times> string) list" where
  "names_by d k = (case rec_of d k of None \<Rightarrow> [] | Some r \<Rightarrow> [name_of r])"

definition ips_by :: "daemon \<Rightarrow> string \<Rightarrow> string list" where
  "ips_by d k = (case rec_of d k of None \<Rightarrow> [] | Some r \<Rightarrow> [trListenIP r])"

definition resolves :: "daemon \<Rightarrow> targetRecord \<Rightarrow> bool" where
  "resolves d r \<longleftrightarrow> trListenIP r \<in> set pool \<and> trDomain r \<noteq> [] \<and>
     (\<exists>m. domains d (trDomainManager r) = Some m \<and>
        records m (normalizeSuffix (trDomain r)) = To4 (ParseIPv4 (trListenIP r)))"

definition pointers_ok :: "daemon \<Rightarrow> bool" where
  "pointers_ok d \<longleftrightarrow> (\<forall>k p. targets d k = Some p \<longrightarrow> p < nextRec d) \<and>
     (\<forall>k k' p. targets d k = Some p \<longrightarrow> targets d k' = Some p \<longrightarrow> k = k')"

definition leases_ok :: "daemon \<Rightarrow> bool" where
  "leases_ok d \<longleftrightarrow> finite (dom (sessions d)) \<and>
     (\<forall>l sr. sessions d l = Some sr \<longrightarrow> targets d (srTargetKey sr) \<noteq> None) \<and>
     (\<forall>k r. rec_of d k = Some r \<longrightarrow> trSessions r = card (leases d k))"

definition names_ok :: "daemon \<Rightarrow> bool" where
  "names_ok d \<longleftrightarrow> (\<forall>dk m. domains d dk = Some m \<longrightarrow> manager_ok m) \<and>
     exclusive (names_by d) (registered_names d) \<and> exclusive (ips_by d) (usedIPs d) \<and>
     (\<forall>k r. rec_of d k = Some r \<longrightarrow> resolves d r)"

definition linv :: "daemon \<Rightarrow> bool" where
  "linv d \<longleftrightarrow> pointers_ok d \<and> leases_ok d \<and> names_ok d"

lemma usedIPs_rec: "usedIPs d = {trListenIP r | k r. rec_of d k = Some r}"
  by (auto simp: usedIPs_def rec_of_def)

lemma set_ips_by: "set (ips_by d k) = {ip. \<exists>r. rec_of d k = Some r \<and> ip = trListenIP r}"
  by (cases "rec_of d k") (auto simp: ips_by_def)

lemma usedIPs_ips: "usedIPs d = (\<Union>k. set (ips_by d k))"
  unfolding usedIPs_rec set_ips_by by blast

lemma linv_cong:
  assumes "targets d' = targets d" "heap d' = heap d" "nextRec d' = nextRec d"
    "domains d' = domains d" "sessions d' = sessions d"
  shows "linv d' = linv d"
proof -
  have r: "rec_of d' = rec_of d" by (simp add: rec_of_def fun_eq_iff assms)
  then have "names_by d' = names_by d" "ips_by d' = ips_by d" "leases d' = leases d"
      "resolves d' = resolves d" "registered_names d' = registered_names d" "usedIPs d' = usedIPs d"
    by (simp_all add: names_by_def ips_by_def leases_def resolves_def registered_names_def usedIPs_rec
        fun_eq_iff assms)
  then show ?thesis by (simp add: linv_def pointers_ok_def leases_ok_def names_ok_def assms r)
qed

lemma linv_frame [simp]:
  "linv (d\<lparr>forwarders := x\<rparr>) = linv d" "linv (d\<lparr>draining := b\<rparr>) = linv d" "linv (d\<lparr>shutdownClosed := b\<rparr>) = linv d"
  by (rule linv_cong; simp)+

lemma finish_linv_parts:
  "initiateShutdown d = d \<or> initiateShutdown d = d\<lparr>draining := True, shutdownClosed := True\<rparr>"
  by (simp add: initiateShutdown_def)

lemma initiateShutdown_linv [simp]: "linv (initiateShutdown d) = linv d"
  by (simp add: initiateShutdown_def)

lemma linv_init: "linv (NewServer v grace)"
  by (auto simp: linv_def NewServer_def pointers_ok_def leases_ok_def names_ok_def rec_of_def names_by_def
      ips_by_def registered_names_def usedIPs_rec leases_def exclusive_def)

lemma domainFor_linv:
  assumes "linv d" "domainFor d start req = (r, d1)"
  shows "linv d1" "targets d1 = targets d" "sessions d1 = sessions d" "heap d1 = heap d"
    "r = Inr dk \<Longrightarrow> dk = domainKey req \<and> domains d1 dk \<noteq> None"
proof -
  consider "d1 = d" | "domains d (domainKey req) = None"
      "d1 = d\<lparr>domains := (domains d)(domainKey req \<mapsto> NewManager (rqDomainSuffix req) (rqDNSAddr req))\<rparr>"
    using assms(2) by (auto simp: domainFor_def Let_def split: option.splits if_splits)
  then show "linv d1"
  proof cases
    case 2
    have r: "rec_of d1 = rec_of d" by (simp add: 2 rec_of_def fun_eq_iff)
    have n: "registered_names d1 = registered_names d"
      using 2(1) by (auto simp: 2(2) registered_names_def NewManager_def split: if_splits)
    have "names_by d1 = names_by d" "ips_by d1 = ips_by d" "leases d1 = leases d" "usedIPs d1 = usedIPs d"
      by (simp_all add: names_by_def ips_by_def leases_def usedIPs_rec fun_eq_iff r) (simp add: 2)
    moreover have "resolves d r \<Longrightarrow> resolves d1 r" for r
      using 2 by (auto simp: resolves_def)
    ultimately show ?thesis
      using assms(1) by (auto simp: linv_def pointers_ok_def leases_ok_def names_ok_def 2(2) r n)
        (auto simp: 2(2) rec_of_def r [unfolded 2(2)] n [unfolded 2(2)])
  qed (use assms in simp)
  show "targets d1 = targets d" "sessions d1 = sessions d" "heap d1 = heap d"
    and "r = Inr dk \<Longrightarrow> dk = domainKey req \<and> domains d1 dk \<noteq> None"
    using assms(2) by (auto simp: domainFor_def Let_def split: option.splits if_splits)
qed

text \<open>A change that touches only session counters keeps the names.\<close>

definition face :: "targetRecord \<Rightarrow> string \<times> string \<times> string" where
  "face r = (trDomain r, trListenIP r, trDomainManager r)"

lemma face_eqD: "face r = face r' \<Longrightarrow> name_of r = name_of r' \<and> trListenIP r = trListenIP r' \<and> resolves d r = resolves d r'"
  by (simp add: face_def name_of_def resolves_def)

lemma names_ok_touch:
  assumes "names_ok d" "domains d' = domains d"
    and f: "\<And>k. map_option face (rec_of d' k) = map_option face (rec_of d k)"
  shows "names_ok d'"
proof -
  have rel: "(rec_of d k = None \<and> rec_of d' k = None) \<or>
      (\<exists>r r'. rec_of d k = Some r \<and> rec_of d' k = Some r' \<and> face r = face r')" for k
    using f [of k] by (cases "rec_of d k"; cases "rec_of d' k") auto
  have "names_by d' = names_by d" "ips_by d' = ips_by d"
  proof -
    have "names_by d' k = names_by d k \<and> ips_by d' k = ips_by d k" for k
      using rel [of k] by (auto simp: names_by_def ips_by_def dest: face_eqD)
    then show "names_by d' = names_by d" "ips_by d' = ips_by d" by auto
  qed
  moreover have "registered_names d' = registered_names d" by (simp add: registered_names_def assms)
  moreover have "usedIPs d' = usedIPs d"
    by (simp only: usedIPs_ips \<open>ips_by d' = ips_by d\<close>)
  moreover have "resolves d' r' " if r': "rec_of d' k = Some r'" for k r'
  proof -
    obtain r where "rec_of d k = Some r" "face r = face r'" using rel [of k] r' by auto
    then have "resolves d r'" using assms(1) face_eqD unfolding names_ok_def by blast
    then show ?thesis by (simp add: resolves_def assms)
  qed
  ultimately show ?thesis using assms(1,2) by (auto simp: names_ok_def)
qed

lemma rec_of_fresh:
  assumes P: "pointers_ok d"
  shows "rec_of (newTarget d key dk r m) = (rec_of d)(key \<mapsto> r)"
proof
  fix k
  show "rec_of (newTarget d key dk r m) k = ((rec_of d)(key \<mapsto> r)) k"
  proof (cases "targets d k")
    case (Some p)
    then have "p < nextRec d" using P by (simp add: pointers_ok_def)
    then show ?thesis using Some by (simp add: rec_of_def newTarget_def)
  qed (simp add: rec_of_def newTarget_def)
qed

lemma rec_of_bump:
  assumes "pointers_ok d" "targets d k = Some p"
  shows "rec_of (d\<lparr>sessions := ss, heap := (heap d)(p := r)\<rparr>) = (rec_of d)(k \<mapsto> r)"
    and "rec_of (d\<lparr>heap := (heap d)(p := r)\<rparr>) = (rec_of d)(k \<mapsto> r)"
proof -
  have other: "q \<noteq> p" if "targets d k' = Some q" "k' \<noteq> k" for k' q
    using assms that unfolding pointers_ok_def by blast
  have "map_option ((heap d)(p := r)) (targets d k') = ((rec_of d)(k \<mapsto> r)) k'" for k'
    using assms(2) other [of k'] by (cases "k' = k"; cases "targets d k'") (auto simp: rec_of_def)
  then show "rec_of (d\<lparr>sessions := ss, heap := (heap d)(p := r)\<rparr>) = (rec_of d)(k \<mapsto> r)"
    and "rec_of (d\<lparr>heap := (heap d)(p := r)\<rparr>) = (rec_of d)(k \<mapsto> r)"
    by (simp_all add: fun_eq_iff rec_of_def)
qed

lemma leases_empty: "leases_ok d \<Longrightarrow> targets d k = None \<Longrightarrow> leases d k = {}"
  unfolding leases_ok_def leases_def by blast

lemma newTarget_linv:
  assumes inv: "linv d" and new: "targets d key = None"
    and ip: "ip \<in> set pool" "ip \<notin> usedIPs d"
    and dom: "domains d dk = Some m" "records m (normalizeSuffix name) = None"
    and ip4: "To4 (ParseIPv4 ip) = Some ip4" and name: "name \<noteq> []"
    and m': "m' = m\<lparr>records := (records m)(normalizeSuffix name \<mapsto> ip4)\<rparr>" "manager_ok m'"
  shows "linv (newTarget d key dk
    \<lparr>trTarget = t, trDomain = name, trListenIP = ip, trSessions = 0, trDomainManager = dk\<rparr> m')"
    (is "linv ?d")
proof -
  let ?r = "\<lparr>trTarget = t, trDomain = name, trListenIP = ip, trSessions = 0, trDomainManager = dk\<rparr>"
  have P: "pointers_ok d" and L: "leases_ok d" and N: "names_ok d" using inv by (simp_all add: linv_def)
  have rec: "rec_of ?d = (rec_of d)(key \<mapsto> ?r)" by (rule rec_of_fresh [OF P])
  have none: "rec_of d key = None" using new by (simp add: rec_of_def)
  have P': "pointers_ok ?d"
    using P by (auto simp: pointers_ok_def newTarget_def less_SucI split: if_splits)
  have ls: "leases ?d = leases d" by (simp add: leases_def newTarget_def fun_eq_iff)
  have L': "leases_ok ?d"
    using L leases_empty [OF L new] unfolding leases_ok_def rec ls
    by (auto simp: newTarget_def split: if_splits)
  have rn: "registered_names ?d = insert (dk, normalizeSuffix name) (registered_names d)"
    using dom by (auto simp: registered_names_def newTarget_def m' split: if_splits)
  have fresh: "(dk, normalizeSuffix name) \<notin> registered_names d" using dom by (auto simp: registered_names_def)
  have nb: "names_by ?d = (names_by d)(key := [(dk, normalizeSuffix name)])"
    by (auto simp: fun_eq_iff names_by_def rec name_of_def)
  have ib: "ips_by ?d = (ips_by d)(key := [ip])" by (auto simp: fun_eq_iff ips_by_def rec)
  have used: "usedIPs ?d = insert ip (usedIPs d)"
    unfolding usedIPs_rec rec using none by (auto split: if_splits) (metis option.distinct(1))
  have "exclusive (names_by ?d) (registered_names ?d)"
    unfolding nb rn using N fresh none by (intro exclusive_add) (simp_all add: names_ok_def names_by_def)
  moreover have "exclusive (ips_by ?d) (usedIPs ?d)"
    unfolding ib used using N ip none by (intro exclusive_add) (simp_all add: names_ok_def ips_by_def)
  moreover have "resolves ?d r" if "rec_of ?d k = Some r" for k r
  proof (cases "k = key")
    case True
    then have "r = ?r" using that by (simp add: rec)
    then show ?thesis using ip ip4 name by (simp add: resolves_def newTarget_def m')
  next
    case False
    then have "resolves d r" using that N by (simp add: rec names_ok_def)
    then obtain m2 ip2 where "trListenIP r \<in> set pool" "trDomain r \<noteq> []" "domains d (trDomainManager r) = Some m2"
        "records m2 (normalizeSuffix (trDomain r)) = Some ip2" "To4 (ParseIPv4 (trListenIP r)) = Some ip2"
      using pool_parse by (fastforce simp: resolves_def)
    then show ?thesis using dom by (auto simp: resolves_def newTarget_def m')
  qed
  ultimately have "names_ok ?d"
    using N m'(2) by (auto simp: names_ok_def newTarget_def split: if_splits)
  with P' L' show ?thesis by (simp add: linv_def)
qed

lemma ensureTarget_create_linv:
  assumes inv: "linv d" and dom: "domains d dk \<noteq> None"
  shows "\<exists>r d'. ensureTarget_create d req dk = Some (r, d') \<and> linv d' \<and> sessions d' = sessions d \<and>
    (\<forall>p. r = Inr p \<longrightarrow> targets d' (targetKey req) = Some p)"
proof (cases "targets d (targetKey req)")
  case (Some p)
  then show ?thesis using inv by (simp add: ensureTarget_create_def)
next
  case new: None
  show ?thesis
  proof (cases "allocateLoopbackIPLocked d")
    case (Inl e)
    then show ?thesis using inv new by (simp add: ensureTarget_create_def)
  next
    case (Inr ip)
    then have ip: "ip \<in> set pool" "ip \<notin> usedIPs d"
      using allocateLoopbackIP_Inr by (auto simp: allocateLoopbackIPLocked_def)
    then obtain ip4 where ip4: "To4 (ParseIPv4 ip) = Some ip4" using pool_parse by blast
    obtain m where m: "domains d dk = Some m" using dom by blast
    then have ok: "manager_ok m" using inv by (auto simp: linv_def names_ok_def)
    obtain name m' where reg: "RegisterTarget m (rqTarget req) (ParseIPv4 ip) = Some (Inr name, m')"
      and name: "name \<noteq> []"
      using RegisterTarget_eq [OF _ ip4] ok by (auto simp: manager_ok_def candidate_def)
    then have a: "allocName (rqTarget req, ParseIPv4 ip) m = Some (name, m')" by (simp add: allocName_def)
    have none: "records m (normalizeSuffix name) = None"
      and m': "m' = m\<lparr>records := (records m)(normalizeSuffix name \<mapsto> ip4)\<rparr>"
      using allocName_eq [OF ok a] ip4 by auto
    have "linv (newTarget d (targetKey req) dk
      \<lparr>trTarget = rqTarget req, trDomain = name, trListenIP = ip, trSessions = 0, trDomainManager = dk\<rparr> m')"
      by (rule newTarget_linv [OF inv new ip m none ip4 name m' names.alloc_ok [OF ok a]])
    then show ?thesis using new Inr m reg
      by (simp add: ensureTarget_create_def) (simp add: newTarget_def)
  qed
qed

lemma ensureTarget_linv:
  assumes inv: "linv d"
  shows "\<exists>r d'. ensureTarget d start req = Some (r, d') \<and> linv d' \<and> sessions d' = sessions d \<and>
    (\<forall>p. r = Inr p \<longrightarrow> targets d' (targetKey req) = Some p)"
proof (cases "ensureTarget_lookup d req")
  case (Some r)
  then have "\<forall>p. r = Inr p \<longrightarrow> targets d (targetKey req) = Some p"
    by (auto simp: ensureTarget_lookup_def split: if_splits option.splits)
  then show ?thesis using Some inv by (simp add: ensureTarget_def)
next
  case None
  obtain r1 d1 where df: "domainFor d start req = (r1, d1)" by (cases "domainFor d start req")
  note D = domainFor_linv [OF inv df]
  show ?thesis
  proof (cases r1)
    case (Inl e)
    then show ?thesis using None df D by (simp add: ensureTarget_def)
  next
    case (Inr dk)
    then show ?thesis
      using ensureTarget_create_linv [OF D(1), of dk req] D None df
      by (simp add: ensureTarget_def)
  qed
qed

lemma session_add_linv:
  assumes inv: "linv d" and t: "targets d k = Some p" and l: "sessions d l = None" and k: "srTargetKey sr = k"
  shows "linv (d\<lparr>sessions := (sessions d)(l \<mapsto> sr),
    heap := (heap d)(p := (heap d p)\<lparr>trSessions := trSessions (heap d p) + 1\<rparr>)\<rparr>)" (is "linv ?d")
proof -
  have P: "pointers_ok d" and L: "leases_ok d" and N: "names_ok d" using inv by (simp_all add: linv_def)
  have rec: "rec_of ?d = (rec_of d)(k \<mapsto> (heap d p)\<lparr>trSessions := trSessions (heap d p) + 1\<rparr>)"
    by (rule rec_of_bump(1) [OF P t])
  have rk: "rec_of d k = Some (heap d p)" by (simp add: rec_of_def t)
  have ls: "leases ?d k' = (if k' = k then insert l (leases d k) else leases d k')" for k'
    using l k by (auto simp: leases_def)
  have fin: "finite (leases d k)" and nl: "l \<notin> leases d k"
    using L l finite_subset [of "leases d k" "dom (sessions d)"] by (auto simp: leases_ok_def leases_def)
  have "leases_ok ?d"
    using L rk fin nl t k unfolding leases_ok_def rec ls by (auto split: if_splits)
  moreover have "map_option face (rec_of ?d k') = map_option face (rec_of d k')" for k'
    unfolding rec by (simp add: rk face_def)
  then have "names_ok ?d" by (intro names_ok_touch [OF N]) simp_all
  ultimately show ?thesis using P by (simp add: linv_def pointers_ok_def)
qed

lemma session_drop_linv:
  assumes inv: "linv d" and l: "sessions d l = Some sr" and k: "srTargetKey sr = k"
  shows "\<exists>p. targets d k = Some p \<and> trSessions (heap d p) > 0 \<and>
    linv (decrement (d\<lparr>sessions := (sessions d)(l := None)\<rparr>) p)"
proof -
  have P: "pointers_ok d" and L: "leases_ok d" and N: "names_ok d" using inv by (simp_all add: linv_def)
  obtain p where t: "targets d k = Some p" using L l k unfolding leases_ok_def by blast
  let ?r = "(heap d p)\<lparr>trSessions := trSessions (heap d p) - 1\<rparr>"
  have d': "decrement (d\<lparr>sessions := (sessions d)(l := None)\<rparr>) p =
      d\<lparr>sessions := (sessions d)(l := None), heap := (heap d)(p := ?r)\<rparr>" (is "_ = ?d")
    by (simp add: decrement_def)
  have rec: "rec_of ?d = (rec_of d)(k \<mapsto> ?r)" by (rule rec_of_bump(1) [OF P t])
  have rk: "rec_of d k = Some (heap d p)" by (simp add: rec_of_def t)
  have ls: "leases ?d k' = (if k' = k then leases d k - {l} else leases d k')" for k'
    using l k by (auto simp: leases_def)
  have fin: "finite (leases d k)" and il: "l \<in> leases d k"
    using L l k finite_subset [of "leases d k" "dom (sessions d)"] by (auto simp: leases_ok_def leases_def)
  have cnt: "trSessions (heap d p) = card (leases d k)" using L rk by (simp add: leases_ok_def)
  then have pos: "trSessions (heap d p) > 0" using fin il by (auto simp: card_gt_0_iff)
  have "leases_ok ?d"
    using L rk fin il cnt unfolding leases_ok_def rec ls by (auto split: if_splits)
  moreover have "map_option face (rec_of ?d k') = map_option face (rec_of d k')" for k'
    unfolding rec by (simp add: rk face_def)
  then have "names_ok ?d" by (intro names_ok_touch [OF N]) simp_all
  ultimately have "linv ?d" using P by (simp add: linv_def pointers_ok_def)
  then show ?thesis using t pos d' by auto
qed

lemma delete_linv:
  assumes inv: "linv d" and t: "targets d k = Some p" and zero: "trSessions (heap d p) = 0"
  shows "linv (unregisterDomain (d\<lparr>forwarders := fs, targets := (targets d)(k := None)\<rparr>)
     \<lparr>tdForwarder = f, tdDomain = trDomain (heap d p), tdDomainManager = trDomainManager (heap d p)\<rparr>)"
proof -
  have P: "pointers_ok d" and L: "leases_ok d" and N: "names_ok d" using inv by (simp_all add: linv_def)
  let ?r = "heap d p"
  let ?n = "normalizeSuffix (trDomain ?r)" and ?dk = "trDomainManager ?r"
  have rk: "rec_of d k = Some ?r" by (simp add: rec_of_def t)
  obtain m ip4 where m: "domains d ?dk = Some m" "records m ?n = Some ip4" and name: "trDomain ?r \<noteq> []"
    using N rk pool_parse unfolding names_ok_def resolves_def by metis
  let ?m = "Unregister m (trDomain ?r)"
  let ?d0 = "d\<lparr>targets := (targets d)(k := None), domains := (domains d)(?dk \<mapsto> ?m)\<rparr>"
  have rec: "rec_of ?d0 = (rec_of d)(k := None)" by (auto simp: fun_eq_iff rec_of_def)
  have P': "pointers_ok ?d0" using P by (auto simp: pointers_ok_def split: if_splits)
  have fin: "finite (leases d k)"
    using L finite_subset [of "leases d k" "dom (sessions d)"] by (auto simp: leases_ok_def leases_def)
  have empty: "leases d k = {}" using L rk zero fin by (auto simp: leases_ok_def)
  have ls: "leases ?d0 = leases d" by (simp add: leases_def fun_eq_iff)
  have "targets d (srTargetKey sr) \<noteq> None \<and> srTargetKey sr \<noteq> k" if "sessions d l = Some sr" for l sr
    using that L empty by (auto simp: leases_ok_def leases_def)
  then have L': "leases_ok ?d0"
    using L unfolding leases_ok_def rec ls by (auto split: if_splits)
  have nb: "names_by ?d0 = (names_by d)(k := [])" "ips_by ?d0 = (ips_by d)(k := [])"
    by (auto simp: fun_eq_iff names_by_def ips_by_def rec)
  have hold: "names_by d k = [(?dk, ?n)]" "ips_by d k = [trListenIP ?r]"
    by (simp_all add: names_by_def ips_by_def rk name_of_def)
  have rn: "registered_names ?d0 = registered_names d - {(?dk, ?n)}"
    using m by (auto simp: registered_names_def Unregister_def split: if_splits)
  have en: "exclusive (names_by d) (registered_names d)" and ei: "exclusive (ips_by d) (usedIPs d)"
    using N by (simp_all add: names_ok_def)
  have "exclusive (ips_by ?d0) (usedIPs d - {trListenIP ?r})"
    unfolding nb using exclusive_release [OF ei hold(2)] .
  moreover from this have "usedIPs ?d0 = usedIPs d - {trListenIP ?r}"
    unfolding usedIPs_ips [of ?d0] exclusive_def by blast
  moreover have "exclusive (names_by ?d0) (registered_names ?d0)"
    unfolding nb rn using exclusive_release [OF en hold(1)] .
  moreover have "resolves ?d0 r" if r: "rec_of ?d0 k' = Some r" for k' r
  proof -
    have k': "k' \<noteq> k" "rec_of d k' = Some r" using r by (auto simp: rec split: if_splits)
    have "resolves d r" using N k'(2) by (simp add: names_ok_def)
    moreover have "name_of r \<noteq> (?dk, ?n)"
    proof
      assume "name_of r = (?dk, ?n)"
      then have "(?dk, ?n) \<in> set (names_by d k')" "(?dk, ?n) \<in> set (names_by d k)"
        using k' hold by (simp_all add: names_by_def)
      then show False using exclusiveD(4) [OF en] k'(1) by metis
    qed
    ultimately show ?thesis using m by (auto simp: resolves_def name_of_def Unregister_def)
  qed
  moreover have "\<forall>dk m. domains ?d0 dk = Some m \<longrightarrow> manager_ok m"
    using N m Unregister_ok by (auto simp: names_ok_def)
  ultimately have "names_ok ?d0" by (simp add: names_ok_def)
  with P' L' have inv': "linv ?d0" by (simp add: linv_def)
  have "linv (unregisterDomain (d\<lparr>forwarders := fs, targets := (targets d)(k := None)\<rparr>)
     \<lparr>tdForwarder = f, tdDomain = trDomain ?r, tdDomainManager = ?dk\<rparr>) = linv ?d0"
    by (rule linv_cong) (simp_all add: unregisterDomain_def m name)
  with inv' show ?thesis by simp
qed

lemma finish_linv:
  assumes "linv (case td of None \<Rightarrow> d | Some t \<Rightarrow> unregisterDomain d t)"
  shows "linv (finish (if sd then d\<lparr>draining := True\<rparr> else d, td, sd))"
proof -
  have "linv (case td of None \<Rightarrow> d\<lparr>draining := True\<rparr> | Some t \<Rightarrow> unregisterDomain (d\<lparr>draining := True\<rparr>) t) =
      linv (case td of None \<Rightarrow> d | Some t \<Rightarrow> unregisterDomain d t)"
    by (rule linv_cong) (auto simp: unregisterDomain_def split: option.split)
  with assms show ?thesis by (simp add: finish_def Let_def)
qed

lemma releaseSessionNow_linv:
  assumes inv: "linv d"
  shows "linv (releaseSessionNow d l)"
proof (cases "sessions d l")
  case None
  have "linv (finish (if sessions d = Map.empty then d\<lparr>draining := True\<rparr> else d, None, sessions d = Map.empty))"
    using inv by (intro finish_linv) simp
  then show ?thesis using None by (simp add: releaseSessionNow_def releaseNow_locked_def Let_def)
next
  case (Some sr)
  let ?k = "srTargetKey sr"
  obtain p where t: "targets d ?k = Some p" and pos: "trSessions (heap d p) > 0"
    and inv1: "linv (decrement (d\<lparr>sessions := (sessions d)(l := None)\<rparr>) p)" (is "linv ?d1")
    using session_drop_linv [OF inv Some refl] by blast
  have t1: "targets ?d1 ?k = Some p" using t by (simp add: decrement_def)
  show ?thesis
  proof (cases "trSessions (heap ?d1 p) = 0")
    case True
    let ?d2 = "?d1\<lparr>forwarders := (forwarders ?d1)(?k := None), targets := (targets ?d1)(?k := None)\<rparr>"
    let ?td = "\<lparr>tdForwarder = forwarders ?d1 ?k, tdDomain = trDomain (heap ?d1 p), tdDomainManager = trDomainManager (heap ?d1 p)\<rparr>"
    have "releaseNow_locked d l = (if sessions ?d2 = Map.empty then ?d2\<lparr>draining := True\<rparr> else ?d2,
        Some ?td, sessions ?d2 = Map.empty)"
      using Some t pos True by (simp add: releaseNow_locked_def delete_target_def Let_def)
    moreover have "linv (unregisterDomain ?d2 ?td)" by (rule delete_linv [OF inv1 t1 True])
    ultimately show ?thesis
      using finish_linv [where td = "Some ?td" and d = ?d2 and sd = "sessions ?d2 = Map.empty"] by (simp add: releaseSessionNow_def)
  next
    case False
    then have "releaseNow_locked d l = (if sessions ?d1 = Map.empty then ?d1\<lparr>draining := True\<rparr> else ?d1,
        None, sessions ?d1 = Map.empty)"
      using Some t pos by (simp add: releaseNow_locked_def Let_def)
    then show ?thesis
      using finish_linv [where td = None and d = ?d1 and sd = "sessions ?d1 = Map.empty"] inv1 by (simp add: releaseSessionNow_def)
  qed
qed

lemma releaseWithGrace_linv:
  assumes inv: "linv d"
  shows "linv (fst (releaseWithGrace_locked d l))"
proof (cases "sessions d l")
  case None
  then show ?thesis using inv by (simp add: releaseWithGrace_locked_def)
next
  case (Some sr)
  then obtain p where "targets d (srTargetKey sr) = Some p" "trSessions (heap d p) > 0"
    "linv (decrement (d\<lparr>sessions := (sessions d)(l := None)\<rparr>) p)"
    using session_drop_linv [OF inv Some refl] by blast
  then show ?thesis using Some by (simp add: releaseWithGrace_locked_def Let_def)
qed

lemma releaseSession_linv: "linv d \<Longrightarrow> linv (fst (releaseSession d l))"
  by (simp add: releaseSession_def releaseWithGrace_linv releaseSessionNow_linv)

lemma cleanupIdleTarget_linv:
  assumes inv: "linv d"
  shows "linv (cleanupIdleTarget d key)"
proof (cases "\<exists>p. targets d key = Some p \<and> trSessions (heap d p) = 0")
  case True
  then obtain p where t: "targets d key = Some p" "trSessions (heap d p) = 0" by blast
  let ?d2 = "d\<lparr>forwarders := (forwarders d)(key := None), targets := (targets d)(key := None)\<rparr>"
  let ?td = "\<lparr>tdForwarder = forwarders d key, tdDomain = trDomain (heap d p), tdDomainManager = trDomainManager (heap d p)\<rparr>"
  let ?sd = "sessions ?d2 = Map.empty \<and> targets ?d2 = Map.empty"
  have "cleanupIdleTarget_locked d key = (if ?sd then ?d2\<lparr>draining := True\<rparr> else ?d2, Some ?td, ?sd)"
    using t by (simp add: cleanupIdleTarget_locked_def delete_target_def Let_def)
  moreover have "linv (unregisterDomain ?d2 ?td)" by (rule delete_linv [OF inv t])
  ultimately show ?thesis using finish_linv [where td = "Some ?td" and d = ?d2 and sd = ?sd] by (simp only: cleanupIdleTarget_def option.case)
next
  case False
  let ?sd = "sessions d = Map.empty \<and> targets d = Map.empty"
  have "cleanupIdleTarget_locked d key = (if ?sd then d\<lparr>draining := True\<rparr> else d, None, ?sd)"
    using False by (auto simp: cleanupIdleTarget_locked_def Let_def split: option.split)
  then show ?thesis using finish_linv [where td = None and d = d and sd = ?sd] inv by (simp add: cleanupIdleTarget_def)
qed

lemma register_linv:
  assumes "linv d" "targets d (targetKey req) = Some p"
  shows "linv (snd (handleSession_register d req p))"
  using assms session_add_linv [OF assms] by (simp add: handleSession_register_def Let_def)

lemma openSession_linv:
  assumes "linv d"
  shows "\<exists>resp d'. openSession d start req = Some (resp, d') \<and> linv d'"
proof (cases "handleSession_check d req")
  case None
  obtain r d1 where e: "ensureTarget d start req = Some (r, d1)" "linv d1"
    "\<forall>p. r = Inr p \<longrightarrow> targets d1 (targetKey req) = Some p"
    using ensureTarget_linv [OF assms, of start req] by blast
  show ?thesis
  proof (cases r)
    case (Inl err)
    then show ?thesis using None e by (simp add: openSession_def)
  next
    case (Inr p)
    then show ?thesis
      using None e register_linv [OF e(2), of req p] by (cases "handleSession_register d1 req p") (simp add: openSession_def)
  qed
qed (use assms in \<open>simp add: openSession_def\<close>)

lemma ensureTargetPort_linv:
  assumes "linv d"
  shows "\<exists>resp d'. ensureTargetPort d iter w req = Some (resp, d') \<and> linv d'"
proof (cases "rqRemotePort req \<le> 0")
  case False
  obtain r d1 where e: "ensureTarget d (wStart w) req = Some (r, d1)" "linv d1"
    using ensureTarget_linv [OF assms, of "wStart w" req] by blast
  have "linv (snd (ensurePort_forward d1 iter w req p))" for p
    using e(2) by (auto simp: ensurePort_forward_def forwarder_def Let_def split: option.splits prod.splits sum.splits)
  then show ?thesis using e False
    by (cases r) (simp_all add: ensureTargetPort_def, metis prod.exhaust_sel)
qed (use assms in \<open>simp add: ensureTargetPort_def\<close>)

lemma handleConn_linv:
  assumes "linv d"
  shows "\<exists>resp d'. handleConn d iterk iterp w req = Some (resp, d') \<and> linv d'"
proof -
  have h: "\<exists>resp d'. handle d iterk iterp w req = Some (resp, d') \<and> linv d'"
    using ensureTargetPort_linv [OF assms, of iterk w req] assms
    by (auto simp: handle_def removeTargetPort_def split: option.split)
  show ?thesis
    using h openSession_linv [OF assms, of "wStart w" req] assms
    by (auto simp: handleConn_def)
qed

subsection \<open>Histories of the daemon\<close>

datatype dop = Conn Request world | Disconnect string | GraceTimer string | StartupTimer

text \<open>One event: a connection's request, the end of a session's connection, a grace timer, the
  startup timer. \<open>iterk\<close> and \<open>iterp\<close> are the iteration orders of Go's maps.\<close>

fun dstep :: "(string set \<Rightarrow> string list) \<Rightarrow> (int set \<Rightarrow> int list) \<Rightarrow> dop \<Rightarrow> daemon \<Rightarrow> daemon option" where
  "dstep iterk iterp (Conn req w) d = map_option snd (handleConn d iterk iterp w req)"
| "dstep iterk iterp (Disconnect l) d = Some (fst (releaseSession d l))"
| "dstep iterk iterp (GraceTimer key) d = Some (cleanupIdleTarget d key)"
| "dstep iterk iterp StartupTimer d = Some (monitorStartup d)"

fun drun :: "(string set \<Rightarrow> string list) \<Rightarrow> (int set \<Rightarrow> int list) \<Rightarrow> dop list \<Rightarrow> daemon \<Rightarrow> daemon option" where
  "drun iterk iterp [] d = Some d"
| "drun iterk iterp (e # es) d = (case dstep iterk iterp e d of None \<Rightarrow> None | Some d' \<Rightarrow> drun iterk iterp es d')"

lemma dstep_linv: "linv d \<Longrightarrow> \<exists>d'. dstep iterk iterp e d = Some d' \<and> linv d'"
  using handleConn_linv [of d iterk iterp]
  by (cases e) (fastforce simp: releaseSession_linv cleanupIdleTarget_linv monitorStartup_def)+

lemma drun_append:
  "drun iterk iterp (es @ fs) d = (case drun iterk iterp es d of None \<Rightarrow> None | Some d' \<Rightarrow> drun iterk iterp fs d')"
  by (induction es arbitrary: d) (simp_all split: option.split)

lemma drun_linv: "linv d \<Longrightarrow> \<exists>d'. drun iterk iterp es d = Some d' \<and> linv d'"
proof (induction es arbitrary: d)
  case (Cons e es)
  then show ?case using dstep_linv [OF Cons.prems, of iterk iterp e] by auto
qed simp

lemma linv_consequences:
  assumes "linv d"
  shows "rec_of d k = Some r \<Longrightarrow> trSessions r = card (leases d k) \<and> resolves d r"
    and "sessions d l = Some sr \<Longrightarrow> rec_of d (srTargetKey sr) \<noteq> None"
    and "rec_of d k = Some r \<Longrightarrow> rec_of d k' = Some r' \<Longrightarrow> k \<noteq> k' \<Longrightarrow>
      trListenIP r \<noteq> trListenIP r' \<and> name_of r \<noteq> name_of r'"
proof -
  have L: "leases_ok d" and N: "names_ok d" using assms by (simp_all add: linv_def)
  show "rec_of d k = Some r \<Longrightarrow> trSessions r = card (leases d k) \<and> resolves d r"
    using L N by (simp add: leases_ok_def names_ok_def)
  show "sessions d l = Some sr \<Longrightarrow> rec_of d (srTargetKey sr) \<noteq> None"
    using L unfolding leases_ok_def rec_of_def by blast
  have e: "exclusive (names_by d) (registered_names d)" "exclusive (ips_by d) (usedIPs d)"
    using N by (simp_all add: names_ok_def)
  show "rec_of d k = Some r \<Longrightarrow> rec_of d k' = Some r' \<Longrightarrow> k \<noteq> k' \<Longrightarrow>
      trListenIP r \<noteq> trListenIP r' \<and> name_of r \<noteq> name_of r'"
    using exclusiveD(4) [OF e(1), of "name_of r" k k'] exclusiveD(4) [OF e(2), of "trListenIP r" k k']
    by (auto simp: names_by_def ips_by_def)
qed

text \<open>A well-formed request to open a session.\<close>

definition openRequest :: "string \<Rightarrow> string \<Rightarrow> Request" where
  "openRequest lease target = Request0\<lparr>rqType := TypeOpenSession, rqLeaseID := lease, rqTargetID := target,
     rqTarget := target, rqSSHPath := ''ssh'', rqDomainSuffix := ''sshx'', rqDNSAddr := ''127.0.0.1:15353'',
     rqRuntimeID := LocalRuntimeID, rqProtocolMin := MinVersion, rqProtocolMax := MaxVersion\<rparr>"

definition quiet :: world where
  "quiet = \<lparr>wStart = None, wControlErr = None, wListen = Inl ''address in use''\<rparr>"

lemma openRequest_simps [simp]:
  "rqType (openRequest l t) = TypeOpenSession" "l \<noteq> [] \<Longrightarrow> requestLeaseID (openRequest l t) = l"
  "t \<noteq> [] \<Longrightarrow> targetKey (openRequest l t) = t" "requestCompatible (openRequest l t)"
  "rqTarget (openRequest l t) = t"
  by (simp_all add: openRequest_def requestLeaseID_def targetKey_def requestCompatible_def Request0_def Frame0_def)

lemma openRequest_domain:
  "\<exists>d1. domainFor d None (openRequest l t) = (Inr (domainKey (openRequest l t)), d1) \<and>
     draining d1 = draining d \<and> handoffGrace d1 = handoffGrace d \<and> version d1 = version d \<and> nextRec d1 = nextRec d"
proof -
  have "normalizeSuffix ''sshx'' = ''sshx''" by code_simp
  then have "mSuffix (NewManager (rqDomainSuffix (openRequest l t)) a) = ''sshx''" for a
    by (simp add: NewManager_def openRequest_def)
  then show ?thesis by (auto simp: domainFor_def Let_def split: option.split)
qed

lemma openRequest_lookup:
  "t \<noteq> [] \<Longrightarrow> ensureTarget_lookup d (openRequest l t) = map_option Inr (targets d t)"
  using openRequest_simps(3) [of t l]
  by (auto simp: ensureTarget_lookup_def openRequest_def Request0_def split: option.split)

lemma pool_not_used:
  assumes "dom (targets d) \<subseteq> {k}"
  shows "\<not> set pool \<subseteq> usedIPs d"
proof
  assume sub: "set pool \<subseteq> usedIPs d"
  have in_pool: "Address (int i) \<in> set pool" if "i < 64" for i
    using that by (auto simp: pool_def Size_def)
  have one: "x = trListenIP (heap d (the (targets d k)))" if x: "x \<in> usedIPs d" for x
  proof -
    obtain k1 p1 where "x = trListenIP (heap d p1)" "targets d k1 = Some p1" using x by (auto simp: usedIPs_def)
    moreover from this have "k1 = k" using assms by (metis domI singletonD subsetD)
    ultimately show ?thesis by simp
  qed
  have "x = y" if "x \<in> usedIPs d" "y \<in> usedIPs d" for x y
    using one [OF that(1)] one [OF that(2)] by simp
  then have "Address (int 0) = Address (int 1)" using sub in_pool [of 0] in_pool [of 1] by (meson subsetD zero_less_numeral one_less_numeral_iff semiring_norm(76))
  then show False using Address_inj [of 0 1] by (simp add: Size_def)
qed

text \<open>A request for a new target succeeds while addresses are left.\<close>

lemma ensureTarget_new:
  assumes inv: "linv d" and t: "t \<noteq> []" "targets d t = None" and free: "dom (targets d) \<subseteq> {k}"
  shows "\<exists>d1 d2. domainFor d None (openRequest l t) = (Inr (domainKey (openRequest l t)), d1) \<and>
    ensureTarget_create d1 (openRequest l t) (domainKey (openRequest l t)) = Some (Inr (nextRec d), d2) \<and>
    linv d2 \<and> targets d2 = (targets d)(t \<mapsto> nextRec d) \<and> sessions d2 = sessions d \<and> draining d2 = draining d \<and>
    handoffGrace d2 = handoffGrace d"
proof -
  let ?req = "openRequest l t" and ?dk = "domainKey (openRequest l t)"
  obtain d1 where d1: "domainFor d None ?req = (Inr ?dk, d1)" and same: "draining d1 = draining d"
    "handoffGrace d1 = handoffGrace d" "nextRec d1 = nextRec d"
    using openRequest_domain by blast
  note D = domainFor_linv [OF inv d1]
  have dk: "domains d1 ?dk \<noteq> None" using D(5) by blast
  have t1: "targets d1 t = None" using t D by simp
  obtain ip where ip: "allocateLoopbackIPLocked d1 = Inr ip"
    using pool_not_used [of d1 k] free D(2) allocateLoopbackIP_Inl [of "usedIPs d1"]
    by (cases "allocateLoopbackIPLocked d1") (auto simp: allocateLoopbackIPLocked_def)
  obtain r d2 where c: "ensureTarget_create d1 ?req ?dk = Some (r, d2)" "linv d2" "sessions d2 = sessions d1"
    using ensureTarget_create_linv [OF D(1) dk, of ?req] by blast
  obtain ip4 where ip4: "To4 (ParseIPv4 ip) = Some ip4"
    using ip allocateLoopbackIP_Inr pool_parse by (metis allocateLoopbackIPLocked_def)
  obtain m where m: "domains d1 ?dk = Some m" using dk by blast
  then have fin: "finite (dom (records m))"
    using D(1) by (auto simp: linv_def names_ok_def manager_ok_def)
  have "r = Inr (nextRec d) \<and> targets d2 = (targets d)(t \<mapsto> nextRec d) \<and> draining d2 = draining d \<and>
      handoffGrace d2 = handoffGrace d"
    using c(1) t1 t ip m RegisterTarget_eq [OF fin ip4] same D(2)
    by (auto simp: ensureTarget_create_def newTarget_def)
  then show ?thesis using d1 c D(3) by auto
qed

lemma openSession_new:
  assumes inv: "linv d" and t: "t \<noteq> []" "targets d t = None" and free: "dom (targets d) \<subseteq> {k}"
    and l: "l \<noteq> []" and nd: "\<not> draining d"
  shows "\<exists>d2. linv d2 \<and> targets d2 = (targets d)(t \<mapsto> nextRec d) \<and> sessions d2 = sessions d \<and>
    \<not> draining d2 \<and> handoffGrace d2 = handoffGrace d \<and>
    openSession d None (openRequest l t) = Some (handleSession_register d2 (openRequest l t) (nextRec d))"
proof -
  obtain d1 d2 where d: "domainFor d None (openRequest l t) = (Inr (domainKey (openRequest l t)), d1)"
    "ensureTarget_create d1 (openRequest l t) (domainKey (openRequest l t)) = Some (Inr (nextRec d), d2)"
    "linv d2" "targets d2 = (targets d)(t \<mapsto> nextRec d)" "sessions d2 = sessions d" "draining d2 = draining d"
    "handoffGrace d2 = handoffGrace d"
    using ensureTarget_new [OF inv t free] by blast
  have "openSession d None (openRequest l t) = Some (handleSession_register d2 (openRequest l t) (nextRec d))"
    using t l nd d by (simp add: openSession_def handleSession_check_def ensureTarget_def openRequest_lookup)
  then show ?thesis using d nd by auto
qed


lemma first_session:
  obtains d sr p where
    "drun iterk iterp [Conn (openRequest ''A'' ''T1'') quiet] (NewServer v grace) = Some d"
    "linv d" "targets d = [''T1'' \<mapsto> p]" "sessions d = [''A'' \<mapsto> sr]" "srTargetKey sr = ''T1''"
    "\<not> draining d" "handoffGrace d = grace"
proof -
  let ?d = "NewServer v grace" and ?req = "openRequest ''A'' ''T1''"
  obtain d2 where d2: "linv d2" "targets d2 = [''T1'' \<mapsto> nextRec ?d]" "sessions d2 = Map.empty" "\<not> draining d2"
    "handoffGrace d2 = grace"
    "openSession ?d None ?req = Some (handleSession_register d2 ?req (nextRec ?d))"
    using openSession_new [OF linv_init [of v grace], of "''T1''" "[]" "''A''"] by (auto simp: NewServer_def)
  let ?d3 = "snd (handleSession_register d2 ?req (nextRec ?d))"
  let ?sr = "\<lparr>srTargetKey = ''T1'', srSSHPath = rqSSHPath ?req, srSSHArgs = defaultSSHArgs ?req,
     srControlPath = rqControlPath ?req\<rparr>"
  have inv: "linv ?d3" by (rule register_linv [OF d2(1)]) (simp add: d2)
  have run: "drun iterk iterp [Conn ?req quiet] ?d = Some ?d3"
    using d2(6) by (simp add: handleConn_def quiet_def)
  have "targets ?d3 = [''T1'' \<mapsto> nextRec ?d]" "sessions ?d3 = [''A'' \<mapsto> ?sr]" "\<not> draining ?d3" "handoffGrace ?d3 = grace"
    using d2 by (simp_all add: handleSession_register_def Let_def)
  then show thesis using run inv by (intro that [of ?d3 "nextRec ?d" ?sr]) simp_all
qed


text \<open>A failed session request can keep the daemon alive for good: the target it created before
  the request was refused has no session, and no timer was started for it. After every session
  has closed and the only grace timer ever started has run, the target is still there and the
  daemon does not shut down.\<close>

theorem refused_session_leaks_target:
  "\<exists>d. drun iterk iterp [Conn (openRequest ''A'' ''T1'') quiet, Conn (openRequest ''A'' ''T2'') quiet,
       Disconnect ''A'', GraceTimer ''T1''] (NewServer v True) = Some d \<and>
     sessions d = Map.empty \<and> targets d ''T2'' \<noteq> None \<and> leases d ''T2'' = {} \<and> \<not> draining d"
proof -
  let ?req = "openRequest ''A'' ''T2''"
  obtain d1 sr p1 where d1: "drun iterk iterp [Conn (openRequest ''A'' ''T1'') quiet] (NewServer v True) = Some d1"
    "linv d1" "targets d1 = [''T1'' \<mapsto> p1]" "sessions d1 = [''A'' \<mapsto> sr]" "srTargetKey sr = ''T1''"
    "\<not> draining d1" "handoffGrace d1 = True"
    by (rule first_session)
  have sr: "sessions d1 ''A'' = Some sr" "srTargetKey sr = ''T1''" using d1(4,5) by simp_all
  have T2: "targets d1 ''T2'' = None" by (simp add: d1(3))
  have only: "sessions d1 l = None" if "l \<noteq> ''A''" for l using that by (simp add: d1(4))
  obtain d2 where d2: "linv d2" "targets d2 = (targets d1)(''T2'' \<mapsto> nextRec d1)" "sessions d2 = sessions d1"
    "\<not> draining d2" "handoffGrace d2"
    "openSession d1 None ?req = Some (handleSession_register d2 ?req (nextRec d1))"
    using openSession_new [OF d1(2) _ T2, of "''T1''" "''A''"] d1(3,6,7) by auto
  have s2: "dstep iterk iterp (Conn ?req quiet) d1 = Some d2"
    using d2 sr by (simp add: handleConn_def quiet_def handleSession_register_def)
  obtain p where p: "targets d2 ''T1'' = Some p" "trSessions (heap d2 p) > 0"
    and inv3: "linv (decrement (d2\<lparr>sessions := (sessions d2)(''A'' := None)\<rparr>) p)" (is "linv ?d3")
    using session_drop_linv [OF d2(1), of "''A''" sr "''T1''"] d2(3) sr by auto
  have s3: "dstep iterk iterp (Disconnect ''A'') d2 = Some ?d3"
    using d2(3,5) sr p by (simp add: releaseSession_def releaseWithGrace_locked_def Let_def)
  have ss3: "sessions ?d3 = Map.empty" using d2(3) only by (auto simp: decrement_def fun_eq_iff)
  have t3: "targets ?d3 = targets d2" "draining ?d3 = draining d2" by (simp_all add: decrement_def)
  let ?d4 = "cleanupIdleTarget ?d3 ''T1''"
  have ne: "\<And>f. f(''T2'' := Some (nextRec d1)) \<noteq> (Map.empty :: string \<rightharpoonup> nat)" by (metis fun_upd_same option.distinct(1))
  have t4: "targets ?d4 ''T2'' \<noteq> None" "sessions ?d4 = Map.empty" "\<not> draining ?d4"
  proof -
    have zero: "trSessions (heap ?d3 p) = 0"
      using linv_consequences(1) [OF inv3, of "''T1''" "heap ?d3 p"] p ss3 by (simp add: rec_of_def leases_def t3)
    have keep: "targets (unregisterDomain d td) = targets d \<and> sessions (unregisterDomain d td) = sessions d \<and>
        draining (unregisterDomain d td) = draining d" for d td
      by (simp add: unregisterDomain_def split: option.split)
    have ne2: "(targets d2)(''T1'' := None) \<noteq> Map.empty" by (auto simp: d2(2) fun_eq_iff)
    show "targets ?d4 ''T2'' \<noteq> None" "sessions ?d4 = Map.empty" "\<not> draining ?d4"
      using zero p ss3 t3 ne2 d2(4)
      by (simp_all add: cleanupIdleTarget_def cleanupIdleTarget_locked_def delete_target_def finish_def keep)
        (simp add: d2(2))
  qed
  have app: "[Conn (openRequest ''A'' ''T1'') quiet, Conn ?req quiet, Disconnect ''A'', GraceTimer ''T1''] =
      [Conn (openRequest ''A'' ''T1'') quiet] @ [Conn ?req quiet, Disconnect ''A'', GraceTimer ''T1'']" by simp
  have "drun iterk iterp [Conn (openRequest ''A'' ''T1'') quiet, Conn ?req quiet, Disconnect ''A'', GraceTimer ''T1'']
      (NewServer v True) = Some ?d4"
    unfolding app drun_append d1(1) option.case
    unfolding drun.simps s2 s3 dstep.simps(3) option.case ..
  then show ?thesis using t4 by (auto simp: leases_def)
qed

subsection \<open>Interleaved session handlers\<close>

text \<open>
  The same locked regions, now with other handlers running between them: \<open>thr\<close> gives the point
  each handler has reached. A timer is a handler that waits in \<open>TimerSet\<close>.
\<close>

datatype lpc =
    Checked Request
  | WantDomain Request
  | WantRecord Request string
  | HaveRecord Request nat
  | InSession string
  | TimerSet string
  | Finishing "teardown option" bool
  | Over

record lstate =
  srv :: daemon
  thr :: "nat \<rightharpoonup> lpc"

inductive lstep :: "lstate \<Rightarrow> lstate \<Rightarrow> bool" where
  check: "thr s t = None \<Longrightarrow> handleSession_check (srv s) req = None \<Longrightarrow>
    lstep s (s\<lparr>thr := (thr s)(t \<mapsto> Checked req)\<rparr>)"
| lookup: "thr s t = Some (Checked req) \<Longrightarrow>
    lstep s (s\<lparr>thr := (thr s)(t \<mapsto> (case ensureTarget_lookup (srv s) req of
       None \<Rightarrow> WantDomain req | Some (Inl err) \<Rightarrow> Over | Some (Inr p) \<Rightarrow> HaveRecord req p))\<rparr>)"
| domain: "thr s t = Some (WantDomain req) \<Longrightarrow> domainFor (srv s) start req = (r, d) \<Longrightarrow>
    lstep s (s\<lparr>srv := d, thr := (thr s)(t \<mapsto> (case r of Inl err \<Rightarrow> Over | Inr dk \<Rightarrow> WantRecord req dk))\<rparr>)"
| create: "thr s t = Some (WantRecord req dk) \<Longrightarrow> ensureTarget_create (srv s) req dk = Some (r, d) \<Longrightarrow>
    lstep s (s\<lparr>srv := d, thr := (thr s)(t \<mapsto> (case r of Inl err \<Rightarrow> Over | Inr p \<Rightarrow> HaveRecord req p))\<rparr>)"
| register: "thr s t = Some (HaveRecord req p) \<Longrightarrow> handleSession_register (srv s) req p = (resp, d) \<Longrightarrow>
    lstep s (s\<lparr>srv := d, thr := (thr s)(t \<mapsto> (if rsOK resp then InSession (requestLeaseID req) else Over))\<rparr>)"
| close_grace: "thr s t = Some (InSession l) \<Longrightarrow> handoffGrace (srv s) \<Longrightarrow>
    releaseWithGrace_locked (srv s) l = (d, timer) \<Longrightarrow>
    lstep s (s\<lparr>srv := d, thr := (thr s)(t \<mapsto> (case timer of None \<Rightarrow> Over | Some key \<Rightarrow> TimerSet key))\<rparr>)"
| close_now: "thr s t = Some (InSession l) \<Longrightarrow> \<not> handoffGrace (srv s) \<Longrightarrow>
    releaseNow_locked (srv s) l = (d, td, sd) \<Longrightarrow>
    lstep s (s\<lparr>srv := d, thr := (thr s)(t \<mapsto> Finishing td sd)\<rparr>)"
| timer: "thr s t = Some (TimerSet key) \<Longrightarrow> cleanupIdleTarget_locked (srv s) key = (d, td, sd) \<Longrightarrow>
    lstep s (s\<lparr>srv := d, thr := (thr s)(t \<mapsto> Finishing td sd)\<rparr>)"
| finishing: "thr s t = Some (Finishing td sd) \<Longrightarrow>
    lstep s (s\<lparr>srv := finish (srv s, td, sd), thr := (thr s)(t \<mapsto> Over)\<rparr>)"

inductive lreach :: "lstate \<Rightarrow> bool" where
  init: "lreach \<lparr>srv = NewServer v grace, thr = Map.empty\<rparr>"
| step: "lreach s \<Longrightarrow> lstep s s' \<Longrightarrow> lreach s'"

text \<open>What survives interleaving: addresses stay exclusive.\<close>

definition ips_ok :: "daemon \<Rightarrow> bool" where
  "ips_ok d \<longleftrightarrow> pointers_ok d \<and> (\<forall>k r. rec_of d k = Some r \<longrightarrow> trListenIP r \<in> set pool) \<and>
     (\<forall>k k' r r'. rec_of d k = Some r \<longrightarrow> rec_of d k' = Some r' \<longrightarrow> trListenIP r = trListenIP r' \<longrightarrow> k = k')"

lemma ips_ok_touch:
  assumes "ips_ok d" "pointers_ok d'"
    and sub: "\<And>k r'. rec_of d' k = Some r' \<Longrightarrow> \<exists>r. rec_of d k = Some r \<and> trListenIP r = trListenIP r'"
  shows "ips_ok d'"
  using assms(1,2) unfolding ips_ok_def by (metis sub)

lemma ips_ok_bump:
  assumes "ips_ok d"
  shows "ips_ok (d\<lparr>sessions := ss, heap := (heap d)(p := (heap d p)\<lparr>trSessions := n\<rparr>)\<rparr>)" (is "ips_ok ?d")
proof (rule ips_ok_touch [OF assms])
  show "pointers_ok ?d" using assms by (simp add: ips_ok_def pointers_ok_def)
  show "\<exists>r. rec_of d k = Some r \<and> trListenIP r = trListenIP r'" if "rec_of ?d k = Some r'" for k r'
    using that by (auto simp: rec_of_def)
qed

lemma ips_ok_delete:
  assumes "ips_ok d"
  shows "ips_ok (d\<lparr>forwarders := fs, targets := (targets d)(k := None)\<rparr>)" (is "ips_ok ?d")
proof (rule ips_ok_touch [OF assms])
  show "pointers_ok ?d" using assms by (auto simp: ips_ok_def pointers_ok_def split: if_splits)
  show "\<exists>r. rec_of d k' = Some r \<and> trListenIP r = trListenIP r'" if "rec_of ?d k' = Some r'" for k' r'
    using that by (auto simp: rec_of_def split: if_splits)
qed

lemma ips_ok_frame:
  assumes "targets d' = targets d" "heap d' = heap d" "nextRec d' = nextRec d"
  shows "ips_ok d' = ips_ok d"
proof -
  have "rec_of d' = rec_of d" by (simp add: rec_of_def fun_eq_iff assms)
  then show ?thesis by (simp add: ips_ok_def pointers_ok_def assms)
qed

lemma ips_ok_create:
  assumes ok: "ips_ok d" and c: "ensureTarget_create d req dk = Some (r, d')"
  shows "ips_ok d'"
proof -
  consider "d' = d" | ip rec m where "allocateLoopbackIPLocked d = Inr ip"
      "trListenIP rec = ip" "d' = newTarget d (targetKey req) dk rec m"
  proof (cases "targets d (targetKey req)")
    case (Some p)
    then show ?thesis using c that(1) by (simp add: ensureTarget_create_def)
  next
    case new: None
    show ?thesis
    proof (cases "allocateLoopbackIPLocked d")
      case (Inl e)
      then show ?thesis using c that(1) new by (simp add: ensureTarget_create_def)
    next
      case (Inr ip)
      note c' = c [unfolded ensureTarget_create_def new Inr option.case sum.case]
      obtain res m where reg: "RegisterTarget (the (domains d dk)) (rqTarget req) (ParseIPv4 ip) = Some (res, m)"
        using c' by (auto split: option.splits)
      show ?thesis
      proof (cases res)
        case (Inl e)
        then show ?thesis using c' reg that(1) by simp
      next
        case (Inr name)
        show ?thesis
          by (rule that(2) [OF \<open>allocateLoopbackIPLocked d = Inr ip\<close> _ sym]) (use c' reg Inr in auto)
      qed
    qed
  qed
  then show ?thesis
  proof cases
    case 2
    have P: "pointers_ok d" using ok by (simp add: ips_ok_def)
    have rec': "rec_of d' = (rec_of d)(targetKey req \<mapsto> rec)" unfolding 2(3) by (rule rec_of_fresh [OF P])
    have ip: "ip \<in> set pool" "ip \<notin> usedIPs d"
      using 2(1) allocateLoopbackIP_Inr by (simp_all add: allocateLoopbackIPLocked_def)
    have "pointers_ok d'" using P by (auto simp: 2(3) pointers_ok_def newTarget_def less_SucI split: if_splits)
    moreover have "trListenIP r \<noteq> ip" if "rec_of d k = Some r" for k r
      using that ip(2) unfolding usedIPs_rec by blast
    ultimately show ?thesis
      using ok ip(1) 2(2) unfolding ips_ok_def rec' by (auto split: if_splits) blast+
  qed (use ok in simp)
qed

lemma decrement_ips: "ips_ok d \<Longrightarrow> ips_ok (decrement (d\<lparr>sessions := ss\<rparr>) p)"
proof -
  assume "ips_ok d"
  then have "ips_ok (d\<lparr>sessions := ss, heap := (heap d)(p := (heap d p)\<lparr>trSessions := trSessions (heap d p) - 1\<rparr>)\<rparr>)"
    by (rule ips_ok_bump)
  then show ?thesis by (simp add: decrement_def)
qed

lemma ips_ok_sessions [simp]: "ips_ok (d\<lparr>sessions := ss\<rparr>) = ips_ok d"
  "ips_ok (d\<lparr>draining := b\<rparr>) = ips_ok d" "ips_ok (d\<lparr>domains := x\<rparr>) = ips_ok d"
  "ips_ok (d\<lparr>draining := b, shutdownClosed := c\<rparr>) = ips_ok d"
  by (rule ips_ok_frame; simp)+

lemma delete_target_ips: "ips_ok d \<Longrightarrow> delete_target d k p = (d', td) \<Longrightarrow> ips_ok d'"
  using ips_ok_delete by (auto simp: delete_target_def)

lemma releaseNow_ips: "ips_ok d \<Longrightarrow> ips_ok (fst (releaseNow_locked d l))"
  using ips_ok_delete
  by (auto simp: releaseNow_locked_def delete_target_def Let_def decrement_ips split: option.split)

lemma releaseWithGrace_ips: "ips_ok d \<Longrightarrow> ips_ok (fst (releaseWithGrace_locked d l))"
  by (auto simp: releaseWithGrace_locked_def Let_def decrement_ips split: option.split)

lemma cleanup_ips: "ips_ok d \<Longrightarrow> ips_ok (fst (cleanupIdleTarget_locked d k))"
proof -
  assume ok: "ips_ok d"
  let ?c = "case targets d k of None \<Rightarrow> (d, None)
    | Some p \<Rightarrow> if trSessions (heap d p) = 0 then delete_target d k p else (d, None)"
  have "ips_ok (fst ?c)"
    using ok ips_ok_delete by (auto simp: delete_target_def split: option.split)
  moreover obtain d1 td where "?c = (d1, td)" by fastforce
  ultimately show ?thesis
    by (simp add: cleanupIdleTarget_locked_def Let_def)
qed

lemma finish_ips: "ips_ok d \<Longrightarrow> ips_ok (finish (d, td, sd))"
  by (auto simp: finish_def unregisterDomain_def initiateShutdown_def Let_def split: option.split)

lemma register_ips: "ips_ok d \<Longrightarrow> ips_ok (snd (handleSession_register d req p))"
  by (auto simp: handleSession_register_def Let_def intro: ips_ok_bump [simplified])

lemma domainFor_ips: "ips_ok d \<Longrightarrow> ips_ok (snd (domainFor d start req))"
  by (auto simp: domainFor_def Let_def split: option.split)

lemma lstep_ips: "lstep s s' \<Longrightarrow> ips_ok (srv s) \<Longrightarrow> ips_ok (srv s')"
proof (induction rule: lstep.induct)
  case (domain s t req start r d)
  then show ?case using domainFor_ips [of "srv s" start req] by simp
next
  case (create s t req dk r d)
  then show ?case using ips_ok_create by simp
next
  case (register s t req p resp d)
  then show ?case using register_ips [of "srv s" req p] by simp
next
  case (close_grace s t l d timer)
  then show ?case using releaseWithGrace_ips [of "srv s" l] by simp
next
  case (close_now s t l d td sd)
  then show ?case using releaseNow_ips [of "srv s" l] by simp
next
  case (timer s t key d td sd)
  then show ?case using cleanup_ips [of "srv s" key] by simp
qed (simp_all add: finish_ips)

lemma lreach_ips: "lreach s \<Longrightarrow> ips_ok (srv s)"
proof (induction rule: lreach.induct)
  case (init v grace)
  show ?case by (simp add: ips_ok_def NewServer_def pointers_ok_def rec_of_def)
qed (rule lstep_ips)

lemma lreach_open:
  assumes reach: "lreach s" and inv: "linv (srv s)" and idle: "thr s t = None"
    and new: "tk \<noteq> []" "targets (srv s) tk = None" "dom (targets (srv s)) \<subseteq> {k}" "l \<noteq> []" "\<not> draining (srv s)"
    and lease: "sessions (srv s) l = None"
  shows "\<exists>s' sr. lreach s' \<and> linv (srv s') \<and> targets (srv s') = (targets (srv s))(tk \<mapsto> nextRec (srv s)) \<and>
    sessions (srv s') = (sessions (srv s))(l \<mapsto> sr) \<and> srTargetKey sr = tk \<and> \<not> draining (srv s') \<and>
    handoffGrace (srv s') = handoffGrace (srv s) \<and> thr s' = (thr s)(t \<mapsto> InSession l)"
proof -
  let ?d = "srv s" and ?req = "openRequest l tk"
  obtain d1 d2 where d: "domainFor ?d None ?req = (Inr (domainKey ?req), d1)"
    "ensureTarget_create d1 ?req (domainKey ?req) = Some (Inr (nextRec ?d), d2)"
    "linv d2" "targets d2 = (targets ?d)(tk \<mapsto> nextRec ?d)" "sessions d2 = sessions ?d" "draining d2 = draining ?d"
    "handoffGrace d2 = handoffGrace ?d"
    using ensureTarget_new [OF inv new(1-3)] by blast
  obtain resp d3 where reg: "handleSession_register d2 ?req (nextRec ?d) = (resp, d3)" by fastforce
  have s1: "lreach (s\<lparr>thr := (thr s)(t \<mapsto> Checked ?req)\<rparr>)" (is "lreach ?s1")
    using new by (intro lreach.step [OF reach] lstep.check idle) (simp add: handleSession_check_def)
  have s2: "lreach (s\<lparr>thr := (thr s)(t \<mapsto> WantDomain ?req)\<rparr>)" (is "lreach ?s2")
    using lreach.step [OF s1 lstep.lookup [of ?s1 t ?req]] new by (simp add: openRequest_lookup)
  have s3: "lreach (s\<lparr>srv := d1, thr := (thr s)(t \<mapsto> WantRecord ?req (domainKey ?req))\<rparr>)" (is "lreach ?s3")
    using lreach.step [OF s2 lstep.domain [of ?s2 t ?req None]] d(1) by simp
  have s4: "lreach (s\<lparr>srv := d2, thr := (thr s)(t \<mapsto> HaveRecord ?req (nextRec ?d))\<rparr>)" (is "lreach ?s4")
    using lreach.step [OF s3 lstep.create [of ?s3 t ?req "domainKey ?req"]] d(2) by simp
  have ok: "rsOK resp" "sessions d3 = (sessions ?d)(l \<mapsto> \<lparr>srTargetKey = tk, srSSHPath = rqSSHPath ?req,
      srSSHArgs = defaultSSHArgs ?req, srControlPath = rqControlPath ?req\<rparr>)"
    "targets d3 = targets d2" "draining d3 = draining ?d" "handoffGrace d3 = handoffGrace ?d"
    using reg new lease d by (auto simp: handleSession_register_def Let_def openedResponse_def protocolResponse_def)
  have s5: "lreach (s\<lparr>srv := d3, thr := (thr s)(t \<mapsto> InSession l)\<rparr>)" (is "lreach ?s5")
    using lreach.step [OF s4 lstep.register [of ?s4 t ?req "nextRec ?d"]] reg ok(1) new by simp
  have "linv d3" using register_linv [OF d(3), of ?req "nextRec ?d"] reg d(4) new by simp
  then show ?thesis using s5 ok d new
    by (intro exI [of _ ?s5] exI [of _ "\<lparr>srTargetKey = tk, srSSHPath = rqSSHPath ?req,
      srSSHArgs = defaultSSHArgs ?req, srControlPath = rqControlPath ?req\<rparr>"]) simp
qed

lemma two_sessions:
  obtains s2 a c n where "lreach s2" "linv (srv s2)" "targets (srv s2) = [''T1'' \<mapsto> 0, ''T2'' \<mapsto> n]"
    "sessions (srv s2) = [''A'' \<mapsto> a, ''C'' \<mapsto> c]" "srTargetKey c = ''T2''" "\<not> draining (srv s2)" "handoffGrace (srv s2)"
    "thr s2 = [0 \<mapsto> InSession ''A'', 2 \<mapsto> InSession ''C'']" "srTargetKey a = ''T1''"
proof -
  let ?s0 = "\<lparr>srv = NewServer ''dev'' True, thr = Map.empty\<rparr>"
  have s0: "lreach ?s0" by (rule lreach.init)
  obtain s1 a where s1: "lreach s1" "linv (srv s1)" "targets (srv s1) = [''T1'' \<mapsto> 0]" "sessions (srv s1) = [''A'' \<mapsto> a]"
    "srTargetKey a = ''T1''" "\<not> draining (srv s1)" "handoffGrace (srv s1)" "thr s1 = [0 \<mapsto> InSession ''A'']"
    using lreach_open [OF s0, of 0 "''T1''" "[]" "''A''"] linv_init [of "''dev''" True] by (auto simp: NewServer_def)
  obtain s2 c n where "lreach s2" "linv (srv s2)" "targets (srv s2) = [''T1'' \<mapsto> 0, ''T2'' \<mapsto> n]"
    "sessions (srv s2) = [''A'' \<mapsto> a, ''C'' \<mapsto> c]" "srTargetKey c = ''T2''" "\<not> draining (srv s2)" "handoffGrace (srv s2)"
    "thr s2 = [0 \<mapsto> InSession ''A'', 2 \<mapsto> InSession ''C'']"
    using lreach_open [OF s1(1,2), of 2 "''T2''" "''T1''" "''C''"] s1(3-) by auto
  then show thesis by (rule that [OF _ _ _ _ _ _ _ _ s1(5)])
qed

text \<open>C5. However session handlers, releases and grace timers interleave, every live target holds an
  address of the pool and no two live targets hold the same one.\<close>

theorem addresses_exclusive:
  assumes "lreach s" "rec_of (srv s) k = Some r" "rec_of (srv s) k' = Some r'" "k \<noteq> k'"
  shows "trListenIP r \<in> set pool \<and> trListenIP r \<noteq> trListenIP r'"
  using lreach_ips [OF assms(1)] assms(2-) unfolding ips_ok_def by blast

theorem addresses_exclusive_witness:
  "\<exists>s r r'. lreach s \<and> rec_of (srv s) ''T1'' = Some r \<and> rec_of (srv s) ''T2'' = Some r' \<and>
     trListenIP r \<in> set pool \<and> trListenIP r \<noteq> trListenIP r'"
proof -
  obtain s a c n where s: "lreach s" "targets (srv s) = [''T1'' \<mapsto> 0, ''T2'' \<mapsto> n]"
    by (rule two_sessions)
  then have r: "rec_of (srv s) ''T1'' = Some (heap (srv s) 0)" "rec_of (srv s) ''T2'' = Some (heap (srv s) n)"
    by (simp_all add: rec_of_def)
  show ?thesis using addresses_exclusive [OF s(1) r] s(1) r by auto
qed

text \<open>A race between opening a session and the grace timer of an earlier one: the handler reads
  the target's record in one locked region and registers the session in a later one; when the
  timer removes the idle target in between, the session is opened, successfully, on a target that no
  longer exists, and its name and address have been given back.\<close>

theorem session_on_deleted_target:
  "\<exists>s l sr t. lreach s \<and> sessions (srv s) l = Some sr \<and> targets (srv s) (srTargetKey sr) = None \<and>
     \<not> draining (srv s) \<and> thr s t = Some (InSession l)"
proof -
  let ?B = "openRequest ''B'' ''T1''"
  obtain s2 a c n where s2: "lreach s2" "linv (srv s2)" "targets (srv s2) = [''T1'' \<mapsto> 0, ''T2'' \<mapsto> n]"
    "sessions (srv s2) = [''A'' \<mapsto> a, ''C'' \<mapsto> c]" "srTargetKey c = ''T2''" "\<not> draining (srv s2)" "handoffGrace (srv s2)"
    "thr s2 = [0 \<mapsto> InSession ''A'', 2 \<mapsto> InSession ''C'']" and s1: "srTargetKey a = ''T1''"
    by (rule two_sessions)
  let ?d = "srv s2"
  have s3: "lreach (s2\<lparr>thr := (thr s2)(1 \<mapsto> Checked ?B)\<rparr>)" (is "lreach ?s3")
    using s2 by (intro lreach.step [OF s2(1)] lstep.check) (simp_all add: handleSession_check_def)
  have s4: "lreach (s2\<lparr>thr := (thr s2)(1 \<mapsto> HaveRecord ?B 0)\<rparr>)" (is "lreach ?s4")
    using lreach.step [OF s3 lstep.lookup [of ?s3 1 ?B]] s2(3) by (simp add: openRequest_lookup)
  obtain inv5: "linv (decrement (?d\<lparr>sessions := (sessions ?d)(''A'' := None)\<rparr>) 0)" and pos: "trSessions (heap ?d 0) > 0"
    using session_drop_linv [OF s2(2), of "''A''" a "''T1''"] s2(3,4) s1 by auto
  let ?d5 = "decrement (?d\<lparr>sessions := (sessions ?d)(''A'' := None)\<rparr>) 0"
  have rel: "releaseWithGrace_locked ?d ''A'' = (?d5, Some ''T1'')"
    using s2(3,4) s1 pos by (simp add: releaseWithGrace_locked_def Let_def)
  have s5: "lreach (s2\<lparr>srv := ?d5, thr := (thr s2)(1 \<mapsto> HaveRecord ?B 0, 0 \<mapsto> TimerSet ''T1'')\<rparr>)" (is "lreach ?s5")
    using lreach.step [OF s4 lstep.close_grace [of ?s4 0 "''A''"]] rel s2(7,8) by simp
  have d5: "targets ?d5 = [''T1'' \<mapsto> 0, ''T2'' \<mapsto> n]" "sessions ?d5 = [''C'' \<mapsto> c]" "\<not> draining ?d5"
    using s2(3,4,6) by (auto simp: decrement_def fun_eq_iff)
  have "leases ?d5 ''T1'' = {}" using s2(5) by (auto simp: leases_def d5(2) split: if_splits)
  then have zero: "trSessions (heap ?d5 0) = 0"
    using linv_consequences(1) [OF inv5, of "''T1''" "heap ?d5 0"] by (simp add: rec_of_def d5(1))
  obtain d6 td where cl: "cleanupIdleTarget_locked ?d5 ''T1'' = (d6, td, False)"
    and d6: "targets d6 = [''T2'' \<mapsto> n]" "sessions d6 = [''C'' \<mapsto> c]" "\<not> draining d6"
    using zero d5 by (auto simp: cleanupIdleTarget_locked_def delete_target_def Let_def fun_upd_twist)
  have s6: "lreach (s2\<lparr>srv := d6, thr := (thr s2)(1 \<mapsto> HaveRecord ?B 0, 0 \<mapsto> Finishing td False)\<rparr>)" (is "lreach ?s6")
    using lreach.step [OF s5 lstep.timer [of ?s5 0 "''T1''" d6 td False]] cl by simp
  obtain resp d7 where reg: "handleSession_register d6 ?B 0 = (resp, d7)" by fastforce
  have d7: "rsOK resp" "targets d7 = [''T2'' \<mapsto> n]" "sessions d7 ''B'' = Some \<lparr>srTargetKey = ''T1'', srSSHPath = rqSSHPath ?B,
      srSSHArgs = defaultSSHArgs ?B, srControlPath = rqControlPath ?B\<rparr>" "\<not> draining d7"
    using reg d6 by (auto simp: handleSession_register_def Let_def openedResponse_def protocolResponse_def)
  have s7: "lreach (s2\<lparr>srv := d7, thr := (thr s2)(1 \<mapsto> InSession ''B'', 0 \<mapsto> Finishing td False)\<rparr>)" (is "lreach ?s7")
    using lreach.step [OF s6 lstep.register [of ?s6 1 ?B 0]] reg d7(1) by (simp add: fun_upd_twist)
  show ?thesis
    using s7 d7 by (intro exI [of _ ?s7] exI [of _ "''B''"] exI [of _ "\<lparr>srTargetKey = ''T1'', srSSHPath = rqSSHPath ?B,
      srSSHArgs = defaultSSHArgs ?B, srControlPath = rqControlPath ?B\<rparr>"] exI [of _ 1]) simp
qed

subsection \<open>Client and daemon agree\<close>

text \<open>C6. What the client side sends, the daemon accepts, and what the daemon answers, the client
  accepts: the open request passes the compatibility check, the reply yields the target's name
  and address, and every heartbeat is acknowledged with its own sequence number, so that a lease
  between matching versions is never dropped by the protocol itself.\<close>

theorem lease_protocol:
  assumes "openSessionRequest req = Inr r"
  shows "requestCompatible r \<and> requestLeaseID r = requestLeaseID req \<and> rqType r = TypeOpenSession \<and>
    targetKey r = targetKey req \<and>
    openSessionReply (openedResponse d p) = Inr (trDomain (heap d p), trListenIP (heap d p)) \<and>
    (let (resp, go) = heartbeatRound v (requestLeaseID r) (clientHeartbeat r sq)
     in go \<and> clientAccepts resp sq)"
proof -
  have r: "requestLeaseID req \<noteq> []" "r = req\<lparr>rqLeaseID := requestLeaseID req, rqType := TypeOpenSession,
        rqProtocolVersion := Protocol.Version, rqProtocolMin := MinVersion,
        rqProtocolMax := MaxVersion, rqRuntimeID := LocalRuntimeID\<rparr>"
    using assms by (auto simp: openSessionRequest_def split: if_splits)
  have c: "requestCompatible r" "requestCompatible (clientHeartbeat r sq)"
    by (simp_all add: r requestCompatible_def clientHeartbeat_def)
  have "responseCompatible (openedResponse d p)" "responseCompatible ((protocolResponse v True)\<lparr>rsType := t, rsSequence := sq\<rparr>)" for t
    by (simp_all add: responseCompatible_def openedResponse_def protocolResponse_def)
  moreover have "requestLeaseID (clientHeartbeat r sq) = requestLeaseID r"
    using r(1) by (simp add: r(2) clientHeartbeat_def requestLeaseID_def Request0_def)
  moreover have "requestLeaseID r = requestLeaseID req"
    using r(1) unfolding r(2) by (simp add: requestLeaseID_def [of "_\<lparr>rqRuntimeID := _\<rparr>"])
  ultimately show ?thesis
    using c by (simp add: heartbeatRound_def clientAccepts_def openSessionReply_def)
      (simp add: r openedResponse_def protocolResponse_def clientHeartbeat_def targetKey_def defaultSSHArgs_def)
qed

theorem lease_protocol_witness:
  "\<exists>r. openSessionRequest (openRequest ''A'' ''T1'') = Inr r \<and> requestCompatible r \<and>
     clientAccepts (fst (heartbeatRound ''dev'' (requestLeaseID r) (clientHeartbeat r 7))) 7"
proof -
  obtain r where r: "openSessionRequest (openRequest ''A'' ''T1'') = Inr r" by (simp add: openSessionRequest_def)
  show ?thesis
    using lease_protocol [OF r, of undefined 0 "''dev''" 7] r
    by (intro exI [of _ r]) (auto simp: case_prod_beta Let_def)
qed

end
