(* ===== verification/Layout.thy ===== *)
theory Layout
  imports GoPath
begin

text \<open>
  \<open>internal/remotefs/layout.go\<close>: where an exported directory appears below the mount root of the
  other side, and the checks on paths that arrive over the wire. \<open>path_guard\<close> is the contract of
  such a check: what it lets through stays below the directory it is joined to.
\<close>

subsection \<open>Checks on wire paths\<close>

definition NUL :: char where "NUL = CHR 0x00"
definition backslash :: char where "backslash = CHR 0x5C"

definition CleanMountPath :: "string \<Rightarrow> (string, string) result" where
  "CleanMountPath value =
     (if value = [] \<or> Contains value NUL \<or> Contains value backslash then Inl ''remote fs mount path is invalid''
      else let clean = Clean value in
        if clean = ''.'' \<or> HasPrefix clean ''/'' \<or> clean = ''..'' \<or> HasPrefix clean ''../''
        then Inl ''remote fs mount path must stay below the session root''
        else Inr clean)"

definition MountPathBelow :: "string \<Rightarrow> string \<Rightarrow> (string, string) result" where
  "MountPathBelow base hierarchy =
     (case CleanMountPath hierarchy of Inl err \<Rightarrow> Inl err | Inr clean \<Rightarrow> Inr (JoinPath base clean))"

text \<open>The check inside \<open>WorkspacePathBelow\<close>, and the function.\<close>

definition cleanRelativeCwd :: "string \<Rightarrow> (string, string) result" where
  "cleanRelativeCwd relativeCwd =
     (if relativeCwd = [] \<or> Contains relativeCwd NUL \<or> Contains relativeCwd backslash
      then Inl ''remote fs relative cwd is invalid''
      else let clean = Clean relativeCwd in
        if HasPrefix clean ''/'' \<or> clean = ''..'' \<or> HasPrefix clean ''../''
        then Inl ''remote fs relative cwd must stay below the mounted root''
        else Inr clean)"

definition WorkspacePathBelow :: "string \<Rightarrow> string \<Rightarrow> (string, string) result" where
  "WorkspacePathBelow mountRoot relativeCwd =
     (case cleanRelativeCwd relativeCwd of
        Inl err \<Rightarrow> Inl err
      | Inr clean \<Rightarrow> Inr (if clean = ''.'' then mountRoot else JoinPath mountRoot clean))"

subsection \<open>Export layouts\<close>

record export_layout =
  elRootPath :: string
  elRelativeCwd :: string
  elMountPath :: string

definition pathWithinRoot :: "string \<Rightarrow> bool" where
  "pathWithinRoot rel = (rel = ''.'' \<or> (rel \<noteq> ''..'' \<and> \<not> HasPrefix rel ''../''))"

definition PathWithin :: "string \<Rightarrow> string \<Rightarrow> string \<Rightarrow> (string, bool) result" where
  "PathWithin wd root path =
     (case Rel (Clean (Abs wd root)) (Clean (Abs wd path)) of
        None \<Rightarrow> Inl ''Rel: can't make path relative'' | Some rel \<Rightarrow> Inr (pathWithinRoot rel))"

definition sourcePathHierarchy :: "string \<Rightarrow> (string, string) result" where
  "sourcePathHierarchy source =
     (let rest = trim_left (\<lambda>c. c = slash \<or> c = backslash) source;
          parts = (if rest \<noteq> [] then [rest] else []);
          parts = (if parts = [] then [''root''] else parts)
      in CleanMountPath (Join parts ''/''))"

definition ResolveExportLayout :: "string \<Rightarrow> string \<Rightarrow> string \<Rightarrow> (string, export_layout) result" where
  "ResolveExportLayout wd home cwd =
     (let home = Abs wd home; cwd = Abs wd cwd;
          (root, relativeCwd) =
            (case Rel home cwd of
               Some rel \<Rightarrow> if pathWithinRoot rel then (home, rel) else (cwd, ''.'')
             | None \<Rightarrow> (cwd, ''.''))
      in case sourcePathHierarchy root of
           Inl err \<Rightarrow> Inl err
         | Inr mountPath \<Rightarrow> Inr \<lparr>elRootPath = root, elRelativeCwd = relativeCwd, elMountPath = mountPath\<rparr>)"

definition CurrentExportLayout :: "(string, string) result \<Rightarrow> string \<Rightarrow> string \<Rightarrow> (string, export_layout) result" where
  "CurrentExportLayout userHome wd cwd =
     (case userHome of Inl err \<Rightarrow> Inl err | Inr home \<Rightarrow> ResolveExportLayout wd home cwd)"

subsection \<open>The contract of a check\<close>

locale path_guard =
  fixes guard :: "string \<Rightarrow> ('e, string) result"
  assumes relative: "guard p = Inr q \<Longrightarrow> \<not> IsAbs q \<and> q \<noteq> [] \<and> list_all proper (components q)"
begin

lemma joined_below:
  assumes "guard p = Inr q" "IsAbs base"
  shows "IsAbs (JoinPath base q)" "components (JoinPath base q) = components base @ components q"
    "list_all proper (components q)"
  using relative [OF assms(1)] components_below [OF assms(2), of q] by blast+

lemma never_leaves:
  assumes "guard p = Inr q" "IsAbs base"
  shows "\<exists>ns. components (JoinPath base q) = components base @ ns \<and> list_all proper ns"
  using joined_below [OF assms] by blast

end

lemma Clean_nonempty [simp]: "Clean p \<noteq> []"
proof (cases "IsAbs p")
  case False
  then show ?thesis using ups_no_slash [OF components_relative [OF False]] hd_Join [of "components p"]
    by (cases "components p") (auto simp: Clean_def from_components_def)
qed (simp add: Clean_def from_components_def)

lemma stays_iff: "\<not> HasPrefix (Clean p) ''/'' \<and> \<not> leaves (Clean p) \<longleftrightarrow> \<not> IsAbs p \<and> list_all proper (components p)"
  using IsAbs_Clean [of p] leaves_Clean [of p] by (auto simp: IsAbs_def)

lemma CleanMountPath_stays:
  "CleanMountPath value = Inr q \<Longrightarrow> q = Clean value \<and> q \<noteq> ''.'' \<and> \<not> IsAbs value \<and> list_all proper (components value)"
  using stays_iff [of "value"] by (auto simp: CleanMountPath_def leaves_def Let_def split: if_splits)

lemma CleanMountPath_again: "CleanMountPath h = Inr c \<Longrightarrow> CleanMountPath c = Inr c"
proof -
  assume h: "CleanMountPath h = Inr c"
  note s = CleanMountPath_stays [OF h]
  have "NUL \<notin> set h" "backslash \<notin> set h" using h by (auto simp: CleanMountPath_def Contains_def split: if_splits)
  then have "NUL \<notin> set c" "backslash \<notin> set c" using s Clean_chars [of h] by (auto simp: NUL_def backslash_def)
  moreover have "Clean c = c" "c \<noteq> []" using s by simp_all
  ultimately show ?thesis using s stays_iff [of h] by (auto simp add: CleanMountPath_def Contains_def leaves_def Let_def)
qed

lemma cleanRelativeCwd_stays:
  "cleanRelativeCwd value = Inr q \<Longrightarrow> q = Clean value \<and> \<not> IsAbs value \<and> list_all proper (components value)"
  using stays_iff [of "value"] by (auto simp: cleanRelativeCwd_def leaves_def Let_def split: if_splits)

interpretation mount_path: path_guard CleanMountPath
  by unfold_locales (auto dest!: CleanMountPath_stays)

interpretation relative_cwd: path_guard cleanRelativeCwd
  by unfold_locales (auto dest!: cleanRelativeCwd_stays)

subsection \<open>Properties\<close>

lemma Clean_dot: "Clean p = ''.'' \<longleftrightarrow> \<not> IsAbs p \<and> components p = []"
proof
  assume d: "Clean p = ''.''"
  then have "\<not> IsAbs (Clean p)" by (simp add: IsAbs_def)
  then have r: "\<not> IsAbs p" by simp
  have "components (Clean p) = components ''.''" using d by simp
  also have "\<dots> = []" by (simp add: components_def IsAbs_def)
  finally show "\<not> IsAbs p \<and> components p = []" using r by simp
qed (simp add: Clean_def from_components_def)

lemma MountPathBelow_below:
  assumes "IsAbs base" "MountPathBelow base h = Inr p"
  shows "\<exists>n ns. components p = components base @ n # ns \<and> list_all proper (n # ns)"
proof (cases "CleanMountPath h")
  case (Inr q)
  note q = CleanMountPath_stays [OF Inr]
  then have "components q \<noteq> []" using Clean_dot [of h] by auto
  then obtain n ns where "components q = n # ns" by (cases "components q") auto
  then show ?thesis using mount_path.joined_below [OF Inr assms(1)] assms(2) by (auto simp: MountPathBelow_def Inr)
qed (use assms(2) in \<open>simp add: MountPathBelow_def\<close>)

lemma WorkspacePathBelow_components:
  assumes "IsAbs base" "WorkspacePathBelow base h = Inr p"
  shows "IsAbs p" "components p = components base @ components h" "list_all proper (components h)"
    "p = (if components h = [] then base else JoinPath base (Clean h))"
proof -
  obtain q where q: "cleanRelativeCwd h = Inr q" and p: "p = (if q = ''.'' then base else JoinPath base q)"
    using assms(2) by (auto simp: WorkspacePathBelow_def split: sum.splits)
  note s = cleanRelativeCwd_stays [OF q]
  note j = relative_cwd.joined_below [OF q assms(1)]
  have dot: "q = ''.'' \<longleftrightarrow> components h = []" using s Clean_dot [of h] by simp
  show "list_all proper (components h)" using s by blast
  show "IsAbs p" using j(1) assms(1) p by simp
  show "p = (if components h = [] then base else JoinPath base (Clean h))" using p s dot by simp
  show "components p = components base @ components h" using j(2) p s dot by simp
qed

text \<open>A mount hierarchy or a working directory that arrives over the wire resolves to a place below the
  directory it is joined to: its components are those of the base followed by plain names. For a
  mount hierarchy there is at least one such name.\<close>

theorem wire_paths_stay_below:
  assumes "IsAbs base"
  shows "(case MountPathBelow base h of Inl err \<Rightarrow> True | Inr p \<Rightarrow>
      \<exists>n ns. components p = components base @ n # ns \<and> list_all proper (n # ns)) \<and>
    (case WorkspacePathBelow base h of Inl err \<Rightarrow> True | Inr p \<Rightarrow>
      \<exists>ns. components p = components base @ ns \<and> list_all proper ns)"
  using MountPathBelow_below [OF assms, of h] WorkspacePathBelow_components [OF assms, of h]
  by (auto split: sum.split)

theorem wire_paths_stay_below_witness:
  "IsAbs ''/run/sshx'' \<and> CleanMountPath ''home/./u/../v//'' = Inr ''home/v'' \<and>
   (\<exists>ns. components (JoinPath ''/run/sshx'' ''home/v'') = components ''/run/sshx'' @ ns \<and> list_all proper ns)"
proof -
  have a: "IsAbs ''/run/sshx''" by (simp add: IsAbs_def)
  have c: "CleanMountPath ''home/./u/../v//'' = Inr ''home/v''" by code_simp
  then have "MountPathBelow ''/run/sshx'' ''home/./u/../v//'' = Inr (JoinPath ''/run/sshx'' ''home/v'')"
    by (simp add: MountPathBelow_def)
  then show ?thesis using a c wire_paths_stay_below [OF a, of "''home/./u/../v//''"] by auto
qed

lemma Clean_Abs [simp]: "IsAbs wd \<Longrightarrow> Clean (Abs wd p) = Abs wd p"
  by (auto simp: Abs_def JoinPath_def IsAbs_iff)

lemma Clean_Join [simp]: "IsAbs a \<Longrightarrow> Clean (JoinPath a b) = JoinPath a b"
  by (auto simp: JoinPath_def IsAbs_iff)

lemma clean_eqI: "Clean p = p \<Longrightarrow> Clean q = q \<Longrightarrow> IsAbs p \<Longrightarrow> IsAbs q \<Longrightarrow> components p = components q \<Longrightarrow> p = q"
  using Clean_eq_iff [of p q] by simp

lemma pathWithinRoot_from: "ups cs \<Longrightarrow> pathWithinRoot (from_components False cs) \<longleftrightarrow> list_all proper cs"
  using leaves_from [of cs] by (auto simp: pathWithinRoot_def leaves_def HasPrefix_iff from_components_def)

text \<open>The choice of the exported root, and what the layout promises.\<close>

definition inside :: "string \<Rightarrow> string \<Rightarrow> bool" where
  "inside dir p \<longleftrightarrow> (\<exists>ns. components p = components dir @ ns)"

lemma Rel_absolute_ex:
  "IsAbs base \<Longrightarrow> IsAbs targ \<Longrightarrow> \<exists>cs. Rel base targ = Some (from_components False cs) \<and> ups cs \<and>
    (list_all proper cs \<longleftrightarrow> (\<exists>d. components targ = components base @ d)) \<and>
    (list_all proper cs \<longrightarrow> components targ = components base @ cs)"
  by (rule Rel_absolute, assumption, assumption, rule exI, intro conjI impI) assumption+

lemma ResolveExportLayout_root:
  assumes "IsAbs wd" "ResolveExportLayout wd home cwd = Inr l"
  shows "elRootPath l = (if inside (Abs wd home) (Abs wd cwd) then Abs wd home else Abs wd cwd)"
    "components (Abs wd cwd) = components (elRootPath l) @ components (elRelativeCwd l)"
    "sourcePathHierarchy (elRootPath l) = Inr (elMountPath l)"
proof -
  let ?h = "Abs wd home" let ?c = "Abs wd cwd"
  have abs: "IsAbs ?h" "IsAbs ?c" using assms(1) by (simp_all add: Abs_absolute)
  obtain cs where cs: "Rel ?h ?c = Some (from_components False cs)" "ups cs"
    "list_all proper cs \<longleftrightarrow> (\<exists>d. components ?c = components ?h @ d)"
    "list_all proper cs \<longrightarrow> components ?c = components ?h @ cs"
    using Rel_absolute_ex [OF abs] by blast
  have dot: "components ''.'' = []" by (simp add: components_def IsAbs_def)
  have "elRootPath l = (if list_all proper cs then ?h else ?c)"
    "elRelativeCwd l = (if list_all proper cs then from_components False cs else ''.'')"
    "sourcePathHierarchy (elRootPath l) = Inr (elMountPath l)"
    using assms(2) cs(1) pathWithinRoot_from [OF cs(2)]
    by (auto simp: ResolveExportLayout_def Let_def split: sum.splits if_splits)
  then show "elRootPath l = (if inside ?h ?c then ?h else ?c)"
    "components ?c = components (elRootPath l) @ components (elRelativeCwd l)"
    "sourcePathHierarchy (elRootPath l) = Inr (elMountPath l)"
    using cs dot by (simp_all add: inside_def)
qed

text \<open>An export layout keeps the working directory: the exported root is the home directory when the
  working directory lies inside it and the working directory itself otherwise, and the relative
  directory it names, resolved below any mount of that root, lies exactly as deep and under the
  same names as the working directory lies below the root; resolved below the root itself it is
  the working directory again. Only a byte that cannot cross the wire makes it fail.\<close>

theorem export_layout_roundtrip:
  assumes wd: "IsAbs wd" and mount: "IsAbs mount" and l: "ResolveExportLayout wd home cwd = Inr l"
  shows "elRootPath l = (if inside (Abs wd home) (Abs wd cwd) then Abs wd home else Abs wd cwd) \<and>
    (case WorkspacePathBelow mount (elRelativeCwd l) of
       Inl err \<Rightarrow> NUL \<in> set (elRelativeCwd l) \<or> backslash \<in> set (elRelativeCwd l)
     | Inr p \<Rightarrow> \<exists>ns. components p = components mount @ ns \<and> components (Abs wd cwd) = components (elRootPath l) @ ns) \<and>
    (case WorkspacePathBelow (elRootPath l) (elRelativeCwd l) of
       Inl err \<Rightarrow> NUL \<in> set (elRelativeCwd l) \<or> backslash \<in> set (elRelativeCwd l)
     | Inr p \<Rightarrow> p = Abs wd cwd)"
proof -
  let ?rel = "elRelativeCwd l" let ?root = "elRootPath l"
  note r = ResolveExportLayout_root [OF wd l]
  have root: "IsAbs ?root" "Clean ?root = ?root" using r(1) wd by (auto simp: Abs_absolute)
  have cwd: "IsAbs (Abs wd cwd)" "Clean (Abs wd cwd) = Abs wd cwd" using wd by (auto simp: Abs_absolute)
  have "?rel = ''.'' \<or> (\<exists>cs. ?rel = from_components False cs \<and> list_all proper cs)"
  proof -
    obtain cs where cs: "Rel (Abs wd home) (Abs wd cwd) = Some (from_components False cs)" "ups cs"
      using Rel_absolute_ex [OF Abs_absolute [OF wd] Abs_absolute [OF wd], of home cwd] by blast
    show ?thesis using l cs pathWithinRoot_from [OF cs(2)]
      by (auto simp: ResolveExportLayout_def Let_def split: sum.splits if_splits)
  qed
  then have rel: "?rel \<noteq> [] \<and> \<not> IsAbs ?rel \<and> list_all proper (components ?rel)"
  proof (elim disjE exE conjE)
    assume "?rel = ''.''"
    then show ?thesis by (simp add: IsAbs_def components_def)
  next
    fix cs assume cs: "?rel = from_components False cs" "list_all proper cs"
    then have "Clean ?rel = ?rel" by (simp add: Clean_def)
    then show ?thesis using cs Clean_nonempty [of ?rel] by simp
  qed
  have fails: "NUL \<in> set ?rel \<or> backslash \<in> set ?rel" if "WorkspacePathBelow b ?rel = Inl err" for b err
    using that stays_iff [of ?rel] rel
    by (auto simp: WorkspacePathBelow_def cleanRelativeCwd_def leaves_def Contains_def Let_def split: sum.splits if_splits)
  have again: "p = Abs wd cwd" if "WorkspacePathBelow ?root ?rel = Inr p" for p
  proof -
    note w = WorkspacePathBelow_components [OF root(1) that]
    have "Clean p = p" by (subst (1 2) w(4)) (simp only: root Clean_Join split: if_split, simp)
    moreover have "components p = components (Abs wd cwd)" unfolding w(2) r(2) ..
    ultimately show ?thesis using clean_eqI w(1) cwd by blast
  qed
  have mounted: "components p = components mount @ components ?rel" if "WorkspacePathBelow mount ?rel = Inr p" for p
    using WorkspacePathBelow_components(2) [OF mount that] .
  show ?thesis
  proof (intro conjI)
    show "?root = (if inside (Abs wd home) (Abs wd cwd) then Abs wd home else Abs wd cwd)" by (rule r(1))
    show "case WorkspacePathBelow mount ?rel of
        Inl err \<Rightarrow> NUL \<in> set ?rel \<or> backslash \<in> set ?rel
      | Inr p \<Rightarrow> \<exists>ns. components p = components mount @ ns \<and> components (Abs wd cwd) = components ?root @ ns"
      using fails mounted r(2) by (cases "WorkspacePathBelow mount ?rel") simp_all
    show "case WorkspacePathBelow ?root ?rel of
        Inl err \<Rightarrow> NUL \<in> set ?rel \<or> backslash \<in> set ?rel | Inr p \<Rightarrow> p = Abs wd cwd"
      using fails again by (cases "WorkspacePathBelow ?root ?rel") simp_all
  qed
qed

theorem export_layout_roundtrip_witness:
  "\<exists>l. ResolveExportLayout ''/tmp'' ''/home/u'' ''/home/u/src/x'' = Inr l \<and> elRootPath l = ''/home/u'' \<and>
     elMountPath l = ''home/u'' \<and> elRelativeCwd l = ''src/x'' \<and>
     WorkspacePathBelow (elRootPath l) (elRelativeCwd l) = Inr ''/home/u/src/x''"
proof -
  let ?l = "\<lparr>elRootPath = ''/home/u'', elRelativeCwd = ''src/x'', elMountPath = ''home/u''\<rparr>"
  have l: "ResolveExportLayout ''/tmp'' ''/home/u'' ''/home/u/src/x'' = Inr ?l" by code_simp
  have a: "IsAbs ''/tmp''" "Abs ''/tmp'' ''/home/u/src/x'' = ''/home/u/src/x''" by code_simp+
  have ok: "NUL \<notin> set ''src/x''" "backslash \<notin> set ''src/x''" by (simp_all add: NUL_def backslash_def)
  show ?thesis
    using l ok export_layout_roundtrip [OF a(1) a(1) l] a(2) by (auto split: sum.splits)
qed

end
