(* ===== verification/FSTypes.thy ===== *)
theory FSTypes
  imports GoNet
begin

text \<open>
  \<open>internal/remotefs\<close>: the data of the remote file system protocol (\<open>types.go\<close>), the translation of
  operating system errors into portable codes and back (\<open>peer_error.go\<close>), and the framing of
  messages on a byte stream (\<open>protocol.go\<close>). The JSON codec of the metadata is a parameter. Error
  numbers are those of the operating system of each side, so they are looked up in a table.
\<close>

unbundle bit_operations_syntax

subsection \<open>Data\<close>

definition ProtocolVersion :: int where "ProtocolVersion = 2"
definition MaxMetadataSize :: nat where "MaxMetadataSize = 65536"
definition MaxDataSize :: nat where "MaxDataSize = 262144"
definition MaxInFlight :: nat where "MaxInFlight = 64"

type_synonym flags = "16 word"

definition OpenRead :: flags where "OpenRead = 1"
definition OpenWrite :: flags where "OpenWrite = 2"
definition OpenCreate :: flags where "OpenCreate = 4"
definition OpenExclusive :: flags where "OpenExclusive = 8"
definition OpenTruncate :: flags where "OpenTruncate = 16"
definition OpenAppend :: flags where "OpenAppend = 32"
definition OpenSync :: flags where "OpenSync = 64"

definition Valid :: "flags \<Rightarrow> bool" where
  "Valid f =
     (let known = OpenRead OR OpenWrite OR OpenCreate OR OpenExclusive OR OpenTruncate OR OpenAppend OR OpenSync
      in f \<noteq> 0 \<and> f AND NOT known = 0 \<and> f AND (OpenRead OR OpenWrite) \<noteq> 0)"

record Attr =
  aIno :: "64 word"
  aSize :: "64 word"
  aBlocks :: "64 word"
  aMode :: "32 word"
  aNlink :: "32 word"
  aAtimeNano :: "64 word"
  aMtimeNano :: "64 word"
  aCtimeNano :: "64 word"

record DirEntry =
  deName :: string
  deMode :: "32 word"
  deIno :: "64 word"

record SetAttr =
  saMode :: "32 word option"
  saSize :: "64 word option"
  saAtimeNano :: "64 word option"
  saMtimeNano :: "64 word option"

record StatFS =
  sfBlocks :: "64 word"
  sfBfree :: "64 word"
  sfBavail :: "64 word"
  sfFiles :: "64 word"
  sfFfree :: "64 word"
  sfBsize :: "32 word"
  sfNameLen :: "32 word"
  sfFrsize :: "32 word"

definition Attr0 :: Attr where
  "Attr0 = \<lparr>aIno = 0, aSize = 0, aBlocks = 0, aMode = 0, aNlink = 0, aAtimeNano = 0, aMtimeNano = 0, aCtimeNano = 0\<rparr>"

definition SetAttr0 :: SetAttr where
  "SetAttr0 = \<lparr>saMode = None, saSize = None, saAtimeNano = None, saMtimeNano = None\<rparr>"

definition StatFS0 :: StatFS where
  "StatFS0 = \<lparr>sfBlocks = 0, sfBfree = 0, sfBavail = 0, sfFiles = 0, sfFfree = 0, sfBsize = 0, sfNameLen = 0, sfFrsize = 0\<rparr>"

subsection \<open>Errors: internal/remotefs/peer_error.go\<close>

text \<open>The error numbers the code names; a platform gives each its number, and \<open>0\<close> to none.\<close>

datatype errname = EPERM | EACCES | ENOENT | EEXIST | EBADF | EISDIR | ENOTDIR | EXDEV | EBUSY | E2BIG
  | ENOTSUP | ENOSYS | EINVAL | EINTR | ETIMEDOUT | EIO

type_synonym errtable = "errname \<Rightarrow> nat"

definition linux :: errtable where
  "linux e = (case e of EPERM \<Rightarrow> 1 | EACCES \<Rightarrow> 13 | ENOENT \<Rightarrow> 2 | EEXIST \<Rightarrow> 17 | EBADF \<Rightarrow> 9 | EISDIR \<Rightarrow> 21
     | ENOTDIR \<Rightarrow> 20 | EXDEV \<Rightarrow> 18 | EBUSY \<Rightarrow> 16 | E2BIG \<Rightarrow> 7 | ENOTSUP \<Rightarrow> 95 | ENOSYS \<Rightarrow> 38 | EINVAL \<Rightarrow> 22
     | EINTR \<Rightarrow> 4 | ETIMEDOUT \<Rightarrow> 110 | EIO \<Rightarrow> 5)"

definition darwin :: errtable where
  "darwin e = (case e of EPERM \<Rightarrow> 1 | EACCES \<Rightarrow> 13 | ENOENT \<Rightarrow> 2 | EEXIST \<Rightarrow> 17 | EBADF \<Rightarrow> 9 | EISDIR \<Rightarrow> 21
     | ENOTDIR \<Rightarrow> 20 | EXDEV \<Rightarrow> 18 | EBUSY \<Rightarrow> 16 | E2BIG \<Rightarrow> 7 | ENOTSUP \<Rightarrow> 45 | ENOSYS \<Rightarrow> 78 | EINVAL \<Rightarrow> 22
     | EINTR \<Rightarrow> 4 | ETIMEDOUT \<Rightarrow> 60 | EIO \<Rightarrow> 5)"

text \<open>A Go error as far as \<open>errors.As\<close> and \<open>errors.Is\<close> look at it: a chain of wrappers around a number,
  one of the sentinels, or something else. Every \<open>Wrap\<close> is a \<open>PathError\<close> or a \<open>%w\<close>.\<close>

datatype goerr = Errno nat | Wrap string goerr | Canceled | DeadlineExceeded | ErrNotExist | ErrPermission
  | ErrExist | OtherErr string

fun cause :: "goerr \<Rightarrow> goerr" where
  "cause (Wrap s e) = cause e"
| "cause e = e"

definition errnoOf :: "errtable \<Rightarrow> goerr option \<Rightarrow> nat" where
  "errnoOf os err =
     (case err of None \<Rightarrow> 0
      | Some e \<Rightarrow> (case cause e of
            Errno n \<Rightarrow> n
          | Canceled \<Rightarrow> os EINTR
          | DeadlineExceeded \<Rightarrow> os ETIMEDOUT
          | ErrNotExist \<Rightarrow> os ENOENT
          | ErrPermission \<Rightarrow> os EACCES
          | ErrExist \<Rightarrow> os EEXIST
          | _ \<Rightarrow> os EIO))"

definition ErrorBusy :: string where "ErrorBusy = ''busy''"
definition ErrorTooLarge :: string where "ErrorTooLarge = ''too_large''"
definition ErrorIO :: string where "ErrorIO = ''io''"

definition errorCodeOf :: "errtable \<Rightarrow> goerr option \<Rightarrow> string" where
  "errorCodeOf os err =
     (let errno = errnoOf os err in
      if errno = 0 then []
      else if errno = os EPERM then ''not_permitted''
      else if errno = os EACCES then ''permission''
      else if errno = os ENOENT then ''not_found''
      else if errno = os EEXIST then ''exists''
      else if errno = os EBADF then ''bad_handle''
      else if errno = os EISDIR then ''is_directory''
      else if errno = os ENOTDIR then ''not_directory''
      else if errno = os EXDEV then ''cross_device''
      else if errno = os EBUSY then ErrorBusy
      else if errno = os E2BIG then ErrorTooLarge
      else if errno = os ENOTSUP then ''unsupported''
      else if errno = os ENOSYS then ''not_implemented''
      else if errno = os EINVAL then ''invalid''
      else if errno = os EINTR then ''interrupted''
      else if errno = os ETIMEDOUT then ''timed_out''
      else ErrorIO)"

definition codeName :: "string \<Rightarrow> errname" where
  "codeName code =
     (if code = ''not_permitted'' then EPERM
      else if code = ''permission'' then EACCES
      else if code = ''not_found'' then ENOENT
      else if code = ''exists'' then EEXIST
      else if code = ''bad_handle'' then EBADF
      else if code = ''is_directory'' then EISDIR
      else if code = ''not_directory'' then ENOTDIR
      else if code = ''cross_device'' then EXDEV
      else if code = ErrorBusy then EBUSY
      else if code = ErrorTooLarge then E2BIG
      else if code = ''unsupported'' then ENOTSUP
      else if code = ''not_implemented'' then ENOSYS
      else if code = ''invalid'' then EINVAL
      else if code = ''interrupted'' then EINTR
      else if code = ''timed_out'' then ETIMEDOUT
      else EIO)"

definition errorFromCode :: "errtable \<Rightarrow> string \<Rightarrow> goerr" where
  "errorFromCode os code = Errno (os (codeName code))"

text \<open>A table is sound if it numbers the names apart, none by \<open>0\<close>.\<close>

definition sound_table :: "errtable \<Rightarrow> bool" where
  "sound_table os \<longleftrightarrow> inj os \<and> (\<forall>e. os e \<noteq> 0)"

lemma tables_sound: "sound_table linux" "sound_table darwin"
  by (auto simp: sound_table_def inj_def linux_def darwin_def split: errname.splits)

text \<open>What an error number means: its name, and \<open>EIO\<close> for every number without one.\<close>

definition names :: "errname list" where
  "names = [EPERM, EACCES, ENOENT, EEXIST, EBADF, EISDIR, ENOTDIR, EXDEV, EBUSY, E2BIG, ENOTSUP, ENOSYS, EINVAL,
     EINTR, ETIMEDOUT, EIO]"

definition meaning :: "errtable \<Rightarrow> nat \<Rightarrow> errname" where
  "meaning os n = (case find (\<lambda>e. os e = n) names of Some e \<Rightarrow> e | None \<Rightarrow> EIO)"

lemma set_names: "e \<in> set names"
  by (cases e) (simp_all add: names_def)

lemma meaning_table [simp]: "sound_table os \<Longrightarrow> meaning os (os e) = e"
proof -
  assume os: "sound_table os"
  obtain e' where e': "find (\<lambda>x. os x = os e) names = Some e'"
    using find_NoneD [of "\<lambda>x. os x = os e" names e] set_names by (cases "find (\<lambda>x. os x = os e) names") auto
  then have "os e' = os e" using find_SomeD by fast
  then show ?thesis using os e' by (simp add: meaning_def sound_table_def inj_eq)
qed

lemma meaning_other: "(\<And>e. os e \<noteq> n) \<Longrightarrow> meaning os n = EIO"
  by (simp add: meaning_def find_None_iff split: option.split) (metis find_None_iff option.distinct(1))

lemma codeName_errorCodeOf:
  assumes os: "sound_table os" and n: "errnoOf os err \<noteq> 0"
  shows "codeName (errorCodeOf os err) = meaning os (errnoOf os err)" "errorCodeOf os err \<noteq> []"
proof -
  let ?n = "errnoOf os err"
  show "errorCodeOf os err \<noteq> []"
    using n by (simp add: errorCodeOf_def Let_def ErrorBusy_def ErrorTooLarge_def ErrorIO_def)
  show "codeName (errorCodeOf os err) = meaning os ?n"
  proof (cases "\<exists>e. os e = ?n")
    case True
    then obtain e where e: "?n = os e" by metis
    have inj: "os a = os b \<longleftrightarrow> a = b" for a b using os by (auto simp: sound_table_def inj_def)
    have "os e \<noteq> 0" using os by (simp add: sound_table_def)
    then have "codeName (errorCodeOf os err) = e"
      unfolding errorCodeOf_def Let_def e
      by (cases e) (simp_all add: inj codeName_def ErrorBusy_def ErrorTooLarge_def ErrorIO_def)
    then show ?thesis using os by (simp add: e)
  next
    case False
    then have "?n \<noteq> os e" for e by metis
    moreover have "meaning os ?n = EIO" using False by (intro meaning_other) blast
    ultimately show ?thesis using n
      by (simp add: errorCodeOf_def Let_def codeName_def ErrorBusy_def ErrorTooLarge_def ErrorIO_def)
  qed
qed

subsection \<open>Frames on the wire: internal/remotefs/protocol.go\<close>

record wireFrame =
  wType :: string
  wVersion :: int
  wID :: "64 word"
  wSessionID :: string
  wToken :: string
  wMountID :: string
  wOp :: string
  wPath :: string
  wPath2 :: string
  wTarget :: string
  wHandle :: "64 word"
  wOffset :: "64 word"
  wSize :: "32 word"
  wOpenFlags :: flags
  wMode :: "32 word"
  wAttr :: Attr
  wChange :: SetAttr
  wEntries :: "DirEntry list"
  wStatFS :: StatFS
  wMountPath :: string
  wReadOnly :: bool
  wErrorCode :: string
  wError :: string
  wData :: "byte list"

definition wireFrame0 :: wireFrame where
  "wireFrame0 = \<lparr>wType = [], wVersion = 0, wID = 0, wSessionID = [], wToken = [], wMountID = [], wOp = [], wPath = [],
     wPath2 = [], wTarget = [], wHandle = 0, wOffset = 0, wSize = 0, wOpenFlags = 0, wMode = 0, wAttr = Attr0,
     wChange = SetAttr0, wEntries = [], wStatFS = StatFS0, wMountPath = [], wReadOnly = False, wErrorCode = [],
     wError = [], wData = []\<rparr>"

definition frameHello :: string where "frameHello = ''hello''"
definition frameHelloOK :: string where "frameHelloOK = ''hello.ok''"
definition frameRequest :: string where "frameRequest = ''request''"
definition frameResponse :: string where "frameResponse = ''response''"
definition frameCancel :: string where "frameCancel = ''cancel''"

definition ErrFrameTooLarge :: goerr where
  "ErrFrameTooLarge = OtherErr ''remote fs frame is too large''"

text \<open>The two sizes, the metadata and the data; the data is not part of the metadata. The result is the
  bytes written, or the error before anything is written.\<close>

definition writeWireFrame :: "(wireFrame \<Rightarrow> (goerr, byte list) result) \<Rightarrow> wireFrame \<Rightarrow> (goerr, byte list) result" where
  "writeWireFrame marshal frame =
     (case marshal (frame\<lparr>wData := []\<rparr>) of
        Inl err \<Rightarrow> Inl err
      | Inr metadata \<Rightarrow>
          (if length metadata > MaxMetadataSize then Inl (Wrap ''metadata'' ErrFrameTooLarge)
           else if length (wData frame) > MaxDataSize then Inl (Wrap ''data'' ErrFrameTooLarge)
           else Inr (be32 (of_nat (length metadata)) @ be32 (of_nat (length (wData frame))) @ metadata @ wData frame)))"

text \<open>\<open>io.ReadFull\<close> on the bytes of a stream: what was read and the rest, or an error.\<close>

definition ReadFull :: "nat \<Rightarrow> byte list \<Rightarrow> (goerr, byte list \<times> byte list) result" where
  "ReadFull n stream =
     (if length stream < n then Inl (OtherErr (if stream = [] then ''EOF'' else ''unexpected EOF''))
      else Inr (take n stream, drop n stream))"

definition readWireFrame ::
  "(byte list \<Rightarrow> (goerr, wireFrame) result) \<Rightarrow> byte list \<Rightarrow> (goerr, wireFrame \<times> byte list) result" where
  "readWireFrame unmarshal stream =
     (case ReadFull 8 stream of
        Inl err \<Rightarrow> Inl err
      | Inr (lengths, stream1) \<Rightarrow>
          (let metadataSize = unat (get32 (take 4 lengths)); dataSize = unat (get32 (drop 4 lengths)) in
           if metadataSize = 0 \<or> metadataSize > MaxMetadataSize then Inl (OtherErr ''invalid remote fs metadata frame size'')
           else if dataSize > MaxDataSize then Inl (OtherErr ''invalid remote fs data frame size'')
           else case ReadFull metadataSize stream1 of
             Inl err \<Rightarrow> Inl err
           | Inr (metadata, stream2) \<Rightarrow>
               (case unmarshal metadata of
                  Inl err \<Rightarrow> Inl err
                | Inr frame \<Rightarrow>
                    (if dataSize > 0 then
                       (case ReadFull dataSize stream2 of
                          Inl err \<Rightarrow> Inl err
                        | Inr (data, stream3) \<Rightarrow> Inr (frame\<lparr>wData := data\<rparr>, stream3))
                     else Inr (frame, stream2)))))"

text \<open>\<open>writeAll\<close> on a writer that takes some bytes of each buffer (\<open>Some n\<close>) or fails (\<open>None\<close>): what got
  through, and the error if there is one. When the answers end the writer blocks.\<close>

fun writeAll :: "nat option list \<Rightarrow> byte list \<Rightarrow> byte list \<times> goerr option option" where
  "writeAll answers [] = ([], Some None)"
| "writeAll [] (b # bs) = ([], None)"
| "writeAll (None # answers) (b # bs) = ([], Some (Some (OtherErr ''write'')))"
| "writeAll (Some n # answers) (b # bs) =
     (if n = 0 then ([], Some (Some (OtherErr ''short write'')))
      else case writeAll answers (drop n (b # bs)) of (out, r) \<Rightarrow> (take n (b # bs) @ out, r))"

lemma writeAll_prefix: "writeAll answers bs = (out, r) \<Longrightarrow> \<exists>rest. bs = out @ rest \<and> (r = Some None \<longrightarrow> rest = [])"
proof (induction answers bs arbitrary: out rule: writeAll.induct)
  case (4 n answers b bs)
  show ?case
  proof (cases "n = 0")
    case False
    obtain out' where w: "writeAll answers (drop n (b # bs)) = (out', r)" "out = take n (b # bs) @ out'"
      using 4(2) False by (auto split: prod.splits)
    obtain rest where "drop n (b # bs) = out' @ rest" "r = Some None \<longrightarrow> rest = []" using 4(1) [OF False w(1)] by blast
    then show ?thesis using w(2) by (metis append.assoc append_take_drop_id)
  qed (use 4 in auto)
qed auto

subsection \<open>Round trip of a frame\<close>

lemma get32_be32 [simp]: "get32 (be32 w) = w"
proof -
  let ?A = "push_bit 24 (ucast (ucast (drop_bit 24 w) :: byte)) :: 32 word"
  let ?B = "push_bit 16 (ucast (ucast (drop_bit 16 w) :: byte)) :: 32 word"
  let ?C = "push_bit 8 (ucast (ucast (drop_bit 8 w) :: byte)) :: 32 word"
  let ?D = "ucast (ucast w :: byte) :: 32 word"
  have 1: "?A + ?B = ?A OR ?B" by (rule disjunctive_add) (auto simp: bit_simps)
  have 2: "(?A OR ?B) + ?C = (?A OR ?B) OR ?C" by (rule disjunctive_add) (auto simp: bit_simps)
  have 3: "((?A OR ?B) OR ?C) + ?D = ((?A OR ?B) OR ?C) OR ?D" by (rule disjunctive_add) (auto simp: bit_simps)
  have "?A + ?B + ?C + ?D = w"
    unfolding 1 2 3
  proof (rule bit_word_eqI)
    fix n assume n: "n < LENGTH(32)"
    consider "n < 8" | "8 \<le> n" "n < 16" | "16 \<le> n" "n < 24" | "24 \<le> n" by linarith
    then show "bit (((?A OR ?B) OR ?C) OR ?D) n = bit w n"
      using n by cases (auto simp: bit_simps)
  qed
  then show ?thesis by (simp add: get32_def be32_def)
qed

lemma ReadFull_append [simp]: "ReadFull (length xs) (xs @ ys) = Inr (xs, ys)"
  by (simp add: ReadFull_def)

text \<open>C19. A frame that could be written is read back exactly, from the front of any stream, and the stream
  goes on behind it, whatever JSON codec reads back its own metadata; nothing is written of a frame
  beyond the limits.\<close>

theorem wire_frame_roundtrip:
  assumes codec: "marshal (f\<lparr>wData := []\<rparr>) = Inr m" "m \<noteq> []" "unmarshal m = Inr (f\<lparr>wData := []\<rparr>)"
  shows "case writeWireFrame marshal f of
      Inl err \<Rightarrow> length m > MaxMetadataSize \<or> length (wData f) > MaxDataSize
    | Inr bs \<Rightarrow> readWireFrame unmarshal (bs @ rest) = Inr (f, rest)"
proof (cases "length m > MaxMetadataSize \<or> length (wData f) > MaxDataSize")
  case True
  then show ?thesis by (auto simp: writeWireFrame_def codec)
next
  case False
  then have len: "length m \<le> MaxMetadataSize" "length (wData f) \<le> MaxDataSize" by simp_all
  let ?lm = "be32 (of_nat (length m))" let ?ld = "be32 (of_nat (length (wData f)))"
  have u: "unat (of_nat (length m) :: 32 word) = length m" "unat (of_nat (length (wData f)) :: 32 word) = length (wData f)"
    using len by (simp_all add: unat_of_nat take_bit_nat_eq_self MaxMetadataSize_def MaxDataSize_def)
  have w: "writeWireFrame marshal f = Inr (?lm @ ?ld @ m @ wData f)"
    using len by (simp add: writeWireFrame_def codec)
  have h: "ReadFull 8 (?lm @ ?ld @ m @ wData f @ rest) = Inr (?lm @ ?ld, m @ wData f @ rest)"
    using ReadFull_append [of "?lm @ ?ld" "m @ wData f @ rest"] by simp
  have f: "f\<lparr>wData := wData f\<rparr> = f" by (cases f) simp
  have "f\<lparr>wData := []\<rparr> = f" if "wData f = []" using that f by metis
  moreover have "ReadFull (length m) (m @ wData f @ rest) = Inr (m, wData f @ rest)" by (rule ReadFull_append)
  moreover have "ReadFull (length (wData f)) (wData f @ rest) = Inr (wData f, rest)" by (rule ReadFull_append)
  ultimately have "readWireFrame unmarshal ((?lm @ ?ld @ m @ wData f) @ rest) = Inr (f, rest)"
    using len codec(2,3) f by (simp add: readWireFrame_def h u)
  then show ?thesis by (simp add: w)
qed

text \<open>A codec for the witness: the metadata is the operation.\<close>

definition toy_marshal :: "wireFrame \<Rightarrow> (goerr, byte list) result" where
  "toy_marshal f = Inr (0 # bytes_of_string (wOp f))"

definition toy_unmarshal :: "byte list \<Rightarrow> (goerr, wireFrame) result" where
  "toy_unmarshal m = Inr (wireFrame0\<lparr>wOp := string_of_bytes (drop 1 m)\<rparr>)"

theorem wire_frame_roundtrip_witness:
  "\<exists>bs. writeWireFrame toy_marshal (wireFrame0\<lparr>wOp := ''read'', wData := [7, 8]\<rparr>) = Inr bs \<and>
    readWireFrame toy_unmarshal (bs @ [1]) = Inr (wireFrame0\<lparr>wOp := ''read'', wData := [7, 8]\<rparr>, [1])"
proof -
  let ?f = "wireFrame0\<lparr>wOp := ''read'', wData := [7, 8]\<rparr>"
  have "toy_marshal (?f\<lparr>wData := []\<rparr>) = Inr (0 # bytes_of_string ''read'')"
    "toy_unmarshal (0 # bytes_of_string ''read'') = Inr (?f\<lparr>wData := []\<rparr>)"
    by (simp_all add: toy_marshal_def toy_unmarshal_def wireFrame0_def)
  from wire_frame_roundtrip [where f = ?f and marshal = toy_marshal and unmarshal = toy_unmarshal, OF this(1) _ this(2), of "[1]"] show ?thesis
    by (auto simp: MaxMetadataSize_def MaxDataSize_def split: sum.splits)
qed

text \<open>An error crosses the wire with its meaning: whatever the two operating systems number it, the
  receiver gets its own number for the error name the sender's number stands for, and its own
  input/output error for a number without a name; an error is never turned into success.\<close>

theorem errors_are_portable:
  assumes "sound_table here" "errnoOf here err \<noteq> 0"
  shows "errorFromCode there (errorCodeOf here err) = Errno (there (meaning here (errnoOf here err))) \<and>
    errorCodeOf here err \<noteq> []"
  using codeName_errorCodeOf [OF assms] by (simp add: errorFromCode_def)

theorem errors_are_portable_witness:
  "errorFromCode darwin (errorCodeOf linux (Some (Wrap ''open x'' (Errno 95)))) = Errno 45 \<and>
   errorFromCode darwin (errorCodeOf linux (Some (Errno 39))) = Errno 5"
proof -
  have m: "meaning linux 95 = ENOTSUP" "meaning linux 39 = EIO"
    by (simp_all add: meaning_def names_def linux_def)
  show ?thesis
    using errors_are_portable [OF tables_sound(1), of "Some (Wrap ''open x'' (Errno 95))" darwin]
      errors_are_portable [OF tables_sound(1), of "Some (Errno 39)" darwin] m
    by (simp add: errnoOf_def darwin_def)
qed

end
