(* ===== verification/Backend.thy ===== *)
theory Backend
  imports FSTypes
begin

text \<open>
  The interface of a file system backend (\<open>Backend\<close> in \<open>internal/remotefs/types.go\<close>) as a record of
  operations on a state, and the contract on its file handles as a locale: an open handle is fresh,
  a closed one is dead, and a dead one is refused without any effect. Clients of the interface
  (the FUSE file system of the mounting side) rely on it through any sequence of calls.
\<close>

record 's backend_ops =
  boLookup :: "string \<Rightarrow> 's \<Rightarrow> (goerr, Attr) result \<times> 's"
  boReadDir :: "string \<Rightarrow> 's \<Rightarrow> (goerr, DirEntry list) result \<times> 's"
  boOpen :: "string \<Rightarrow> flags \<Rightarrow> 32 word \<Rightarrow> 's \<Rightarrow> (goerr, 64 word \<times> Attr) result \<times> 's"
  boClose :: "64 word \<Rightarrow> 's \<Rightarrow> (goerr, unit) result \<times> 's"
  boRead :: "64 word \<Rightarrow> 64 word \<Rightarrow> 32 word \<Rightarrow> 's \<Rightarrow> (goerr, byte list) result \<times> 's"
  boWrite :: "64 word \<Rightarrow> 64 word \<Rightarrow> byte list \<Rightarrow> 's \<Rightarrow> (goerr, 32 word) result \<times> 's"
  boFsync :: "64 word \<Rightarrow> 's \<Rightarrow> (goerr, unit) result \<times> 's"
  boMkdir :: "string \<Rightarrow> 32 word \<Rightarrow> 's \<Rightarrow> (goerr, Attr) result \<times> 's"
  boUnlink :: "string \<Rightarrow> 's \<Rightarrow> (goerr, unit) result \<times> 's"
  boRmdir :: "string \<Rightarrow> 's \<Rightarrow> (goerr, unit) result \<times> 's"
  boRename :: "string \<Rightarrow> string \<Rightarrow> 's \<Rightarrow> (goerr, unit) result \<times> 's"
  boLink :: "string \<Rightarrow> string \<Rightarrow> 's \<Rightarrow> (goerr, Attr) result \<times> 's"
  boSymlink :: "string \<Rightarrow> string \<Rightarrow> 's \<Rightarrow> (goerr, Attr) result \<times> 's"
  boReadlink :: "string \<Rightarrow> 's \<Rightarrow> (goerr, string) result \<times> 's"
  boSetattr :: "string \<Rightarrow> 64 word \<Rightarrow> SetAttr \<Rightarrow> 's \<Rightarrow> (goerr, Attr) result \<times> 's"
  boStatFS :: "'s \<Rightarrow> (goerr, StatFS) result \<times> 's"
  boCloseBackend :: "'s \<Rightarrow> (goerr, unit) result \<times> 's"

text \<open>\<open>live s\<close> are the open handles of a state, \<open>room n s\<close> tells that the handle counter has at least
  \<open>n\<close> more values, and \<open>bad\<close> is the error for a handle that is not open.\<close>

locale handle_backend =
  fixes ops :: "'s backend_ops"
    and live :: "'s \<Rightarrow> 64 word set"
    and room :: "nat \<Rightarrow> 's \<Rightarrow> bool"
    and bad :: goerr
  assumes room_less: "room (Suc n) s \<Longrightarrow> room n s"
    and open_fresh: "room (Suc n) s \<Longrightarrow> boOpen ops p f m s = (Inr (h, a), s') \<Longrightarrow>
      h \<notin> live s \<and> live s' = insert h (live s) \<and> room n s'"
    and open_fails: "room (Suc n) s \<Longrightarrow> boOpen ops p f m s = (Inl e, s') \<Longrightarrow> live s' = live s \<and> room n s'"
    and close_live: "boClose ops h s = (r, s') \<Longrightarrow> live s' = live s - {h} \<and> (room n s \<longrightarrow> room n s')"
    and dead_close: "h \<notin> live s \<Longrightarrow> boClose ops h s = (Inl bad, s)"
    and dead_read: "h \<notin> live s \<Longrightarrow> boRead ops h off sz s = (Inl bad, s)"
    and dead_fsync: "h \<notin> live s \<Longrightarrow> boFsync ops h s = (Inl bad, s)"
    and read_keeps: "boRead ops h off sz s = (r1, s') \<Longrightarrow> live s' = live s \<and> (room n s \<longrightarrow> room n s')"
    and write_keeps: "boWrite ops h off data s = (r2, s') \<Longrightarrow> live s' = live s \<and> (room n s \<longrightarrow> room n s')"
    and fsync_keeps: "boFsync ops h s = (r3, s') \<Longrightarrow> live s' = live s \<and> (room n s \<longrightarrow> room n s')"

text \<open>A sequence of calls on handles, with the handles its opens returned.\<close>

datatype handle_call = COpen string flags "32 word" | CClose "64 word" | CRead "64 word" "64 word" "32 word"
  | CWrite "64 word" "64 word" "byte list" | CFsync "64 word"

fun handle_calls :: "'s backend_ops \<Rightarrow> handle_call list \<Rightarrow> 's \<Rightarrow> 64 word list \<times> 's" where
  "handle_calls ops [] s = ([], s)"
| "handle_calls ops (COpen p f m # cs) s =
     (case boOpen ops p f m s of
        (Inr (h, a), s1) \<Rightarrow> (case handle_calls ops cs s1 of (hs, s2) \<Rightarrow> (h # hs, s2))
      | (Inl e, s1) \<Rightarrow> handle_calls ops cs s1)"
| "handle_calls ops (CClose h # cs) s = handle_calls ops cs (snd (boClose ops h s))"
| "handle_calls ops (CRead h off sz # cs) s = handle_calls ops cs (snd (boRead ops h off sz s))"
| "handle_calls ops (CWrite h off data # cs) s = handle_calls ops cs (snd (boWrite ops h off data s))"
| "handle_calls ops (CFsync h # cs) s = handle_calls ops cs (snd (boFsync ops h s))"

definition closes :: "handle_call list \<Rightarrow> 64 word set" where
  "closes cs = {h. CClose h \<in> set cs}"

definition opens :: "handle_call list \<Rightarrow> nat" where
  "opens cs = length (filter (\<lambda>c. case c of COpen _ _ _ \<Rightarrow> True | _ \<Rightarrow> False) cs)"

context handle_backend
begin

lemma calls_live:
  "room (opens cs + k) s \<Longrightarrow> handle_calls ops cs s = (hs, s') \<Longrightarrow>
   live s' \<subseteq> live s \<union> set hs \<and> room k s' \<and> (closes cs = {} \<longrightarrow> live s' = live s \<union> set hs \<and> distinct hs \<and> set hs \<inter> live s = {})"
proof (induction cs arbitrary: s hs)
  case Nil
  then show ?case by (simp add: opens_def)
next
  case (Cons c cs)
  show ?case
  proof (cases c)
    case (COpen p f m)
    have room: "room (Suc (opens cs + k)) s" using Cons.prems(1) COpen by (simp add: opens_def)
    have cl: "closes (c # cs) = closes cs" using COpen by (auto simp: closes_def)
    obtain r s1 where o: "boOpen ops p f m s = (r, s1)" by (cases "boOpen ops p f m s")
    show ?thesis
    proof (cases r)
      case (Inl e)
      then have "live s1 = live s" "room (opens cs + k) s1" using open_fails [OF room] o by blast+
      then show ?thesis using Cons.IH [of s1 hs] Cons.prems(2) COpen o Inl cl by simp
    next
      case (Inr ha)
      obtain h a where ha: "ha = (h, a)" by (cases ha)
      then have s1: "h \<notin> live s" "live s1 = insert h (live s)" "room (opens cs + k) s1"
        using open_fresh [OF room] o Inr by blast+
      obtain hs2 where hs: "handle_calls ops cs s1 = (hs2, s')" "hs = h # hs2"
        using Cons.prems(2) COpen o Inr ha by (auto split: prod.splits)
      show ?thesis using Cons.IH [OF s1(3) hs(1)] s1 hs(2) cl by auto
    qed
  next
    case (CClose h)
    let ?s = "snd (boClose ops h s)"
    have "room (opens cs + k) s" using Cons.prems(1) CClose by (simp add: opens_def)
    then have s1: "live ?s = live s - {h}" "room (opens cs + k) ?s"
      using close_live [of h s "fst (boClose ops h s)" ?s] by auto
    have "closes (c # cs) \<noteq> {}" using CClose by (auto simp: closes_def)
    then show ?thesis using Cons.IH [OF s1(2), of hs] Cons.prems(2) CClose s1(1) by auto
  next
    case (CRead h off sz)
    let ?s = "snd (boRead ops h off sz s)"
    have "room (opens cs + k) s" using Cons.prems(1) CRead by (simp add: opens_def)
    then have s1: "live ?s = live s" "room (opens cs + k) ?s"
      using read_keeps [of h off sz s "fst (boRead ops h off sz s)" ?s] by auto
    have "closes (c # cs) = closes cs" using CRead by (auto simp: closes_def)
    then show ?thesis using Cons.IH [OF s1(2), of hs] Cons.prems(2) CRead s1(1) by simp
  next
    case (CWrite h off data)
    let ?s = "snd (boWrite ops h off data s)"
    have "room (opens cs + k) s" using Cons.prems(1) CWrite by (simp add: opens_def)
    then have s1: "live ?s = live s" "room (opens cs + k) ?s"
      using write_keeps [of h off data s "fst (boWrite ops h off data s)" ?s] by auto
    have "closes (c # cs) = closes cs" using CWrite by (auto simp: closes_def)
    then show ?thesis using Cons.IH [OF s1(2), of hs] Cons.prems(2) CWrite s1(1) by simp
  next
    case (CFsync h)
    let ?s = "snd (boFsync ops h s)"
    have "room (opens cs + k) s" using Cons.prems(1) CFsync by (simp add: opens_def)
    then have s1: "live ?s = live s" "room (opens cs + k) ?s"
      using fsync_keeps [of h s "fst (boFsync ops h s)" ?s] by auto
    have "closes (c # cs) = closes cs" using CFsync by (auto simp: closes_def)
    then show ?thesis using Cons.IH [OF s1(2), of hs] Cons.prems(2) CFsync s1(1) by simp
  qed
qed

text \<open>A handle closed is refused from then on, until an open hands it out again.\<close>

lemma dead_until_reopened:
  assumes "room (opens cs) s" "boClose ops h s = (r, s1)" "handle_calls ops cs s1 = (hs, s2)" "h \<notin> set hs"
  shows "boRead ops h off sz s2 = (Inl bad, s2) \<and> boClose ops h s2 = (Inl bad, s2) \<and> boFsync ops h s2 = (Inl bad, s2)"
proof -
  have s1: "live s1 = live s - {h}" "room (opens cs + 0) s1" using close_live [OF assms(2)] assms(1) by simp_all
  have "live s2 \<subseteq> live s1 \<union> set hs" using calls_live [OF s1(2) assms(3)] by blast
  then have "h \<notin> live s2" using s1(1) assms(4) by blast
  then show ?thesis using dead_read dead_close dead_fsync by blast
qed

text \<open>As long as nothing is closed, no handle is handed out twice.\<close>

lemma opens_distinct:
  assumes "room (opens cs) s" "closes cs = {}" "handle_calls ops cs s = (hs, s')"
  shows "distinct hs \<and> set hs \<inter> live s = {}"
  using calls_live [of cs 0 s hs s'] assms by simp

end

end
