(* ===== verification/RootBackend.thy ===== *)
theory RootBackend
  imports Layout Backend
begin

text \<open>
  \<open>internal/remotefs/backend.go\<close> and \<open>stat_linux.go\<close>: the backend that exports a directory. The
  directory (\<open>os.Root\<close>) and its open files are a parameter: a record of the system operations on a
  world, with open files as numbers. The backend adds the checks of paths, the exclusion of paths,
  the ban of deletion and the table of handles.
\<close>

subsection \<open>Attributes: stat_linux.go\<close>

record stat_t =
  stIno :: "64 word"
  stBlocks :: "64 word"
  stNlink :: "64 word"
  stAtimSec :: "64 word"
  stAtimNsec :: "64 word"
  stMtimSec :: "64 word"
  stMtimNsec :: "64 word"
  stCtimSec :: "64 word"
  stCtimNsec :: "64 word"

record fileinfo =
  fiSize :: "64 word"
  fiMode :: "32 word"
  fiModTime :: "64 word"
  fiSys :: "stat_t option"

text \<open>The bits of \<open>fs.FileMode\<close> and of \<open>st_mode\<close>.\<close>

definition ModeDir :: "32 word" where "ModeDir = 0x80000000"
definition ModeSymlink :: "32 word" where "ModeSymlink = 0x08000000"
definition ModeType :: "32 word" where "ModeType = 0x8F280000"
definition S_IFDIR :: "32 word" where "S_IFDIR = 0x4000"
definition S_IFLNK :: "32 word" where "S_IFLNK = 0xA000"
definition S_IFREG :: "32 word" where "S_IFREG = 0x8000"

definition IsRegular :: "32 word \<Rightarrow> bool" where "IsRegular mode = (mode AND ModeType = 0)"
definition IsDir :: "32 word \<Rightarrow> bool" where "IsDir mode = (mode AND ModeDir \<noteq> 0)"

definition isVisibleMode :: "32 word \<Rightarrow> bool" where
  "isVisibleMode mode = (IsRegular mode \<or> IsDir mode \<or> mode AND ModeSymlink \<noteq> 0)"

definition fileMode :: "32 word \<Rightarrow> 32 word" where
  "fileMode mode =
     (mode AND 0x1FF) OR (if IsDir mode then S_IFDIR else if mode AND ModeSymlink \<noteq> 0 then S_IFLNK else S_IFREG)"

definition UnixNano :: "64 word \<Rightarrow> 64 word \<Rightarrow> 64 word" where
  "UnixNano sec nsec = sec * 1000000000 + nsec"

definition fileInfoToAttr :: "fileinfo \<Rightarrow> Attr" where
  "fileInfoToAttr info =
     (case fiSys info of
        None \<Rightarrow> Attr0\<lparr>aSize := fiSize info, aMode := fileMode (fiMode info), aAtimeNano := fiModTime info,
          aMtimeNano := fiModTime info, aCtimeNano := fiModTime info, aNlink := 1\<rparr>
      | Some st \<Rightarrow> Attr0\<lparr>aSize := fiSize info, aMode := fileMode (fiMode info), aIno := stIno st,
          aBlocks := stBlocks st, aNlink := ucast (stNlink st), aAtimeNano := UnixNano (stAtimSec st) (stAtimNsec st),
          aMtimeNano := UnixNano (stMtimSec st) (stMtimNsec st),
          aCtimeNano := UnixNano (stCtimSec st) (stCtimNsec st)\<rparr>)"

subsection \<open>The directory and its files\<close>

datatype access = O_RDONLY | O_WRONLY | O_RDWR

record localFlags =
  lfAccess :: access
  lfCreate :: bool
  lfExcl :: bool
  lfTrunc :: bool
  lfSync :: bool

type_synonym ('a, 'w) sys = "'w \<Rightarrow> (goerr, 'a) result \<times> 'w"

record 'w root =
  rErr :: errtable
  rLstat :: "string \<Rightarrow> 'w \<Rightarrow> (goerr, fileinfo) result"
  rStat :: "string \<Rightarrow> 'w \<Rightarrow> (goerr, fileinfo) result"
  rReadDir :: "string \<Rightarrow> 'w \<Rightarrow> (goerr, (string \<times> (goerr, fileinfo) result) list) result"
  rOpenFile :: "string \<Rightarrow> localFlags \<Rightarrow> 32 word \<Rightarrow> (nat, 'w) sys"
  rMkdir :: "string \<Rightarrow> 32 word \<Rightarrow> (unit, 'w) sys"
  rRemove :: "string \<Rightarrow> (unit, 'w) sys"
  rRename :: "string \<Rightarrow> string \<Rightarrow> (unit, 'w) sys"
  rLink :: "string \<Rightarrow> string \<Rightarrow> (unit, 'w) sys"
  rSymlink :: "string \<Rightarrow> string \<Rightarrow> (unit, 'w) sys"
  rReadlink :: "string \<Rightarrow> 'w \<Rightarrow> (goerr, string) result"
  rChmod :: "string \<Rightarrow> 32 word \<Rightarrow> (unit, 'w) sys"
  rChtimes :: "string \<Rightarrow> 64 word \<Rightarrow> 64 word \<Rightarrow> (unit, 'w) sys"
  rStatFS :: "'w \<Rightarrow> (goerr, StatFS) result"
  rClose :: "(unit, 'w) sys"
  fStat :: "nat \<Rightarrow> 'w \<Rightarrow> (goerr, fileinfo) result"
  fClose :: "nat \<Rightarrow> (unit, 'w) sys"
  fReadAt :: "nat \<Rightarrow> nat \<Rightarrow> 64 word \<Rightarrow> 'w \<Rightarrow> byte list \<times> goerr option"
  fWriteAt :: "nat \<Rightarrow> byte list \<Rightarrow> 64 word \<Rightarrow> 'w \<Rightarrow> nat \<times> goerr option \<times> 'w"
  fSync :: "nat \<Rightarrow> (unit, 'w) sys"
  fTruncate :: "nat \<Rightarrow> 64 word \<Rightarrow> (unit, 'w) sys"
  fChmod :: "nat \<Rightarrow> 32 word \<Rightarrow> (unit, 'w) sys"

record 'w rootBackend =
  rbExcluded :: "string list"
  rbDisableDelete :: bool
  rbNext :: "64 word"
  rbHandles :: "64 word \<rightharpoonup> nat"
  rbClosed :: bool
  rbWorld :: 'w

text \<open>The excluded paths are kept relative to the root, those outside it are dropped.\<close>

definition excludedPaths :: "string \<Rightarrow> string \<Rightarrow> string list \<Rightarrow> string list" where
  "excludedPaths wd absolute candidates =
     concat (map (\<lambda>candidate.
       case Rel absolute (Abs wd candidate) of
         Some rel \<Rightarrow> if pathWithinRoot rel then [Clean rel] else []
       | None \<Rightarrow> []) candidates)"

definition OpenRootBackendWithOptions :: "string \<Rightarrow> string \<Rightarrow> bool \<Rightarrow> string list \<Rightarrow> 'w \<Rightarrow> 'w rootBackend" where
  "OpenRootBackendWithOptions wd path disableDelete candidates w =
     \<lparr>rbExcluded = excludedPaths wd (Abs wd path) candidates, rbDisableDelete = disableDelete, rbNext = 1,
      rbHandles = Map.empty, rbClosed = False, rbWorld = w\<rparr>"

subsection \<open>Paths\<close>

definition eperm :: "'w root \<Rightarrow> goerr" where "eperm r = Errno (rErr r EPERM)"

definition cleanPath :: "string \<Rightarrow> string option" where
  "cleanPath name =
     (if name = [] \<or> name = ''.'' then Some ''.''
      else if IsAbs name then None
      else let name = Clean name in if name = ''..'' \<or> HasPrefix name ''../'' then None else Some name)"

definition visiblePath :: "string list \<Rightarrow> string \<Rightarrow> string option" where
  "visiblePath excluded name =
     (case cleanPath name of
        None \<Rightarrow> None
      | Some name \<Rightarrow>
          (if list_ex (\<lambda>e. name = e \<or> HasPrefix name (e @ ''/'')) excluded then None else Some name))"

text \<open>\<open>RootBackend.cleanPath\<close>; every refusal is \<open>EPERM\<close>.\<close>

definition bCleanPath :: "'w root \<Rightarrow> 'w rootBackend \<Rightarrow> string \<Rightarrow> (goerr, string) result" where
  "bCleanPath r b name = (case visiblePath (rbExcluded b) name of None \<Rightarrow> Inl (eperm r) | Some p \<Rightarrow> Inr p)"

subsection \<open>Operations\<close>

type_synonym ('a, 'w) op = "'w rootBackend \<Rightarrow> (goerr, 'a) result \<times> 'w rootBackend"

definition on_world :: "('a, 'w) sys \<Rightarrow> ('a, 'w) op" where
  "on_world f b = (case f (rbWorld b) of (res, w) \<Rightarrow> (res, b\<lparr>rbWorld := w\<rparr>))"

text \<open>The path check in front of an operation, and the \<open>Lstat\<close> behind it.\<close>

definition with_path :: "'w root \<Rightarrow> string \<Rightarrow> (string \<Rightarrow> ('a, 'w) op) \<Rightarrow> ('a, 'w) op" where
  "with_path r name f b = (case bCleanPath r b name of Inl err \<Rightarrow> (Inl err, b) | Inr p \<Rightarrow> f p b)"

definition lstatAttr :: "'w root \<Rightarrow> string \<Rightarrow> (Attr, 'w) op" where
  "lstatAttr r name b =
     ((case rLstat r name (rbWorld b) of Inl err \<Rightarrow> Inl err | Inr info \<Rightarrow> Inr (fileInfoToAttr info)), b)"

definition then_op :: "('a, 'w) op \<Rightarrow> ('a \<Rightarrow> ('b, 'w) op) \<Rightarrow> ('b, 'w) op" where
  "then_op f g b = (case f b of (Inl err, b1) \<Rightarrow> (Inl err, b1) | (Inr x, b1) \<Rightarrow> g x b1)"

definition rbLookup :: "'w root \<Rightarrow> string \<Rightarrow> (Attr, 'w) op" where
  "rbLookup r name = with_path r name (\<lambda>name b.
     case rLstat r name (rbWorld b) of
       Inl err \<Rightarrow> (Inl err, b)
     | Inr info \<Rightarrow> if \<not> isVisibleMode (fiMode info) then (Inl (eperm r), b) else (Inr (fileInfoToAttr info), b))"

fun dirEntries :: "string list \<Rightarrow> string \<Rightarrow> (string \<times> (goerr, fileinfo) result) list \<Rightarrow> (goerr, DirEntry list) result" where
  "dirEntries excluded name [] = Inr []"
| "dirEntries excluded name ((entry, info) # entries) =
     (if visiblePath excluded (JoinPath name entry) = None then dirEntries excluded name entries
      else case info of
        Inl err \<Rightarrow> Inl err
      | Inr info \<Rightarrow>
          (if \<not> isVisibleMode (fiMode info) then dirEntries excluded name entries
           else case dirEntries excluded name entries of
             Inl err \<Rightarrow> Inl err
           | Inr out \<Rightarrow> Inr (\<lparr>deName = entry, deMode = aMode (fileInfoToAttr info), deIno = aIno (fileInfoToAttr info)\<rparr> # out)))"

definition rbReadDir :: "'w root \<Rightarrow> string \<Rightarrow> (DirEntry list, 'w) op" where
  "rbReadDir r name = with_path r name (\<lambda>name b.
     case rReadDir r name (rbWorld b) of
       Inl err \<Rightarrow> (Inl err, b)
     | Inr entries \<Rightarrow> (dirEntries (rbExcluded b) name entries, b))"

definition localOpenFlags :: "flags \<Rightarrow> localFlags option" where
  "localOpenFlags flags =
     (if \<not> Valid flags then None
      else Some \<lparr>
        lfAccess = (let rw = flags AND (OpenRead OR OpenWrite) in
          if rw = OpenRead then O_RDONLY else if rw = OpenWrite then O_WRONLY else O_RDWR),
        lfCreate = (flags AND OpenCreate \<noteq> 0), lfExcl = (flags AND OpenExclusive \<noteq> 0),
        lfTrunc = (flags AND OpenTruncate \<noteq> 0), lfSync = (flags AND OpenSync \<noteq> 0)\<rparr>)"

definition rbOpen :: "'w root \<Rightarrow> string \<Rightarrow> flags \<Rightarrow> 32 word \<Rightarrow> (64 word \<times> Attr, 'w) op" where
  "rbOpen r name flags mode = with_path r name (\<lambda>name b.
     case localOpenFlags flags of
       None \<Rightarrow> (Inl (Errno (rErr r EINVAL)), b)
     | Some localFlags \<Rightarrow>
         (case on_world (rOpenFile r name localFlags (mode AND 0x1FF)) b of
            (Inl err, b1) \<Rightarrow> (Inl err, b1)
          | (Inr f, b1) \<Rightarrow>
              (case fStat r f (rbWorld b1) of
                 Inl err \<Rightarrow> (Inl err, snd (on_world (fClose r f) b1))
               | Inr info \<Rightarrow>
                   (if \<not> IsRegular (fiMode info) then (Inl (eperm r), snd (on_world (fClose r f) b1))
                    else let i = rbNext b1 + 1 in
                      (Inr (i, fileInfoToAttr info),
                       b1\<lparr>rbNext := i, rbHandles := (rbHandles b1)(i \<mapsto> f)\<rparr>)))))"

definition rbFile :: "'w root \<Rightarrow> 64 word \<Rightarrow> 'w rootBackend \<Rightarrow> (goerr, nat) result" where
  "rbFile r h b = (case rbHandles b h of None \<Rightarrow> Inl (Errno (rErr r EBADF)) | Some f \<Rightarrow> Inr f)"

definition rbClose :: "'w root \<Rightarrow> 64 word \<Rightarrow> (unit, 'w) op" where
  "rbClose r h b =
     (case rbHandles b h of
        None \<Rightarrow> (Inl (Errno (rErr r EBADF)), b)
      | Some f \<Rightarrow> on_world (fClose r f) (b\<lparr>rbHandles := (rbHandles b)(h := None)\<rparr>))"

text \<open>An end of file inside a read is no error; the caller never uses bytes that come with an error.\<close>

definition EOF :: goerr where "EOF = OtherErr ''EOF''"

definition rbRead :: "'w root \<Rightarrow> 64 word \<Rightarrow> 64 word \<Rightarrow> 32 word \<Rightarrow> (byte list, 'w) op" where
  "rbRead r h offset sz b =
     (let sz = (if unat sz > MaxDataSize then MaxDataSize else unat sz) in
      case rbFile r h b of
        Inl err \<Rightarrow> (Inl err, b)
      | Inr f \<Rightarrow>
          (case fReadAt r f sz offset (rbWorld b) of
             (data, None) \<Rightarrow> (Inr data, b)
           | (data, Some err) \<Rightarrow> (if cause err = EOF then (Inr data, b) else (Inl err, b))))"

definition rbWrite :: "'w root \<Rightarrow> 64 word \<Rightarrow> 64 word \<Rightarrow> byte list \<Rightarrow> (32 word, 'w) op" where
  "rbWrite r h offset data b =
     (if length data > MaxDataSize then (Inl (Errno (rErr r E2BIG)), b)
      else case rbFile r h b of
        Inl err \<Rightarrow> (Inl err, b)
      | Inr f \<Rightarrow>
          (case fWriteAt r f data offset (rbWorld b) of
             (n, err, w) \<Rightarrow> ((case err of None \<Rightarrow> Inr (of_nat n) | Some e \<Rightarrow> Inl e), b\<lparr>rbWorld := w\<rparr>)))"

definition rbFsync :: "'w root \<Rightarrow> 64 word \<Rightarrow> (unit, 'w) op" where
  "rbFsync r h b = (case rbFile r h b of Inl err \<Rightarrow> (Inl err, b) | Inr f \<Rightarrow> on_world (fSync r f) b)"

definition rbMkdir :: "'w root \<Rightarrow> string \<Rightarrow> 32 word \<Rightarrow> (Attr, 'w) op" where
  "rbMkdir r name mode = with_path r name (\<lambda>name.
     then_op (on_world (rMkdir r name (mode AND 0x1FF))) (\<lambda>_. lstatAttr r name))"

definition rbRemove :: "'w root \<Rightarrow> string \<Rightarrow> bool \<Rightarrow> (unit, 'w) op" where
  "rbRemove r name directory b =
     (if rbDisableDelete b then (Inl (eperm r), b)
      else with_path r name (\<lambda>name b.
        case rLstat r name (rbWorld b) of
          Inl err \<Rightarrow> (Inl err, b)
        | Inr info \<Rightarrow>
            (if directory \<and> \<not> IsDir (fiMode info) then (Inl (Errno (rErr r ENOTDIR)), b)
             else if \<not> directory \<and> IsDir (fiMode info) then (Inl (Errno (rErr r EISDIR)), b)
             else on_world (rRemove r name) b)) b)"

definition rbRename :: "'w root \<Rightarrow> string \<Rightarrow> string \<Rightarrow> (unit, 'w) op" where
  "rbRename r oldName newName = with_path r oldName (\<lambda>oldName. with_path r newName (\<lambda>newName b.
     if rbDisableDelete b \<and> Dir oldName \<noteq> Dir newName then (Inl (eperm r), b)
     else on_world (rRename r oldName newName) b))"

definition rbLink :: "'w root \<Rightarrow> string \<Rightarrow> string \<Rightarrow> (Attr, 'w) op" where
  "rbLink r oldName newName = with_path r oldName (\<lambda>oldName. with_path r newName (\<lambda>newName.
     then_op (on_world (rLink r oldName newName)) (\<lambda>_. lstatAttr r newName)))"

definition rbSymlink :: "'w root \<Rightarrow> string \<Rightarrow> string \<Rightarrow> (Attr, 'w) op" where
  "rbSymlink r target newName = with_path r newName (\<lambda>newName.
     then_op (on_world (rSymlink r target newName)) (\<lambda>_. lstatAttr r newName))"

definition rbReadlink :: "'w root \<Rightarrow> string \<Rightarrow> (string, 'w) op" where
  "rbReadlink r name = with_path r name (\<lambda>name b. (rReadlink r name (rbWorld b), b))"

text \<open>\<open>Setattr\<close>, in the order of the code: size, mode, times, and the attributes afterwards.\<close>

definition setSize :: "'w root \<Rightarrow> string \<Rightarrow> nat option \<Rightarrow> 64 word option \<Rightarrow> (unit, 'w) op" where
  "setSize r name f sz b =
     (case sz of
        None \<Rightarrow> (Inr (), b)
      | Some n \<Rightarrow>
          (case f of
             Some f \<Rightarrow> on_world (fTruncate r f n) b
           | None \<Rightarrow>
               (case on_world (rOpenFile r name \<lparr>lfAccess = O_WRONLY, lfCreate = False, lfExcl = False, lfTrunc = False,
                     lfSync = False\<rparr> 0) b of
                  (Inl err, b1) \<Rightarrow> (Inl err, b1)
                | (Inr opened, b1) \<Rightarrow>
                    (case on_world (fTruncate r opened n) b1 of
                       (res, b2) \<Rightarrow> (res, snd (on_world (fClose r opened) b2))))))"

definition setMode :: "'w root \<Rightarrow> string \<Rightarrow> nat option \<Rightarrow> 32 word option \<Rightarrow> (unit, 'w) op" where
  "setMode r name f mode b =
     (case mode of
        None \<Rightarrow> (Inr (), b)
      | Some m \<Rightarrow>
          (case f of
             Some f \<Rightarrow> on_world (fChmod r f (m AND 0x1FF)) b
           | None \<Rightarrow> on_world (rChmod r name (m AND 0x1FF)) b))"

definition setTimes :: "'w root \<Rightarrow> string \<Rightarrow> 64 word option \<Rightarrow> 64 word option \<Rightarrow> (unit, 'w) op" where
  "setTimes r name atime mtime b =
     (if atime = None \<and> mtime = None then (Inr (), b)
      else case rStat r name (rbWorld b) of
        Inl err \<Rightarrow> (Inl err, b)
      | Inr info \<Rightarrow>
          (let current = fileInfoToAttr info in
           on_world (rChtimes r name (case atime of None \<Rightarrow> aAtimeNano current | Some t \<Rightarrow> t)
             (case mtime of None \<Rightarrow> aMtimeNano current | Some t \<Rightarrow> t)) b))"

definition rbSetattr :: "'w root \<Rightarrow> string \<Rightarrow> 64 word \<Rightarrow> SetAttr \<Rightarrow> (Attr, 'w) op" where
  "rbSetattr r name h change = with_path r name (\<lambda>name b.
     case (if h = 0 then Inr None else map_sum id Some (rbFile r h b)) of
       Inl err \<Rightarrow> (Inl err, b)
     | Inr f \<Rightarrow>
         then_op (setSize r name f (saSize change)) (\<lambda>_.
         then_op (setMode r name f (saMode change)) (\<lambda>_.
         then_op (setTimes r name (saAtimeNano change) (saMtimeNano change)) (\<lambda>_.
         lstatAttr r name))) b)"

definition rbStatFS :: "'w root \<Rightarrow> (StatFS, 'w) op" where
  "rbStatFS r b = (rStatFS r (rbWorld b), b)"

text \<open>Closing the backend closes every open file and then the root, once. \<open>hs\<close> is the order in which
  the table is walked; the first error is reported.\<close>

definition close_file :: "'w root \<Rightarrow> nat \<Rightarrow> goerr option \<times> 'w \<Rightarrow> goerr option \<times> 'w" where
  "close_file r f st =
     (case fClose r f (snd st) of
        (Inl err, w) \<Rightarrow> (if fst st = None then Some err else fst st, w)
      | (Inr _, w) \<Rightarrow> (fst st, w))"

definition rbCloseBackend :: "'w root \<Rightarrow> nat list \<Rightarrow> (unit, 'w) op" where
  "rbCloseBackend r files b =
     (if rbClosed b then (Inr (), b)
      else
        let (first, w1) = fold (close_file r) files (None, rbWorld b);
            (res, w2) = rClose r w1;
            first = (case (res, first) of (Inl err, None) \<Rightarrow> Some err | _ \<Rightarrow> first)
        in ((case first of None \<Rightarrow> Inr () | Some err \<Rightarrow> Inl err),
            b\<lparr>rbHandles := Map.empty, rbClosed := True, rbWorld := w2\<rparr>))"

definition root_ops :: "'w root \<Rightarrow> nat list \<Rightarrow> 'w rootBackend backend_ops" where
  "root_ops r files = \<lparr>boLookup = rbLookup r, boReadDir = rbReadDir r, boOpen = rbOpen r, boClose = rbClose r,
     boRead = rbRead r, boWrite = rbWrite r, boFsync = rbFsync r, boMkdir = rbMkdir r,
     boUnlink = (\<lambda>name. rbRemove r name False), boRmdir = (\<lambda>name. rbRemove r name True), boRename = rbRename r,
     boLink = rbLink r, boSymlink = rbSymlink r, boReadlink = rbReadlink r, boSetattr = rbSetattr r,
     boStatFS = rbStatFS r, boCloseBackend = rbCloseBackend r files\<rparr>"

subsection \<open>The contract on handles\<close>

definition rb_live :: "'w rootBackend \<Rightarrow> 64 word set" where
  "rb_live b = dom (rbHandles b)"

text \<open>Every handle in the table is at most the counter, which is far enough from its last value.\<close>

definition rb_room :: "nat \<Rightarrow> 'w rootBackend \<Rightarrow> bool" where
  "rb_room n b \<longleftrightarrow> (\<forall>h \<in> dom (rbHandles b). h \<le> rbNext b) \<and> unat (rbNext b) + n < 2 ^ 64"

lemma on_world_keeps [simp]:
  "rbHandles (snd (on_world f b)) = rbHandles b" "rbNext (snd (on_world f b)) = rbNext b"
  "rbExcluded (snd (on_world f b)) = rbExcluded b" "rbDisableDelete (snd (on_world f b)) = rbDisableDelete b"
  by (simp_all add: on_world_def split: prod.split)

lemma on_world_eqD:
  "on_world f b = (x, b') \<Longrightarrow> rbHandles b' = rbHandles b \<and> rbNext b' = rbNext b"
  using on_world_keeps(1,2) [of f b] by simp

lemma rb_same: "rbHandles b' = rbHandles b \<Longrightarrow> rbNext b' = rbNext b \<Longrightarrow> rb_live b' = rb_live b \<and> rb_room n b' = rb_room n b"
  by (simp add: rb_live_def rb_room_def)

lemma rb_room_less: "rb_room (Suc n) b \<Longrightarrow> rb_room n b"
  by (simp add: rb_room_def)

lemma next_fresh:
  assumes "rb_room (Suc n) b"
  shows "rbNext b + 1 \<notin> dom (rbHandles b)" "\<forall>h \<in> dom (rbHandles b). h \<le> rbNext b + 1"
    "unat (rbNext b + 1) = Suc (unat (rbNext b))"
proof -
  have "unat (rbNext b) + 1 < 2 ^ 64" using assms by (simp add: rb_room_def)
  then show u: "unat (rbNext b + 1) = Suc (unat (rbNext b))"
    by (simp add: unat_plus_if_size word_size)
  then have less: "rbNext b < rbNext b + 1" by (simp add: word_less_nat_alt)
  then show "rbNext b + 1 \<notin> dom (rbHandles b)" using assms unfolding rb_room_def by (meson leD)
  show "\<forall>h \<in> dom (rbHandles b). h \<le> rbNext b + 1" using assms less unfolding rb_room_def by (meson less_imp_le order_trans)
qed

lemma rbOpen_cases:
  assumes "rbOpen r p f m b = (res, b')"
  shows "(\<exists>e. res = Inl e \<and> rbHandles b' = rbHandles b \<and> rbNext b' = rbNext b) \<or>
    (\<exists>a file. res = Inr (rbNext b + 1, a) \<and> rbHandles b' = (rbHandles b)(rbNext b + 1 \<mapsto> file) \<and> rbNext b' = rbNext b + 1)"
  using assms
  by (auto simp: rbOpen_def with_path_def Let_def split: sum.splits option.splits prod.splits if_splits dest!: on_world_eqD)

interpretation root_files: handle_backend "root_ops r files" rb_live rb_room "Errno (rErr r EBADF)" for r files
proof
  show "rb_room (Suc n) s \<Longrightarrow> rb_room n s" for n and s :: "'a rootBackend" by (rule rb_room_less)
next
  fix n :: nat and s s' :: "'a rootBackend" and p f m h a
  assume room: "rb_room (Suc n) s" and o: "boOpen (root_ops r files) p f m s = (Inr (h, a), s')"
  then have *: "h = rbNext s + 1" "dom (rbHandles s') = insert h (dom (rbHandles s))" "rbNext s' = rbNext s + 1"
    using rbOpen_cases [of r p f m s] by (auto simp: root_ops_def)
  then show "h \<notin> rb_live s \<and> rb_live s' = insert h (rb_live s) \<and> rb_room n s'"
    using next_fresh [OF room] room by (auto simp: rb_live_def rb_room_def)
next
  fix n :: nat and s s' :: "'a rootBackend" and p f m e
  assume room: "rb_room (Suc n) s" and o: "boOpen (root_ops r files) p f m s = (Inl e, s')"
  then have "rbHandles s' = rbHandles s" "rbNext s' = rbNext s"
    using rbOpen_cases [of r p f m s] by (auto simp: root_ops_def)
  then show "rb_live s' = rb_live s \<and> rb_room n s'" using rb_same rb_room_less [OF room] by metis
next
  fix n :: nat and s s' :: "'a rootBackend" and h res
  assume "boClose (root_ops r files) h s = (res, s')"
  then have "rbHandles s' = (rbHandles s)(h := None)" "rbNext s' = rbNext s"
    by (auto simp: root_ops_def rbClose_def fun_upd_idem split: option.splits dest!: on_world_eqD)
  then show "rb_live s' = rb_live s - {h} \<and> (rb_room n s \<longrightarrow> rb_room n s')"
    by (auto simp: rb_live_def rb_room_def)
next
  fix s :: "'a rootBackend" and h off sz
  assume "h \<notin> rb_live s"
  then have none: "rbHandles s h = None" by (auto simp: rb_live_def)
  show "boClose (root_ops r files) h s = (Inl (Errno (rErr r EBADF)), s)" using none by (simp add: root_ops_def rbClose_def)
  show "boRead (root_ops r files) h off sz s = (Inl (Errno (rErr r EBADF)), s)"
    using none by (simp add: root_ops_def rbRead_def rbFile_def)
  show "boFsync (root_ops r files) h s = (Inl (Errno (rErr r EBADF)), s)"
    using none by (simp add: root_ops_def rbFsync_def rbFile_def)
next
  fix n :: nat and s s' :: "'a rootBackend" and h off sz r1
  assume "boRead (root_ops r files) h off sz s = (r1, s')"
  then have "s' = s" by (auto simp: root_ops_def rbRead_def Let_def split: sum.splits prod.splits option.splits if_splits)
  then show "rb_live s' = rb_live s \<and> (rb_room n s \<longrightarrow> rb_room n s')" by simp
next
  fix n :: nat and s s' :: "'a rootBackend" and h off data r2
  assume "boWrite (root_ops r files) h off data s = (r2, s')"
  then have "rbHandles s' = rbHandles s" "rbNext s' = rbNext s"
    by (auto simp: root_ops_def rbWrite_def split: sum.splits prod.splits if_splits)
  then show "rb_live s' = rb_live s \<and> (rb_room n s \<longrightarrow> rb_room n s')" using rb_same by metis
next
  fix n :: nat and s s' :: "'a rootBackend" and h r3
  assume "boFsync (root_ops r files) h s = (r3, s')"
  then have "rbHandles s' = rbHandles s" "rbNext s' = rbNext s"
    by (auto simp: root_ops_def rbFsync_def split: sum.splits dest!: on_world_eqD)
  then show "rb_live s' = rb_live s \<and> (rb_room n s \<longrightarrow> rb_room n s')" using rb_same by metis
qed


subsection \<open>Paths that are visible\<close>

lemma Join_append: "xs \<noteq> [] \<Longrightarrow> ys \<noteq> [] \<Longrightarrow> Join (xs @ ys) sep = Join xs sep @ sep @ Join ys sep"
proof (induction xs sep rule: Join.induct)
  case (2 x sep)
  then show ?case by (cases ys) simp_all
qed simp_all

lemma Split_from:
  "ups cs \<Longrightarrow> cs \<noteq> [] \<Longrightarrow> Split (from_components False cs) slash = cs"
  using ups_no_slash [of cs] by (auto simp: from_components_def intro!: Split_Join)

lemma path_prefix:
  assumes cs: "list_all proper cs" and es: "list_all proper es" "es \<noteq> []"
  shows "from_components False cs = from_components False es \<or> HasPrefix (from_components False cs) (from_components False es @ ''/'')
    \<longleftrightarrow> (\<exists>ns. cs = es @ ns)"
proof
  assume "\<exists>ns. cs = es @ ns"
  then obtain ns where ns: "cs = es @ ns" by blast
  show "from_components False cs = from_components False es \<or> HasPrefix (from_components False cs) (from_components False es @ ''/'')"
    using es(2) by (cases "ns = []") (simp_all add: ns from_components_def Join_append HasPrefix_iff)
next
  assume "from_components False cs = from_components False es \<or> HasPrefix (from_components False cs) (from_components False es @ ''/'')"
  then show "\<exists>ns. cs = es @ ns"
  proof
    assume "from_components False cs = from_components False es"
    then have "components (from_components False cs) = components (from_components False es)" by (rule arg_cong)
    then show ?thesis using cs es(1) by simp
  next
    assume "HasPrefix (from_components False cs) (from_components False es @ ''/'')"
    then obtain t where t: "from_components False cs = from_components False es @ slash # t" by (auto simp: HasPrefix_iff)
    then have "slash \<in> set (from_components False cs)" by simp
    then have "cs \<noteq> []" by (auto simp: from_components_def)
    then have "cs = Split (from_components False es @ slash # t) slash"
      using Split_from [OF proper_ups [OF cs]] t by simp
    then show ?thesis using Split_from [OF proper_ups [OF es(1)] es(2)] by (auto simp: Split_append)
  qed
qed

lemma cleanPath_eq: "cleanPath name = (if \<not> IsAbs name \<and> list_all proper (components name) then Some (Clean name) else None)"
proof (cases "name = [] \<or> name = ''.''")
  case True
  then have "Clean name = ''.'' \<and> \<not> IsAbs name \<and> components name = []"
    by (elim disjE) (simp_all add: Clean_def from_components_def components_def IsAbs_def)
  then show ?thesis using True by (simp add: cleanPath_def)
next
  case False
  then show ?thesis using stays_iff [of name] IsAbs_Clean [of name]
    by (auto simp: cleanPath_def leaves_def Let_def IsAbs_def)
qed

interpretation backend_path: path_guard "bCleanPath r b" for r b
  by unfold_locales (auto simp: bCleanPath_def visiblePath_def cleanPath_eq split: option.splits if_splits)

lemma Clean_proper: "\<not> IsAbs p \<Longrightarrow> Clean p = from_components False (components p)"
  by (simp add: Clean_def)

lemma visiblePath_eq:
  assumes ex: "\<And>e. e \<in> set excluded \<Longrightarrow> \<exists>es. e = from_components False es \<and> list_all proper es \<and> es \<noteq> []"
  shows "visiblePath excluded name =
    (if \<not> IsAbs name \<and> list_all proper (components name) \<and>
        (\<forall>e \<in> set excluded. \<nexists>ns. components name = components e @ ns)
     then Some (Clean name) else None)"
proof (cases "\<not> IsAbs name \<and> list_all proper (components name)")
  case True
  have "(Clean name = e \<or> HasPrefix (Clean name) (e @ ''/'')) \<longleftrightarrow> (\<exists>ns. components name = components e @ ns)"
    if e: "e \<in> set excluded" for e
  proof -
    obtain es where es: "e = from_components False es" "list_all proper es" "es \<noteq> []" using ex [OF e] by blast
    then show ?thesis using path_prefix [of "components name" es] True by (simp add: Clean_proper)
  qed
  then show ?thesis using True by (auto simp: visiblePath_def cleanPath_eq list_ex_iff)
qed (auto simp: visiblePath_def cleanPath_eq)

lemma excludedPaths_spec:
  assumes wd: "IsAbs wd" and abs: "IsAbs absolute" "Clean absolute = absolute" and strict: "\<forall>c \<in> set candidates. Abs wd c \<noteq> absolute"
  shows "e \<in> set (excludedPaths wd absolute candidates) \<longleftrightarrow>
    (\<exists>c \<in> set candidates. \<exists>es. es \<noteq> [] \<and> list_all proper es \<and> components (Abs wd c) = components absolute @ es \<and>
      e = from_components False es)"
proof -
  have one: "(case Rel absolute (Abs wd c) of Some rel \<Rightarrow> if pathWithinRoot rel then [Clean rel] else [] | None \<Rightarrow> []) =
      (if \<exists>es. components (Abs wd c) = components absolute @ es
       then [from_components False (drop (length (components absolute)) (components (Abs wd c)))] else [])" for c
  proof -
    obtain cs where cs: "Rel absolute (Abs wd c) = Some (from_components False cs)" "ups cs"
      "list_all proper cs \<longleftrightarrow> (\<exists>d. components (Abs wd c) = components absolute @ d)"
      "list_all proper cs \<longrightarrow> components (Abs wd c) = components absolute @ cs"
      using Rel_absolute_ex [OF abs(1) Abs_absolute [OF wd]] by blast
    then show ?thesis using pathWithinRoot_from [OF cs(2)] by (auto simp: Clean_def)
  qed
  have ne: "es \<noteq> [] \<and> list_all proper es" if "c \<in> set candidates" "components (Abs wd c) = components absolute @ es" for c es
  proof -
    have "list_all proper (components (Abs wd c))" using wd by (simp add: components_rooted Abs_absolute)
    moreover have "components (Abs wd c) \<noteq> components absolute"
      using strict that(1) clean_eqI [of "Abs wd c" absolute] abs wd by (auto simp: Abs_absolute)
    ultimately show ?thesis using that(2) by auto
  qed
  show ?thesis unfolding excludedPaths_def using ne by (force simp: one)
qed

text \<open>C17. What an export shows: a path is let through, cleaned, exactly when it is relative, stays inside
  the exported directory and does not lie inside an excluded directory below that directory;
  everything else is refused with \<open>EPERM\<close>.\<close>

theorem visible_paths:
  assumes wd: "IsAbs wd" and strict: "\<forall>c \<in> set candidates. Abs wd c \<noteq> Abs wd path"
  shows "bCleanPath r (OpenRootBackendWithOptions wd path dd candidates w) name =
    (if \<not> IsAbs name \<and> list_all proper (components name) \<and>
        (\<forall>c \<in> set candidates. \<nexists>es ns. components (Abs wd c) = components (Abs wd path) @ es \<and>
           components (Abs wd path) @ components name = components (Abs wd c) @ ns)
     then Inr (Clean name) else Inl (eperm r))"
proof -
  let ?a = "Abs wd path"
  have a: "IsAbs ?a" "Clean ?a = ?a" using wd by (simp_all add: Abs_absolute)
  note spec = excludedPaths_spec [OF wd a strict]
  have ok: "list_all proper es \<and> es \<noteq> []" if "c \<in> set candidates" "components (Abs wd c) = components ?a @ es" for c es
  proof -
    have "list_all proper (components (Abs wd c))" using wd by (simp add: components_rooted Abs_absolute)
    moreover have "components (Abs wd c) \<noteq> components ?a"
      using strict that(1) clean_eqI [of "Abs wd c" ?a] a wd by (auto simp: Abs_absolute)
    ultimately show ?thesis using that(2) by auto
  qed
  have "(\<forall>e \<in> set (excludedPaths wd ?a candidates). \<nexists>ns. components name = components e @ ns) \<longleftrightarrow>
      (\<forall>c \<in> set candidates. \<nexists>es ns. components (Abs wd c) = components ?a @ es \<and>
           components ?a @ components name = components (Abs wd c) @ ns)"
    using ok unfolding Ball_def spec by (auto 0 4)
  moreover have "\<exists>es. e = from_components False es \<and> list_all proper es \<and> es \<noteq> []"
    if "e \<in> set (excludedPaths wd ?a candidates)" for e using that spec by blast
  note visiblePath_eq [OF this, of "excludedPaths wd ?a candidates" name]
  ultimately show ?thesis by (simp add: bCleanPath_def OpenRootBackendWithOptions_def)
qed

text \<open>With deletion disabled, no call removes an entry or moves one out of its directory: both removals
  and every rename between different directories are refused with \<open>EPERM\<close> and have no effect.\<close>

theorem deletion_disabled:
  assumes "rbDisableDelete b"
  shows "rbRemove r name directory b = (Inl (eperm r), b) \<and>
    (case rbRename r old new b of (res, b') \<Rightarrow>
       res = Inl (eperm r) \<and> b' = b \<or>
       (\<exists>p q. bCleanPath r b old = Inr p \<and> bCleanPath r b new = Inr q \<and> Dir p = Dir q \<and>
          (res, b') = on_world (rRename r p q) b))"
  using assms by (auto simp: rbRemove_def rbRename_def with_path_def bCleanPath_def split: sum.split option.splits)

text \<open>A directory of regular files for the witnesses: an open makes a new file.\<close>

definition regular :: fileinfo where
  "regular = \<lparr>fiSize = 0, fiMode = 0x1A4, fiModTime = 0, fiSys = None\<rparr>"

definition file_root :: "nat root" where
  "file_root = \<lparr>rErr = linux, rLstat = (\<lambda>p w. Inr regular), rStat = (\<lambda>p w. Inr regular), rReadDir = (\<lambda>p w. Inr []),
     rOpenFile = (\<lambda>p fl m w. (Inr w, Suc w)), rMkdir = (\<lambda>p m w. (Inr (), w)), rRemove = (\<lambda>p w. (Inr (), w)),
     rRename = (\<lambda>p q w. (Inr (), w)), rLink = (\<lambda>p q w. (Inr (), w)), rSymlink = (\<lambda>p q w. (Inr (), w)),
     rReadlink = (\<lambda>p w. Inr p), rChmod = (\<lambda>p m w. (Inr (), w)), rChtimes = (\<lambda>p t u w. (Inr (), w)),
     rStatFS = (\<lambda>w. Inr StatFS0), rClose = (\<lambda>w. (Inr (), w)), fStat = (\<lambda>f w. Inr regular),
     fClose = (\<lambda>f w. (Inr (), w)), fReadAt = (\<lambda>f n off w. ([], Some EOF)),
     fWriteAt = (\<lambda>f d off w. (length d, None, w)), fSync = (\<lambda>f w. (Inr (), w)),
     fTruncate = (\<lambda>f n w. (Inr (), w)), fChmod = (\<lambda>f m w. (Inr (), w))\<rparr>"

definition home_export :: "nat rootBackend" where
  "home_export = OpenRootBackendWithOptions ''/'' ''/home/u'' True [''/home/u/.sshx/mounts''] 10"

lemma home_export_excluded: "rbExcluded home_export = [''.sshx/mounts'']"
  unfolding home_export_def OpenRootBackendWithOptions_def by simp code_simp

lemma visible_examples:
  "visiblePath [''.sshx/mounts''] ''f'' = Some ''f''" "visiblePath [''.sshx/mounts''] ''a/../b'' = Some ''b''"
  "visiblePath [''.sshx/mounts''] ''.sshx/mounts/s1'' = None" "visiblePath [''.sshx/mounts''] ''.sshx'' = Some ''.sshx''"
  "visiblePath [''.sshx/mounts''] ''old'' = Some ''old''" "visiblePath [''.sshx/mounts''] ''old/mounts/s1'' = Some ''old/mounts/s1''"
  by code_simp+

lemma open_read: "localOpenFlags OpenRead = Some \<lparr>lfAccess = O_RDONLY, lfCreate = False, lfExcl = False, lfTrunc = False, lfSync = False\<rparr>"
  by (simp add: localOpenFlags_def Valid_def OpenRead_def OpenWrite_def OpenCreate_def OpenExclusive_def
    OpenTruncate_def OpenAppend_def OpenSync_def Let_def)

lemma open_example: "rbExcluded b = [''.sshx/mounts''] \<Longrightarrow>
  rbOpen file_root ''f'' OpenRead 0 b = (Inr (rbNext b + 1, fileInfoToAttr regular),
    b\<lparr>rbWorld := Suc (rbWorld b), rbNext := rbNext b + 1, rbHandles := (rbHandles b)(rbNext b + 1 \<mapsto> rbWorld b)\<rparr>)"
  by (simp add: rbOpen_def with_path_def bCleanPath_def visible_examples open_read on_world_def file_root_def
    regular_def IsRegular_def ModeType_def Let_def)


theorem visible_paths_witness:
  "bCleanPath file_root home_export ''.sshx/mounts/s1'' = Inl (Errno 1) \<and> bCleanPath file_root home_export ''a/../b'' = Inr ''b''"
proof -
  have s: "IsAbs ''/''" "\<forall>c \<in> set [''/home/u/.sshx/mounts'']. Abs ''/'' c \<noteq> Abs ''/'' ''/home/u''" by code_simp+
  have c: "components (Abs ''/'' ''/home/u/.sshx/mounts'') = [''home'', ''u'', ''.sshx'', ''mounts'']"
    "components (Abs ''/'' ''/home/u'') = [''home'', ''u'']" "components ''a/../b'' = [''b'']" "Clean ''a/../b'' = ''b''"
    "components ''.sshx/mounts/s1'' = [''.sshx'', ''mounts'', ''s1'']" "\<not> IsAbs ''a/../b''" "proper ''b''"
    by code_simp+
  show ?thesis
    using visible_paths [OF s, of file_root True 10 "''a/../b''"] visible_paths [OF s, of file_root True 10 "''.sshx/mounts/s1''"] c
    by (simp add: home_export_def eperm_def file_root_def linux_def)
qed

theorem deletion_disabled_witness:
  "rbRemove file_root ''f'' False home_export = (Inl (Errno 1), home_export)"
proof -
  have "rbDisableDelete home_export" by (simp add: home_export_def OpenRootBackendWithOptions_def)
  from deletion_disabled [OF this, of file_root "''f''" False "''f''" "''g''"] show ?thesis
    by (simp add: eperm_def file_root_def linux_def)
qed

text \<open>The exclusion holds for a name, not for the directory under it: the parent of an excluded directory
  can be renamed even with deletion disabled, and then the excluded directory is let through under
  its new name.\<close>

theorem exclusion_lost_by_rename:
  "fst (rbLookup r ''.sshx/mounts/s1'' (home_export\<lparr>rbWorld := w\<rparr>)) = Inl (eperm r) \<and>
   rbRename r ''.sshx'' ''old'' (home_export\<lparr>rbWorld := w\<rparr>) =
     on_world (rRename r ''.sshx'' ''old'') (home_export\<lparr>rbWorld := w\<rparr>) \<and>
   bCleanPath r (snd (rbRename r ''.sshx'' ''old'' (home_export\<lparr>rbWorld := w\<rparr>))) ''old/mounts/s1'' = Inr ''old/mounts/s1''"
proof -
  have d: "Dir ''.sshx'' = Dir ''old''" by code_simp
  have r: "rbRename r ''.sshx'' ''old'' (home_export\<lparr>rbWorld := w\<rparr>) =
     on_world (rRename r ''.sshx'' ''old'') (home_export\<lparr>rbWorld := w\<rparr>)"
    by (simp add: rbRename_def with_path_def bCleanPath_def home_export_excluded visible_examples d)
  show ?thesis unfolding r
    by (simp add: rbLookup_def with_path_def bCleanPath_def home_export_excluded visible_examples eperm_def)
qed

end
