(* ===== verification/Peer.thy ===== *)
theory Peer
  imports RootBackend
begin

text \<open>
  \<open>internal/remotefs/peer.go\<close> and \<open>peer_backend.go\<close>: the two ends of a data connection. Each end
  serves the backends registered with it, and offers the backends of the other end through
  requests. A backend acts on a state, so that serving a request is a function on it; the regions
  the peer's mutexes protect are one definition each. \<open>msg\<close> is the text of an error.
\<close>

subsection \<open>Handshake\<close>

definition connectHello :: "string \<Rightarrow> string \<Rightarrow> wireFrame" where
  "connectHello sessionID token = wireFrame0\<lparr>wType := frameHello, wVersion := ProtocolVersion, wSessionID := sessionID, wToken := token\<rparr>"

text \<open>\<open>Accept\<close>: the reply, and the session with the base of the request ids or the error.\<close>

definition acceptHello ::
  "(string \<Rightarrow> string \<Rightarrow> string option) \<Rightarrow> wireFrame \<Rightarrow> wireFrame \<times> (string, string \<times> 64 word) result" where
  "acceptHello validate h =
     (if wType h \<noteq> frameHello \<or> wSessionID h = []
        then (wireFrame0\<lparr>wType := frameResponse, wError := ''invalid remote fs hello''\<rparr>, Inl ''invalid remote fs hello'')
      else if wVersion h \<noteq> ProtocolVersion
        then (wireFrame0\<lparr>wType := frameResponse, wVersion := ProtocolVersion, wError := ''remote fs protocol version changed''\<rparr>,
              Inl ''remote fs protocol version changed'')
      else case validate (wSessionID h) (wToken h) of
        Some err \<Rightarrow> (wireFrame0\<lparr>wType := frameResponse, wError := err\<rparr>, Inl err)
      | None \<Rightarrow> (wireFrame0\<lparr>wType := frameHelloOK, wVersion := ProtocolVersion, wSessionID := wSessionID h\<rparr>,
                 Inr (wSessionID h, 0)))"

definition connectReply :: "string \<Rightarrow> wireFrame \<Rightarrow> (string, string \<times> 64 word) result" where
  "connectReply sessionID response =
     (if wType response \<noteq> frameHelloOK then
        Inl (if wError response \<noteq> [] then wError response else ''unexpected remote fs handshake'')
      else if wVersion response \<noteq> ProtocolVersion then Inl ''remote fs protocol mismatch''
      else Inr (sessionID, 1))"

text \<open>\<open>Connect\<close> against a server that accepts as above.\<close>

definition Connect :: "(wireFrame \<Rightarrow> (string, wireFrame) result) \<Rightarrow> string \<Rightarrow> string \<Rightarrow> (string, string \<times> 64 word) result" where
  "Connect exchange sessionID token =
     (if sessionID = [] then Inl ''remote fs sessionId is required''
      else case exchange (connectHello sessionID token) of Inl err \<Rightarrow> Inl err | Inr response \<Rightarrow> connectReply sessionID response)"

subsection \<open>Serving requests\<close>

definition errorFrame :: "(goerr \<Rightarrow> string) \<Rightarrow> errtable \<Rightarrow> goerr \<Rightarrow> wireFrame" where
  "errorFrame msg os err = wireFrame0\<lparr>wErrorCode := errorCodeOf os (Some err), wError := msg err\<rparr>"

definition errorOrNone :: "(goerr \<Rightarrow> string) \<Rightarrow> errtable \<Rightarrow> (goerr, unit) result \<Rightarrow> wireFrame" where
  "errorOrNone msg os r = (case r of Inl err \<Rightarrow> errorFrame msg os err | Inr _ \<Rightarrow> wireFrame0)"

definition attrFrame :: "(goerr \<Rightarrow> string) \<Rightarrow> errtable \<Rightarrow> (goerr, Attr) result \<Rightarrow> wireFrame" where
  "attrFrame msg os r = (case r of Inl err \<Rightarrow> errorFrame msg os err | Inr attr \<Rightarrow> wireFrame0\<lparr>wAttr := attr\<rparr>)"

text \<open>A call of the backend and the frame made of its result.\<close>

definition reply :: "('r \<Rightarrow> wireFrame) \<Rightarrow> 'r \<times> 's \<Rightarrow> wireFrame \<times> 's" where
  "reply f rs = (case rs of (r, s) \<Rightarrow> (f r, s))"

definition okFrame :: "(goerr \<Rightarrow> string) \<Rightarrow> errtable \<Rightarrow> ('a \<Rightarrow> wireFrame) \<Rightarrow> (goerr, 'a) result \<Rightarrow> wireFrame" where
  "okFrame msg os f r = (case r of Inl err \<Rightarrow> errorFrame msg os err | Inr x \<Rightarrow> f x)"

definition serveBackend :: "(goerr \<Rightarrow> string) \<Rightarrow> errtable \<Rightarrow> 's backend_ops \<Rightarrow> wireFrame \<Rightarrow> 's \<Rightarrow> wireFrame \<times> 's" where
  "serveBackend msg os ops q s =
     (if wOp q = ''lookup'' then reply (attrFrame msg os) (boLookup ops (wPath q) s)
      else if wOp q = ''readdir'' then
        reply (okFrame msg os (\<lambda>entries. wireFrame0\<lparr>wEntries := entries\<rparr>)) (boReadDir ops (wPath q) s)
      else if wOp q = ''open'' then
        (if \<not> Valid (wOpenFlags q) then (errorFrame msg os (Errno (os EINVAL)), s)
         else reply (okFrame msg os (\<lambda>(handle, attr). wireFrame0\<lparr>wHandle := handle, wAttr := attr\<rparr>))
           (boOpen ops (wPath q) (wOpenFlags q) (wMode q) s))
      else if wOp q = ''close'' then reply (errorOrNone msg os) (boClose ops (wHandle q) s)
      else if wOp q = ''read'' then
        reply (okFrame msg os (\<lambda>data. wireFrame0\<lparr>wData := data, wSize := of_nat (length data)\<rparr>))
          (boRead ops (wHandle q) (wOffset q) (wSize q) s)
      else if wOp q = ''write'' then
        reply (okFrame msg os (\<lambda>sz. wireFrame0\<lparr>wSize := sz\<rparr>)) (boWrite ops (wHandle q) (wOffset q) (wData q) s)
      else if wOp q = ''fsync'' then reply (errorOrNone msg os) (boFsync ops (wHandle q) s)
      else if wOp q = ''mkdir'' then reply (attrFrame msg os) (boMkdir ops (wPath q) (wMode q) s)
      else if wOp q = ''unlink'' then reply (errorOrNone msg os) (boUnlink ops (wPath q) s)
      else if wOp q = ''rmdir'' then reply (errorOrNone msg os) (boRmdir ops (wPath q) s)
      else if wOp q = ''rename'' then reply (errorOrNone msg os) (boRename ops (wPath q) (wPath2 q) s)
      else if wOp q = ''link'' then reply (attrFrame msg os) (boLink ops (wPath q) (wPath2 q) s)
      else if wOp q = ''symlink'' then reply (attrFrame msg os) (boSymlink ops (wTarget q) (wPath q) s)
      else if wOp q = ''readlink'' then
        reply (okFrame msg os (\<lambda>target. wireFrame0\<lparr>wTarget := target\<rparr>)) (boReadlink ops (wPath q) s)
      else if wOp q = ''setattr'' then reply (attrFrame msg os) (boSetattr ops (wPath q) (wHandle q) (wChange q) s)
      else if wOp q = ''statfs'' then reply (okFrame msg os (\<lambda>st. wireFrame0\<lparr>wStatFS := st\<rparr>)) (boStatFS ops s)
      else (errorFrame msg os (Errno (os ENOSYS)), s))"

subsection \<open>State of a peer\<close>

record 's peer =
  pBackends :: "string \<rightharpoonup> 's backend_ops"
  pBackendClosed :: bool
  pMounts :: "string set"
  pMountClosed :: bool
  pNextID :: "64 word"
  pPending :: "64 word \<rightharpoonup> nat"
  pActive :: "64 word set"
  pCancelled :: "64 word set"
  pSem :: nat
  pDone :: bool
  pErr :: "goerr option"

definition startPeer :: "64 word \<Rightarrow> 's peer" where
  "startPeer requestIDBase = \<lparr>pBackends = Map.empty, pBackendClosed = False, pMounts = {}, pMountClosed = False,
     pNextID = requestIDBase, pPending = Map.empty, pActive = {}, pCancelled = {}, pSem = 0, pDone = False, pErr = None\<rparr>"

definition RegisterBackend :: "string \<Rightarrow> 's backend_ops \<Rightarrow> 's peer \<Rightarrow> string option \<times> 's peer" where
  "RegisterBackend mountID backend p =
     (if mountID = [] then (Some ''mountId and backend are required'', p)
      else if pBackendClosed p then (Some ''io: read/write on closed pipe'', p)
      else if pBackends p mountID \<noteq> None then (Some ''remote fs export already exists'', p)
      else (None, p\<lparr>pBackends := (pBackends p)(mountID \<mapsto> backend)\<rparr>))"

definition UnregisterBackend :: "string \<Rightarrow> 's peer \<Rightarrow> 's backend_ops option \<times> 's peer" where
  "UnregisterBackend mountID p = (pBackends p mountID, p\<lparr>pBackends := (pBackends p)(mountID := None)\<rparr>)"

text \<open>The part of \<open>handleRequest\<close> for backend operations.\<close>

definition handleBackendRequest ::
  "(goerr \<Rightarrow> string) \<Rightarrow> errtable \<Rightarrow> 's peer \<Rightarrow> wireFrame \<Rightarrow> 's \<Rightarrow> wireFrame \<times> 's" where
  "handleBackendRequest msg os p q s =
     (case pBackends p (wMountID q) of
        None \<Rightarrow> (errorFrame msg os (Errno (os ENOENT)), s)
      | Some ops \<Rightarrow> serveBackend msg os ops q s)"

text \<open>\<open>sendResponse\<close>: a response beyond the limits is replaced by an error.\<close>

definition sendResponse :: "(wireFrame \<Rightarrow> bool) \<Rightarrow> wireFrame \<Rightarrow> wireFrame" where
  "sendResponse fits response =
     (if fits response then response
      else wireFrame0\<lparr>wType := frameResponse, wID := wID response, wErrorCode := ErrorTooLarge,
        wError := ''remote fs frame is too large''\<rparr>)"

subsection \<open>Mounts of a peer, and its end\<close>

text \<open>The region after \<open>OnMount\<close>: the mount is entered, unless the peer closed or the request was cancelled,
  in which case the caller unmounts it.\<close>

definition mountEntered :: "bool \<Rightarrow> string \<Rightarrow> 's peer \<Rightarrow> bool \<times> 's peer" where
  "mountEntered cancelled mountID p =
     (if pMountClosed p \<or> cancelled then (False, p) else (True, p\<lparr>pMounts := insert mountID (pMounts p)\<rparr>))"

definition mountLeft :: "string \<Rightarrow> 's peer \<Rightarrow> 's peer" where
  "mountLeft mountID p = p\<lparr>pMounts := pMounts p - {mountID}\<rparr>"

text \<open>The two mount operations of \<open>handleRequest\<close>, with the outcome of the callbacks. \<open>onMount\<close> is \<open>None\<close> when
  the peer has no such callback; the second result tells whether the mount must be undone.\<close>

definition handleMountCreate ::
  "(goerr \<Rightarrow> string) \<Rightarrow> errtable \<Rightarrow> (goerr, string) result option \<Rightarrow> goerr option \<Rightarrow> wireFrame \<Rightarrow> 's peer \<Rightarrow>
   wireFrame \<times> bool \<times> 's peer" where
  "handleMountCreate msg os onMount ctxErr q p =
     (case onMount of
        None \<Rightarrow> (errorFrame msg os (Errno (os ENOTSUP)), False, p)
      | Some (Inl err) \<Rightarrow> (errorFrame msg os err, False, p)
      | Some (Inr path) \<Rightarrow>
          (case mountEntered (ctxErr \<noteq> None) (wMountID q) p of
             (True, p1) \<Rightarrow> (wireFrame0\<lparr>wMountPath := path\<rparr>, False, p1)
           | (False, p1) \<Rightarrow>
               (errorFrame msg os (case ctxErr of Some err \<Rightarrow> err | None \<Rightarrow> OtherErr ''io: read/write on closed pipe''),
                True, p1)))"

definition handleMountRelease ::
  "(goerr \<Rightarrow> string) \<Rightarrow> errtable \<Rightarrow> goerr option \<Rightarrow> wireFrame \<Rightarrow> 's peer \<Rightarrow> wireFrame \<times> 's peer" where
  "handleMountRelease msg os unmountErr q p =
     (case unmountErr of Some err \<Rightarrow> (errorFrame msg os err, p) | None \<Rightarrow> (wireFrame0, mountLeft (wMountID q) p))"

text \<open>\<open>close\<close>, once: the new state, the backends to close and the mounts to undo.\<close>

definition closePeer :: "goerr option \<Rightarrow> 's peer \<Rightarrow> 's peer \<times> (string \<rightharpoonup> 's backend_ops) \<times> string set" where
  "closePeer err p =
     (if pDone p then (p, Map.empty, {})
      else (p\<lparr>pErr := (case err of None \<Rightarrow> pErr p
                   | Some e \<Rightarrow> if cause e = EOF \<or> cause e = Canceled then pErr p else Some e),
              pActive := {}, pCancelled := pCancelled p \<union> pActive p, pBackends := Map.empty, pBackendClosed := True, pMountClosed := True, pMounts := {},
              pDone := True\<rparr>,
            pBackends p, pMounts p))"

subsection \<open>The read loop\<close>

text \<open>What the loop does with a frame: it hands a response to the waiting request, cancels a request being
  served and undoes the mount the frame names, serves a request in a goroutine of its own, answers it
  as busy, or ends the connection. \<open>pSem\<close> counts the requests in flight, \<open>pCancelled\<close> the cancelled
  ones; an id that is reused replaces the entry of the earlier request.\<close>

datatype peer_action =
    Deliver nat
  | Cancelled "string option"
  | Serve wireFrame
  | Answer wireFrame
  | Hangup goerr

definition busyFrame :: "64 word \<Rightarrow> wireFrame" where
  "busyFrame i = wireFrame0\<lparr>wType := frameResponse, wID := i, wErrorCode := ErrorBusy, wError := ''too many remote fs requests''\<rparr>"

text \<open>\<open>unmounts\<close> tells whether the peer has an \<open>OnUnmount\<close> callback.\<close>

definition peerFrame :: "bool \<Rightarrow> wireFrame \<Rightarrow> 's peer \<Rightarrow> peer_action option \<times> 's peer" where
  "peerFrame unmounts f p =
     (if wType f = frameResponse then (map_option Deliver (pPending p (wID f)), p)
      else if wType f = frameCancel then
        (let p1 = (if wID f \<in> pActive p then p\<lparr>pCancelled := insert (wID f) (pCancelled p)\<rparr> else p) in
         if wMountID f \<noteq> [] \<and> unmounts then (Some (Cancelled (Some (wMountID f))), p1\<lparr>pMounts := pMounts p1 - {wMountID f}\<rparr>)
         else (Some (Cancelled None), p1))
      else if wType f = frameRequest then
        (if pSem p < MaxInFlight
           then (Some (Serve f), p\<lparr>pSem := pSem p + 1, pActive := insert (wID f) (pActive p), pCancelled := pCancelled p - {wID f}\<rparr>)
         else (Some (Answer (busyFrame (wID f))), p))
      else (Some (Hangup (OtherErr ''unexpected remote fs frame'')), p))"

text \<open>The end of a served request: a cancelled one is not answered.\<close>

definition requestServed :: "64 word \<Rightarrow> wireFrame \<Rightarrow> 's peer \<Rightarrow> wireFrame option \<times> 's peer" where
  "requestServed i response p =
     (if i \<in> pCancelled p then None else Some (response\<lparr>wType := frameResponse, wID := i\<rparr>),
      p\<lparr>pActive := pActive p - {i}, pCancelled := pCancelled p - {i}, pSem := pSem p - 1\<rparr>)"

subsection \<open>Requests: the other end's backend\<close>

text \<open>A new request: its id, and the frame that is sent.\<close>

definition peerRequest :: "nat \<Rightarrow> wireFrame \<Rightarrow> 's peer \<Rightarrow> wireFrame \<times> 's peer" where
  "peerRequest ch q p =
     (let i = pNextID p + 2 in
      (q\<lparr>wType := frameRequest, wID := i\<rparr>, p\<lparr>pNextID := i, pPending := (pPending p)(i \<mapsto> ch)\<rparr>))"

definition peerRequestEnd :: "64 word \<Rightarrow> 's peer \<Rightarrow> 's peer" where
  "peerRequestEnd i p = p\<lparr>pPending := (pPending p)(i := None)\<rparr>"

text \<open>What a response means to the caller, and the call as a whole: an own frame beyond the limits is
  not sent; the served frame comes back through \<open>sendResponse\<close>.\<close>

definition responseResult :: "errtable \<Rightarrow> wireFrame \<Rightarrow> (goerr, wireFrame) result" where
  "responseResult os response =
     (if wErrorCode response \<noteq> [] then Inl (errorFromCode os (wErrorCode response))
      else if wError response \<noteq> [] then Inl (OtherErr (wError response))
      else Inr response)"

definition prepared :: "64 word \<Rightarrow> string \<Rightarrow> wireFrame \<Rightarrow> wireFrame" where
  "prepared i mountID q = q\<lparr>wMountID := mountID, wType := frameRequest, wID := i\<rparr>"

definition answered :: "64 word \<Rightarrow> wireFrame \<Rightarrow> wireFrame" where
  "answered i response = response\<lparr>wType := frameResponse, wID := i\<rparr>"

definition call ::
  "(wireFrame \<Rightarrow> bool) \<Rightarrow> errtable \<Rightarrow> 64 word \<Rightarrow> (wireFrame \<Rightarrow> 's \<Rightarrow> wireFrame \<times> 's) \<Rightarrow> string \<Rightarrow> wireFrame \<Rightarrow> 's \<Rightarrow>
   (goerr, wireFrame) result \<times> 's" where
  "call fits os i serve mountID q s =
     (let q = prepared i mountID q in
      if \<not> fits q then (Inl (Wrap ''send'' ErrFrameTooLarge), s)
      else case serve q s of (response, s1) \<Rightarrow> (responseResult os (sendResponse fits (answered i response)), s1))"

definition field :: "(wireFrame \<Rightarrow> 'a) \<Rightarrow> (goerr, wireFrame) result \<times> 's \<Rightarrow> (goerr, 'a) result \<times> 's" where
  "field f rs = (case rs of (Inl err, s) \<Rightarrow> (Inl err, s) | (Inr response, s) \<Rightarrow> (Inr (f response), s))"

definition request_of :: "string \<Rightarrow> wireFrame" where
  "request_of opname = wireFrame0\<lparr>wOp := opname\<rparr>"

definition remote_ops :: "(wireFrame \<Rightarrow> 's \<Rightarrow> (goerr, wireFrame) result \<times> 's) \<Rightarrow> 's backend_ops" where
  "remote_ops c = \<lparr>
     boLookup = (\<lambda>path s. field wAttr (c ((request_of ''lookup'')\<lparr>wPath := path\<rparr>) s)),
     boReadDir = (\<lambda>path s. field wEntries (c ((request_of ''readdir'')\<lparr>wPath := path\<rparr>) s)),
     boOpen = (\<lambda>path flags mode s. field (\<lambda>r. (wHandle r, wAttr r))
       (c ((request_of ''open'')\<lparr>wPath := path, wOpenFlags := flags, wMode := mode\<rparr>) s)),
     boClose = (\<lambda>handle s. field (\<lambda>r. ()) (c ((request_of ''close'')\<lparr>wHandle := handle\<rparr>) s)),
     boRead = (\<lambda>handle offset sz s. field wData
       (c ((request_of ''read'')\<lparr>wHandle := handle, wOffset := offset, wSize := sz\<rparr>) s)),
     boWrite = (\<lambda>handle offset data s. field wSize
       (c ((request_of ''write'')\<lparr>wHandle := handle, wOffset := offset, wData := data\<rparr>) s)),
     boFsync = (\<lambda>handle s. field (\<lambda>r. ()) (c ((request_of ''fsync'')\<lparr>wHandle := handle\<rparr>) s)),
     boMkdir = (\<lambda>path mode s. field wAttr (c ((request_of ''mkdir'')\<lparr>wPath := path, wMode := mode\<rparr>) s)),
     boUnlink = (\<lambda>path s. field (\<lambda>r. ()) (c ((request_of ''unlink'')\<lparr>wPath := path\<rparr>) s)),
     boRmdir = (\<lambda>path s. field (\<lambda>r. ()) (c ((request_of ''rmdir'')\<lparr>wPath := path\<rparr>) s)),
     boRename = (\<lambda>old new s. field (\<lambda>r. ()) (c ((request_of ''rename'')\<lparr>wPath := old, wPath2 := new\<rparr>) s)),
     boLink = (\<lambda>old new s. field wAttr (c ((request_of ''link'')\<lparr>wPath := old, wPath2 := new\<rparr>) s)),
     boSymlink = (\<lambda>target path s. field wAttr (c ((request_of ''symlink'')\<lparr>wTarget := target, wPath := path\<rparr>) s)),
     boReadlink = (\<lambda>path s. field wTarget (c ((request_of ''readlink'')\<lparr>wPath := path\<rparr>) s)),
     boSetattr = (\<lambda>path handle change s. field wAttr
       (c ((request_of ''setattr'')\<lparr>wPath := path, wHandle := handle, wChange := change\<rparr>) s)),
     boStatFS = (\<lambda>s. field wStatFS (c (request_of ''statfs'') s)),
     boCloseBackend = (\<lambda>s. (Inr (), s))\<rparr>"

text \<open>The remote backend of a mount id, seen from the one end, when the other end serves it.\<close>

definition RemoteBackend ::
  "(wireFrame \<Rightarrow> bool) \<Rightarrow> errtable \<Rightarrow> 64 word \<Rightarrow> (goerr \<Rightarrow> string) \<Rightarrow> errtable \<Rightarrow> 's peer \<Rightarrow> string \<Rightarrow> 's backend_ops" where
  "RemoteBackend fits here i msg there p mountID =
     remote_ops (call fits here i (handleBackendRequest msg there p) mountID)"

subsection \<open>Refinement: a remote backend is the backend\<close>

text \<open>What an error and a result become on the way.\<close>

definition across_err :: "errtable \<Rightarrow> (goerr \<Rightarrow> string) \<Rightarrow> errtable \<Rightarrow> goerr \<Rightarrow> goerr" where
  "across_err here msg there e =
     (if errorCodeOf there (Some e) = [] then OtherErr (msg e) else errorFromCode here (errorCodeOf there (Some e)))"

definition across :: "errtable \<Rightarrow> (goerr \<Rightarrow> string) \<Rightarrow> errtable \<Rightarrow> (goerr, 'a) result \<times> 's \<Rightarrow> (goerr, 'a) result \<times> 's" where
  "across here msg there rs = (case rs of (Inl e, s) \<Rightarrow> (Inl (across_err here msg there e), s) | (Inr x, s) \<Rightarrow> (Inr x, s))"

text \<open>The request and its answer are within the limits of the wire.\<close>

definition crosses ::
  "(wireFrame \<Rightarrow> bool) \<Rightarrow> 64 word \<Rightarrow> string \<Rightarrow> (wireFrame \<Rightarrow> 's \<Rightarrow> wireFrame \<times> 's) \<Rightarrow> wireFrame \<Rightarrow> 's \<Rightarrow> bool" where
  "crosses fits i mountID serve q s \<longleftrightarrow>
     fits (prepared i mountID q) \<and> fits (answered i (fst (serve (prepared i mountID q) s)))"

lemma responseResult_answered [simp]: "responseResult os (answered i f) = map_sum id (answered i) (responseResult os f)"
  by (simp add: responseResult_def answered_def)

lemma answered_fields [simp]:
  "wAttr (answered i f) = wAttr f" "wEntries (answered i f) = wEntries f" "wHandle (answered i f) = wHandle f"
  "wData (answered i f) = wData f" "wSize (answered i f) = wSize f" "wTarget (answered i f) = wTarget f"
  "wStatFS (answered i f) = wStatFS f"
  by (simp_all add: answered_def)

lemma call_crosses:
  "crosses fits i mountID serve q s \<Longrightarrow>
   call fits os i serve mountID q s =
     (map_sum id (answered i) (responseResult os (fst (serve (prepared i mountID q) s))), snd (serve (prepared i mountID q) s))"
  by (cases "serve (prepared i mountID q) s") (simp add: crosses_def call_def sendResponse_def Let_def)

lemma result_error: "msg e \<noteq> [] \<Longrightarrow> responseResult os (errorFrame msg there e) = Inl (across_err os msg there e)"
  by (simp add: responseResult_def errorFrame_def across_err_def)

lemma result_ok:
  "responseResult os wireFrame0 = Inr wireFrame0"
  "responseResult os (wireFrame0\<lparr>wAttr := a\<rparr>) = Inr (wireFrame0\<lparr>wAttr := a\<rparr>)"
  "responseResult os (wireFrame0\<lparr>wEntries := es\<rparr>) = Inr (wireFrame0\<lparr>wEntries := es\<rparr>)"
  "responseResult os (wireFrame0\<lparr>wHandle := h, wAttr := a\<rparr>) = Inr (wireFrame0\<lparr>wHandle := h, wAttr := a\<rparr>)"
  "responseResult os (wireFrame0\<lparr>wData := d, wSize := z\<rparr>) = Inr (wireFrame0\<lparr>wData := d, wSize := z\<rparr>)"
  "responseResult os (wireFrame0\<lparr>wSize := z\<rparr>) = Inr (wireFrame0\<lparr>wSize := z\<rparr>)"
  "responseResult os (wireFrame0\<lparr>wTarget := t\<rparr>) = Inr (wireFrame0\<lparr>wTarget := t\<rparr>)"
  "responseResult os (wireFrame0\<lparr>wStatFS := st\<rparr>) = Inr (wireFrame0\<lparr>wStatFS := st\<rparr>)"
  by (simp_all add: responseResult_def wireFrame0_def)

text \<open>Each kind of reply, decoded, is the result of the call.\<close>

lemma field_reply:
  assumes ok: "\<And>x. responseResult os (f (Inr x)) = Inr (g x)" "\<And>x. h (answered i (g x)) = x"
    and err: "\<And>e. f (Inl e) = errorFrame msg there e" "\<And>e. msg e \<noteq> []"
  shows "field h (map_sum id (answered i) (responseResult os (fst (reply f rs))), snd (reply f rs)) = across os msg there rs"
proof -
  obtain r s where rs: "rs = (r, s)" by (cases rs)
  show ?thesis
    using ok result_error [where msg = msg and os = os and there = there, OF err(2)] by (cases r) (simp_all add: rs reply_def field_def across_def err(1))
qed

lemma attr_reply:
  "(\<And>e. msg e \<noteq> []) \<Longrightarrow> field wAttr (map_sum id (answered i) (responseResult os (fst (reply (attrFrame msg there) rs))),
     snd (reply (attrFrame msg there) rs)) = across os msg there rs"
  by (rule field_reply [where g = "\<lambda>a. wireFrame0\<lparr>wAttr := a\<rparr>"]) (simp_all add: attrFrame_def result_ok)

lemma unit_reply:
  "(\<And>e. msg e \<noteq> []) \<Longrightarrow> field (\<lambda>r. ()) (map_sum id (answered i) (responseResult os (fst (reply (errorOrNone msg there) rs))),
     snd (reply (errorOrNone msg there) rs)) = across os msg there rs"
  by (rule field_reply [where g = "\<lambda>a. wireFrame0"]) (simp_all add: errorOrNone_def result_ok)

lemma ok_reply:
  assumes "\<And>e. msg e \<noteq> []" "\<And>x. responseResult os (f x) = Inr (f x)" "\<And>x. h (answered i (f x)) = x"
  shows "field h (map_sum id (answered i) (responseResult os (fst (reply (okFrame msg there f) rs))),
     snd (reply (okFrame msg there f) rs)) = across os msg there rs"
  by (rule field_reply [where g = f]) (simp_all add: okFrame_def assms)

lemma prepared_fields [simp]:
  "wOp (prepared i m q) = wOp q" "wPath (prepared i m q) = wPath q" "wPath2 (prepared i m q) = wPath2 q"
  "wTarget (prepared i m q) = wTarget q" "wHandle (prepared i m q) = wHandle q" "wOffset (prepared i m q) = wOffset q"
  "wSize (prepared i m q) = wSize q" "wOpenFlags (prepared i m q) = wOpenFlags q" "wMode (prepared i m q) = wMode q"
  "wChange (prepared i m q) = wChange q" "wData (prepared i m q) = wData q" "wMountID (prepared i m q) = m"
  by (simp_all add: prepared_def)

text \<open>A call whose request is served by one backend operation is that operation, seen across the wire.\<close>

lemma remote_call:
  assumes c: "crosses fits i m (handleBackendRequest msg there p) q s" and reg: "pBackends p m = Some ops"
    and serve: "serveBackend msg there ops (prepared i m q) s = reply f rs"
    and decode: "field h (map_sum id (answered i) (responseResult here (fst (reply f rs))), snd (reply f rs)) = across here msg there rs"
  shows "field h (call fits here i (handleBackendRequest msg there p) m q s) = across here msg there rs"
proof -
  have "handleBackendRequest msg there p (prepared i m q) s = reply f rs"
    using reg serve by (simp add: handleBackendRequest_def)
  then show ?thesis using call_crosses [OF c, of here] decode by simp
qed

lemma remote_lookup:
  assumes "crosses fits i m (handleBackendRequest msg there p) ((request_of ''lookup'')\<lparr>wPath := path\<rparr>) s" "pBackends p m = Some ops" "\<And>e. msg e \<noteq> []"
  shows "boLookup (RemoteBackend fits here i msg there p m) path s = across here msg there (boLookup ops path s)"
  unfolding RemoteBackend_def remote_ops_def backend_ops.simps
  by (rule remote_call [OF assms(1,2) _ attr_reply], simp add: serveBackend_def request_of_def assms(3))
    (simp_all add: assms(3) result_ok case_prod_beta)

lemma remote_readdir:
  assumes "crosses fits i m (handleBackendRequest msg there p) ((request_of ''readdir'')\<lparr>wPath := path\<rparr>) s" "pBackends p m = Some ops" "\<And>e. msg e \<noteq> []"
  shows "boReadDir (RemoteBackend fits here i msg there p m) path s = across here msg there (boReadDir ops path s)"
  unfolding RemoteBackend_def remote_ops_def backend_ops.simps
  by (rule remote_call [OF assms(1,2) _ ok_reply], simp add: serveBackend_def request_of_def assms(3))
    (simp_all add: assms(3) result_ok case_prod_beta)

lemma remote_open:
  assumes "crosses fits i m (handleBackendRequest msg there p) ((request_of ''open'')\<lparr>wPath := path, wOpenFlags := flags, wMode := mode\<rparr>) s" "pBackends p m = Some ops" "\<And>e. msg e \<noteq> []" "Valid flags"
  shows "boOpen (RemoteBackend fits here i msg there p m) path flags mode s = across here msg there (boOpen ops path flags mode s)"
  unfolding RemoteBackend_def remote_ops_def backend_ops.simps
  by (rule remote_call [OF assms(1,2) _ ok_reply], simp add: serveBackend_def request_of_def assms(3-))
    (simp_all add: assms(3) result_ok case_prod_beta)

lemma remote_close:
  assumes "crosses fits i m (handleBackendRequest msg there p) ((request_of ''close'')\<lparr>wHandle := handle\<rparr>) s" "pBackends p m = Some ops" "\<And>e. msg e \<noteq> []"
  shows "boClose (RemoteBackend fits here i msg there p m) handle s = across here msg there (boClose ops handle s)"
  unfolding RemoteBackend_def remote_ops_def backend_ops.simps
  by (rule remote_call [OF assms(1,2) _ unit_reply], simp add: serveBackend_def request_of_def assms(3))
    (simp_all add: assms(3) result_ok case_prod_beta)

lemma remote_read:
  assumes "crosses fits i m (handleBackendRequest msg there p) ((request_of ''read'')\<lparr>wHandle := handle, wOffset := offset, wSize := sz\<rparr>) s" "pBackends p m = Some ops" "\<And>e. msg e \<noteq> []"
  shows "boRead (RemoteBackend fits here i msg there p m) handle offset sz s = across here msg there (boRead ops handle offset sz s)"
  unfolding RemoteBackend_def remote_ops_def backend_ops.simps
  by (rule remote_call [OF assms(1,2) _ ok_reply], simp add: serveBackend_def request_of_def assms(3))
    (simp_all add: assms(3) result_ok case_prod_beta)

lemma remote_write:
  assumes "crosses fits i m (handleBackendRequest msg there p) ((request_of ''write'')\<lparr>wHandle := handle, wOffset := offset, wData := data\<rparr>) s" "pBackends p m = Some ops" "\<And>e. msg e \<noteq> []"
  shows "boWrite (RemoteBackend fits here i msg there p m) handle offset data s = across here msg there (boWrite ops handle offset data s)"
  unfolding RemoteBackend_def remote_ops_def backend_ops.simps
  by (rule remote_call [OF assms(1,2) _ ok_reply], simp add: serveBackend_def request_of_def assms(3))
    (simp_all add: assms(3) result_ok case_prod_beta)

lemma remote_fsync:
  assumes "crosses fits i m (handleBackendRequest msg there p) ((request_of ''fsync'')\<lparr>wHandle := handle\<rparr>) s" "pBackends p m = Some ops" "\<And>e. msg e \<noteq> []"
  shows "boFsync (RemoteBackend fits here i msg there p m) handle s = across here msg there (boFsync ops handle s)"
  unfolding RemoteBackend_def remote_ops_def backend_ops.simps
  by (rule remote_call [OF assms(1,2) _ unit_reply], simp add: serveBackend_def request_of_def assms(3))
    (simp_all add: assms(3) result_ok case_prod_beta)

lemma remote_mkdir:
  assumes "crosses fits i m (handleBackendRequest msg there p) ((request_of ''mkdir'')\<lparr>wPath := path, wMode := mode\<rparr>) s" "pBackends p m = Some ops" "\<And>e. msg e \<noteq> []"
  shows "boMkdir (RemoteBackend fits here i msg there p m) path mode s = across here msg there (boMkdir ops path mode s)"
  unfolding RemoteBackend_def remote_ops_def backend_ops.simps
  by (rule remote_call [OF assms(1,2) _ attr_reply], simp add: serveBackend_def request_of_def assms(3))
    (simp_all add: assms(3) result_ok case_prod_beta)

lemma remote_unlink:
  assumes "crosses fits i m (handleBackendRequest msg there p) ((request_of ''unlink'')\<lparr>wPath := path\<rparr>) s" "pBackends p m = Some ops" "\<And>e. msg e \<noteq> []"
  shows "boUnlink (RemoteBackend fits here i msg there p m) path s = across here msg there (boUnlink ops path s)"
  unfolding RemoteBackend_def remote_ops_def backend_ops.simps
  by (rule remote_call [OF assms(1,2) _ unit_reply], simp add: serveBackend_def request_of_def assms(3))
    (simp_all add: assms(3) result_ok case_prod_beta)

lemma remote_rmdir:
  assumes "crosses fits i m (handleBackendRequest msg there p) ((request_of ''rmdir'')\<lparr>wPath := path\<rparr>) s" "pBackends p m = Some ops" "\<And>e. msg e \<noteq> []"
  shows "boRmdir (RemoteBackend fits here i msg there p m) path s = across here msg there (boRmdir ops path s)"
  unfolding RemoteBackend_def remote_ops_def backend_ops.simps
  by (rule remote_call [OF assms(1,2) _ unit_reply], simp add: serveBackend_def request_of_def assms(3))
    (simp_all add: assms(3) result_ok case_prod_beta)

lemma remote_rename:
  assumes "crosses fits i m (handleBackendRequest msg there p) ((request_of ''rename'')\<lparr>wPath := path, wPath2 := path2\<rparr>) s" "pBackends p m = Some ops" "\<And>e. msg e \<noteq> []"
  shows "boRename (RemoteBackend fits here i msg there p m) path path2 s = across here msg there (boRename ops path path2 s)"
  unfolding RemoteBackend_def remote_ops_def backend_ops.simps
  by (rule remote_call [OF assms(1,2) _ unit_reply], simp add: serveBackend_def request_of_def assms(3))
    (simp_all add: assms(3) result_ok case_prod_beta)

lemma remote_link:
  assumes "crosses fits i m (handleBackendRequest msg there p) ((request_of ''link'')\<lparr>wPath := path, wPath2 := path2\<rparr>) s" "pBackends p m = Some ops" "\<And>e. msg e \<noteq> []"
  shows "boLink (RemoteBackend fits here i msg there p m) path path2 s = across here msg there (boLink ops path path2 s)"
  unfolding RemoteBackend_def remote_ops_def backend_ops.simps
  by (rule remote_call [OF assms(1,2) _ attr_reply], simp add: serveBackend_def request_of_def assms(3))
    (simp_all add: assms(3) result_ok case_prod_beta)

lemma remote_symlink:
  assumes "crosses fits i m (handleBackendRequest msg there p) ((request_of ''symlink'')\<lparr>wTarget := target, wPath := path\<rparr>) s" "pBackends p m = Some ops" "\<And>e. msg e \<noteq> []"
  shows "boSymlink (RemoteBackend fits here i msg there p m) target path s = across here msg there (boSymlink ops target path s)"
  unfolding RemoteBackend_def remote_ops_def backend_ops.simps
  by (rule remote_call [OF assms(1,2) _ attr_reply], simp add: serveBackend_def request_of_def assms(3))
    (simp_all add: assms(3) result_ok case_prod_beta)

lemma remote_readlink:
  assumes "crosses fits i m (handleBackendRequest msg there p) ((request_of ''readlink'')\<lparr>wPath := path\<rparr>) s" "pBackends p m = Some ops" "\<And>e. msg e \<noteq> []"
  shows "boReadlink (RemoteBackend fits here i msg there p m) path s = across here msg there (boReadlink ops path s)"
  unfolding RemoteBackend_def remote_ops_def backend_ops.simps
  by (rule remote_call [OF assms(1,2) _ ok_reply], simp add: serveBackend_def request_of_def assms(3))
    (simp_all add: assms(3) result_ok case_prod_beta)

lemma remote_setattr:
  assumes "crosses fits i m (handleBackendRequest msg there p) ((request_of ''setattr'')\<lparr>wPath := path, wHandle := handle, wChange := change\<rparr>) s" "pBackends p m = Some ops" "\<And>e. msg e \<noteq> []"
  shows "boSetattr (RemoteBackend fits here i msg there p m) path handle change s = across here msg there (boSetattr ops path handle change s)"
  unfolding RemoteBackend_def remote_ops_def backend_ops.simps
  by (rule remote_call [OF assms(1,2) _ attr_reply], simp add: serveBackend_def request_of_def assms(3))
    (simp_all add: assms(3) result_ok case_prod_beta)

lemma remote_statfs:
  assumes "crosses fits i m (handleBackendRequest msg there p) ((request_of ''statfs'')) s" "pBackends p m = Some ops" "\<And>e. msg e \<noteq> []"
  shows "boStatFS (RemoteBackend fits here i msg there p m) s = across here msg there (boStatFS ops s)"
  unfolding RemoteBackend_def remote_ops_def backend_ops.simps
  by (rule remote_call [OF assms(1,2) _ ok_reply], simp add: serveBackend_def request_of_def assms(3))
    (simp_all add: assms(3) result_ok case_prod_beta)

lemma guardI: "(c \<Longrightarrow> x) \<Longrightarrow> (if c then x else True)"
  by simp


text \<open>A peer that exports the example directory under the id \<open>w\<close>.\<close>

definition exporting :: "nat rootBackend peer" where
  "exporting = snd (RegisterBackend ''w'' (root_ops file_root []) (startPeer 0))"


text \<open>An error of known meaning keeps it; so the contract on handles holds across the wire.\<close>

lemma across_err_meaning:
  assumes "sound_table there" "errnoOf there (Some e) \<noteq> 0"
  shows "across_err here msg there e = Errno (here (meaning there (errnoOf there (Some e))))"
  using codeName_errorCodeOf [OF assms] by (simp add: across_err_def errorFromCode_def)

text \<open>Frames without payload: no data, no paths, no entries, and a short error text.\<close>

definition small :: "wireFrame \<Rightarrow> bool" where
  "small f \<longleftrightarrow> wData f = [] \<and> wPath f = [] \<and> wPath2 f = [] \<and> wTarget f = [] \<and> wEntries f = [] \<and> wMountPath f = [] \<and>
     length (wMountID f) \<le> 1024 \<and> length (wError f) \<le> 1024"

lemma call_small:
  assumes fits: "\<And>f. small f \<Longrightarrow> fits f" and m: "length m \<le> 1024" and reg: "pBackends p m = Some ops" and q: "small q"
  shows "call fits here i (handleBackendRequest msg there p) m q s =
    (responseResult here (sendResponse fits (answered i (fst (serveBackend msg there ops (prepared i m q) s)))),
     snd (serveBackend msg there ops (prepared i m q) s))"
proof -
  have "small (prepared i m q)" using q m by (simp add: small_def prepared_def)
  then show ?thesis using fits reg
    by (simp add: call_def handleBackendRequest_def Let_def split: prod.split)
qed

text \<open>Whatever comes back, the call has the effect of the backend's operation.\<close>

lemma snd_field [simp]: "snd (field h rs) = snd rs"
  by (simp add: field_def split: prod.split sum.split)

lemma snd_reply [simp]: "snd (reply f rs) = snd rs"
  by (simp add: reply_def split: prod.split)

lemma snd_call:
  "pBackends p m = Some ops \<Longrightarrow> snd (call fits here i (handleBackendRequest msg there p) m q s) =
     (if fits (prepared i m q) then snd (serveBackend msg there ops (prepared i m q) s) else s)"
  by (simp add: call_def handleBackendRequest_def Let_def split: prod.split)

lemma too_large: "\<not> fits f \<Longrightarrow> \<exists>e. responseResult os (sendResponse fits f) = Inl e"
  by (simp add: sendResponse_def responseResult_def ErrorTooLarge_def)

lemma error_stays: "msg e \<noteq> [] \<Longrightarrow> \<exists>e'. responseResult os (sendResponse fits (answered i (errorFrame msg there e))) = Inl e'"
  using too_large [of fits "answered i (errorFrame msg there e)" os] result_error [of msg e os there]
  by (cases "fits (answered i (errorFrame msg there e))") (simp_all add: sendResponse_def)

lemma serve_close: "serveBackend msg there ops (prepared i m ((request_of ''close'')\<lparr>wHandle := h\<rparr>)) s =
    reply (errorOrNone msg there) (boClose ops h s)"
  by (simp add: serveBackend_def request_of_def)

lemma serve_fsync: "serveBackend msg there ops (prepared i m ((request_of ''fsync'')\<lparr>wHandle := h\<rparr>)) s =
    reply (errorOrNone msg there) (boFsync ops h s)"
  by (simp add: serveBackend_def request_of_def)

lemma serve_read:
  "serveBackend msg there ops (prepared i m ((request_of ''read'')\<lparr>wHandle := h, wOffset := off, wSize := sz\<rparr>)) s =
    reply (okFrame msg there (\<lambda>data. wireFrame0\<lparr>wData := data, wSize := of_nat (length data)\<rparr>)) (boRead ops h off sz s)"
  by (simp add: serveBackend_def request_of_def)

lemma serve_write:
  "serveBackend msg there ops (prepared i m ((request_of ''write'')\<lparr>wHandle := h, wOffset := off, wData := d\<rparr>)) s =
    reply (okFrame msg there (\<lambda>sz. wireFrame0\<lparr>wSize := sz\<rparr>)) (boWrite ops h off d s)"
  by (simp add: serveBackend_def request_of_def)

context handle_backend
begin

lemma across_the_wire:
  assumes bad: "bad = Errno (there EBADF)" "sound_table there" and msg: "\<And>e. msg e \<noteq> []" "length (msg bad) \<le> 1024"
    and fits: "\<And>f. small f \<Longrightarrow> fits f" and m: "length m \<le> 1024" and reg: "pBackends p m = Some ops"
  shows "handle_backend (RemoteBackend fits here i msg there p m) live room (Errno (here EBADF))"
proof -
  let ?R = "RemoteBackend fits here i msg there p m"
  have c: "call fits here i (handleBackendRequest msg there p) m q s =
      (responseResult here (sendResponse fits (answered i (fst (serveBackend msg there ops (prepared i m q) s)))),
       snd (serveBackend msg there ops (prepared i m q) s))" if "small q" for q s
    by (rule call_small [OF _ m reg that]) (rule fits)
  note sn = snd_call [OF reg]
  note unf = RemoteBackend_def remote_ops_def backend_ops.simps
  have sm: "small ((request_of n)\<lparr>wHandle := h\<rparr>)" "small ((request_of n)\<lparr>wHandle := h, wOffset := off, wSize := sz\<rparr>)" for n h off sz
    by (simp_all add: small_def request_of_def wireFrame0_def)
  have close: "snd (boClose ?R h s) = snd (boClose ops h s)" for h s
    unfolding unf by (simp add: c [OF sm(1)] serve_close serve_fsync)
  have fsync: "snd (boFsync ?R h s) = snd (boFsync ops h s)" for h s
    unfolding unf by (simp add: c [OF sm(1)] serve_close serve_fsync)
  have read: "snd (boRead ?R h off sz s) = snd (boRead ops h off sz s)" for h off sz s
    unfolding unf by (simp add: c [OF sm(2)] serve_read)
  have wr: "snd (boWrite ?R h off data s) = s \<or> snd (boWrite ?R h off data s) = snd (boWrite ops h off data s)" for h off data s
    unfolding unf by (simp add: sn serve_write)
  have fb: "fits (answered i (errorFrame msg there bad))"
    using msg(2) by (intro fits) (simp add: small_def answered_def errorFrame_def wireFrame0_def)
  have n: "errnoOf there (Some bad) = there EBADF" "there EBADF \<noteq> 0"
    using bad by (simp_all add: errnoOf_def sound_table_def)
  have rb: "responseResult here (sendResponse fits (answered i (errorFrame msg there bad))) = Inl (Errno (here EBADF))"
    using fb result_error [OF msg(1), where os = here and there = there and e = bad] across_err_meaning [OF bad(2), where e = bad and here = here and msg = msg] n bad(2)
    by (simp add: sendResponse_def)
  have opn: "(\<exists>e. res = Inl e \<and> (s' = s \<or> (\<exists>e'. boOpen ops path f md s = (Inl e', s')))) \<or>
      (\<exists>h a. res = Inr (h, a) \<and> boOpen ops path f md s = (Inr (h, a), s'))"
    if o: "boOpen ?R path f md s = (res, s')" for path f md s res s'
  proof -
    let ?q = "prepared i m ((request_of ''open'')\<lparr>wPath := path, wOpenFlags := f, wMode := md\<rparr>)"
    have sv: "serveBackend msg there ops ?q s = (if \<not> Valid f then (errorFrame msg there (Errno (there EINVAL)), s)
        else reply (okFrame msg there (\<lambda>(handle, attr). wireFrame0\<lparr>wHandle := handle, wAttr := attr\<rparr>)) (boOpen ops path f md s))"
      by (simp add: serveBackend_def request_of_def)
    show ?thesis
    proof (cases "fits ?q")
      case False
      then show ?thesis using o by (auto simp add: unf call_def field_def Let_def)
    next
      case True
      then have o2: "field (\<lambda>r. (wHandle r, wAttr r)) (case serveBackend msg there ops ?q s of
          (response, s1) \<Rightarrow> (responseResult here (sendResponse fits (answered i response)), s1)) = (res, s')"
        using o reg by (simp add: unf call_def handleBackendRequest_def Let_def)
      show ?thesis
      proof (cases "Valid f")
        case False
        obtain e' where "responseResult here (sendResponse fits (answered i (errorFrame msg there (Errno (there EINVAL))))) = Inl e'"
          using error_stays [where msg = msg, OF msg(1)] by blast
        then show ?thesis using o2 False sv by (auto simp add: field_def)
      next
        case v: True
        obtain r1 s1 where b: "boOpen ops path f md s = (r1, s1)" by (cases "boOpen ops path f md s")
        show ?thesis
        proof (cases r1)
          case (Inl e)
          obtain e' where "responseResult here (sendResponse fits (answered i (errorFrame msg there e))) = Inl e'"
            using error_stays [where msg = msg, OF msg(1)] by blast
          then show ?thesis using o2 v sv b Inl by (auto simp add: field_def reply_def okFrame_def)
        next
          case (Inr ha)
          obtain h a where ha: "ha = (h, a)" by (cases ha)
          have "fits (answered i (wireFrame0\<lparr>wHandle := h, wAttr := a\<rparr>))"
            by (intro fits) (simp add: small_def answered_def wireFrame0_def)
          then have "responseResult here (sendResponse fits (answered i (wireFrame0\<lparr>wHandle := h, wAttr := a\<rparr>))) =
              Inr (answered i (wireFrame0\<lparr>wHandle := h, wAttr := a\<rparr>))"
            by (simp add: sendResponse_def result_ok)
          then show ?thesis using o2 v sv b Inr ha by (auto simp add: field_def reply_def okFrame_def)
        qed
      qed
    qed
  qed
  have opnR: "boOpen ops path f md s = (Inr (h, a), s')" if "boOpen ?R path f md s = (Inr (h, a), s')" for path f md s h a s'
    using opn [OF that] by simp
  have opnL: "s' = s \<or> (\<exists>e'. boOpen ops path f md s = (Inl e', s'))" if "boOpen ?R path f md s = (Inl e, s')" for path f md s e s'
    using opn [OF that] by simp
  have dead: "boClose ?R h s = (Inl (Errno (here EBADF)), s)" "boFsync ?R h s = (Inl (Errno (here EBADF)), s)"
    "boRead ?R h off sz s = (Inl (Errno (here EBADF)), s)" if "h \<notin> live s" for h s off sz
    unfolding unf using rb dead_close [OF that] dead_fsync [OF that] dead_read [OF that]
    by (simp_all add: c [OF sm(1)] c [OF sm(2)] serve_close serve_fsync serve_read reply_def errorOrNone_def okFrame_def field_def)
  show ?thesis
  proof
    show "room (Suc n) s \<Longrightarrow> room n s" for n s by (rule room_less)
    show "room (Suc n) s \<Longrightarrow> boOpen ?R path f md s = (Inr (h, a), s') \<Longrightarrow>
        h \<notin> live s \<and> live s' = insert h (live s) \<and> room n s'" for n s path f md h a s'
      using opnR open_fresh by blast
    show "room (Suc n) s \<Longrightarrow> boOpen ?R path f md s = (Inl e, s') \<Longrightarrow> live s' = live s \<and> room n s'" for n s path f md e s'
      using opnL [of path f md s e s'] open_fails [of n s path f md _ s'] room_less [of n s] by blast
    show "boClose ?R h s = (r, s') \<Longrightarrow> live s' = live s - {h} \<and> (room n s \<longrightarrow> room n s')" for h s r s' n
      using close [of h s] close_live [of h s "fst (boClose ops h s)" "snd (boClose ops h s)" n] by simp
    show "boRead ?R h off sz s = (r, s') \<Longrightarrow> live s' = live s \<and> (room n s \<longrightarrow> room n s')" for h off sz s r s' n
      using read [of h off sz s] read_keeps [of h off sz s "fst (boRead ops h off sz s)" "snd (boRead ops h off sz s)" n] by simp
    show "boFsync ?R h s = (r, s') \<Longrightarrow> live s' = live s \<and> (room n s \<longrightarrow> room n s')" for h s r s' n
      using fsync [of h s] fsync_keeps [of h s "fst (boFsync ops h s)" "snd (boFsync ops h s)" n] by simp
    show "boWrite ?R h off data s = (r, s') \<Longrightarrow> live s' = live s \<and> (room n s \<longrightarrow> room n s')" for h off data s r s' n
      using wr [of h off data s] write_keeps [of h off data s "fst (boWrite ops h off data s)" "snd (boWrite ops h off data s)" n] by auto
    show "h \<notin> live s \<Longrightarrow> boClose ?R h s = (Inl (Errno (here EBADF)), s)" for h s by (rule dead(1))
    show "h \<notin> live s \<Longrightarrow> boRead ?R h off sz s = (Inl (Errno (here EBADF)), s)" for h off sz s by (rule dead(3))
    show "h \<notin> live s \<Longrightarrow> boFsync ?R h s = (Inl (Errno (here EBADF)), s)" for h s by (rule dead(2))
  qed
qed

end

text \<open>The other end of the connection works on the exported directory: its contract, as the caller sees it.\<close>

lemmas remote_root_handles = root_files.across_the_wire

text \<open>The contract on file handles survives the wire: over a connection that carries small frames, a
  handle of an exported directory that was closed remotely is refused with the \<open>EBADF\<close> of the caller's
  system by read, close and fsync, with no effect, until an open hands the number out again.\<close>

theorem remote_handles:
  assumes reg: "pBackends p m = Some (root_ops r fs)" and os: "sound_table (rErr r)"
    and msg: "\<And>e. msg e \<noteq> []" "length (msg (Errno (rErr r EBADF))) \<le> 1024"
    and fits: "\<And>f. small f \<Longrightarrow> fits f" and m: "length m \<le> 1024"
    and start: "handle_calls (RemoteBackend fits here i msg (rErr r) p m) pre (OpenRootBackendWithOptions wd path dd ex w) = (hs0, b)"
    and few: "opens pre + opens cs < 2 ^ 64 - 1"
    and close: "boClose (RemoteBackend fits here i msg (rErr r) p m) h b = (res, b1)"
    and later: "handle_calls (RemoteBackend fits here i msg (rErr r) p m) cs b1 = (hs, b2)"
  shows "if h \<in> set hs then True else
    boRead (RemoteBackend fits here i msg (rErr r) p m) h off sz b2 = (Inl (Errno (here EBADF)), b2) \<and>
    boClose (RemoteBackend fits here i msg (rErr r) p m) h b2 = (Inl (Errno (here EBADF)), b2) \<and>
    boFsync (RemoteBackend fits here i msg (rErr r) p m) h b2 = (Inl (Errno (here EBADF)), b2)"
proof -
  let ?b0 = "OpenRootBackendWithOptions wd path dd ex w"
  have remote: "handle_backend (RemoteBackend fits here i msg (rErr r) p m) rb_live rb_room (Errno (here EBADF))"
    by (rule remote_root_handles [where msg = msg and there = "rErr r" and r = r and files = fs])
      (use msg fits os m reg in auto)
  have "rb_room (opens pre + opens cs) ?b0"
    using few by (simp add: rb_room_def OpenRootBackendWithOptions_def)
  then have "rb_room (opens cs) b" using handle_backend.calls_live [OF remote _ start] by blast
  then show ?thesis using handle_backend.dead_until_reopened [OF remote _ close later] by simp
qed

theorem remote_handles_witness:
  "let rb = RemoteBackend (\<lambda>f. length (wData f) \<le> MaxDataSize) darwin 3 (\<lambda>e. ''refused'') linux exporting ''w'' in
   \<exists>b. handle_calls rb [COpen ''f'' OpenRead 0] home_export = ([2], b) \<and> fst (boClose rb 2 b) = Inr () \<and>
     fst (boRead rb 2 0 10 (snd (boClose rb 2 b))) = Inl (Errno 9)"
proof -
  let ?fits = "\<lambda>f. length (wData f) \<le> MaxDataSize" let ?msg = "\<lambda>e. ''refused''"
  let ?rb = "RemoteBackend ?fits darwin 3 ?msg linux exporting ''w''"
  let ?b = "home_export\<lparr>rbWorld := Suc (rbWorld home_export), rbNext := rbNext home_export + 1,
    rbHandles := (rbHandles home_export)(rbNext home_export + 1 \<mapsto> rbWorld home_export)\<rparr>"
  have reg: "pBackends exporting ''w'' = Some (root_ops file_root [])"
    by (simp add: exporting_def RegisterBackend_def startPeer_def)
  have e: "rbNext home_export = 1" "rbWorld home_export = 10" "rbHandles home_export = Map.empty"
    by (simp_all add: home_export_def OpenRootBackendWithOptions_def)
  have o: "boOpen (root_ops file_root []) ''f'' OpenRead 0 home_export = (Inr (2, fileInfoToAttr regular), ?b)"
    by (simp add: root_ops_def open_example home_export_excluded e)
  have cl: "boClose (root_ops file_root []) 2 ?b = (Inr (), ?b\<lparr>rbHandles := Map.empty\<rparr>)"
    by (simp add: root_ops_def rbClose_def on_world_def file_root_def e)
  have v: "Valid OpenRead" by code_simp
  have c1: "crosses ?fits 3 ''w'' (handleBackendRequest ?msg linux exporting)
      ((request_of ''open'')\<lparr>wPath := ''f'', wOpenFlags := OpenRead, wMode := 0\<rparr>) home_export"
    using v by (simp add: crosses_def handleBackendRequest_def reg serveBackend_def request_of_def o reply_def okFrame_def
      wireFrame0_def)
  have c2: "crosses ?fits 3 ''w'' (handleBackendRequest ?msg linux exporting) ((request_of ''close'')\<lparr>wHandle := 2\<rparr>) ?b"
    unfolding crosses_def handleBackendRequest_def prepared_fields reg option.case serveBackend_def
    by (simp add: request_of_def cl reply_def errorOrNone_def wireFrame0_def)
  have 1: "handle_calls ?rb [COpen ''f'' OpenRead 0] home_export = ([2], ?b)"
    by (simp add: remote_open [OF c1 reg _ v] o across_def)
  have 2: "boClose ?rb 2 ?b = (Inr (), ?b\<lparr>rbHandles := Map.empty\<rparr>)"
    using remote_close [OF c2 reg, of darwin] unfolding cl by (simp add: across_def)
  have t: "sound_table (rErr file_root)" "rErr file_root = linux" by (simp_all add: file_root_def tables_sound)
  define b b1 where "b = ?b" and "b1 = ?b\<lparr>rbHandles := Map.empty\<rparr>"
  note 1 = 1 [folded b_def] and 2 = 2 [folded b1_def b_def]
  have "boRead ?rb 2 0 10 b1 = (Inl (Errno (darwin EBADF)), b1)"
    using remote_handles [OF reg t(1), where msg = ?msg and fits = ?fits and here = darwin and i = 3
      and cs = "[]", unfolded t(2), OF _ _ _ _ 1 [unfolded home_export_def] _ 2, of "[]" b1 0 10]
    by (simp add: opens_def small_def)
  moreover have "darwin EBADF = 9" by (simp add: darwin_def)
  ultimately show ?thesis using 1 2 by (auto simp: Let_def)
qed

subsection \<open>Histories of a peer\<close>

text \<open>The events at one end of the connection: a frame arrives, a served request ends, a request is sent or
  given up, a backend comes or goes, the mount callback succeeded for a request (cancelled or not), a mount
  was released, the connection ends. The log keeps the mounts created and those given back to
  \<open>OnUnmount\<close>.\<close>

datatype 's peer_event =
    EFrame wireFrame
  | EServed "64 word" wireFrame
  | ERequest nat wireFrame
  | ERequestEnd "64 word"
  | ERegister string "'s backend_ops"
  | EUnregister string
  | EMounted "goerr option" wireFrame string
  | EReleased wireFrame
  | EClosed "goerr option"

record mount_log =
  mlCreated :: "string set"
  mlUndone :: "string set"

definition undo :: "string set \<Rightarrow> mount_log \<Rightarrow> mount_log" where
  "undo ms l = l\<lparr>mlUndone := mlUndone l \<union> ms\<rparr>"

fun peerEvent ::
  "(goerr \<Rightarrow> string) \<Rightarrow> errtable \<Rightarrow> 's peer_event \<Rightarrow> 's peer \<times> mount_log \<Rightarrow> 's peer \<times> mount_log" where
  "peerEvent msg os (EFrame f) (p, l) =
     (case peerFrame True f p of
        (Some (Cancelled (Some m)), p1) \<Rightarrow> (p1, undo {m} l)
      | (Some (Hangup err), p1) \<Rightarrow> (case closePeer (Some err) p1 of (p2, _, ms) \<Rightarrow> (p2, undo ms l))
      | (_, p1) \<Rightarrow> (p1, l))"
| "peerEvent msg os (EServed i response) (p, l) = (snd (requestServed i response p), l)"
| "peerEvent msg os (ERequest ch q) (p, l) = (snd (peerRequest ch q p), l)"
| "peerEvent msg os (ERequestEnd i) (p, l) = (peerRequestEnd i p, l)"
| "peerEvent msg os (ERegister m ops) (p, l) = (snd (RegisterBackend m ops p), l)"
| "peerEvent msg os (EUnregister m) (p, l) = (snd (UnregisterBackend m p), l)"
| "peerEvent msg os (EMounted ctxErr q path) (p, l) =
     (case handleMountCreate msg os (Some (Inr path)) ctxErr q p of
        (_, undone, p1) \<Rightarrow> (p1, (if undone then undo {wMountID q} else id) (l\<lparr>mlCreated := insert (wMountID q) (mlCreated l)\<rparr>)))"
| "peerEvent msg os (EReleased q) (p, l) = (snd (handleMountRelease msg os None q p), undo {wMountID q} l)"
| "peerEvent msg os (EClosed err) (p, l) = (case closePeer err p of (p1, _, ms) \<Rightarrow> (p1, undo ms l))"

definition peerHistory ::
  "(goerr \<Rightarrow> string) \<Rightarrow> errtable \<Rightarrow> 's peer_event list \<Rightarrow> 's peer \<Rightarrow> 's peer \<times> mount_log" where
  "peerHistory msg os es p = fold (peerEvent msg os) es (p, \<lparr>mlCreated = {}, mlUndone = {}\<rparr>)"

definition peer_inv :: "64 word \<Rightarrow> 's peer \<times> mount_log \<Rightarrow> bool" where
  "peer_inv base pl = (case pl of (p, l) \<Rightarrow>
     mlCreated l \<subseteq> pMounts p \<union> mlUndone l \<and> pMounts p \<subseteq> mlCreated l \<and>
     (pDone p \<longrightarrow> pMounts p = {} \<and> pBackends p = Map.empty \<and> pMountClosed p \<and> pBackendClosed p) \<and>
     pSem p \<le> MaxInFlight \<and> odd (pNextID p) = odd base \<and> (\<forall>i \<in> dom (pPending p). odd i = odd base))"

lemma odd_next [simp]: "odd (i + 2 :: 64 word) = odd i"
  by simp

lemma peer_inv_start: "peer_inv base (startPeer base, \<lparr>mlCreated = {}, mlUndone = {}\<rparr>)"
  by (simp add: peer_inv_def startPeer_def)

lemma peer_inv_close:
  "peer_inv base (p, l) \<Longrightarrow> closePeer err p = (p1, bs, ms) \<Longrightarrow> peer_inv base (p1, undo ms l)"
  by (auto simp: peer_inv_def closePeer_def undo_def split: if_splits)

lemma peer_inv_event: "peer_inv base pl \<Longrightarrow> peer_inv base (peerEvent msg os e pl)"
proof -
  assume inv: "peer_inv base pl"
  obtain p l where pl: "pl = (p, l)" by (cases pl)
  note inv = inv [unfolded pl]
  show ?thesis
  proof (cases e)
    case (EFrame f)
    show ?thesis
    proof (cases "wType f = frameResponse \<or> wType f = frameCancel \<or> wType f = frameRequest")
      case True
      then show ?thesis using inv unfolding pl EFrame
        by (auto simp: peerFrame_def Let_def peer_inv_def undo_def frameResponse_def frameCancel_def frameRequest_def split: option.splits)
    next
      case False
      then show ?thesis using inv unfolding pl EFrame
        by (auto simp: peerFrame_def split: prod.splits intro: peer_inv_close)
    qed
  next
    case (EClosed err)
    then show ?thesis using inv unfolding pl by (auto split: prod.splits intro: peer_inv_close)
  next
    case (EMounted ctxErr q path)
    then show ?thesis using inv unfolding pl
      by (auto simp: handleMountCreate_def mountEntered_def peer_inv_def undo_def)
  qed (use inv in \<open>auto simp: pl peer_inv_def requestServed_def peerRequest_def peerRequestEnd_def RegisterBackend_def
      UnregisterBackend_def handleMountRelease_def mountLeft_def undo_def Let_def\<close>)
qed

lemma peer_inv_history: "peer_inv base (peerHistory msg os es (startPeer base))"
  unfolding peerHistory_def by (rule fold_invariant [where P = "peer_inv base" and Q = "\<lambda>_. True"])
    (auto intro: peer_inv_start peer_inv_event)

text \<open>C18. No mount leaks and no request is lost in the load: after any history of a connection every mount its
  callback created is held by the peer or was given back to \<open>OnUnmount\<close>, at most 64 requests of the other
  end are being served, and once the connection has ended nothing is held: every mount was given back, no
  backend is registered, and a mount or a backend that comes later is refused.\<close>

theorem peer_no_leak:
  "case peerHistory msg os es (startPeer base) of (p, l) \<Rightarrow>
     mlCreated l \<subseteq> pMounts p \<union> mlUndone l \<and> pSem p \<le> 64 \<and>
     (if pDone p then mlCreated l \<subseteq> mlUndone l \<and> pBackends p = Map.empty \<and>
        fst (mountEntered cancelled m p) = False \<and> fst (RegisterBackend m ops p) \<noteq> None
      else True)"
  using peer_inv_history [of base msg os es]
  by (auto simp: peer_inv_def MaxInFlight_def mountEntered_def RegisterBackend_def split: prod.splits)

lemma pending_parity: "i \<in> dom (pPending (fst (peerHistory msg os es (startPeer base)))) \<Longrightarrow> odd i = odd base"
  using peer_inv_history [of base msg os es] by (cases "peerHistory msg os es (startPeer base)") (simp add: peer_inv_def)

text \<open>C20. The handshake of a data connection: the connecting end gets a peer for the session it asked for
  exactly when the accepting end does, which is when the session id is not empty and the validator
  accepts the token; otherwise both report a failure, and the client's reason is not empty. From then
  on the ids of the two ends' outstanding requests are disjoint.\<close>

theorem data_handshake:
  "let server = acceptHello validate (connectHello sid token);
       client = Connect (\<lambda>h. Inr (fst (acceptHello validate h))) sid token in
   (case client of
      Inr (s, b) \<Rightarrow> s = sid \<and> sid \<noteq> [] \<and> validate sid token = None \<and> snd server = Inr (sid, 0) \<and>
        dom (pPending (fst (peerHistory msg os es (startPeer b)))) \<inter>
        dom (pPending (fst (peerHistory msg' os' es' (startPeer 0)))) = {}
    | Inl err \<Rightarrow> err \<noteq> [] \<and> snd server = Inl (if sid = [] then ''invalid remote fs hello'' else the (validate sid token)))"
proof -
  have ids: "dom (pPending (fst (peerHistory msg os es (startPeer 1)))) \<inter>
        dom (pPending (fst (peerHistory msg' os' es' (startPeer 0)))) = {}"
    using pending_parity [of _ msg os es 1] pending_parity [of _ msg' os' es' 0] by (auto simp: set_eq_iff)
  have v: "wVersion (connectHello sid token) = ProtocolVersion" "wType (connectHello sid token) = frameHello"
      "wSessionID (connectHello sid token) = sid" "wToken (connectHello sid token) = token"
    by (simp_all add: connectHello_def)
  have f: "frameHelloOK \<noteq> frameResponse" by (simp add: frameHelloOK_def frameResponse_def)
  show ?thesis
  proof (cases "sid = []")
    case True
    then show ?thesis using v by (simp add: Connect_def acceptHello_def)
  next
    case False
    then show ?thesis
    proof (cases "validate sid token")
      case None
      with False ids show ?thesis by (simp add: Connect_def acceptHello_def v connectReply_def)
    next
      case (Some err)
      with False f show ?thesis by (simp add: Connect_def acceptHello_def v connectReply_def Let_def)
    qed
  qed
qed

end
