(* ===== verification/Fuse.thy ===== *)
theory Fuse
  imports Peer
begin

text \<open>
  \<open>internal/remotefs/fuse.go\<close>: the file system of the mounting side. Each operation the kernel asks for
  is one call of the backend, on the path of the node. The go-fuse library, which serves the kernel,
  is outside the model: a node is given by its path below the mount point (\<open>Path(nil)\<close> of its inode,
  the names of its ancestors joined by slashes) and the kernel's arguments are arguments.
\<close>

subsection \<open>Open flags\<close>

text \<open>The flags of \<open>open(2)\<close> that differ between systems; the access mode is the low two bits on both.\<close>

record open_consts =
  ocCreat :: "32 word"
  ocExcl :: "32 word"
  ocTrunc :: "32 word"
  ocAppend :: "32 word"
  ocSync :: "32 word"

definition linux_open :: open_consts where
  "linux_open = \<lparr>ocCreat = 0x40, ocExcl = 0x80, ocTrunc = 0x200, ocAppend = 0x400, ocSync = 0x101000\<rparr>"

definition darwin_open :: open_consts where
  "darwin_open = \<lparr>ocCreat = 0x200, ocExcl = 0x800, ocTrunc = 0x400, ocAppend = 0x8, ocSync = 0x80\<rparr>"

definition flag_if :: "bool \<Rightarrow> flags \<Rightarrow> flags" where
  "flag_if b f = (if b then f else 0)"

definition portableOpenFlags :: "open_consts \<Rightarrow> 32 word \<Rightarrow> flags option" where
  "portableOpenFlags oc f =
     (let access = f AND 3;
          rest = flag_if (f AND ocCreat oc \<noteq> 0) OpenCreate OR flag_if (f AND ocExcl oc \<noteq> 0) OpenExclusive OR
            flag_if (f AND ocTrunc oc \<noteq> 0) OpenTruncate OR flag_if (f AND ocAppend oc \<noteq> 0) OpenAppend OR
            flag_if (ocSync oc \<noteq> 0 \<and> f AND ocSync oc = ocSync oc) OpenSync
      in if access = 0 then Some (OpenRead OR rest)
         else if access = 1 then Some (OpenWrite OR rest)
         else if access = 2 then Some ((OpenRead OR OpenWrite) OR rest)
         else None)"

subsection \<open>Attributes\<close>

record fuse_attr =
  faIno :: "64 word"
  faSize :: "64 word"
  faBlocks :: "64 word"
  faAtime :: "64 word"
  faAtimensec :: "32 word"
  faMtime :: "64 word"
  faMtimensec :: "32 word"
  faCtime :: "64 word"
  faCtimensec :: "32 word"
  faMode :: "32 word"
  faNlink :: "32 word"
  faUid :: "32 word"
  faGid :: "32 word"
  faBlksize :: "32 word"

text \<open>Seconds and nanoseconds of \<open>time.Unix(0, nanos)\<close>: the nanoseconds are never negative.\<close>

definition unixSec :: "64 word \<Rightarrow> 64 word" where
  "unixSec nanos = word_of_int (sint nanos div 1000000000)"

definition unixNsec :: "64 word \<Rightarrow> 32 word" where
  "unixNsec nanos = word_of_int (sint nanos mod 1000000000)"

definition fillAttr :: "32 word \<Rightarrow> 32 word \<Rightarrow> Attr \<Rightarrow> fuse_attr" where
  "fillAttr uid gid attr = \<lparr>faIno = aIno attr, faSize = aSize attr, faBlocks = aBlocks attr,
     faAtime = unixSec (aAtimeNano attr), faAtimensec = unixNsec (aAtimeNano attr),
     faMtime = unixSec (aMtimeNano attr), faMtimensec = unixNsec (aMtimeNano attr),
     faCtime = unixSec (aCtimeNano attr), faCtimensec = unixNsec (aCtimeNano attr),
     faMode = aMode attr, faNlink = aNlink attr, faUid = uid, faGid = gid, faBlksize = 4096\<rparr>"

record mount_options =
  moReadOnly :: bool
  moEntryTimeout :: int
  moAttrTimeout :: int

record fuse_entry =
  feAttr :: fuse_attr
  feEntryTimeout :: int
  feAttrTimeout :: int

definition fillEntry :: "32 word \<Rightarrow> 32 word \<Rightarrow> Attr \<Rightarrow> mount_options \<Rightarrow> fuse_entry" where
  "fillEntry uid gid attr options = \<lparr>feAttr = fillAttr uid gid attr,
     feEntryTimeout = moEntryTimeout options, feAttrTimeout = moAttrTimeout options\<rparr>"

text \<open>The options of a mount, with their defaults, and the options of the kernel mount; durations are in
  nanoseconds.\<close>

definition mountDefaults :: "mount_options \<Rightarrow> mount_options" where
  "mountDefaults options = options\<lparr>
     moEntryTimeout := (if moEntryTimeout options \<le> 0 then 500000000 else moEntryTimeout options),
     moAttrTimeout := (if moAttrTimeout options \<le> 0 then 500000000 else moAttrTimeout options)\<rparr>"

definition kernelOptions :: "bool \<Rightarrow> mount_options \<Rightarrow> string list" where
  "kernelOptions on_darwin options =
     (if moReadOnly options then [''ro''] else []) @ (if on_darwin then [''daemon_timeout=0''] else [])"

subsection \<open>Nodes\<close>

text \<open>What all nodes of a mount share, and the system it runs on.\<close>

record 's fuse_mount =
  fmBackend :: "'s backend_ops"
  fmOptions :: mount_options
  fmErr :: errtable
  fmOpen :: open_consts
  fmUid :: "32 word"
  fmGid :: "32 word"

definition relPath :: "string \<Rightarrow> string" where
  "relPath path = (if path = [] then ''.'' else Clean path)"

definition childPath :: "string \<Rightarrow> string \<Rightarrow> string" where
  "childPath path name = JoinPath (relPath path) name"

text \<open>The stable identity of a child inode: the file type and the number.\<close>

definition S_IFMT :: "32 word" where "S_IFMT = 0xF000"

definition childInode :: "Attr \<Rightarrow> 32 word \<times> 64 word" where
  "childInode attr = (aMode attr AND S_IFMT, aIno attr)"

text \<open>The result of a call: an error number, or what is made of the value.\<close>

definition fuseResult :: "errtable \<Rightarrow> ('a \<Rightarrow> 'b) \<Rightarrow> (goerr, 'a) result \<times> 's \<Rightarrow> (nat, 'b) result \<times> 's" where
  "fuseResult os f rs = (case rs of (Inl err, s) \<Rightarrow> (Inl (errnoOf os (Some err)), s) | (Inr x, s) \<Rightarrow> (Inr (f x), s))"

text \<open>The error number alone, zero for success.\<close>

definition fuseErrno :: "errtable \<Rightarrow> (goerr, 'a) result \<times> 's \<Rightarrow> nat \<times> 's" where
  "fuseErrno os rs = (case rs of (Inl err, s) \<Rightarrow> (errnoOf os (Some err), s) | (Inr x, s) \<Rightarrow> (0, s))"

definition entryOf :: "'s fuse_mount \<Rightarrow> Attr \<Rightarrow> fuse_entry \<times> 32 word \<times> 64 word" where
  "entryOf m attr = (fillEntry (fmUid m) (fmGid m) attr (fmOptions m), childInode attr)"

definition attrOf :: "'s fuse_mount \<Rightarrow> Attr \<Rightarrow> fuse_attr \<times> int" where
  "attrOf m attr = (fillAttr (fmUid m) (fmGid m) attr, moAttrTimeout (fmOptions m))"

definition nodeLookup :: "'s fuse_mount \<Rightarrow> string \<Rightarrow> string \<Rightarrow> 's \<Rightarrow> (nat, fuse_entry \<times> 32 word \<times> 64 word) result \<times> 's" where
  "nodeLookup m path name s = fuseResult (fmErr m) (entryOf m) (boLookup (fmBackend m) (childPath path name) s)"

definition nodeGetattr :: "'s fuse_mount \<Rightarrow> string \<Rightarrow> 's \<Rightarrow> (nat, fuse_attr \<times> int) result \<times> 's" where
  "nodeGetattr m path s = fuseResult (fmErr m) (attrOf m) (boLookup (fmBackend m) (relPath path) s)"

text \<open>An open file of the kernel.\<close>

record fuse_file =
  ffHandle :: "64 word"
  ffReleased :: bool

text \<open>The kernel's change request: times are seconds and nanoseconds.\<close>

record setattr_in =
  siMode :: "32 word option"
  siSize :: "64 word option"
  siATime :: "(64 word \<times> 64 word) option"
  siMTime :: "(64 word \<times> 64 word) option"

definition changeOf :: "setattr_in \<Rightarrow> SetAttr" where
  "changeOf i = \<lparr>saMode = siMode i, saSize = siSize i,
     saAtimeNano = map_option (\<lambda>(sec, nsec). UnixNano sec nsec) (siATime i),
     saMtimeNano = map_option (\<lambda>(sec, nsec). UnixNano sec nsec) (siMTime i)\<rparr>"

definition nodeSetattr ::
  "'s fuse_mount \<Rightarrow> string \<Rightarrow> fuse_file option \<Rightarrow> setattr_in \<Rightarrow> 's \<Rightarrow> (nat, fuse_attr \<times> int) result \<times> 's" where
  "nodeSetattr m path file i s =
     (let handle = (case file of Some opened \<Rightarrow> ffHandle opened | None \<Rightarrow> 0) in
      fuseResult (fmErr m) (attrOf m) (boSetattr (fmBackend m) (relPath path) handle (changeOf i) s))"

definition openedFile :: "64 word \<Rightarrow> fuse_file" where
  "openedFile handle = \<lparr>ffHandle = handle, ffReleased = False\<rparr>"

definition nodeOpen :: "'s fuse_mount \<Rightarrow> string \<Rightarrow> 32 word \<Rightarrow> 's \<Rightarrow> (nat, fuse_file) result \<times> 's" where
  "nodeOpen m path kernelFlags s =
     (case portableOpenFlags (fmOpen m) kernelFlags of
        None \<Rightarrow> (Inl (fmErr m EINVAL), s)
      | Some flags \<Rightarrow> fuseResult (fmErr m) (\<lambda>(handle, attr). openedFile handle) (boOpen (fmBackend m) (relPath path) flags 0 s))"

definition nodeCreate ::
  "'s fuse_mount \<Rightarrow> string \<Rightarrow> string \<Rightarrow> 32 word \<Rightarrow> 32 word \<Rightarrow> 's \<Rightarrow>
   (nat, (fuse_entry \<times> 32 word \<times> 64 word) \<times> fuse_file) result \<times> 's" where
  "nodeCreate m path name kernelFlags mode s =
     (case portableOpenFlags (fmOpen m) kernelFlags of
        None \<Rightarrow> (Inl (fmErr m EINVAL), s)
      | Some flags \<Rightarrow> fuseResult (fmErr m) (\<lambda>(handle, attr). (entryOf m attr, openedFile handle))
          (boOpen (fmBackend m) (childPath path name) (flags OR OpenCreate) mode s))"

definition nodeReaddir :: "'s fuse_mount \<Rightarrow> string \<Rightarrow> 's \<Rightarrow> (nat, (string \<times> 32 word \<times> 64 word) list) result \<times> 's" where
  "nodeReaddir m path s =
     fuseResult (fmErr m) (map (\<lambda>entry. (deName entry, deMode entry, deIno entry))) (boReadDir (fmBackend m) (relPath path) s)"

definition nodeMkdir :: "'s fuse_mount \<Rightarrow> string \<Rightarrow> string \<Rightarrow> 32 word \<Rightarrow> 's \<Rightarrow> (nat, fuse_entry \<times> 32 word \<times> 64 word) result \<times> 's" where
  "nodeMkdir m path name mode s = fuseResult (fmErr m) (entryOf m) (boMkdir (fmBackend m) (childPath path name) mode s)"

definition nodeUnlink :: "'s fuse_mount \<Rightarrow> string \<Rightarrow> string \<Rightarrow> 's \<Rightarrow> nat \<times> 's" where
  "nodeUnlink m path name s = fuseErrno (fmErr m) (boUnlink (fmBackend m) (childPath path name) s)"

definition nodeRmdir :: "'s fuse_mount \<Rightarrow> string \<Rightarrow> string \<Rightarrow> 's \<Rightarrow> nat \<times> 's" where
  "nodeRmdir m path name s = fuseErrno (fmErr m) (boRmdir (fmBackend m) (childPath path name) s)"

text \<open>The new parent is \<open>None\<close> when it is not a node of this file system.\<close>

definition nodeRename :: "'s fuse_mount \<Rightarrow> string \<Rightarrow> string \<Rightarrow> string option \<Rightarrow> string \<Rightarrow> 32 word \<Rightarrow> 's \<Rightarrow> nat \<times> 's" where
  "nodeRename m path name newParent newName flags s =
     (if flags \<noteq> 0 then (fmErr m ENOTSUP, s)
      else case newParent of
        None \<Rightarrow> (fmErr m EXDEV, s)
      | Some parent \<Rightarrow> fuseErrno (fmErr m) (boRename (fmBackend m) (childPath path name) (childPath parent newName) s))"

definition nodeLink ::
  "'s fuse_mount \<Rightarrow> string \<Rightarrow> string option \<Rightarrow> string \<Rightarrow> 's \<Rightarrow> (nat, fuse_entry \<times> 32 word \<times> 64 word) result \<times> 's" where
  "nodeLink m path target name s =
     (case target of
        None \<Rightarrow> (Inl (fmErr m EXDEV), s)
      | Some old \<Rightarrow> fuseResult (fmErr m) (entryOf m) (boLink (fmBackend m) (relPath old) (childPath path name) s))"

definition nodeSymlink ::
  "'s fuse_mount \<Rightarrow> string \<Rightarrow> string \<Rightarrow> string \<Rightarrow> 's \<Rightarrow> (nat, fuse_entry \<times> 32 word \<times> 64 word) result \<times> 's" where
  "nodeSymlink m path target name s =
     fuseResult (fmErr m) (entryOf m) (boSymlink (fmBackend m) target (childPath path name) s)"

definition nodeReadlink :: "'s fuse_mount \<Rightarrow> string \<Rightarrow> 's \<Rightarrow> (nat, string) result \<times> 's" where
  "nodeReadlink m path s = fuseResult (fmErr m) id (boReadlink (fmBackend m) (relPath path) s)"

text \<open>The statistics are kept for two seconds; times are nanoseconds after the zero time.\<close>

record stat_cache =
  scStat :: StatFS
  scExpires :: int

definition stat_cache0 :: stat_cache where
  "stat_cache0 = \<lparr>scStat = StatFS0, scExpires = 0\<rparr>"

definition nodeStatfs :: "'s fuse_mount \<Rightarrow> int \<Rightarrow> stat_cache \<Rightarrow> 's \<Rightarrow> (nat, StatFS) result \<times> stat_cache \<times> 's" where
  "nodeStatfs m now c s =
     (if now > scExpires c then
        (case boStatFS (fmBackend m) s of
           (Inl err, s1) \<Rightarrow> (Inl (errnoOf (fmErr m) (Some err)), c, s1)
         | (Inr stat, s1) \<Rightarrow> (Inr stat, \<lparr>scStat = stat, scExpires = now + 2000000000\<rparr>, s1))
      else (Inr (scStat c), c, s))"

subsection \<open>Files\<close>

definition fileRead :: "'s fuse_mount \<Rightarrow> fuse_file \<Rightarrow> nat \<Rightarrow> 64 word \<Rightarrow> 's \<Rightarrow> (nat, byte list) result \<times> 's" where
  "fileRead m f destLen off s =
     fuseResult (fmErr m) id (boRead (fmBackend m) (ffHandle f) off (of_nat (min destLen MaxDataSize)) s)"

definition fileWrite :: "'s fuse_mount \<Rightarrow> fuse_file \<Rightarrow> byte list \<Rightarrow> 64 word \<Rightarrow> 's \<Rightarrow> (nat, 32 word) result \<times> 's" where
  "fileWrite m f data off s = fuseResult (fmErr m) id (boWrite (fmBackend m) (ffHandle f) off data s)"

definition fileFlush :: "fuse_file \<Rightarrow> 's \<Rightarrow> nat \<times> 's" where
  "fileFlush f s = (0, s)"

definition fileFsync :: "'s fuse_mount \<Rightarrow> fuse_file \<Rightarrow> 's \<Rightarrow> nat \<times> 's" where
  "fileFsync m f s = fuseErrno (fmErr m) (boFsync (fmBackend m) (ffHandle f) s)"

definition fileRelease :: "'s fuse_mount \<Rightarrow> fuse_file \<Rightarrow> 's \<Rightarrow> nat \<times> fuse_file \<times> 's" where
  "fileRelease m f s =
     (if ffReleased f then (0, f, s)
      else case fuseErrno (fmErr m) (boClose (fmBackend m) (ffHandle f) s) of
        (n, s1) \<Rightarrow> (n, f\<lparr>ffReleased := True\<rparr>, s1))"

subsection \<open>Flags across systems\<close>

definition accessBits :: "access \<Rightarrow> 32 word" where
  "accessBits a = (case a of O_RDONLY \<Rightarrow> 0 | O_WRONLY \<Rightarrow> 1 | O_RDWR \<Rightarrow> 2)"

definition kernelFlags :: "open_consts \<Rightarrow> access \<Rightarrow> bool \<Rightarrow> bool \<Rightarrow> bool \<Rightarrow> bool \<Rightarrow> bool \<Rightarrow> 32 word" where
  "kernelFlags oc acc creat excl trunc app sync =
     accessBits acc OR (if creat then ocCreat oc else 0) OR (if excl then ocExcl oc else 0) OR
     (if trunc then ocTrunc oc else 0) OR (if app then ocAppend oc else 0) OR (if sync then ocSync oc else 0)"

text \<open>A system whose flags can be told apart.\<close>

definition sound_open :: "open_consts \<Rightarrow> bool" where
  "sound_open oc \<longleftrightarrow>
     (let bits = [3, ocCreat oc, ocExcl oc, ocTrunc oc, ocAppend oc, ocSync oc] in
      0 \<notin> set bits \<and> (\<forall>i < 6. \<forall>j < 6. i \<noteq> j \<longrightarrow> bits ! i AND bits ! j = 0))"

lemma all_below_Suc: "(\<forall>i < Suc n. P i) \<longleftrightarrow> P n \<and> (\<forall>i < n. P i)"
  using less_Suc_eq by auto

lemmas sound_open_eq = sound_open_def [unfolded Let_def numeral_nat, simplified all_below_Suc, simplified]

lemma tables_open: "sound_open linux_open" "sound_open darwin_open"
  by (simp_all add: sound_open_eq linux_open_def darwin_open_def)

lemma sound_flags:
  assumes "sound_open oc"
  shows "kernelFlags oc acc c e t a s AND 3 = accessBits acc"
   "kernelFlags oc acc c e t a s AND ocCreat oc = (if c then ocCreat oc else 0)"
   "kernelFlags oc acc c e t a s AND ocExcl oc = (if e then ocExcl oc else 0)"
   "kernelFlags oc acc c e t a s AND ocTrunc oc = (if t then ocTrunc oc else 0)"
   "kernelFlags oc acc c e t a s AND ocAppend oc = (if a then ocAppend oc else 0)"
   "kernelFlags oc acc c e t a s AND ocSync oc = (if s then ocSync oc else 0)"
proof -
  note so = assms [unfolded sound_open_eq]
  have acc3: "accessBits acc AND 3 = accessBits acc" by (cases acc) (simp_all add: accessBits_def)
  have acc0: "accessBits acc AND x = 0" if "3 AND x = 0" for x
    using that acc3 by (metis and.assoc and_zero_eq)
  have if_and: "(if b then x else 0) AND z = (if b then x AND z else 0)" for b and x z :: "32 word" by simp
  note k = kernelFlags_def bit.conj_disj_distrib2 if_and so acc3 acc0
  show "kernelFlags oc acc c e t a s AND 3 = accessBits acc"
    "kernelFlags oc acc c e t a s AND ocCreat oc = (if c then ocCreat oc else 0)"
    "kernelFlags oc acc c e t a s AND ocExcl oc = (if e then ocExcl oc else 0)"
    "kernelFlags oc acc c e t a s AND ocTrunc oc = (if t then ocTrunc oc else 0)"
    "kernelFlags oc acc c e t a s AND ocAppend oc = (if a then ocAppend oc else 0)"
    "kernelFlags oc acc c e t a s AND ocSync oc = (if s then ocSync oc else 0)"
    by (simp_all add: k)
qed

lemma portable_kernelFlags:
  assumes "sound_open oc"
  shows "portableOpenFlags oc (kernelFlags oc acc c e t a s) =
    Some ((case acc of O_RDONLY \<Rightarrow> OpenRead | O_WRONLY \<Rightarrow> OpenWrite | O_RDWR \<Rightarrow> OpenRead OR OpenWrite) OR
      (flag_if c OpenCreate OR flag_if e OpenExclusive OR flag_if t OpenTruncate OR flag_if a OpenAppend OR flag_if s OpenSync))"
proof -
  have "ocCreat oc \<noteq> 0" "ocExcl oc \<noteq> 0" "ocTrunc oc \<noteq> 0" "ocAppend oc \<noteq> 0" "ocSync oc \<noteq> 0"
    using assms by (simp_all add: sound_open_eq)
  then show ?thesis by (cases acc) (simp_all add: portableOpenFlags_def Let_def sound_flags [OF assms] accessBits_def)
qed

lemma local_of_portable:
  "localOpenFlags ((case acc of O_RDONLY \<Rightarrow> OpenRead | O_WRONLY \<Rightarrow> OpenWrite | O_RDWR \<Rightarrow> OpenRead OR OpenWrite) OR
      (flag_if c OpenCreate OR flag_if e OpenExclusive OR flag_if t OpenTruncate OR flag_if a OpenAppend OR flag_if s OpenSync)) =
    Some \<lparr>lfAccess = acc, lfCreate = c, lfExcl = e, lfTrunc = t, lfSync = s\<rparr>"
  by (cases acc; cases c; cases e; cases t; cases a; cases s)
    (simp_all add: localOpenFlags_def Valid_def Let_def flag_if_def OpenRead_def OpenWrite_def OpenCreate_def OpenExclusive_def
      OpenTruncate_def OpenAppend_def OpenSync_def)

text \<open>The flags of an open survive the crossing between systems: whatever access mode and flags a program asks for,
  in the numbering of its own system, the exporting side opens the file with the same access mode, creation,
  exclusion, truncation and synchronisation (a create adds the creation flag); only appending is left to
  the kernel, which supplies the offset of every write.\<close>

theorem open_flags_portable:
  assumes "sound_open oc"
  shows "case portableOpenFlags oc (kernelFlags oc acc c e t a s) of
      None \<Rightarrow> False
    | Some f \<Rightarrow> localOpenFlags f = Some \<lparr>lfAccess = acc, lfCreate = c, lfExcl = e, lfTrunc = t, lfSync = s\<rparr> \<and>
        localOpenFlags (f OR OpenCreate) = Some \<lparr>lfAccess = acc, lfCreate = True, lfExcl = e, lfTrunc = t, lfSync = s\<rparr>"
proof -
  let ?f = "\<lambda>c. (case acc of O_RDONLY \<Rightarrow> OpenRead | O_WRONLY \<Rightarrow> OpenWrite | O_RDWR \<Rightarrow> OpenRead OR OpenWrite) OR
      (flag_if c OpenCreate OR flag_if e OpenExclusive OR flag_if t OpenTruncate OR flag_if a OpenAppend OR flag_if s OpenSync)"
  have "?f c OR OpenCreate = ?f True" by (rule bit_word_eqI) (auto simp: flag_if_def bit_or_iff)
  then show ?thesis using local_of_portable [of acc _ e t a s] by (simp add: portable_kernelFlags [OF assms])
qed

theorem open_flags_portable_witness:
  "portableOpenFlags linux_open 0x241 = Some 22 \<and>
   localOpenFlags 22 = Some \<lparr>lfAccess = O_WRONLY, lfCreate = True, lfExcl = False, lfTrunc = True, lfSync = False\<rparr>"
proof -
  have k: "kernelFlags linux_open O_WRONLY True False True False False = 0x241"
    by (simp add: kernelFlags_def linux_open_def accessBits_def)
  have "portableOpenFlags linux_open 0x241 = Some 22"
    by (simp add: portableOpenFlags_def linux_open_def flag_if_def OpenWrite_def OpenCreate_def OpenTruncate_def Let_def)
  then show ?thesis
    using open_flags_portable [OF tables_open(1), where acc = O_WRONLY and c = True and e = False and t = True and a = False and s = False]
    unfolding k by simp
qed

lemma sint_range: "- 9223372036854775808 \<le> k \<Longrightarrow> k < 9223372036854775808 \<Longrightarrow> sint (word_of_int k :: 64 word) = k"
  by (subst sint_sbintrunc') (rule signed_take_bit_int_eq_self, simp_all)

lemma unix_roundtrip:
  assumes "- 9223372036854775808 \<le> sint sec * 1000000000" "sint sec * 1000000000 + sint nsec < 9223372036854775808"
    and "0 \<le> sint nsec" "sint nsec < 1000000000"
  shows "unixSec (UnixNano sec nsec) = sec" "unixNsec (UnixNano sec nsec) = word_of_int (sint nsec)"
proof -
  have "UnixNano sec nsec = word_of_int (sint sec * 1000000000 + sint nsec)"
    by (simp add: UnixNano_def)
  then have s: "sint (UnixNano sec nsec) = sint sec * 1000000000 + sint nsec"
    using sint_range [of "sint sec * 1000000000 + sint nsec"] assms by simp
  have "(sint sec * 1000000000 + sint nsec) div 1000000000 = sint sec"
    "(sint sec * 1000000000 + sint nsec) mod 1000000000 = sint nsec"
    using assms(3,4) by simp_all
  then show "unixSec (UnixNano sec nsec) = sec" "unixNsec (UnixNano sec nsec) = word_of_int (sint nsec)"
    by (simp_all add: unixSec_def unixNsec_def s)
qed

lemma unixNsec_bound: "unixNsec t < 1000000000"
proof -
  have "0 \<le> sint t mod 1000000000" "sint t mod 1000000000 < 1000000000" by simp_all
  then show ?thesis unfolding unixNsec_def by (simp add: word_less_alt uint_word_of_int)
qed



subsection \<open>Released files\<close>

context handle_backend
begin

text \<open>A file is closed once, whatever its release returned; other handles stay as they are.\<close>

lemma release_once:
  assumes "fileRelease m f s = (n, f', s')" "fmBackend m = ops"
  shows "ffReleased f' \<and> fileRelease m f' s' = (0, f', s') \<and> live s - {ffHandle f} \<subseteq> live s' \<and> live s' \<subseteq> live s"
proof -
  obtain r s1 where c: "boClose ops (ffHandle f) s = (r, s1)" by (cases "boClose ops (ffHandle f) s")
  then show ?thesis using assms close_live [OF c]
    by (auto simp: fileRelease_def fuseErrno_def split: if_splits sum.splits)
qed

end

subsection \<open>Paths\<close>

text \<open>The path of a node is its names, joined.\<close>

definition inodePath :: "string list \<Rightarrow> string" where
  "inodePath cs = Join cs [slash]"

lemma relPath_proper: "list_all proper cs \<Longrightarrow> relPath (inodePath cs) = from_components False cs"
proof -
  assume cs: "list_all proper cs"
  show ?thesis
  proof (cases "cs = []")
    case True
    then show ?thesis by (simp add: relPath_def inodePath_def from_components_def)
  next
    case False
    then have p: "inodePath cs = from_components False cs" by (simp add: inodePath_def from_components_def)
    have "hd cs \<noteq> []" using cs False by (cases cs) (auto simp: proper_def)
    then have "inodePath cs \<noteq> []" using hd_Join [of cs] False by (simp add: inodePath_def)
    then show ?thesis using cs by (simp add: relPath_def p Clean_proper)
  qed
qed

lemma proper_nonempty: "proper c \<Longrightarrow> c \<noteq> []"
  by (simp add: proper_def)

lemma components_child:
  assumes cs: "list_all proper cs" and c: "proper c"
  shows "JoinPath (from_components False cs) c = from_components False (cs @ [c])"
proof -
  let ?a = "from_components False cs"
  have ne: "?a \<noteq> []" using Clean_nonempty [of ?a] cs by (simp add: Clean_proper)
  have "\<not> IsAbs ?a" using cs by simp
  then have na: "\<not> IsAbs (?a @ slash # c)" using ne by (auto simp: IsAbs_iff)
  have sc: "Split c slash = [c]" using c by (intro Split_no_sep) (simp add: proper_def)
  have "components (?a @ slash # c) = clean_stack False [] (Split ?a slash @ [c])"
    using na sc by (simp add: components_def Split_append)
  also have "\<dots> = clean_stack False (rev (components ?a)) [c]"
    using cs by (subst clean_stack_append) (simp add: components_def)
  also have "\<dots> = cs @ [c]" using cs c by (simp add: proper_def)
  finally have "components (?a @ slash # c) = cs @ [c]" .
  then show ?thesis using na ne proper_nonempty [OF c] by (simp add: JoinPath_def Clean_proper)
qed

lemma childPath_proper:
  "list_all proper cs \<Longrightarrow> proper c \<Longrightarrow> childPath (inodePath cs) c = from_components False (cs @ [c])"
  by (simp add: childPath_def relPath_proper components_child)

lemma cleanPath_proper: "list_all proper cs \<Longrightarrow> cleanPath (from_components False cs) = Some (from_components False cs)"
  by (simp add: cleanPath_eq Clean_proper)

lemma visiblePath_proper:
  "list_all proper cs \<Longrightarrow> visiblePath ex (from_components False cs) = Some q \<Longrightarrow> q = from_components False cs"
  by (simp add: visiblePath_def cleanPath_proper split: if_splits)


subsection \<open>The mounted directory is the exported directory\<close>

lemma across_eperm:
  assumes "sound_table there"
  shows "errnoOf here (Some (across_err here msg there (Errno (there EPERM)))) = here EPERM"
proof -
  have e: "errnoOf there (Some (Errno (there EPERM))) = there EPERM" "there EPERM \<noteq> 0"
    using assms by (simp_all add: errnoOf_def sound_table_def)
  have "across_err here msg there (Errno (there EPERM)) = Errno (here EPERM)"
    using across_err_meaning [OF assms, where e = "Errno (there EPERM)" and here = here and msg = msg] e assms by simp
  then show ?thesis by (simp add: errnoOf_def)
qed

lemma across_errno:
  "sound_table there \<Longrightarrow> errnoOf there (Some e) \<noteq> 0 \<Longrightarrow>
   errnoOf here (Some (across_err here msg there e)) = here (meaning there (errnoOf there (Some e)))"
  by (subst across_err_meaning) (simp_all add: errnoOf_def)


definition home_mount :: "nat rootBackend fuse_mount" where
  "home_mount = \<lparr>fmBackend = RemoteBackend (\<lambda>f. length (wData f) \<le> MaxDataSize) darwin 3 (\<lambda>e. ''refused'') linux exporting ''w'',
     fmOptions = mountDefaults \<lparr>moReadOnly = False, moEntryTimeout = 0, moAttrTimeout = 0\<rparr>,
     fmErr = darwin, fmOpen = darwin_open, fmUid = 501, fmGid = 20\<rparr>"


end
