(* ===== verification/Bridge.thy ===== *)
theory Bridge
  imports Ports Layout Identity
begin

text \<open>
  \<open>internal/bridge\<close>, the server: registration and choice of client connections, the handshake,
  the requester's retry loop, the lease monitor and the bookkeeping of remote file systems
  (exports, offered mounts, local mounts). Every region the server's mutex protects is one
  definition, so that any sequence of them (\<open>bstep\<close>) covers all interleavings of the handlers.
  Connections, peers, backends and mounts are identities (numbers); times are integers.
\<close>

subsection \<open>State\<close>

definition defaultCapabilities :: "string list" where
  "defaultCapabilities = [''command.exec.batch-stdin'', ''heartbeat.v1'', ''remotefs.fs.v1'']"

record clientConn =
  ccId :: nat
  ccSession :: string
  ccContext :: string
  ccCapabilities :: "string set"
  ccLastSeen :: int

record bridge =
  clients :: "clientConn list"
  fsPeers :: "string \<rightharpoonup> nat"
  fsBackends :: "string \<rightharpoonup> (string \<rightharpoonup> nat)"
  fsClientMounts :: "string \<rightharpoonup> string set"
  fsConnecting :: "string set"
  fsMounts :: "string \<rightharpoonup> nat \<times> string"
  fsMounting :: "string set"
  fsUnmounting :: "string set"
  lastActive :: int
  everHadClient :: bool
  bDraining :: bool
  connections :: "nat set"

definition NewBridge :: "int \<Rightarrow> bridge" where
  "NewBridge now = \<lparr>clients = [], fsPeers = Map.empty, fsBackends = Map.empty, fsClientMounts = Map.empty,
     fsConnecting = {}, fsMounts = Map.empty, fsMounting = {}, fsUnmounting = {}, lastActive = now,
     everHadClient = False, bDraining = False, connections = {}\<rparr>"

subsection \<open>Clients: internal/bridge/bridge.go\<close>

definition addClient :: "bridge \<Rightarrow> int \<Rightarrow> clientConn \<Rightarrow> bool \<times> bridge" where
  "addClient s now c =
     (if bDraining s then (False, s)
      else if list_ex (\<lambda>existing. ccSession existing = ccSession c) (clients s) then (False, s)
      else (True, s\<lparr>clients := clients s @ [c], everHadClient := True, lastActive := now\<rparr>))"

text \<open>\<open>removeClient\<close>: the new state and what is closed outside the lock, if the client was there:
  its peer, and its exports.\<close>

definition removeClient :: "bridge \<Rightarrow> int \<Rightarrow> clientConn \<Rightarrow> bridge \<times> (nat option \<times> (string \<rightharpoonup> nat)) option" where
  "removeClient s now c =
     (if list_ex (\<lambda>existing. ccId existing = ccId c) (clients s) then
        (s\<lparr>clients := filter (\<lambda>existing. ccId existing \<noteq> ccId c) (clients s), lastActive := now,
           fsPeers := (fsPeers s)(ccSession c := None), fsBackends := (fsBackends s)(ccSession c := None),
           fsClientMounts := (fsClientMounts s)(ccSession c := None)\<rparr>,
         Some (fsPeers s (ccSession c), case fsBackends s (ccSession c) of None \<Rightarrow> Map.empty | Some m \<Rightarrow> m))
      else (s, None))"

definition client_matches :: "string \<Rightarrow> string \<Rightarrow> string \<Rightarrow> clientConn \<Rightarrow> bool" where
  "client_matches contextID sessionID capability client =
     ((sessionID = [] \<or> ccSession client = sessionID) \<and>
      (contextID = [] \<or> ccContext client = contextID) \<and>
      (capability = [] \<or> capability \<in> ccCapabilities client))"

definition pickClient :: "bridge \<Rightarrow> string \<Rightarrow> string \<Rightarrow> string \<Rightarrow> clientConn option" where
  "pickClient s contextID sessionID capability =
     find (client_matches contextID sessionID capability) (clients s)"

definition markActive :: "bridge \<Rightarrow> int \<Rightarrow> bridge" where
  "markActive s now = s\<lparr>lastActive := now\<rparr>"

text \<open>A new connection is refused while draining.\<close>

definition acceptConn :: "bridge \<Rightarrow> nat \<Rightarrow> bool \<times> bridge" where
  "acceptConn s c = (if bDraining s then (False, s) else (True, s\<lparr>connections := insert c (connections s)\<rparr>))"

definition removeConnection :: "bridge \<Rightarrow> nat \<Rightarrow> bridge" where
  "removeConnection s c = s\<lparr>connections := connections s - {c}\<rparr>"

subsection \<open>Handshake\<close>

definition helloError :: "string \<Rightarrow> Frame" where
  "helloError err = Frame0\<lparr>fType := TypeError, fError := err\<rparr>"

definition drainFrame :: "string \<Rightarrow> Frame" where
  "drainFrame v = Frame0\<lparr>fType := TypeServerDrain, fAppVersion := v, fRuntimeID := RuntimeID,
     fProtocolMin := MinVersion, fProtocolMax := MaxVersion, fError := ''sshx runtime protocol is incompatible''\<rparr>"

datatype hello = HelloRejected Frame | HelloClient Frame | HelloRequester string string

definition checkHello :: "string \<Rightarrow> string \<Rightarrow> Frame \<Rightarrow> hello" where
  "checkHello token v hello =
     (if fType hello \<noteq> TypeHello then HelloRejected (helloError ''expected sshx hello'')
      else if token \<noteq> [] \<and> fToken hello \<noteq> token then HelloRejected (helloError ''invalid sshx server token'')
      else if \<not> FrameCompatible hello \<or> fRuntimeID hello \<noteq> RuntimeID then HelloRejected (drainFrame v)
      else if fRole hello = RoleClient then
        (if fSessionID hello = [] then HelloRejected (helloError ''client sessionId is required'')
         else if fTargetID hello = [] \<or> fContextID hello = []
           then HelloRejected (helloError ''client targetId and contextId are required'')
         else HelloClient (hello\<lparr>fCapabilities :=
           (if fCapabilities hello = [] then defaultCapabilities else fCapabilities hello)\<rparr>))
      else if fRole hello = RoleRequester then HelloRequester (fContextID hello) (fSessionID hello)
      else HelloRejected (helloError ''unknown bridge role''))"

definition clientOf :: "nat \<Rightarrow> int \<Rightarrow> Frame \<Rightarrow> clientConn" where
  "clientOf i now hello = \<lparr>ccId = i, ccSession = fSessionID hello, ccContext = fContextID hello,
     ccCapabilities = set (fCapabilities hello), ccLastSeen = now\<rparr>"

definition capabilitiesFrame :: "string \<Rightarrow> Frame" where
  "capabilitiesFrame v = Frame0\<lparr>fType := TypeCapabilities, fProtocolVersion := Version,
     fProtocolMin := MinVersion, fProtocolMax := MaxVersion, fRuntimeID := RuntimeID, fAppVersion := v,
     fCapabilities := defaultCapabilities\<rparr>"

text \<open>The client branch of \<open>handleConn\<close> up to its read loop: the frames sent, and whether it stays.
  \<open>sendOk\<close> is the outcome of sending the capabilities, \<open>ports\<close> the frames of \<open>sendCurrentPorts\<close>.\<close>

definition serveClient ::
  "bridge \<Rightarrow> string \<Rightarrow> int \<Rightarrow> clientConn \<Rightarrow> bool \<Rightarrow> Frame list \<Rightarrow> bridge \<times> Frame list \<times> bool" where
  "serveClient s v now c sendOk ports =
     (case addClient s now c of
        (False, s1) \<Rightarrow> (s1, [Frame0\<lparr>fType := TypeServerDrain, fProtocolVersion := Version, fAppVersion := v,
                          fError := ''sshx server is draining''\<rparr>], False)
      | (True, s1) \<Rightarrow>
          (if sendOk then (s1, capabilitiesFrame v # ports, True) else (fst (removeClient s1 now c), [], False)))"

text \<open>One round of a client's read loop: a reply to send, the pending request to answer, whether
  the lease is renewed, and whether the loop goes on (provided the reply could be sent).\<close>

datatype round = StopRound "Frame option" | HeartbeatRound Frame | DeliverRound string Frame | IgnoreRound

definition readFrame :: "string \<Rightarrow> Frame \<Rightarrow> round" where
  "readFrame v frame =
     (if fType frame = TypeHeartbeat then
        (if \<not> FrameCompatible frame \<or> fRuntimeID frame \<noteq> RuntimeID then StopRound (Some (drainFrame v))
         else HeartbeatRound (Frame0\<lparr>fType := TypeHeartbeatAck, fProtocolVersion := Version,
           fProtocolMin := MinVersion, fProtocolMax := MaxVersion, fRuntimeID := RuntimeID, fAppVersion := v,
           fSessionID := fSessionID frame, fSequence := fSequence frame\<rparr>))
      else if fType frame = TypeCommandResult \<or> fType frame = TypeCommandError
        then DeliverRound (fID frame) frame
      else IgnoreRound)"

definition renewLease :: "bridge \<Rightarrow> int \<Rightarrow> nat \<Rightarrow> bridge" where
  "renewLease s now i =
     s\<lparr>clients := map (\<lambda>c. if ccId c = i then c\<lparr>ccLastSeen := now\<rparr> else c) (clients s)\<rparr>"

subsection \<open>Lease monitor\<close>

record timeouts =
  heartbeatTimeout :: int
  drainTimeout :: int
  startupTimeout :: int

text \<open>One tick: expired clients are removed, then the server decides whether to drain.\<close>

definition expired :: "timeouts \<Rightarrow> int \<Rightarrow> clientConn \<Rightarrow> bool" where
  "expired t now c = (now - ccLastSeen c \<ge> heartbeatTimeout t)"

definition expireClients :: "timeouts \<Rightarrow> int \<Rightarrow> bridge \<Rightarrow> bridge" where
  "expireClients t now s =
     fold (\<lambda>c s. if expired t now c then fst (removeClient s now c) else s) (clients s) s"

definition shouldDrain :: "timeouts \<Rightarrow> int \<Rightarrow> bridge \<Rightarrow> bool" where
  "shouldDrain t now s =
     (clients s = [] \<and> connections s = {} \<and>
      ((everHadClient s \<and> now - lastActive s \<ge> drainTimeout t) \<or>
       (\<not> everHadClient s \<and> now - lastActive s \<ge> startupTimeout t)))"

text \<open>The second look under the lock, before draining is set.\<close>

definition confirmDrain :: "bridge \<Rightarrow> bool \<times> bridge" where
  "confirmDrain s =
     (if clients s = [] \<and> connections s = {} then (True, s\<lparr>bDraining := True\<rparr>) else (False, s))"

definition monitorTick :: "timeouts \<Rightarrow> int \<Rightarrow> bridge \<Rightarrow> bool \<times> bridge" where
  "monitorTick t now s =
     (let s1 = expireClients t now s in
      if shouldDrain t now s1 then confirmDrain s1 else (False, s1))"

subsection \<open>Requests\<close>

definition commandError :: "string \<Rightarrow> string \<Rightarrow> Frame" where
  "commandError i err = Frame0\<lparr>fType := TypeCommandError, fID := i, fError := err\<rparr>"

text \<open>The checks of \<open>handleRequester\<close> on the request; \<open>None\<close> goes on.\<close>

definition checkRequest :: "string \<Rightarrow> string \<Rightarrow> Frame \<Rightarrow> Frame option" where
  "checkRequest requesterContextID requesterSessionID req =
     (if fType req \<noteq> TypeCommandExec
        then Some (Frame0\<lparr>fType := TypeError, fID := fID req, fError := ''expected command.exec''\<rparr>)
      else if requesterSessionID \<noteq> [] \<and> fSessionID req \<noteq> requesterSessionID
        then Some (commandError (fID req) ''requester sessionId does not match command sessionId'')
      else if requesterContextID \<noteq> [] \<and> fContextID req \<noteq> requesterContextID
        then Some (commandError (fID req) ''requester contextId does not match command contextId'')
      else if fRemoteFS req \<and> fCwd req = []
        then Some (commandError (fID req) ''remote fs requires sessionId and cwd'')
      else if fRemoteFS req \<and> (fRequestID req = [] \<or> fRequestID req \<noteq> fID req)
        then Some (commandError (fID req) ''requestId is required and must match command id'')
      else None)"

text \<open>
  The locked regions of \<open>ensureExportBackend\<close> and \<open>ensureClientMount\<close>: whether the export or the
  offer already exists, and the commit after the work outside the lock; \<open>peer\<close> is the peer the
  caller looked up before.
\<close>

definition exportExists :: "bridge \<Rightarrow> string \<Rightarrow> string \<Rightarrow> bool" where
  "exportExists s sessionID mountID =
     (case fsBackends s sessionID of None \<Rightarrow> False | Some m \<Rightarrow> m mountID \<noteq> None)"

definition exportCommit :: "bridge \<Rightarrow> string \<Rightarrow> string \<Rightarrow> nat \<Rightarrow> nat \<Rightarrow> string option \<times> bridge" where
  "exportCommit s sessionID mountID peer backend =
     (if fsPeers s sessionID \<noteq> Some peer
        then (Some ''remote fs session closed while exporting the working tree'', s)
      else let m = (case fsBackends s sessionID of None \<Rightarrow> Map.empty | Some m \<Rightarrow> m) in
        if m mountID \<noteq> None then (None, s)
        else (None, s\<lparr>fsBackends := (fsBackends s)(sessionID \<mapsto> m(mountID \<mapsto> backend))\<rparr>))"

definition offerExists :: "bridge \<Rightarrow> string \<Rightarrow> string \<Rightarrow> bool" where
  "offerExists s sessionID mountID =
     (case fsClientMounts s sessionID of None \<Rightarrow> False | Some m \<Rightarrow> mountID \<in> m)"

definition offerCommit :: "bridge \<Rightarrow> string \<Rightarrow> string \<Rightarrow> nat \<Rightarrow> string option \<times> bridge" where
  "offerCommit s sessionID mountID peer =
     (if fsPeers s sessionID \<noteq> Some peer
        then (Some ''remote fs session closed while offering the mount'', s)
      else let m = (case fsClientMounts s sessionID of None \<Rightarrow> {} | Some m \<Rightarrow> m) in
        (None, s\<lparr>fsClientMounts := (fsClientMounts s)(sessionID \<mapsto> insert mountID m)\<rparr>))"

text \<open>What the file system contributes: the layout of a working directory, the id of an export,
  opening its root, registering it at the peer and offering the mount to the client.\<close>

record fsworld =
  fwLayout :: "string \<Rightarrow> (string, export_layout) result"
  fwMountID :: "string \<Rightarrow> string \<Rightarrow> string"
  fwOpenRoot :: "string \<Rightarrow> (string, nat) result"
  fwRegister :: "nat \<Rightarrow> string \<Rightarrow> string option"
  fwOffer :: "nat \<Rightarrow> string \<Rightarrow> string \<Rightarrow> bool \<Rightarrow> string option"

definition ensureExportBackend ::
  "fsworld \<Rightarrow> bridge \<Rightarrow> string \<Rightarrow> string \<Rightarrow> string \<Rightarrow> nat \<Rightarrow> string option \<times> bridge" where
  "ensureExportBackend w s sessionID mountID rootPath peer =
     (if exportExists s sessionID mountID then (None, s)
      else case fwOpenRoot w rootPath of
        Inl err \<Rightarrow> (Some (''open remote workspace: '' @ err), s)
      | Inr backend \<Rightarrow>
          (case fwRegister w peer mountID of
             Some err \<Rightarrow> (Some err, s)
           | None \<Rightarrow> exportCommit s sessionID mountID peer backend))"

definition ensureClientMount ::
  "fsworld \<Rightarrow> bridge \<Rightarrow> string \<Rightarrow> string \<Rightarrow> string \<Rightarrow> nat \<Rightarrow> bool \<Rightarrow> string option \<times> bridge" where
  "ensureClientMount w s sessionID mountID mountPath peer readOnly =
     (if offerExists s sessionID mountID then (None, s)
      else case fwOffer w peer mountID mountPath readOnly of
        Some err \<Rightarrow> (Some (''mount remote workspace: '' @ err), s)
      | None \<Rightarrow> offerCommit s sessionID mountID peer)"

text \<open>The remote-fs part of an attempt: an error frame, or the attempt with its mount filled in.\<close>

definition prepareFS :: "fsworld \<Rightarrow> bridge \<Rightarrow> Frame \<Rightarrow> (Frame, Frame) result \<times> bridge" where
  "prepareFS w s attempt =
     (if \<not> fRemoteFS attempt then (Inr attempt, s)
      else case fsPeers s (fSessionID attempt) of
        None \<Rightarrow> (Inl (commandError (fID attempt) ''remote fs data session is unavailable''), s)
      | Some peer \<Rightarrow>
          (case fwLayout w (fCwd attempt) of
             Inl err \<Rightarrow> (Inl (commandError (fID attempt) (''resolve remote home mount: '' @ err)), s)
           | Inr layout \<Rightarrow>
               (let mountID = fwMountID w (elRootPath layout) (elMountPath layout) in
                case ensureExportBackend w s (fSessionID attempt) mountID (elRootPath layout) peer of
                  (Some err, s1) \<Rightarrow> (Inl (commandError (fID attempt) err), s1)
                | (None, s1) \<Rightarrow>
                    (case ensureClientMount w s1 (fSessionID attempt) mountID (elMountPath layout) peer (fMountReadOnly attempt) of
                       (Some err, s2) \<Rightarrow> (Inl (commandError (fID attempt) err), s2)
                     | (None, s2) \<Rightarrow>
                         (Inr (attempt\<lparr>fEnv := (fEnv attempt)(''SSHX_REMOTE_CWD'' \<mapsto> fCwd attempt, ''SSHX_REMOTE_FS'' \<mapsto> ''1''),
                            fMountID := mountID, fMountPath := elMountPath layout, fCwd := elRelativeCwd layout\<rparr>), s2)))))"

definition ErrNoClient :: string where
  "ErrNoClient = ''no active sshx client bridge session''"

text \<open>
  The retry loop: each round picks a client; a client whose request fails is removed, so the loop
  ends. \<open>request c f\<close> is the outcome of \<open>client.request\<close>. The result says who was asked what.
\<close>

datatype outcome = Refused Frame | Answered clientConn Frame Frame

definition attemptFor :: "clientConn \<Rightarrow> Frame \<Rightarrow> Frame" where
  "attemptFor client req = (if fSessionID req = [] then req\<lparr>fSessionID := ccSession client\<rparr> else req)"

lemma removeClient_shorter:
  "c \<in> set (clients s) \<Longrightarrow> length (clients (fst (removeClient s now c))) < length (clients s)"
  by (auto simp: removeClient_def list_ex_iff intro!: length_filter_less)

lemma pickClient_Some:
  "pickClient s ctx sess cap = Some c \<Longrightarrow> c \<in> set (clients s) \<and> client_matches ctx sess cap c"
  by (auto simp: pickClient_def find_Some_iff)

lemma exportCommit_clients [simp]: "clients (snd (exportCommit s a b c d)) = clients s"
  by (simp add: exportCommit_def Let_def)

lemma offerCommit_clients [simp]: "clients (snd (offerCommit s a b c)) = clients s"
  by (simp add: offerCommit_def Let_def)

lemma ensure_clients [simp]:
  "clients (snd (ensureExportBackend w s a b c d)) = clients s"
  "clients (snd (ensureClientMount w s a b c d e)) = clients s"
  by (simp_all add: ensureExportBackend_def ensureClientMount_def split: sum.split option.split)

lemma ensure_clientsD:
  "ensureExportBackend w s a b c d = (x, s') \<Longrightarrow> clients s' = clients s"
  "ensureClientMount w s a b c d e = (x, s') \<Longrightarrow> clients s' = clients s"
  using ensure_clients(1) [of w s a b c d] ensure_clients(2) [of w s a b c d e] by simp_all

lemma prepareFS_clients [simp]: "clients (snd (prepareFS w s attempt)) = clients s"
  by (auto simp: prepareFS_def Let_def split: option.split sum.split prod.split dest!: ensure_clientsD)

function requesterLoop ::
  "(clientConn \<Rightarrow> Frame \<Rightarrow> (string, Frame) result) \<Rightarrow> fsworld \<Rightarrow> int \<Rightarrow> Frame \<Rightarrow> string option \<Rightarrow> bridge \<Rightarrow>
   outcome \<times> bridge" where
  "requesterLoop request w now req lastErr s =
     (case pickClient s (fContextID req) (fSessionID req) ''command.exec.batch-stdin'' of
        None \<Rightarrow> (Refused (commandError (fID req) (case lastErr of None \<Rightarrow> ErrNoClient | Some e \<Rightarrow> e)), s)
      | Some client \<Rightarrow>
          (case fst (prepareFS w s (attemptFor client req)) of
             Inl errFrame \<Rightarrow> (Refused errFrame, snd (prepareFS w s (attemptFor client req)))
           | Inr attempt \<Rightarrow>
               (case request client attempt of
                  Inr resp \<Rightarrow> (Answered client attempt resp, snd (prepareFS w s (attemptFor client req)))
                | Inl err \<Rightarrow> requesterLoop request w now req (Some err)
                    (fst (removeClient (snd (prepareFS w s (attemptFor client req))) now client)))))"
  by pat_completeness auto
termination
proof (relation "measure (\<lambda>(request, w, now, req, lastErr, s). length (clients s))", goal_cases)
  case (2 request w now req lastErr s client attempt err)
  then have "client \<in> set (clients (snd (prepareFS w s (attemptFor client req))))"
    by (simp add: pickClient_Some)
  from removeClient_shorter [OF this] show ?case by simp
qed simp

declare requesterLoop.simps [simp del]

definition handleRequester ::
  "(clientConn \<Rightarrow> Frame \<Rightarrow> (string, Frame) result) \<Rightarrow> fsworld \<Rightarrow> int \<Rightarrow> string \<Rightarrow> string \<Rightarrow> Frame \<Rightarrow> bridge \<Rightarrow>
   outcome \<times> bridge" where
  "handleRequester request w now requesterContextID requesterSessionID req s =
     (let s1 = markActive s now in
      case checkRequest requesterContextID requesterSessionID req of
        Some err \<Rightarrow> (Refused err, s1)
      | None \<Rightarrow> requesterLoop request w now req None s1)"

subsection \<open>Routing\<close>

text \<open>What a prepared attempt keeps of the request.\<close>

definition same_command :: "Frame \<Rightarrow> Frame \<Rightarrow> bool" where
  "same_command a r \<longleftrightarrow> fType a = fType r \<and> fID a = fID r \<and> fArgv a = fArgv r \<and> fStdin a = fStdin r \<and>
     fTimeoutMillis a = fTimeoutMillis r \<and> fContextID a = fContextID r"

lemma prepareFS_keeps:
  "fst (prepareFS w s attempt) = Inr a \<Longrightarrow> same_command a attempt \<and> fSessionID a = fSessionID attempt"
  by (auto simp: prepareFS_def Let_def same_command_def split: if_splits option.splits sum.splits prod.splits)

lemma prepareFS_refuses:
  "fst (prepareFS w s attempt) = Inl f \<Longrightarrow> fType f = TypeCommandError \<and> fID f = fID attempt \<and> fRemoteFS attempt"
  by (auto simp: prepareFS_def Let_def commandError_def Frame0_def split: if_splits option.splits sum.splits prod.splits)

lemma attemptFor_keeps:
  "client_matches ctx (fSessionID req) cap c \<Longrightarrow>
   same_command (attemptFor c req) req \<and> fSessionID (attemptFor c req) = ccSession c \<and>
   fRemoteFS (attemptFor c req) = fRemoteFS req"
  by (auto simp: attemptFor_def same_command_def client_matches_def)

lemma removeClient_clients: "clients (fst (removeClient s now c)) = filter (\<lambda>d. ccId d \<noteq> ccId c) (clients s)"
  by (auto simp: removeClient_def list_ex_iff intro!: filter_True [symmetric])

definition routed ::
  "(clientConn \<Rightarrow> Frame \<Rightarrow> (string, Frame) result) \<Rightarrow> Frame \<Rightarrow> bridge \<Rightarrow> outcome \<Rightarrow> bridge \<Rightarrow> bool" where
  "routed request req s out s' \<longleftrightarrow>
     (let matching = (\<lambda>c. c \<in> set (clients s) \<and>
        client_matches (fContextID req) (fSessionID req) ''command.exec.batch-stdin'' c) in
      (case out of
        Answered c attempt resp \<Rightarrow> matching c \<and> c \<in> set (clients s') \<and> request c attempt = Inr resp \<and>
          fSessionID attempt = ccSession c \<and> same_command attempt req
      | Refused f \<Rightarrow> fType f = TypeCommandError \<and> fID f = fID req \<and>
          (\<not> fRemoteFS req \<longrightarrow> (\<forall>c. matching c \<longrightarrow> (\<exists>err. request c (attemptFor c req) = Inl err)))) \<and>
      (\<forall>c \<in> set (clients s). c \<notin> set (clients s') \<longrightarrow>
         matching c \<and> (\<exists>attempt err. same_command attempt req \<and> request c attempt = Inl err)))"

lemma requesterLoop_routed:
  "distinct (map ccId (clients s)) \<Longrightarrow> requesterLoop request w now req lastErr s = (out, s') \<Longrightarrow>
   routed request req s out s' \<and> set (clients s') \<subseteq> set (clients s)"
proof (induction request w now req lastErr s arbitrary: out s' rule: requesterLoop.induct)
  case (1 request w now req lastErr s)
  let ?match = "client_matches (fContextID req) (fSessionID req) ''command.exec.batch-stdin''"
  show ?case
  proof (cases "pickClient s (fContextID req) (fSessionID req) ''command.exec.batch-stdin''")
    case None
    then have "\<forall>c \<in> set (clients s). \<not> ?match c" by (auto simp: pickClient_def find_None_iff)
    with None "1.prems"(2) show ?thesis
      by (subst (asm) requesterLoop.simps) (auto simp: routed_def commandError_def Frame0_def Let_def)
  next
    case (Some client)
    then have c: "client \<in> set (clients s)" "?match client" using pickClient_Some by blast+
    let ?att = "attemptFor client req" and ?s1 = "snd (prepareFS w s (attemptFor client req))"
    note keep = attemptFor_keeps [OF c(2)]
    show ?thesis
    proof (cases "fst (prepareFS w s ?att)")
      case (Inl f)
      then have "out = Refused f" "s' = ?s1"
        using "1.prems"(2) Some by (simp_all add: requesterLoop.simps [of request w now req])
      then show ?thesis
        using prepareFS_refuses [OF Inl] keep by (simp add: routed_def same_command_def Let_def)
    next
      case (Inr attempt)
      note att = prepareFS_keeps [OF Inr]
      have same: "same_command attempt req" "fSessionID attempt = ccSession client"
        using att keep by (auto simp: same_command_def)
      show ?thesis
      proof (cases "request client attempt")
        case resp: (Inr resp)
        then have "out = Answered client attempt resp" "s' = ?s1"
          using "1.prems"(2) Some Inr by (simp_all add: requesterLoop.simps [of request w now req])
        then show ?thesis using c same resp by (simp add: routed_def Let_def)
      next
        case err: (Inl err)
        let ?s2 = "fst (removeClient ?s1 now client)"
        have next_s: "requesterLoop request w now req (Some err) ?s2 = (out, s')"
          using "1.prems"(2) Some Inr err by (simp add: requesterLoop.simps [of request w now req lastErr])
        have cl: "clients ?s2 = filter (\<lambda>d. ccId d \<noteq> ccId client) (clients s)"
          by (simp add: removeClient_clients)
        have uniq: "d = client" if "d \<in> set (clients s)" "ccId d = ccId client" for d
          using that c(1) "1.prems"(1) by (metis distinct_map inj_onD)
        have IH: "routed request req ?s2 out s' \<and> set (clients s') \<subseteq> set (clients ?s2)"
          using "1.IH" [OF Some Inr err] next_s "1.prems"(1) by (simp add: cl distinct_map_filter)
        have tried: "\<not> fRemoteFS req \<Longrightarrow> request client (attemptFor client req) = Inl err"
          using Inr err keep by (simp add: prepareFS_def)
        have sub: "set (clients ?s2) = set (clients s) - {client}" using uniq c(1) by (auto simp: cl)
        have old: "routed request req ?s2 out s'" using IH by blast
        have R: "\<forall>c \<in> set (clients s). c \<notin> set (clients s') \<longrightarrow>
            ?match c \<and> (\<exists>attempt err. same_command attempt req \<and> request c attempt = Inl err)"
        proof (intro ballI impI)
          fix d assume d: "d \<in> set (clients s)" "d \<notin> set (clients s')"
          have old_lost: "\<forall>c \<in> set (clients ?s2). c \<notin> set (clients s') \<longrightarrow>
              ?match c \<and> (\<exists>attempt err. same_command attempt req \<and> request c attempt = Inl err)"
            using old unfolding routed_def Let_def by simp
          show "?match d \<and> (\<exists>attempt err. same_command attempt req \<and> request d attempt = Inl err)"
          proof (cases "d = client")
            case True
            then show ?thesis using c(2) same(1) err by blast
          next
            case False
            then have "d \<in> set (clients ?s2)" using d(1) unfolding sub by simp
            then show ?thesis using old_lost d(2) by simp
          qed
        qed
        show ?thesis
        proof (cases out)
          case (Answered d a r)
          then show ?thesis using old R sub IH unfolding routed_def Let_def by auto
        next
          case (Refused f)
          have "\<exists>err. request d (attemptFor d req) = Inl err"
            if "\<not> fRemoteFS req" "d \<in> set (clients s)" "?match d" for d
            using that old tried sub Refused unfolding routed_def Let_def by (cases "d = client") auto
          then show ?thesis using old R sub IH Refused unfolding routed_def Let_def by auto
        qed
      qed
    qed
  qed
qed


definition lone :: clientConn where
  "lone = \<lparr>ccId = 0, ccSession = ''s1'', ccContext = ''ctx'', ccCapabilities = set defaultCapabilities, ccLastSeen = 0\<rparr>"

definition lone_request :: Frame where
  "lone_request = Frame0\<lparr>fType := TypeCommandExec, fID := ''7''\<rparr>"


subsection \<open>Remote file systems: internal/bridge/remotefs.go\<close>

text \<open>A session id names a directory below the mount root, so it must be a plain file name.\<close>

definition safeSessionID :: "string \<Rightarrow> bool" where
  "safeSessionID sessionID =
     (sessionID \<noteq> [] \<and> sessionID \<noteq> ''.'' \<and> sessionID \<noteq> ''..'' \<and> Base sessionID = sessionID \<and>
      \<not> ContainsAny sessionID [CHR ''/'', CHR 0x5C])"

text \<open>The validation of a data connection (\<open>handleFSConn\<close>): the checks before the lock, \<open>found\<close> being
  whether \<open>pickClient\<close> finds a client for the session, and the reservation under the lock.\<close>

definition fsCheck :: "string \<Rightarrow> string \<Rightarrow> string \<Rightarrow> bool \<Rightarrow> string option" where
  "fsCheck serverToken candidate token found =
     (if serverToken \<noteq> [] \<and> token \<noteq> serverToken then Some ''invalid sshx server token''
      else if \<not> safeSessionID candidate then Some ''invalid remote fs sessionId''
      else if \<not> found then Some ErrNoClient else None)"

definition fsReserve :: "bridge \<Rightarrow> string \<Rightarrow> string option \<times> bridge" where
  "fsReserve s candidate =
     (if fsPeers s candidate \<noteq> None \<or> candidate \<in> fsConnecting s
      then (Some ''remote fs data session already exists'', s)
      else (None, s\<lparr>fsConnecting := insert candidate (fsConnecting s)\<rparr>))"

definition fsUnreserve :: "bridge \<Rightarrow> string \<Rightarrow> bridge" where
  "fsUnreserve s sessionID = s\<lparr>fsConnecting := fsConnecting s - {sessionID}\<rparr>"

definition fsRegister :: "bridge \<Rightarrow> string \<Rightarrow> nat \<Rightarrow> int \<Rightarrow> bool \<times> bridge" where
  "fsRegister s sessionID peer now =
     (if fsPeers s sessionID \<noteq> None \<or> bDraining s \<or> \<not> list_ex (\<lambda>c. ccSession c = sessionID) (clients s)
      then (False, s)
      else (True, s\<lparr>fsPeers := (fsPeers s)(sessionID \<mapsto> peer), lastActive := now\<rparr>))"

definition fsDone :: "bridge \<Rightarrow> string \<Rightarrow> nat \<Rightarrow> int \<Rightarrow> bridge" where
  "fsDone s sessionID peer now =
     (if fsPeers s sessionID = Some peer
      then s\<lparr>fsPeers := (fsPeers s)(sessionID := None), lastActive := now\<rparr> else s\<lparr>lastActive := now\<rparr>)"

text \<open>The locked regions of \<open>mountRemoteFS\<close> and \<open>unmountRemoteFS\<close>. A commit finds out whether the
  peer closed or the request was cancelled while the mount was being made.\<close>

definition mountBegin :: "bridge \<Rightarrow> string \<Rightarrow> string \<Rightarrow> string option \<times> bridge" where
  "mountBegin s sessionID mountID =
     (if mountID = [] then (Some ''remote fs mountId is required'', s)
      else if sessionID \<in> fsMounting s \<or> fsMounts s sessionID \<noteq> None
        then (Some ''remote fs mount already exists'', s)
      else (None, s\<lparr>fsMounting := insert sessionID (fsMounting s)\<rparr>))"

definition mountFail :: "bridge \<Rightarrow> string \<Rightarrow> bridge" where
  "mountFail s sessionID = s\<lparr>fsMounting := fsMounting s - {sessionID}\<rparr>"

definition mountCommit :: "bridge \<Rightarrow> string \<Rightarrow> string \<Rightarrow> nat \<Rightarrow> bool \<Rightarrow> string option \<Rightarrow> int \<Rightarrow> string option \<times> bridge" where
  "mountCommit s sessionID mountID mount peerClosed requestErr now =
     (let s1 = s\<lparr>fsMounting := fsMounting s - {sessionID}\<rparr> in
      if bDraining s \<or> peerClosed \<or> requestErr \<noteq> None
      then (Some (case requestErr of Some err \<Rightarrow> err | None \<Rightarrow> ''remote fs session closed while mounting''), s1)
      else (None, s1\<lparr>fsMounts := (fsMounts s)(sessionID \<mapsto> (mount, mountID)), lastActive := now\<rparr>))"

datatype unmount = UnmountBusy | UnmountNothing | UnmountWait | UnmountStart nat

definition unmountBegin :: "bridge \<Rightarrow> string \<Rightarrow> string \<Rightarrow> unmount \<times> bridge" where
  "unmountBegin s sessionID mountID =
     (if sessionID \<in> fsMounting s then (UnmountBusy, s)
      else case fsMounts s sessionID of
        None \<Rightarrow> (UnmountNothing, s)
      | Some (mount, i) \<Rightarrow>
          (if i \<noteq> mountID then (UnmountNothing, s)
           else if sessionID \<in> fsUnmounting s then (UnmountWait, s)
           else (UnmountStart mount, s\<lparr>fsUnmounting := insert sessionID (fsUnmounting s)\<rparr>)))"

definition unmountEnd :: "bridge \<Rightarrow> string \<Rightarrow> bool \<Rightarrow> int \<Rightarrow> bridge" where
  "unmountEnd s sessionID ok now =
     s\<lparr>fsMounts := (if ok then (fsMounts s)(sessionID := None) else fsMounts s),
       fsUnmounting := fsUnmounting s - {sessionID}, lastActive := now\<rparr>"

text \<open>The handlers as sequences of these regions: \<open>handleFSConn\<close> up to the wait for its peer (the result
  tells whether it waits), \<open>mountRemoteFS\<close> with the outcome of \<open>MountLocal\<close> (the mount and its path),
  and one round of \<open>unmountRemoteFS\<close> with the outcome of the unmount; \<open>None\<close> waits for another
  handler's unmount and tries again.\<close>

definition handleFSConn ::
  "bridge \<Rightarrow> string \<Rightarrow> string \<Rightarrow> string \<Rightarrow> nat \<Rightarrow> int \<Rightarrow> (string, bool) result \<times> bridge" where
  "handleFSConn s serverToken candidate token peer now =
     (case fsCheck serverToken candidate token (pickClient s [] candidate ''remotefs.fs.v1'' \<noteq> None) of
        Some err \<Rightarrow> (Inl err, s)
      | None \<Rightarrow>
          (case fsReserve s candidate of
             (Some err, s1) \<Rightarrow> (Inl err, s1)
           | (None, s1) \<Rightarrow>
               (case fsRegister (fsUnreserve s1 candidate) candidate peer now of (ok, s2) \<Rightarrow> (Inr ok, s2))))"

definition mountRemoteFS ::
  "bridge \<Rightarrow> string \<Rightarrow> string \<Rightarrow> (string, nat \<times> string) result \<Rightarrow> bool \<Rightarrow> string option \<Rightarrow> int \<Rightarrow>
   (string, string) result \<times> bridge" where
  "mountRemoteFS s sessionID mountID mounted peerClosed requestErr now =
     (case mountBegin s sessionID mountID of
        (Some err, s1) \<Rightarrow> (Inl err, s1)
      | (None, s1) \<Rightarrow>
          (case mounted of
             Inl err \<Rightarrow> (Inl err, mountFail s1 sessionID)
           | Inr (mount, path) \<Rightarrow>
               (case mountCommit s1 sessionID mountID mount peerClosed requestErr now of
                  (Some err, s2) \<Rightarrow> (Inl err, s2)
                | (None, s2) \<Rightarrow> (Inr path, s2))))"

definition unmountRemoteFS ::
  "bridge \<Rightarrow> string \<Rightarrow> string \<Rightarrow> string option \<Rightarrow> int \<Rightarrow> string option option \<times> bridge" where
  "unmountRemoteFS s sessionID mountID unmountErr now =
     (case unmountBegin s sessionID mountID of
        (UnmountBusy, s1) \<Rightarrow> (Some (Some ''device or resource busy''), s1)
      | (UnmountNothing, s1) \<Rightarrow> (Some None, s1)
      | (UnmountWait, s1) \<Rightarrow> (None, s1)
      | (UnmountStart mount, s1) \<Rightarrow> (Some unmountErr, unmountEnd s1 sessionID (unmountErr = None) now))"

subsection \<open>All interleavings of the locked regions\<close>

text \<open>
  A new connection has an identity no connected client has. A handler that began a mount or an
  unmount ends it once, so those ends happen only while the session is marked.
\<close>

datatype bop =
    Join int clientConn | Leave int nat | Beat int nat | Accept nat | Hangup nat | Active int
  | Reserve string | Unreserve string | PeerUp string nat int | PeerDown string nat int
  | Export string string nat nat | Offer string string nat
  | MountBegin string string | MountFail string | MountCommit string string nat bool "string option" int
  | UnmountBegin string string | UnmountEnd string bool int | ConfirmDrain

fun bstep :: "bop \<Rightarrow> bridge \<Rightarrow> bridge" where
  "bstep (Join now c) s = (if ccId c \<in> ccId ` set (clients s) then s else snd (addClient s now c))"
| "bstep (Leave now i) s = (case find (\<lambda>c. ccId c = i) (clients s) of
     None \<Rightarrow> s | Some c \<Rightarrow> fst (removeClient s now c))"
| "bstep (Beat now i) s = renewLease s now i"
| "bstep (Accept c) s = snd (acceptConn s c)"
| "bstep (Hangup c) s = removeConnection s c"
| "bstep (Active now) s = markActive s now"
| "bstep (Reserve cand) s = snd (fsReserve s cand)"
| "bstep (Unreserve sid) s = fsUnreserve s sid"
| "bstep (PeerUp sid p now) s = snd (fsRegister s sid p now)"
| "bstep (PeerDown sid p now) s = fsDone s sid p now"
| "bstep (Export sid m p b) s = snd (exportCommit s sid m p b)"
| "bstep (Offer sid m p) s = snd (offerCommit s sid m p)"
| "bstep (MountBegin sid m) s = snd (mountBegin s sid m)"
| "bstep (MountFail sid) s = (if sid \<in> fsMounting s then mountFail s sid else s)"
| "bstep (MountCommit sid m mt pc e now) s =
     (if sid \<in> fsMounting s then snd (mountCommit s sid m mt pc e now) else s)"
| "bstep (UnmountBegin sid m) s = snd (unmountBegin s sid m)"
| "bstep (UnmountEnd sid ok now) s = (if sid \<in> fsUnmounting s then unmountEnd s sid ok now else s)"
| "bstep ConfirmDrain s = snd (confirmDrain s)"

definition brun :: "bop list \<Rightarrow> bridge \<Rightarrow> bridge" where
  "brun ops s = fold bstep ops s"

definition sessions_of :: "bridge \<Rightarrow> string set" where
  "sessions_of s = set (map ccSession (clients s))"

text \<open>The invariant, in two parts: the clients and the tables keyed by their sessions, and the mounts.\<close>

definition binv :: "bridge \<Rightarrow> bool" where
  "binv s \<longleftrightarrow> distinct (map ccId (clients s)) \<and> distinct (map ccSession (clients s)) \<and>
     dom (fsPeers s) \<subseteq> sessions_of s \<and> dom (fsBackends s) \<subseteq> sessions_of s \<and>
     dom (fsClientMounts s) \<subseteq> sessions_of s \<and> (clients s \<noteq> [] \<longrightarrow> everHadClient s) \<and>
     (bDraining s \<longrightarrow> clients s = [] \<and> connections s = {})"

definition minv :: "bridge \<Rightarrow> bool" where
  "minv s \<longleftrightarrow> fsUnmounting s \<subseteq> dom (fsMounts s) \<and> fsMounting s \<inter> dom (fsMounts s) = {}"

lemma binv_frame:
  assumes "binv s" "map ccSession (clients s') = map ccSession (clients s)" "map ccId (clients s') = map ccId (clients s)"
    "dom (fsPeers s') \<subseteq> dom (fsPeers s)" "fsBackends s' = fsBackends s" "fsClientMounts s' = fsClientMounts s"
    "bDraining s' = bDraining s" "everHadClient s' = everHadClient s" "bDraining s \<Longrightarrow> connections s' \<subseteq> connections s"
  shows "binv s'"
proof -
  have "clients s' = [] \<longleftrightarrow> clients s = []" using assms(2) by (metis map_is_Nil_conv)
  moreover have "sessions_of s' = sessions_of s" using assms(2) by (simp add: sessions_of_def)
  moreover have "dom (fsPeers s') \<subseteq> sessions_of s" using assms(1,4) unfolding binv_def by (meson order_trans)
  ultimately show ?thesis using assms unfolding binv_def by simp
qed

lemma removeClient_binv:
  assumes inv: "binv s" and c: "c \<in> set (clients s)"
  shows "binv (fst (removeClient s now c))"
proof -
  let ?rest = "filter (\<lambda>d. ccId d \<noteq> ccId c) (clients s)"
  have eq: "d = c" if "d \<in> set (clients s)" "ccId d = ccId c" for d
    using that c inv by (metis binv_def distinct_map inj_onD)
  have "x \<in> ccSession ` set ?rest" if "x \<in> sessions_of s" "x \<noteq> ccSession c" for x
    using that eq by (auto simp: sessions_of_def)
  then have sub: "D \<subseteq> sessions_of s \<Longrightarrow> D - {ccSession c} \<subseteq> ccSession ` set ?rest" for D by blast
  have "clients s \<noteq> []" "list_ex (\<lambda>existing. ccId existing = ccId c) (clients s)"
    using c by (auto simp: list_ex_iff)
  then show ?thesis
    using inv sub unfolding binv_def
    by (auto simp: removeClient_def sessions_of_def distinct_map_filter simp del: set_filter)
qed

lemma addClient_binv: "binv s \<Longrightarrow> ccId c \<notin> ccId ` set (clients s) \<Longrightarrow> binv (snd (addClient s now c))"
  by (auto simp: addClient_def binv_def sessions_of_def list_ex_iff)

lemma exportCommit_binv: "binv s \<Longrightarrow> binv (snd (exportCommit s sid m p b))"
  by (auto simp: exportCommit_def binv_def sessions_of_def Let_def split: option.split)

lemma offerCommit_binv: "binv s \<Longrightarrow> binv (snd (offerCommit s sid m p))"
  by (auto simp: offerCommit_def binv_def sessions_of_def Let_def split: option.split)

lemma fsRegister_binv: "binv s \<Longrightarrow> binv (snd (fsRegister s sid p now))"
  by (auto simp: fsRegister_def binv_def sessions_of_def list_ex_iff)

lemma bstep_binv: "binv s \<Longrightarrow> binv (bstep e s)"
proof (cases e)
  case (Leave now i)
  assume inv: "binv s"
  then show ?thesis using Leave removeClient_binv
    by (auto split: option.split dest: find_SomeD)
next
  case (Beat now i)
  assume "binv s"
  then show ?thesis using Beat
    by (auto intro!: binv_frame [of s] simp: renewLease_def)
next
  case (PeerDown sid p now)
  assume "binv s"
  then show ?thesis using PeerDown
    by (auto intro!: binv_frame [of s] simp: fsDone_def split: if_splits)
next
  case (Join now c)
  assume "binv s"
  then show ?thesis using Join addClient_binv by simp
next
  case ConfirmDrain
  assume "binv s"
  then show ?thesis using ConfirmDrain by (auto simp: confirmDrain_def binv_def sessions_of_def)
qed (auto simp: exportCommit_binv offerCommit_binv fsRegister_binv acceptConn_def removeConnection_def
  markActive_def fsReserve_def fsUnreserve_def mountBegin_def mountFail_def mountCommit_def unmountBegin_def
  unmountEnd_def Let_def intro!: binv_frame [of s] split: option.split)

lemma bstep_minv: "minv s \<Longrightarrow> minv (bstep e s)"
  by (cases e)
    (auto simp: minv_def addClient_def removeClient_def renewLease_def acceptConn_def removeConnection_def
      markActive_def fsReserve_def fsUnreserve_def fsRegister_def fsDone_def exportCommit_def offerCommit_def
      mountBegin_def mountFail_def mountCommit_def unmountBegin_def unmountEnd_def confirmDrain_def Let_def
      split: option.splits)

lemma brun_inv: "binv s \<Longrightarrow> minv s \<Longrightarrow> binv (brun ops s) \<and> minv (brun ops s)"
  unfolding brun_def by (induction ops arbitrary: s) (simp_all add: bstep_binv bstep_minv)

lemma NewBridge_inv: "binv (NewBridge now)" "minv (NewBridge now)"
  by (simp_all add: binv_def minv_def NewBridge_def sessions_of_def)

text \<open>C10. After any interleaving of the locked regions of all handlers: no two connected clients share a
  session id; data peers, exports and offered mounts exist only for sessions with a connected
  client; a draining server has no client and no connection left; a session is never mounting
  while it has a mount, and only an existing mount is being unmounted.\<close>

theorem bridge_invariant:
  "let s = brun ops (NewBridge now) in
     distinct (map ccSession (clients s)) \<and>
     dom (fsPeers s) \<union> dom (fsBackends s) \<union> dom (fsClientMounts s) \<subseteq> ccSession ` set (clients s) \<and>
     (if bDraining s then clients s = [] \<and> connections s = {} else True) \<and>
     fsMounting s \<inter> dom (fsMounts s) = {} \<and> fsUnmounting s \<subseteq> dom (fsMounts s)"
  using brun_inv [OF NewBridge_inv, of ops now] by (auto simp: Let_def binv_def minv_def sessions_of_def)

subsection \<open>The lease monitor\<close>

lemma removeClient_keeps [simp]:
  "connections (fst (removeClient s now c)) = connections s"
  "everHadClient (fst (removeClient s now c)) = everHadClient s"
  "bDraining (fst (removeClient s now c)) = bDraining s"
  by (simp_all add: removeClient_def)

lemma expire_fold:
  fixes t :: timeouts and now :: int
  defines "f \<equiv> \<lambda>c s. if expired t now c then fst (removeClient s now c) else s"
  assumes "distinct (map ccId (clients s))" "set cs \<subseteq> set (clients s0)" "set (clients s) \<subseteq> set (clients s0)"
    "distinct (map ccId (clients s0))"
  shows "clients (fold f cs s) = filter (\<lambda>c. c \<notin> set cs \<or> \<not> expired t now c) (clients s) \<and>
    connections (fold f cs s) = connections s \<and> everHadClient (fold f cs s) = everHadClient s \<and>
    bDraining (fold f cs s) = bDraining s \<and>
    (lastActive (fold f cs s) = lastActive s \<or> lastActive (fold f cs s) = now) \<and>
    (lastActive (fold f cs s) = now \<or> (\<forall>c \<in> set cs \<inter> set (clients s). \<not> expired t now c))"
  using assms(2-5)
proof (induction cs arbitrary: s)
  case Nil
  then show ?case by simp
next
  case (Cons c cs)
  have id: "d = c" if "d \<in> set (clients s)" "ccId d = ccId c" for d
    using that Cons.prems by (metis distinct_map inj_onD list.set_intros(1) subsetD)
  show ?case
  proof (cases "expired t now c")
    case False
    then have "fold f (c # cs) s = fold f cs s" by (simp add: f_def)
    then have IH: "clients (fold f cs s) = filter (\<lambda>c. c \<notin> set cs \<or> \<not> expired t now c) (clients s) \<and>
      connections (fold f cs s) = connections s \<and> everHadClient (fold f cs s) = everHadClient s \<and>
      bDraining (fold f cs s) = bDraining s \<and>
      (lastActive (fold f cs s) = lastActive s \<or> lastActive (fold f cs s) = now) \<and>
      (lastActive (fold f cs s) = now \<or> (\<forall>c \<in> set cs \<inter> set (clients s). \<not> expired t now c))"
      using Cons.IH [of s] Cons.prems by simp
    have filt: "filter (\<lambda>c. c \<notin> set cs \<or> \<not> expired t now c) (clients s) =
        filter (\<lambda>d. d \<notin> set (c # cs) \<or> \<not> expired t now d) (clients s)"
      using False by (intro filter_cong) auto
    have step: "fold f (c # cs) s = fold f cs s" using False by (simp add: f_def)
    have all: "(\<forall>d \<in> set (c # cs) \<inter> set (clients s). \<not> expired t now d) =
        (\<forall>d \<in> set cs \<inter> set (clients s). \<not> expired t now d)" using False by auto
    show ?thesis unfolding step all filt [symmetric] by (rule IH)
  next
    case True
    let ?s = "fst (removeClient s now c)"
    have step: "fold f (c # cs) s = fold f cs ?s" using True by (simp add: f_def)
    have cl: "clients ?s = filter (\<lambda>d. d \<noteq> c) (clients s)"
      using id by (auto simp: removeClient_clients intro!: filter_cong)
    have la: "c \<in> set (clients s) \<Longrightarrow> lastActive ?s = now" "c \<notin> set (clients s) \<Longrightarrow> ?s = s"
      using id by (auto simp: removeClient_def list_ex_iff)
    have "distinct (map ccId (clients ?s))" using Cons.prems(1) by (simp add: cl distinct_map_filter)
    then have IH: "clients (fold f cs ?s) = filter (\<lambda>c. c \<notin> set cs \<or> \<not> expired t now c) (clients ?s) \<and>
      connections (fold f cs ?s) = connections ?s \<and> everHadClient (fold f cs ?s) = everHadClient ?s \<and>
      bDraining (fold f cs ?s) = bDraining ?s \<and>
      (lastActive (fold f cs ?s) = lastActive ?s \<or> lastActive (fold f cs ?s) = now) \<and>
      (lastActive (fold f cs ?s) = now \<or> (\<forall>c \<in> set cs \<inter> set (clients ?s). \<not> expired t now c))"
      using Cons.IH [of ?s] Cons.prems by (auto simp: cl)
    have filt: "filter (\<lambda>c. c \<notin> set cs \<or> \<not> expired t now c) (clients ?s) =
        filter (\<lambda>d. d \<notin> set (c # cs) \<or> \<not> expired t now d) (clients s)"
      using True by (auto simp: cl intro!: filter_cong)
    show ?thesis
    proof (cases "c \<in> set (clients s)")
      case True
      then have "lastActive ?s = now" by (rule la(1))
      with IH [unfolded filt] show ?thesis unfolding step by simp
    next
      case False
      then have "?s = s" by (rule la(2))
      with IH [unfolded filt] False show ?thesis unfolding step by auto
    qed
  qed
qed

lemma expireClients_spec:
  assumes "distinct (map ccId (clients s))"
  shows "clients (expireClients t now s) = filter (\<lambda>c. \<not> expired t now c) (clients s)"
    "connections (expireClients t now s) = connections s"
    "everHadClient (expireClients t now s) = everHadClient s"
    "bDraining (expireClients t now s) = bDraining s"
    "lastActive (expireClients t now s) = lastActive s \<or> lastActive (expireClients t now s) = now"
    "lastActive (expireClients t now s) = now \<or> (\<forall>c \<in> set (clients s). \<not> expired t now c)"
  using expire_fold [OF assms, of "clients s" s t now] assms
  unfolding expireClients_def by (auto intro: filter_cong)

text \<open>C11. A tick of the lease monitor disconnects exactly the clients whose last heartbeat is too old,
  in any reachable state. It starts draining exactly when the server had no client at all before
  the tick, has no open connection, and has been idle for the drain timeout (the startup timeout
  when no client ever came); a server that loses its last client in a tick stays up.\<close>

theorem lease_monitor:
  assumes pos: "0 < drainTimeout t" and s: "s = brun ops (NewBridge start)"
  shows "case monitorTick t now s of (stop, s') \<Rightarrow>
    clients s' = filter (\<lambda>c. now - ccLastSeen c < heartbeatTimeout t) (clients s) \<and>
    (stop \<longleftrightarrow> clients s = [] \<and> connections s = {} \<and>
       now - lastActive s \<ge> (if everHadClient s then drainTimeout t else startupTimeout t)) \<and>
    (bDraining s' \<longleftrightarrow> bDraining s \<or> stop)"
proof -
  have inv: "binv s" using brun_inv [OF NewBridge_inv] s by blast
  then have d: "distinct (map ccId (clients s))" and ever: "clients s \<noteq> [] \<Longrightarrow> everHadClient s"
    by (simp_all add: binv_def)
  note e = expireClients_spec [OF d, of t now]
  have none: "expireClients t now s = s" if "clients s = []" using that by (simp add: expireClients_def)
  have busy: "\<not> shouldDrain t now (expireClients t now s)" if ne: "clients s \<noteq> []"
  proof
    assume sd: "shouldDrain t now (expireClients t now s)"
    then have "clients (expireClients t now s) = []" by (simp add: shouldDrain_def)
    then have "\<forall>c \<in> set (clients s). expired t now c" using e(1) by (simp add: filter_empty_conv)
    moreover obtain c where "c \<in> set (clients s)" using ne by (meson list.set_sel(1))
    ultimately have "lastActive (expireClients t now s) = now" using e(6) by blast
    then show False using sd pos ever [OF ne] e(3) by (simp add: shouldDrain_def)
  qed
  have keep: "filter (\<lambda>c. \<not> expired t now c) (clients s) =
      filter (\<lambda>c. now - ccLastSeen c < heartbeatTimeout t) (clients s)"
    by (rule filter_cong) (auto simp: expired_def)
  show ?thesis
  proof (cases "clients s = []")
    case True
    then show ?thesis using none by (auto simp: monitorTick_def confirmDrain_def shouldDrain_def)
  next
    case False
    then show ?thesis using busy e(1,4) keep by (simp add: monitorTick_def Let_def)
  qed
qed

definition lease_example :: timeouts where
  "lease_example = \<lparr>heartbeatTimeout = 30, drainTimeout = 60, startupTimeout = 90\<rparr>"

theorem lease_monitor_witness:
  "let s = brun [Join 5 lone, Beat 20 0] (NewBridge 0) in
   case monitorTick lease_example 51 s of (stop, s') \<Rightarrow> clients s' = [] \<and> \<not> stop"
proof -
  let ?s = "brun [Join 5 lone, Beat 20 0] (NewBridge 0)"
  have "clients ?s = [lone\<lparr>ccLastSeen := 20\<rparr>]"
    by (simp add: brun_def NewBridge_def addClient_def renewLease_def lone_def)
  then show ?thesis
    using lease_monitor [where t = lease_example and now = 51, OF _ refl, of "[Join 5 lone, Beat 20 0]" 0]
    by (auto simp: lease_example_def Let_def split: prod.splits)
qed

subsection \<open>A data session that is replaced\<close>

text \<open>A world in which nothing can be registered at, or offered through, any peer.\<close>

definition deaf_world :: fsworld where
  "deaf_world = \<lparr>fwLayout = (\<lambda>cwd. Inr \<lparr>elRootPath = ''/home/u'', elRelativeCwd = cwd, elMountPath = ''home/u''\<rparr>),
     fwMountID = (\<lambda>root path. ''m''), fwOpenRoot = (\<lambda>root. Inr 9),
     fwRegister = (\<lambda>peer m. Some ''peer closed''), fwOffer = (\<lambda>peer m path ro. Some ''peer closed'')\<rparr>"

definition fs_request :: Frame where
  "fs_request = Frame0\<lparr>fType := TypeCommandExec, fID := ''7'', fSessionID := ''s1'', fRemoteFS := True, fCwd := ''src''\<rparr>"

definition first_peer :: "bop list" where
  "first_peer = [Join 0 lone, PeerUp ''s1'' 1 0, Export ''s1'' ''m'' 1 7, Offer ''s1'' ''m'' 1]"

text \<open>When the data connection of a session is replaced while its control connection lives on, the
  export and the mount made on the old peer still count as made: a remote-fs command goes out
  with the mount id although neither was set up on the new peer and neither can be. With a
  first data connection the same command is refused.\<close>

theorem replaced_peer_without_export:
  "(let s = brun (first_peer @ [PeerDown ''s1'' 1 1, PeerUp ''s1'' 2 2]) (NewBridge 0) in
      fsPeers s ''s1'' = Some 2 \<and>
      (\<exists>a. fst (prepareFS deaf_world s fs_request) = Inr a \<and> fMountID a = ''m'')) \<and>
   (let s = brun [Join 0 lone, PeerUp ''s1'' 2 2] (NewBridge 0) in
      fst (prepareFS deaf_world s fs_request) = Inl (commandError ''7'' ''peer closed''))"
  by (simp add: brun_def first_peer_def NewBridge_def addClient_def lone_def fsRegister_def fsDone_def
    exportCommit_def offerCommit_def prepareFS_def fs_request_def Frame0_def deaf_world_def
    ensureExportBackend_def exportExists_def ensureClientMount_def offerExists_def Let_def)

end
