(* ===== verification/GoBase64.thy ===== *)
theory GoBase64
  imports GoNet
begin

text \<open>
  \<open>encoding/base64\<close> with \<open>StdEncoding\<close>, as the program uses it on standard input and output:
  \<open>EncodeToString\<close>, and \<open>DecodeString\<close>, which skips line breaks and accepts padding at the end only.
\<close>

definition b64_alphabet :: string where
  "b64_alphabet = ''ABCDEFGHIJKLMNOPQRSTUVWXYZabcdefghijklmnopqrstuvwxyz0123456789+/''"

definition b64_char :: "nat \<Rightarrow> char" where
  "b64_char n = b64_alphabet ! n"

definition b64_val :: "char \<Rightarrow> nat option" where
  "b64_val c = map_option snd (find (\<lambda>(d, i). d = c) (zip b64_alphabet [0..<64]))"

fun EncodeToString :: "byte list \<Rightarrow> string" where
  "EncodeToString [] = []"
| "EncodeToString [a] = (let v = unat a * 16 in [b64_char (v div 64), b64_char (v mod 64), CHR ''='', CHR ''=''])"
| "EncodeToString [a, b] =
     (let v = (unat a * 256 + unat b) * 4 in
      [b64_char (v div 4096), b64_char (v div 64 mod 64), b64_char (v mod 64), CHR ''=''])"
| "EncodeToString (a # b # c # bs) =
     (let v = (unat a * 256 + unat b) * 256 + unat c in
      [b64_char (v div 262144), b64_char (v div 4096 mod 64), b64_char (v div 64 mod 64), b64_char (v mod 64)]
      @ EncodeToString bs)"

fun decode_quads :: "string \<Rightarrow> byte list option" where
  "decode_quads [] = Some []"
| "decode_quads (a # b # c # d # s) =
     (case (b64_val a, b64_val b) of
        (Some x, Some y) \<Rightarrow>
          (if c = CHR ''='' then
             (if d = CHR ''='' \<and> s = [] then Some [of_nat ((x * 64 + y) div 16)] else None)
           else case b64_val c of
             None \<Rightarrow> None
           | Some z \<Rightarrow>
               (if d = CHR ''='' then
                  (if s = [] then let v = ((x * 64 + y) * 64 + z) div 4 in Some [of_nat (v div 256), of_nat (v mod 256)]
                   else None)
                else case b64_val d of
                  None \<Rightarrow> None
                | Some w \<Rightarrow>
                    (let v = ((x * 64 + y) * 64 + z) * 64 + w in
                     map_option (\<lambda>bs. of_nat (v div 65536) # of_nat (v div 256 mod 256) # of_nat (v mod 256) # bs)
                       (decode_quads s))))
      | _ \<Rightarrow> None)"
| "decode_quads _ = None"

definition DecodeString :: "string \<Rightarrow> byte list option" where
  "DecodeString s = decode_quads (filter (\<lambda>c. c \<noteq> CHR 0x0A \<and> c \<noteq> CHR 0x0D) s)"

subsection \<open>Round trip\<close>

lemma length_alphabet: "length b64_alphabet = 64" by (simp add: b64_alphabet_def)

lemma distinct_alphabet: "distinct b64_alphabet" unfolding b64_alphabet_def by code_simp

lemma find_zip_index:
  "distinct xs \<Longrightarrow> i < length xs \<Longrightarrow> find (\<lambda>(d, j). d = xs ! i) (zip xs [k..<k + length xs]) = Some (xs ! i, k + i)"
proof (induction xs arbitrary: i k)
  case (Cons x xs)
  have "[k..<k + length (x # xs)] = k # [Suc k..<Suc k + length xs]" by (simp add: upt_rec)
  moreover have "xs ! j \<noteq> x" if "j < length xs" for j using Cons.prems(1) that by auto
  ultimately show ?case using Cons.IH [of "i - 1" "Suc k"] Cons.prems by (cases i) auto
qed simp

lemma b64_val_char [simp]: "n < 64 \<Longrightarrow> b64_val (b64_char n) = Some n"
  using find_zip_index [OF distinct_alphabet, of n 0]
  unfolding b64_val_def b64_char_def length_alphabet by simp

lemma b64_char_plain: "n < 64 \<Longrightarrow> b64_char n \<noteq> CHR ''='' \<and> b64_char n \<noteq> CHR 0x0A \<and> b64_char n \<noteq> CHR 0x0D"
proof -
  assume "n < 64"
  then have "b64_char n \<in> set b64_alphabet" by (simp add: b64_char_def length_alphabet)
  then show ?thesis by (auto simp: b64_alphabet_def)
qed

lemma byte_bounds [simp]: "unat (a :: byte) < 256" "of_nat (unat a) = a"
  using unsigned_less [of a] by simp_all

lemma join_div [simp]:
  fixes x c k :: nat
  assumes "c < k"
  shows "(x * k + c) div k = x" "(x * k + c) mod k = c"
  using assms by simp_all

lemma digits64:
  fixes v :: nat
  shows "(v div 64) * 64 + v mod 64 = v"
    "(v div 4096 * 64 + v div 64 mod 64) * 64 + v mod 64 = v"
    "((v div 262144 * 64 + v div 4096 mod 64) * 64 + v div 64 mod 64) * 64 + v mod 64 = v"
proof -
  have d: "v div 4096 = v div 64 div 64" "v div 262144 = v div 64 div 64 div 64"
    by (simp_all add: div_mult2_eq [symmetric])
  show one: "(v div 64) * 64 + v mod 64 = v" by (rule div_mult_mod_eq)
  show two: "(v div 4096 * 64 + v div 64 mod 64) * 64 + v mod 64 = v"
    unfolding d by (simp only: div_mult_mod_eq)
  show "((v div 262144 * 64 + v div 4096 mod 64) * 64 + v div 64 mod 64) * 64 + v mod 64 = v"
    unfolding d by (simp only: div_mult_mod_eq)
qed

lemma split3:
  fixes a b c :: nat
  assumes "a < 256" "b < 256" "c < 256" "v = (a * 256 + b) * 256 + c"
  shows "v div 262144 < 64" "((v div 262144 * 64 + v div 4096 mod 64) * 64 + v div 64 mod 64) * 64 + v mod 64 = v"
    "v div 65536 = a" "v div 256 mod 256 = b" "v mod 256 = c"
proof -
  show "v div 262144 < 64" using assms by (simp add: div_less_iff_less_mult)
  have q: "v div 256 = a * 256 + b" unfolding assms(4) using assms(3) by (rule join_div)
  have "v div 65536 = v div 256 div 256" by (simp add: div_mult2_eq [symmetric])
  then show "v div 65536 = a" "v div 256 mod 256 = b" using q assms(2) by (simp_all only: join_div)
  show "v mod 256 = c" unfolding assms(4) using assms(3) by (rule join_div)
qed (rule digits64)

lemma split2:
  fixes a b :: nat
  assumes "a < 256" "b < 256" "v = (a * 256 + b) * 4"
  shows "v div 4096 < 64" "((v div 4096 * 64 + v div 64 mod 64) * 64 + v mod 64) div 4 = a * 256 + b"
proof -
  show "v div 4096 < 64" using assms by (simp add: div_less_iff_less_mult)
  have "v div 4 = a * 256 + b" unfolding assms(3) by simp
  then show "((v div 4096 * 64 + v div 64 mod 64) * 64 + v mod 64) div 4 = a * 256 + b" by (simp only: digits64)
qed

lemma split1:
  fixes a :: nat
  assumes "a < 256" "v = a * 16"
  shows "v div 64 < 64" "(v div 64 * 64 + v mod 64) div 16 = a"
proof -
  show "v div 64 < 64" using assms by (simp add: div_less_iff_less_mult)
  have "v div 16 = a" unfolding assms(2) by simp
  then show "(v div 64 * 64 + v mod 64) div 16 = a" by (simp only: digits64)
qed

lemma decode_four [simp]:
  "x < 64 \<Longrightarrow> y < 64 \<Longrightarrow> decode_quads [b64_char x, b64_char y, CHR ''='', CHR ''=''] = Some [of_nat ((x * 64 + y) div 16)]"
  "x < 64 \<Longrightarrow> y < 64 \<Longrightarrow> z < 64 \<Longrightarrow> decode_quads [b64_char x, b64_char y, b64_char z, CHR ''=''] =
     Some [of_nat (((x * 64 + y) * 64 + z) div 4 div 256), of_nat (((x * 64 + y) * 64 + z) div 4 mod 256)]"
  "x < 64 \<Longrightarrow> y < 64 \<Longrightarrow> z < 64 \<Longrightarrow> w < 64 \<Longrightarrow> v = ((x * 64 + y) * 64 + z) * 64 + w \<Longrightarrow>
   decode_quads (b64_char x # b64_char y # b64_char z # b64_char w # s) =
     map_option (\<lambda>bs. of_nat (v div 65536) # of_nat (v div 256 mod 256) # of_nat (v mod 256) # bs) (decode_quads s)"
  by (simp_all only: decode_quads.simps b64_val_char b64_char_plain if_True if_False option.case prod.case Let_def simp_thms)

lemma mod64: "(v :: nat) mod 64 < 64" by simp

lemma decode_encode: "decode_quads (EncodeToString bs) = Some bs"
proof (induction bs rule: EncodeToString.induct)
  case (2 a)
  note s = split1 [OF byte_bounds(1) refl, of a]
  show ?case unfolding EncodeToString.simps Let_def decode_four(1) [OF s(1) mod64] s(2) by simp
next
  case (3 a b)
  note s = split2 [OF byte_bounds(1) byte_bounds(1) refl, of a b]
  show ?case unfolding EncodeToString.simps Let_def decode_four(2) [OF s(1) mod64 mod64] s(2)
    by (simp only: join_div byte_bounds)
next
  case (4 a b c bs)
  note s = split3 [OF byte_bounds(1) byte_bounds(1) byte_bounds(1) refl, of a b c]
  show ?case
    unfolding EncodeToString.simps Let_def append.simps decode_four(3) [OF s(1) mod64 mod64 mod64 s(2) [symmetric]]
      s(3-5) 4 [OF refl] byte_bounds by simp
qed simp

lemma EncodeToString_plain: "c \<in> set (EncodeToString bs) \<Longrightarrow> c \<noteq> CHR 0x0A \<and> c \<noteq> CHR 0x0D"
proof (induction bs rule: EncodeToString.induct)
  case (2 a)
  then show ?case
    using b64_char_plain [OF split1(1) [OF byte_bounds(1) refl, of a]] b64_char_plain [OF mod64]
    unfolding EncodeToString.simps Let_def by (auto simp only: set_simps insert_iff empty_iff)
next
  case (3 a b)
  then show ?case
    using b64_char_plain [OF split2(1) [OF byte_bounds(1) byte_bounds(1) refl, of a b]] b64_char_plain [OF mod64]
    unfolding EncodeToString.simps Let_def by (auto simp only: set_simps insert_iff empty_iff)
next
  case (4 a b d bs)
  then show ?case
    using b64_char_plain [OF split3(1) [OF byte_bounds(1) byte_bounds(1) byte_bounds(1) refl, of a b d]] b64_char_plain [OF mod64]
    unfolding EncodeToString.simps Let_def append.simps by (auto simp only: set_simps insert_iff)
qed simp

lemma DecodeString_EncodeToString [simp]: "DecodeString (EncodeToString bs) = Some bs"
proof -
  have "filter (\<lambda>c. c \<noteq> CHR 0x0A \<and> c \<noteq> CHR 0x0D) (EncodeToString bs) = EncodeToString bs"
    using EncodeToString_plain by (intro filter_True) blast
  then show ?thesis by (simp only: DecodeString_def decode_encode)
qed

end
