(* ===== verification/BridgeClient.thy ===== *)
theory BridgeClient
  imports Bridge GoBase64
begin

text \<open>
  \<open>internal/bridge/client.go\<close>, the two peers of the server: the client that keeps a session and
  executes commands, and the requester that asks for one; and the delivery of responses to the
  pending requests of a client connection (\<open>clientConn.request\<close>, \<open>readLoop\<close>). A duration is an
  \<open>int64\<close> of nanoseconds. Running a process is a parameter.
\<close>

subsection \<open>The client\<close>

record client_opts =
  coAllow :: "(string list \<Rightarrow> bool) option"
  coHasObserved :: bool
  coHasGone :: bool
  coAppVersion :: string
  coRuntimeID :: string
  coTargetID :: string
  coContextID :: string
  coSessionID :: string
  coCapabilities :: "string list"
  coHeartbeatInterval :: int
  coHeartbeatTimeout :: int

definition second :: int where "second = 10 ^ 9"

definition DefaultHeartbeatInterval :: int where "DefaultHeartbeatInterval = 5 * second"
definition DefaultHeartbeatTimeout :: int where "DefaultHeartbeatTimeout = 15 * second"

text \<open>The defaults of \<open>RunClientConnWithOptions\<close>; \<open>uuid\<close> is the outcome of \<open>identity.UUID\<close>.\<close>

definition defaultOpts :: "string \<Rightarrow> (string, string) result \<Rightarrow> client_opts \<Rightarrow> (string, client_opts) result" where
  "defaultOpts v uuid opts =
     (case (if coSessionID opts = [] then uuid else Inr (coSessionID opts)) of
        Inl err \<Rightarrow> Inl err
      | Inr sessionID \<Rightarrow> Inr (opts\<lparr>
          coAppVersion := (if coAppVersion opts = [] then v else coAppVersion opts),
          coSessionID := sessionID,
          coRuntimeID := (if coRuntimeID opts = [] then RuntimeID else coRuntimeID opts),
          coTargetID := (if coTargetID opts = [] then ''default'' else coTargetID opts),
          coContextID := (if coContextID opts = [] then ''default'' else coContextID opts),
          coCapabilities := (if coCapabilities opts = [] then defaultCapabilities else coCapabilities opts),
          coHeartbeatInterval :=
            (if coHeartbeatInterval opts \<le> 0 then DefaultHeartbeatInterval else coHeartbeatInterval opts),
          coHeartbeatTimeout :=
            (if coHeartbeatTimeout opts \<le> 0 then DefaultHeartbeatTimeout else coHeartbeatTimeout opts)\<rparr>))"

definition firstToken :: "string list \<Rightarrow> string" where
  "firstToken tokens = (case tokens of [] \<Rightarrow> [] | t # _ \<Rightarrow> t)"

definition clientHello :: "client_opts \<Rightarrow> string list \<Rightarrow> Frame" where
  "clientHello opts token = Frame0\<lparr>fType := TypeHello, fProtocolVersion := Version, fProtocolMin := MinVersion,
     fProtocolMax := MaxVersion, fRuntimeID := coRuntimeID opts, fAppVersion := coAppVersion opts,
     fTargetID := coTargetID opts, fContextID := coContextID opts, fSessionID := coSessionID opts,
     fCapabilities := coCapabilities opts, fRole := RoleClient, fToken := firstToken token\<rparr>"

text \<open>A tick of the heartbeat goroutine: it closes the connection when no acknowledgement came for
  the timeout, else it sends the next heartbeat.\<close>

definition heartbeatTick :: "client_opts \<Rightarrow> int \<Rightarrow> int \<Rightarrow> 64 word \<Rightarrow> (Frame \<times> 64 word) option" where
  "heartbeatTick opts now lastAck sequence =
     (if now - lastAck \<ge> coHeartbeatTimeout opts then None
      else Some (Frame0\<lparr>fType := TypeHeartbeat, fProtocolVersion := Version, fProtocolMin := MinVersion,
        fProtocolMax := MaxVersion, fRuntimeID := coRuntimeID opts, fAppVersion := coAppVersion opts,
        fContextID := coContextID opts, fSessionID := coSessionID opts, fSequence := sequence + 1\<rparr>, sequence + 1))"

text \<open>What the read loop does with one frame. \<open>sendOk\<close> is the outcome of the send in the branch that
  denies a command. \<open>Execute\<close> starts the command in a goroutine of its own.\<close>

datatype action = SendFrame Frame | Execute Frame | Ready "string option" | AckSeen
  | PortObserved string int | PortGone int

datatype verdict = Continue bool | Return "string option"

definition deniedFrame :: "Frame \<Rightarrow> Frame" where
  "deniedFrame frame = Frame0\<lparr>fType := TypeCommandError, fID := fID frame, fError := ''command denied by sshx policy''\<rparr>"

definition client_frame :: "client_opts \<Rightarrow> bool \<Rightarrow> bool \<Rightarrow> Frame \<Rightarrow> action list \<times> verdict" where
  "client_frame opts sendOk readySignaled frame =
     (if \<not> readySignaled \<and> fType frame = TypeCapabilities then
        (if \<not> FrameCompatible frame \<or> fRuntimeID frame \<noteq> coRuntimeID opts
         then let err = ''sshx bridge runtime is incompatible'' in ([Ready (Some err)], Return (Some err))
         else ([Ready None], Continue True))
      else if fType frame = TypeHeartbeatAck then
        (if \<not> FrameCompatible frame \<or> fRuntimeID frame \<noteq> coRuntimeID opts
         then ([], Return (Some ''sshx bridge heartbeat runtime is incompatible''))
         else ([AckSeen], Continue readySignaled))
      else if fType frame = TypeServerDrain then
        (if \<not> readySignaled then [Ready (Some (fError frame))] else [], Return (Some (''sshx server draining: '' @ fError frame)))
      else if fType frame = TypePortObserved then
        (if coHasObserved opts \<and> fPort frame > 0 then [PortObserved (fHost frame) (fPort frame)] else [], Continue readySignaled)
      else if fType frame = TypePortGone then
        (if coHasGone opts \<and> fPort frame > 0 then [PortGone (fPort frame)] else [], Continue readySignaled)
      else if fType frame \<noteq> TypeCommandExec then ([], Continue readySignaled)
      else if (case coAllow opts of None \<Rightarrow> False | Some allow \<Rightarrow> \<not> allow (fArgv frame)) then
        ([SendFrame (deniedFrame frame)], if sendOk then Continue readySignaled else Return (Some ''send failed''))
      else ([Execute frame], Continue readySignaled))"

text \<open>The loop, on the frames of the stream (each with the outcome of a send) and the error that
  ends it; \<open>cancelled\<close> tells whether the context was cancelled then.\<close>

fun client_run :: "client_opts \<Rightarrow> string \<Rightarrow> bool \<Rightarrow> bool \<Rightarrow> (Frame \<times> bool) list \<Rightarrow> action list \<times> string option" where
  "client_run opts decodeErr cancelled readySignaled [] =
     (let err = (if cancelled then None else Some decodeErr) in
      (if \<not> readySignaled then [Ready err] else [], err))"
| "client_run opts decodeErr cancelled readySignaled ((frame, sendOk) # stream) =
     (case client_frame opts sendOk readySignaled frame of
        (acts, Return err) \<Rightarrow> (acts, err)
      | (acts, Continue ready) \<Rightarrow>
          (let (more, err) = client_run opts decodeErr cancelled ready stream in (acts @ more, err)))"

subsection \<open>Execution of a command\<close>

text \<open>Conversions between an \<open>int64\<close> of milliseconds and a duration.\<close>

definition Millisecond :: "64 word" where "Millisecond = 1000000"

definition durationMillis :: "64 word \<Rightarrow> 64 word" where
  "durationMillis timeout =
     (if sint timeout \<le> 0 then 0
      else let millis = word_of_int (sint timeout div sint Millisecond) in
        if sint timeout mod sint Millisecond \<noteq> 0 then millis + 1 else millis)"

definition frameTimeout :: "Frame \<Rightarrow> 64 word" where
  "frameTimeout frame = fTimeoutMillis frame * Millisecond"

text \<open>The process \<open>ExecuteLocal\<close> starts: its environment is inherited when \<open>cmEnv\<close> is empty.\<close>

record command =
  cmArgv :: "string list"
  cmDir :: string
  cmEnv :: "string \<rightharpoonup> string"
  cmStdin :: "byte list"
  cmTimeout :: "64 word option"

datatype run_error = ExitError int | OtherError string

record run_result =
  rrErr :: "run_error option"
  rrDeadline :: bool
  rrStdout :: "byte list"
  rrStderr :: "byte list"

definition resultFrame :: "string \<Rightarrow> int \<Rightarrow> byte list \<Rightarrow> byte list \<Rightarrow> Frame" where
  "resultFrame i exitCode stdout stderr = Frame0\<lparr>fType := TypeCommandResult, fID := i, fExitCode := exitCode,
     fStdout := EncodeToString stdout, fStderr := EncodeToString stderr\<rparr>"

definition commandOf :: "string option \<Rightarrow> Frame \<Rightarrow> byte list \<Rightarrow> command" where
  "commandOf home frame stdin =
     \<lparr>cmArgv = fArgv frame,
      cmDir = (if fCwd frame \<noteq> [] then fCwd frame
               else if fEnv frame ''SSHX_REMOTE_FS'' = Some ''0'' then (case home of Some h \<Rightarrow> h | None \<Rightarrow> []) else []),
      cmEnv = fEnv frame, cmStdin = stdin,
      cmTimeout = (if 0 < sint (fTimeoutMillis frame) then Some (frameTimeout frame) else None)\<rparr>"

definition ExecuteLocal ::
  "string option \<Rightarrow> (64 word \<Rightarrow> string) \<Rightarrow> (command \<Rightarrow> run_result) \<Rightarrow> Frame \<Rightarrow> Frame" where
  "ExecuteLocal home durationString run frame =
     (if fArgv frame = [] then commandError (fID frame) ''command argv is empty''
      else case DecodeString (fStdin frame) of
        None \<Rightarrow> commandError (fID frame) ''illegal base64 data''
      | Some stdin \<Rightarrow>
          (let r = run (commandOf home frame stdin) in
           if 0 < sint (fTimeoutMillis frame) \<and> rrDeadline r then
             (commandError (fID frame) (''command timed out after '' @ durationString (frameTimeout frame)))\<lparr>fExitCode := 124\<rparr>
           else case rrErr r of
             None \<Rightarrow> resultFrame (fID frame) 0 (rrStdout r) (rrStderr r)
           | Some (ExitError code) \<Rightarrow> resultFrame (fID frame) code (rrStdout r) (rrStderr r)
           | Some (OtherError err) \<Rightarrow> commandError (fID frame) err))"

subsection \<open>The requester\<close>

record CommandResult =
  crExitCode :: int
  crStdout :: "byte list"
  crStderr :: "byte list"

definition failed :: "int \<Rightarrow> string \<Rightarrow> CommandResult \<times> string option" where
  "failed code err = (\<lparr>crExitCode = code, crStdout = [], crStderr = []\<rparr>, Some err)"

record local_request =
  lrArgv :: "string list"
  lrStdin :: "byte list"
  lrEnv :: "string \<rightharpoonup> string"
  lrCwd :: string
  lrContextID :: string
  lrSessionID :: string
  lrRemoteFS :: bool
  lrReadOnly :: bool
  lrTimeout :: "64 word"

definition requesterHello :: "local_request \<Rightarrow> string list \<Rightarrow> Frame" where
  "requesterHello r token = Frame0\<lparr>fType := TypeHello, fProtocolVersion := Version, fProtocolMin := MinVersion,
     fProtocolMax := MaxVersion, fRuntimeID := RuntimeID, fRole := RoleRequester, fContextID := lrContextID r,
     fSessionID := lrSessionID r, fToken := firstToken token\<rparr>"

definition execFrame :: "string \<Rightarrow> local_request \<Rightarrow> Frame" where
  "execFrame i r = Frame0\<lparr>fType := TypeCommandExec, fID := i, fRequestID := i, fArgv := lrArgv r, fEnv := lrEnv r,
     fCwd := lrCwd r, fContextID := lrContextID r, fSessionID := lrSessionID r, fRemoteFS := lrRemoteFS r,
     fMountReadOnly := lrReadOnly r, fStdin := EncodeToString (lrStdin r),
     fTimeoutMillis := durationMillis (lrTimeout r)\<rparr>"

definition readResponse :: "Frame \<Rightarrow> CommandResult \<times> string option" where
  "readResponse resp =
     (if fType resp = TypeCommandError \<or> fType resp = TypeError then
        failed (if fExitCode resp = 0 then 1 else fExitCode resp) (fError resp)
      else if fType resp \<noteq> TypeCommandResult then failed 1 (''unexpected response type '' @ fType resp)
      else case DecodeString (fStdout resp) of
        None \<Rightarrow> failed 1 ''illegal base64 data''
      | Some stdout \<Rightarrow>
          (case DecodeString (fStderr resp) of
             None \<Rightarrow> failed 1 ''illegal base64 data''
           | Some stderr \<Rightarrow> (\<lparr>crExitCode = fExitCode resp, crStdout = stdout, crStderr = stderr\<rparr>, None)))"

text \<open>\<open>exchange\<close> sends the two frames to the server and returns its first frame; the connection and
  the random id can fail.\<close>

definition RequestCommand ::
  "(string, string) result \<Rightarrow> (Frame \<Rightarrow> Frame \<Rightarrow> (string, Frame) result) \<Rightarrow> local_request \<Rightarrow> string list \<Rightarrow>
   CommandResult \<times> string option" where
  "RequestCommand uuid exchange r token =
     (if lrArgv r = [] then failed 2 ''local command is required''
      else case uuid of
        Inl err \<Rightarrow> failed 1 err
      | Inr i \<Rightarrow>
          (case exchange (requesterHello r token) (execFrame i r) of
             Inl err \<Rightarrow> failed 1 err
           | Inr resp \<Rightarrow> readResponse resp))"

subsection \<open>Timeouts\<close>

lemma sint_of_int:
  "0 < k \<Longrightarrow> k < 9223372036854775808 \<Longrightarrow> sint (word_of_int k :: 64 word) = k"
  by (subst sint_sbintrunc') (rule signed_take_bit_int_eq_self, simp_all)

lemma sint_Millisecond: "sint Millisecond = 1000000"
  unfolding Millisecond_def by simp

lemma Millisecond_of_int: "Millisecond = word_of_int 1000000"
  by (simp add: Millisecond_def)

definition round_up :: "int \<Rightarrow> int \<Rightarrow> int" where
  "round_up t d = (if t mod d \<noteq> 0 then t div d + 1 else t div d)"

lemma round_up_bounds:
  assumes "0 < d" "0 < t"
  shows "0 < round_up t d" "t \<le> round_up t d * d" "round_up t d * d < t + d"
proof -
  have t: "t div d * d + t mod d = t" "0 \<le> t mod d" "t mod d < d" "0 \<le> t div d"
    using assms by (simp_all add: pos_imp_zdiv_nonneg_iff)
  then show "t \<le> round_up t d * d" "round_up t d * d < t + d"
    unfolding round_up_def by (simp_all only: distrib_right mult_1 split: if_split) linarith+
  then show "0 < round_up t d" using assms by (metis less_le_trans zero_less_mult_pos2)
qed

lemma durationMillis_of_int:
  "0 < sint t \<Longrightarrow> durationMillis t = word_of_int (round_up (sint t) 1000000)"
  by (simp add: durationMillis_def sint_Millisecond Let_def round_up_def)

text \<open>A command never gets less time than was asked for, and at most a millisecond more, for every
  timeout up to 2^63 - 10^6 nanoseconds; no timeout stays no timeout.\<close>

theorem command_timeout:
  assumes "sint (lrTimeout r) \<le> 2 ^ 63 - 10 ^ 6"
  shows "case cmTimeout (commandOf home (execFrame i r) stdin) of
      None \<Rightarrow> sint (lrTimeout r) \<le> 0
    | Some t \<Rightarrow> 0 < sint (lrTimeout r) \<and> sint (lrTimeout r) \<le> sint t \<and> sint t < sint (lrTimeout r) + 10 ^ 6"
proof (cases "0 < sint (lrTimeout r)")
  case False
  then show ?thesis by (simp add: commandOf_def execFrame_def durationMillis_def)
next
  case True
  let ?t = "sint (lrTimeout r)" let ?m = "round_up ?t 1000000"
  have m: "durationMillis (lrTimeout r) = word_of_int ?m" using True by (rule durationMillis_of_int)
  have b: "0 < ?m" "?m * 1000000 < ?t + 1000000" "?t \<le> ?m * 1000000" using round_up_bounds [OF _ True, of 1000000] by simp_all
  have small: "?t \<le> 9223372036853775808" using assms by simp
  have pos: "sint (durationMillis (lrTimeout r)) = ?m"
    unfolding m using b small by (intro sint_of_int) linarith+
  have "durationMillis (lrTimeout r) * Millisecond = word_of_int (?m * 1000000)"
    unfolding m Millisecond_of_int by (simp only: wi_hom_syms)
  then have "sint (durationMillis (lrTimeout r) * Millisecond) = ?m * 1000000"
    using b small by (simp only:) (intro sint_of_int; linarith)
  then show ?thesis using b pos True by (simp add: commandOf_def execFrame_def frameTimeout_def)
qed

definition sample_request :: "64 word \<Rightarrow> local_request" where
  "sample_request t = \<lparr>lrArgv = [''make''], lrStdin = [104, 105], lrEnv = Map.empty, lrCwd = [], lrContextID = [],
     lrSessionID = [], lrRemoteFS = False, lrReadOnly = False, lrTimeout = t\<rparr>"

theorem command_timeout_witness:
  "case cmTimeout (commandOf None (execFrame ''7'' (sample_request 1500001)) []) of
      None \<Rightarrow> False | Some t \<Rightarrow> 1500001 \<le> sint t \<and> sint t < 2500001"
  using command_timeout [of "sample_request 1500001" None "''7''" "[]"]
  by (simp add: sample_request_def split: option.splits)

text \<open>A longer timeout is rounded up past the range of a duration: the longest one, about 292
  years, arrives as a negative duration, a deadline in the past.\<close>

theorem command_timeout_wraps:
  "sint (2 ^ 63 - 1 :: 64 word) = 2 ^ 63 - 1 \<and>
   (case cmTimeout (commandOf None (execFrame ''7'' (sample_request (2 ^ 63 - 1))) []) of
      None \<Rightarrow> False | Some t \<Rightarrow> sint t < 0)"
proof -
  have t: "sint (2 ^ 63 - 1 :: 64 word) = 9223372036854775807" by simp
  have m: "durationMillis (2 ^ 63 - 1) = 9223372036855"
    using durationMillis_of_int [of "2 ^ 63 - 1"] unfolding t by (simp add: round_up_def)
  show ?thesis
    unfolding commandOf_def execFrame_def sample_request_def frameTimeout_def Millisecond_def
    by (simp only: m Frame.simps local_request.simps command.simps) simp
qed

subsection \<open>The handshake of client and server\<close>

lemma own_version_compatible [simp]:
  "FrameCompatible (f\<lparr>fProtocolMin := MinVersion, fProtocolMax := MaxVersion\<rparr>)"
  by (simp add: FrameCompatible_def MinVersion_def MaxVersion_def)

lemma defaultOpts_facts:
  assumes "defaultOpts v uuid opts0 = Inr opts"
  shows "coTargetID opts \<noteq> []" "coContextID opts \<noteq> []" "coCapabilities opts \<noteq> []" "coAllow opts = coAllow opts0"
    "coRuntimeID opts0 \<in> {[], RuntimeID} \<Longrightarrow> coRuntimeID opts = RuntimeID"
proof -
  obtain sid where "(if coSessionID opts0 = [] then uuid else Inr (coSessionID opts0)) = Inr sid"
    using assms by (cases "if coSessionID opts0 = [] then uuid else Inr (coSessionID opts0)") (simp_all add: defaultOpts_def)
  with assms have o: "coTargetID opts = (if coTargetID opts0 = [] then ''default'' else coTargetID opts0)"
    "coContextID opts = (if coContextID opts0 = [] then ''default'' else coContextID opts0)"
    "coCapabilities opts = (if coCapabilities opts0 = [] then defaultCapabilities else coCapabilities opts0)"
    "coAllow opts = coAllow opts0"
    "coRuntimeID opts = (if coRuntimeID opts0 = [] then RuntimeID else coRuntimeID opts0)"
    unfolding defaultOpts_def by auto
  show "coTargetID opts \<noteq> []" "coContextID opts \<noteq> []" "coCapabilities opts \<noteq> []" "coAllow opts = coAllow opts0"
    "coRuntimeID opts0 \<in> {[], RuntimeID} \<Longrightarrow> coRuntimeID opts = RuntimeID"
    using o by (simp_all add: defaultCapabilities_def split: if_split) blast
qed

text \<open>C14. A client of this build with the server's token and a session id of its own is accepted and
  registered by a server that is not draining; the capabilities frame it is sent makes it ready,
  and every heartbeat it sends is acknowledged by a frame it accepts as an acknowledgement.\<close>

theorem client_handshake:
  assumes opts: "defaultOpts v uuid opts0 = Inr opts" "coRuntimeID opts0 \<in> {[], RuntimeID}" "coSessionID opts \<noteq> []"
    and server: "serverToken = [] \<or> firstToken token = serverToken" "\<not> bDraining s"
      "coSessionID opts \<notin> sessions_of s"
  shows "\<exists>hello s'. checkHello serverToken sv (clientHello opts token) = HelloClient hello \<and>
    serveClient s sv now (clientOf i now hello) True ports = (s', capabilitiesFrame sv # ports, True) \<and>
    clients s' = clients s @ [clientOf i now hello] \<and> ccSession (clientOf i now hello) = coSessionID opts \<and>
    client_frame opts ok False (capabilitiesFrame sv) = ([Ready None], Continue True) \<and>
    (\<forall>t lastAck q hb q'. heartbeatTick opts t lastAck q = Some (hb, q') \<longrightarrow>
       (\<exists>ack. readFrame sv hb = HeartbeatRound ack \<and> client_frame opts ok True ack = ([AckSeen], Continue True)))"
proof -
  note o = defaultOpts_facts [OF opts(1)]
  have r: "coRuntimeID opts = RuntimeID" using o(5) opts(2) by blast
  have hello: "checkHello serverToken sv (clientHello opts token) = HelloClient (clientHello opts token)"
    using o opts server r
    by (auto simp: checkHello_def clientHello_def Frame0_def FrameCompatible_def Version_def MinVersion_def MaxVersion_def)
  have sess: "ccSession (clientOf i now (clientHello opts token)) = coSessionID opts"
    by (simp add: clientOf_def clientHello_def)
  have add: "addClient s now (clientOf i now (clientHello opts token)) =
      (True, s\<lparr>clients := clients s @ [clientOf i now (clientHello opts token)], everHadClient := True, lastActive := now\<rparr>)"
    using server(2,3) sess by (simp add: addClient_def list_ex_iff sessions_of_def) (metis imageI)
  have cap: "client_frame opts ok False (capabilitiesFrame sv) = ([Ready None], Continue True)"
    using r by (simp add: client_frame_def capabilitiesFrame_def Frame0_def FrameCompatible_def Version_def
        MinVersion_def MaxVersion_def)
  have hb: "\<exists>ack. readFrame sv hb = HeartbeatRound ack \<and> client_frame opts ok True ack = ([AckSeen], Continue True)"
    if "heartbeatTick opts t lastAck q = Some (hb, q')" for t lastAck q hb q'
    using that r
    by (auto simp: heartbeatTick_def readFrame_def client_frame_def Frame0_def FrameCompatible_def Version_def
        MinVersion_def MaxVersion_def split: if_splits)
  show ?thesis using hello sess cap hb by (simp add: serveClient_def add)
qed

definition plain_opts :: client_opts where
  "plain_opts = \<lparr>coAllow = None, coHasObserved = False, coHasGone = False, coAppVersion = [], coRuntimeID = [],
     coTargetID = [], coContextID = [], coSessionID = ''s1'', coCapabilities = [], coHeartbeatInterval = 0,
     coHeartbeatTimeout = 0\<rparr>"

theorem client_handshake_witness:
  "\<exists>opts hello s'. defaultOpts ''dev'' (Inl ''no entropy'') plain_opts = Inr opts \<and>
    checkHello ''secret'' ''dev'' (clientHello opts [''secret'']) = HelloClient hello \<and>
    serveClient (NewBridge 0) ''dev'' 3 (clientOf 1 3 hello) True [] = (s', [capabilitiesFrame ''dev''], True)"
proof -
  obtain opts where opts: "defaultOpts ''dev'' (Inl ''no entropy'') plain_opts = Inr opts" "coSessionID opts = ''s1''"
    by (simp add: defaultOpts_def plain_opts_def)
  have "coRuntimeID plain_opts \<in> {[], RuntimeID}" "coSessionID opts \<noteq> []"
    "''secret'' = [] \<or> firstToken [''secret''] = ''secret''" "\<not> bDraining (NewBridge 0)"
    "coSessionID opts \<notin> sessions_of (NewBridge 0)"
    using opts(2) by (simp_all add: plain_opts_def firstToken_def NewBridge_def sessions_of_def)
  from client_handshake [OF opts(1) this, of "''dev''" 3 1 "[]" True] opts(1) show ?thesis by blast
qed

subsection \<open>The client obeys its policy\<close>

definition is_command :: "action \<Rightarrow> bool" where
  "is_command a = (case a of SendFrame _ \<Rightarrow> True | Execute _ \<Rightarrow> True | _ \<Rightarrow> False)"

definition is_ready :: "action \<Rightarrow> bool" where
  "is_ready a = (case a of Ready _ \<Rightarrow> True | _ \<Rightarrow> False)"

definition allowed :: "client_opts \<Rightarrow> Frame \<Rightarrow> bool" where
  "allowed opts frame = (case coAllow opts of None \<Rightarrow> True | Some allow \<Rightarrow> allow (fArgv frame))"

definition treat :: "client_opts \<Rightarrow> Frame \<Rightarrow> action" where
  "treat opts frame = (if allowed opts frame then Execute frame else SendFrame (deniedFrame frame))"

lemma client_frame_commands:
  "filter is_command (fst (client_frame opts sendOk ready frame)) =
     (if fType frame = TypeCommandExec then [treat opts frame] else [])"
  by (auto simp: client_frame_def is_command_def treat_def allowed_def Let_def split: option.splits)

lemma client_frame_ready_once:
  "length (filter is_ready (fst (client_frame opts sendOk ready frame))) \<le> (if ready then 0 else 1)"
  unfolding client_frame_def Let_def is_ready_def by (simp split: if_split)

lemma client_frame_ready_next:
  "snd (client_frame opts sendOk ready frame) = Continue ready' \<Longrightarrow>
     length (filter is_ready (fst (client_frame opts sendOk ready frame))) = (if ready' \<and> \<not> ready then 1 else 0) \<and>
     (ready \<longrightarrow> ready')"
  unfolding client_frame_def Let_def is_ready_def by (cases ready; cases ready'; simp split: if_splits)

lemma client_frame_no_silent_end: "snd (client_frame opts sendOk ready frame) \<noteq> Return None"
  unfolding client_frame_def Let_def is_ready_def by (simp split: if_split)

lemmas client_frame_ready = client_frame_ready_once client_frame_ready_next client_frame_no_silent_end

text \<open>C13. Whatever the server sends, the client answers the command frames it reads in order, each
  exactly once: those its policy allows are executed, the others are denied under their own id and
  never executed. Readiness is signalled at most once, and the client ends without an error only
  when it was cancelled after reading the whole stream.\<close>

theorem client_policy:
  "case client_run opts decodeErr cancelled False stream of (acts, err) \<Rightarrow>
    (\<exists>k. k \<le> length stream \<and>
       filter is_command acts =
         map (treat opts) (filter (\<lambda>f. fType f = TypeCommandExec) (map fst (take k stream))) \<and>
       (case err of None \<Rightarrow> cancelled \<and> k = length stream | Some e \<Rightarrow> True)) \<and>
    length (filter is_ready acts) \<le> 1"
proof -
  have "(\<exists>k. k \<le> length stream \<and>
       filter is_command (fst (client_run opts decodeErr cancelled ready stream)) =
         map (treat opts) (filter (\<lambda>f. fType f = TypeCommandExec) (map fst (take k stream))) \<and>
       \<not> (snd (client_run opts decodeErr cancelled ready stream) = None \<and> \<not> (cancelled \<and> k = length stream))) \<and>
    length (filter is_ready (fst (client_run opts decodeErr cancelled ready stream))) \<le> (if ready then 0 else 1)" for ready
  proof (induction stream arbitrary: ready)
    case Nil
    show ?case by (simp add: is_command_def is_ready_def Let_def)
  next
    case (Cons x stream)
    obtain frame sendOk where x: "x = (frame, sendOk)" by (cases x)
    obtain acts v where f: "client_frame opts sendOk ready frame = (acts, v)" by (cases "client_frame opts sendOk ready frame")
    note fr = client_frame_ready [of opts sendOk ready frame, unfolded f, simplified]
      client_frame_commands [of opts sendOk ready frame, unfolded f, simplified]
    show ?case
    proof (cases v)
      case (Return err)
      then show ?thesis using fr f x by (intro conjI exI [of _ "1"]) auto
    next
      case (Continue ready')
      obtain more err where m: "client_run opts decodeErr cancelled ready' stream = (more, err)"
        by (cases "client_run opts decodeErr cancelled ready' stream")
      obtain k where k: "k \<le> length stream"
        "filter is_command more = map (treat opts) (filter (\<lambda>f. fType f = TypeCommandExec) (map fst (take k stream)))"
        "\<not> (err = None \<and> \<not> (cancelled \<and> k = length stream))"
        "length (filter is_ready more) \<le> (if ready' then 0 else 1)"
        using Cons.IH [of ready'] m by auto
      have run: "client_run opts decodeErr cancelled ready (x # stream) = (acts @ more, err)"
        using f x m Continue by simp
      have "length (filter is_ready (acts @ more)) \<le> (if ready then 0 else 1)"
        using fr(2) [OF Continue] k(4) by (auto split: if_splits)
      then show ?thesis unfolding run using k fr x by (intro conjI exI [of _ "Suc k"]) auto
    qed
  qed
  from this [of False] show ?thesis by (auto split: prod.splits option.splits)
qed

subsection \<open>Responses and pending requests: clientConn.request, readLoop\<close>

text \<open>Every request makes a channel of capacity one (a fresh number) and enters it under its id.\<close>

record pendings =
  pnPending :: "string \<rightharpoonup> nat"
  pnSlots :: "nat \<rightharpoonup> Frame"

definition requestBegin :: "string \<Rightarrow> nat \<Rightarrow> pendings \<Rightarrow> pendings" where
  "requestBegin i ch p = p\<lparr>pnPending := (pnPending p)(i \<mapsto> ch), pnSlots := (pnSlots p)(ch := None)\<rparr>"

definition requestEnd :: "string \<Rightarrow> pendings \<Rightarrow> pendings" where
  "requestEnd i p = p\<lparr>pnPending := (pnPending p)(i := None)\<rparr>"

definition deliver :: "string \<Rightarrow> Frame \<Rightarrow> pendings \<Rightarrow> pendings" where
  "deliver v frame p =
     (case readFrame v frame of
        DeliverRound i f \<Rightarrow>
          (case pnPending p i of
             None \<Rightarrow> p
           | Some ch \<Rightarrow> (if pnSlots p ch = None then p\<lparr>pnSlots := (pnSlots p)(ch \<mapsto> f)\<rparr> else p))
      | _ \<Rightarrow> p)"

datatype pending_event = Begin string nat | End string | Incoming Frame

fun pending_step :: "string \<Rightarrow> pending_event \<Rightarrow> pendings \<Rightarrow> pendings" where
  "pending_step v (Begin i ch) p = requestBegin i ch p"
| "pending_step v (End i) p = requestEnd i p"
| "pending_step v (Incoming frame) p = deliver v frame p"

definition is_result :: "string \<Rightarrow> Frame \<Rightarrow> bool" where
  "is_result i f = (fID f = i \<and> (fType f = TypeCommandResult \<or> fType f = TypeCommandError))"

definition unrelated :: "string \<Rightarrow> nat \<Rightarrow> pending_event \<Rightarrow> bool" where
  "unrelated i ch e = (case e of Begin j c \<Rightarrow> j \<noteq> i \<and> c \<noteq> ch | End j \<Rightarrow> j \<noteq> i | Incoming f \<Rightarrow> True)"

definition incoming :: "pending_event list \<Rightarrow> Frame list" where
  "incoming evs = concat (map (\<lambda>e. case e of Incoming f \<Rightarrow> [f] | _ \<Rightarrow> []) evs)"

lemma readFrame_result: "readFrame v f = DeliverRound i g \<Longrightarrow> g = f \<and> is_result i f"
  unfolding readFrame_def is_result_def by (simp split: if_split_asm) (elim conjE, simp)

lemma result_readFrame: "is_result i f \<Longrightarrow> readFrame v f = DeliverRound i f"
  by (elim is_result_def [THEN iffD1, elim_format] conjE disjE) (simp_all add: readFrame_def)

text \<open>The id \<open>i\<close>, and no other, is entered with the channel \<open>ch\<close>.\<close>

definition sole :: "string \<Rightarrow> nat \<Rightarrow> pendings \<Rightarrow> bool" where
  "sole i ch p \<longleftrightarrow> (\<forall>j. pnPending p j = Some ch \<longleftrightarrow> j = i)"

lemma sole_begin: "sole i ch p \<Longrightarrow> j \<noteq> i \<Longrightarrow> c \<noteq> ch \<Longrightarrow> sole i ch (requestBegin j c p)"
  by (simp add: sole_def requestBegin_def)

lemma sole_end: "sole i ch p \<Longrightarrow> j \<noteq> i \<Longrightarrow> sole i ch (requestEnd j p)"
  by (simp add: sole_def requestEnd_def)

lemma deliver_pending [simp]: "pnPending (deliver v f p) = pnPending p"
  by (simp add: deliver_def split: round.split option.split)

lemma sole_deliver: "sole i ch p \<Longrightarrow> sole i ch (deliver v f p)"
  by (simp add: sole_def)

lemma deliver_slot:
  assumes "sole i ch p"
  shows "pnSlots (deliver v f p) ch = (if pnSlots p ch = None \<and> is_result i f then Some f else pnSlots p ch)"
proof (cases "is_result i f")
  case True
  have "pnPending p i = Some ch" using assms unfolding sole_def by blast
  then show ?thesis using result_readFrame [OF True, of v] True by (simp add: deliver_def)
next
  case False
  show ?thesis
  proof (cases "readFrame v f")
    case (DeliverRound j g)
    then have "j \<noteq> i" using readFrame_result [OF DeliverRound] False by blast
    then have "pnPending p j \<noteq> Some ch" using assms unfolding sole_def by blast
    then show ?thesis using DeliverRound False by (simp add: deliver_def split: option.split)
  qed (simp_all add: deliver_def False)
qed

lemma pending_fold:
  assumes "sole i ch p" "list_all (unrelated i ch) evs"
  shows "pnSlots (fold (pending_step v) evs p) ch =
    (case pnSlots p ch of Some f \<Rightarrow> Some f | None \<Rightarrow> find (is_result i) (incoming evs))"
  using assms
proof (induction evs arbitrary: p)
  case Nil
  then show ?case by (simp add: incoming_def split: option.split)
next
  case (Cons e evs)
  have evs: "list_all (unrelated i ch) evs" and e: "unrelated i ch e" using Cons.prems by simp_all
  show ?case
  proof (cases e)
    case (Begin j c)
    then have j: "j \<noteq> i" "c \<noteq> ch" using e by (simp_all add: unrelated_def)
    show ?thesis using Cons.IH [OF sole_begin [OF Cons.prems(1) j] evs] j Begin
      by (simp add: requestBegin_def incoming_def split: option.split)
  next
    case (End j)
    then have j: "j \<noteq> i" using e by (simp add: unrelated_def)
    show ?thesis using Cons.IH [OF sole_end [OF Cons.prems(1) j] evs] End
      by (simp add: requestEnd_def incoming_def split: option.split)
  next
    case (Incoming f)
    show ?thesis using Cons.IH [OF sole_deliver [OF Cons.prems(1), of v f] evs] Incoming
      by (simp add: deliver_slot [OF Cons.prems(1)] incoming_def split: option.split)
  qed
qed

text \<open>The response a request gets is the first result or error frame under its id that arrives
  after it was entered, whatever other requests and frames are interleaved with it, as long as no
  other request uses the same id meanwhile.\<close>

theorem response_delivery:
  assumes fresh: "ch \<notin> ran (pnPending p)" and evs: "list_all (unrelated i ch) evs"
  shows "pnSlots (fold (pending_step v) (Begin i ch # evs) p) ch = find (is_result i) (incoming evs)"
proof -
  have "sole i ch (requestBegin i ch p)" using fresh by (auto simp: sole_def requestBegin_def ran_def)
  from pending_fold [OF this evs, of v] show ?thesis by (simp add: requestBegin_def)
qed

theorem response_delivery_witness:
  "let reply = (\<lambda>i t. Incoming (Frame0\<lparr>fType := t, fID := i\<rparr>)) in
   pnSlots (fold (pending_step ''dev'') [Begin ''a'' 1, Begin ''b'' 2, reply ''b'' TypeCommandResult,
      reply ''a'' TypeHeartbeat, End ''b'', reply ''a'' TypeCommandError, reply ''a'' TypeCommandResult]
      \<lparr>pnPending = Map.empty, pnSlots = Map.empty\<rparr>) 1 = Some (Frame0\<lparr>fType := TypeCommandError, fID := ''a''\<rparr>)"
  using response_delivery [of 1 "\<lparr>pnPending = Map.empty, pnSlots = Map.empty\<rparr>" "''a''"
    "[Begin ''b'' 2, Incoming (Frame0\<lparr>fType := TypeCommandResult, fID := ''b''\<rparr>),
      Incoming (Frame0\<lparr>fType := TypeHeartbeat, fID := ''a''\<rparr>), End ''b'',
      Incoming (Frame0\<lparr>fType := TypeCommandError, fID := ''a''\<rparr>),
      Incoming (Frame0\<lparr>fType := TypeCommandResult, fID := ''a''\<rparr>)]" "''dev''"]
  by (simp add: Let_def unrelated_def incoming_def is_result_def)

subsection \<open>A command from end to end\<close>

text \<open>What a client sends back for a command frame, and the server between a requester and its clients.\<close>

definition clientReply ::
  "client_opts \<Rightarrow> string option \<Rightarrow> (64 word \<Rightarrow> string) \<Rightarrow> (command \<Rightarrow> run_result) \<Rightarrow> Frame \<Rightarrow> Frame" where
  "clientReply opts home durationString run f =
     (case treat opts f of Execute g \<Rightarrow> ExecuteLocal home durationString run g | SendFrame g \<Rightarrow> g | _ \<Rightarrow> Frame0)"

definition serverExchange ::
  "string \<Rightarrow> string \<Rightarrow> (clientConn \<Rightarrow> Frame \<Rightarrow> (string, Frame) result) \<Rightarrow> fsworld \<Rightarrow> int \<Rightarrow> bridge \<Rightarrow>
   Frame \<Rightarrow> Frame \<Rightarrow> (string, Frame) result" where
  "serverExchange serverToken sv request w now s hello exec =
     (case checkHello serverToken sv hello of
        HelloRejected f \<Rightarrow> Inr f
      | HelloClient f \<Rightarrow> Inl ''EOF''
      | HelloRequester contextID sessionID \<Rightarrow>
          (case fst (handleRequester request w now contextID sessionID exec s) of
             Refused f \<Rightarrow> Inr f
           | Answered c attempt resp \<Rightarrow> Inr resp))"

lemma requester_hello:
  "serverToken = [] \<or> firstToken token = serverToken \<Longrightarrow>
   checkHello serverToken sv (requesterHello r token) = HelloRequester (lrContextID r) (lrSessionID r)"
  by (auto simp: checkHello_def requesterHello_def Frame0_def FrameCompatible_def MinVersion_def MaxVersion_def Version_def)


text \<open>A run that copies its input to its output and exits with 3.\<close>

definition echo_run :: "command \<Rightarrow> run_result" where
  "echo_run c = \<lparr>rrErr = Some (ExitError 3), rrDeadline = False, rrStdout = cmStdin c, rrStderr = []\<rparr>"


end
