(* ===== verification/MountManager.thy ===== *)
theory MountManager
  imports Fuse BridgeClient
begin

text \<open>
  The mounts a client keeps for the remote directories of its session
  (\<open>internal/cli/ssh_bridge_mount.go\<close>), with the setup of a mount point (\<open>internal/remotefs/localmount.go\<close>)
  and the life of one FUSE mount (\<open>goFuseMount\<close> in \<open>internal/remotefs/fuse.go\<close>). Each region under the
  manager's mutex is one definition; what happens outside the lock (mounting, unmounting) is a step
  of its own, so that handlers interleave as the goroutines of the data peer do.
\<close>

subsection \<open>Names\<close>

definition safeMountComponent :: "string \<Rightarrow> bool" where
  "safeMountComponent v =
     (v \<noteq> [] \<and> v \<noteq> ''.'' \<and> v \<noteq> ''..'' \<and> Base v = v \<and> \<not> ContainsAny v [CHR ''/'', CHR 0x5C])"

subsection \<open>The life of a FUSE mount\<close>

text \<open>\<open>gmDone\<close> is the closed channel \<open>waitDone\<close>. \<open>finish\<close> also removes the mount point, the first time.\<close>

record go_mount =
  gmPath :: string
  gmDone :: bool
  gmResult :: "goerr option"

definition newGoMount :: "string \<Rightarrow> go_mount" where
  "newGoMount path = \<lparr>gmPath = path, gmDone = False, gmResult = None\<rparr>"

definition mountFinish :: "goerr option \<Rightarrow> go_mount \<Rightarrow> go_mount" where
  "mountFinish err gm = (if gmDone gm then gm else gm\<lparr>gmDone := True, gmResult := err\<rparr>)"

text \<open>\<open>Unmount\<close>: \<open>ctxErr\<close> is the state of the context when the lock is taken, \<open>unmount\<close> the outcome of the
  server's unmount; the second result tells whether it was called.\<close>

definition mountUnmount :: "goerr option \<Rightarrow> goerr option \<Rightarrow> go_mount \<Rightarrow> goerr option \<times> bool \<times> go_mount" where
  "mountUnmount ctxErr unmount gm =
     (if gmDone gm then (gmResult gm, False, gm)
      else case ctxErr of
        Some err \<Rightarrow> (Some err, False, gm)
      | None \<Rightarrow> (case unmount of
          Some err \<Rightarrow> (Some err, True, gm)
        | None \<Rightarrow> (let gm1 = mountFinish None gm in (gmResult gm1, True, gm1))))"

subsection \<open>Mount points\<close>

datatype fs_action = DoUnmount string | DoRemoveAll string | DoMkdirAll string | DoWriteFile string string

definition newline :: string where "newline = [CHR 0x0A]"

text \<open>The outcome of each call is an argument; the result comes with the calls made, in order.\<close>

definition SetupMountPoint ::
  "goerr option \<Rightarrow> goerr option \<Rightarrow> goerr option \<Rightarrow> string \<Rightarrow> string \<Rightarrow> fs_action list \<times> (goerr, string) result" where
  "SetupMountPoint removeErr mkdirErr writeErr base hierarchy =
     (case CleanMountPath hierarchy of
        Inl err \<Rightarrow> ([], Inl (OtherErr err))
      | Inr clean \<Rightarrow>
          (let path = JoinPath base clean; as = [DoUnmount path, DoRemoveAll path] in
           case removeErr of
             Some err \<Rightarrow> (as, Inl err)
           | None \<Rightarrow>
               (let as = as @ [DoMkdirAll base] in
                case mkdirErr of
                  Some err \<Rightarrow> (as, Inl err)
                | None \<Rightarrow>
                    (let as = as @ [DoWriteFile (JoinPath base ''.mount-path'') (clean @ newline)] in
                     case writeErr of Some err \<Rightarrow> (as, Inl err) | None \<Rightarrow> (as, Inr path)))))"

text \<open>\<open>MountLocal\<close>, \<open>mount\<close> being the driver: a failed mount removes the whole base.\<close>

definition MountLocal ::
  "fs_action list \<times> (goerr, string) result \<Rightarrow> (string \<Rightarrow> (goerr, 'm) result) \<Rightarrow> string \<Rightarrow> fs_action list \<times> (goerr, 'm) result" where
  "MountLocal setup mount base =
     (case setup of
        (as, Inl err) \<Rightarrow> (as, Inl err)
      | (as, Inr path) \<Rightarrow>
          (case mount path of Inl err \<Rightarrow> (as @ [DoRemoveAll base], Inl err) | Inr m \<Rightarrow> (as, Inr m)))"

subsection \<open>State of the manager\<close>

text \<open>An entry of the table; \<open>meMount\<close> identifies the mount.\<close>

record mount_entry =
  meMount :: nat
  mePath :: string
  meBase :: string

record mount_manager =
  mmSession :: string
  mmReadOnly :: bool
  mmRoot :: string
  mmInitErr :: "string option"
  mmMounts :: "string \<rightharpoonup> mount_entry"
  mmClosing :: bool
  mmActive :: nat

text \<open>The manager for a session below a root directory; the outcome of the setup of its directory, its lock
  and its lease is an argument.\<close>

definition newRemoteMountManager :: "string option \<Rightarrow> string \<Rightarrow> string \<Rightarrow> bool \<Rightarrow> mount_manager" where
  "newRemoteMountManager initErr root sessionID readOnly = \<lparr>mmSession = sessionID, mmReadOnly = readOnly,
     mmRoot = JoinPath root sessionID, mmInitErr = initErr, mmMounts = Map.empty, mmClosing = False, mmActive = 0\<rparr>"

subsection \<open>Mounting\<close>

datatype mount_check = Refuse string | Existing string | SetUp string bool

text \<open>The first region of \<open>OnMount\<close>: refused, already there, or to be set up below a base directory, read-only
  or not.\<close>

definition mountCheck :: "string \<Rightarrow> bool \<Rightarrow> mount_manager \<Rightarrow> mount_check \<times> mount_manager" where
  "mountCheck mountID readOnly mm =
     (if \<not> safeMountComponent mountID then (Refuse ''remote fs mountId is invalid'', mm)
      else if mmClosing mm then (Refuse ''remote fs session is closing'', mm)
      else case mmInitErr mm of
        Some err \<Rightarrow> (Refuse (''initialize local remote fs mounts: '' @ err), mm)
      | None \<Rightarrow> (case mmMounts mm mountID of
          Some entry \<Rightarrow> (Existing (mePath entry), mm)
        | None \<Rightarrow> (SetUp (JoinPath (mmRoot mm) mountID) (mmReadOnly mm \<or> readOnly), mm\<lparr>mmActive := mmActive mm + 1\<rparr>)))"

text \<open>The second region: the mount is entered, or given up when another one was entered meanwhile, the
  session is closing or the request was cancelled.\<close>

definition entryCommit :: "string \<Rightarrow> mount_entry \<Rightarrow> goerr option \<Rightarrow> mount_manager \<Rightarrow> (goerr, string) result \<times> bool \<times> mount_manager" where
  "entryCommit mountID entry ctxErr mm =
     (case mmMounts mm mountID of
        Some existing \<Rightarrow> (Inr (mePath existing), False, mm)
      | None \<Rightarrow>
          (if mmClosing mm \<or> ctxErr \<noteq> None
             then (Inl (case ctxErr of Some err \<Rightarrow> err | None \<Rightarrow> OtherErr ''remote fs session is closing''), False, mm)
           else (Inr (mePath entry), True, mm\<lparr>mmMounts := (mmMounts mm)(mountID \<mapsto> entry)\<rparr>)))"

definition activeDone :: "mount_manager \<Rightarrow> mount_manager" where
  "activeDone mm = mm\<lparr>mmActive := mmActive mm - 1\<rparr>"

subsection \<open>Unmounting and closing\<close>

definition unmountTake :: "string \<Rightarrow> mount_manager \<Rightarrow> mount_entry option \<times> mount_manager" where
  "unmountTake mountID mm = (mmMounts mm mountID, mm\<lparr>mmMounts := (mmMounts mm)(mountID := None)\<rparr>)"

text \<open>\<open>Close\<close>: only the first call goes on; it waits for the active handlers and takes every entry.\<close>

definition closeBegin :: "mount_manager \<Rightarrow> bool \<times> mount_manager" where
  "closeBegin mm = (\<not> mmClosing mm, mm\<lparr>mmClosing := True\<rparr>)"

definition closeTake :: "(string set \<Rightarrow> string list) \<Rightarrow> mount_manager \<Rightarrow> mount_entry list \<times> mount_manager" where
  "closeTake iter mm =
     (map (\<lambda>mountID. the (mmMounts mm mountID)) (iter (dom (mmMounts mm))), mm\<lparr>mmMounts := Map.empty\<rparr>)"

subsection \<open>Commands\<close>

text \<open>\<open>Execute\<close>: the region under the lock, and the command it leads to.\<close>

definition executeCheck :: "Frame \<Rightarrow> mount_manager \<Rightarrow> (Frame, mount_entry) result \<times> mount_manager" where
  "executeCheck frame mm =
     (if \<not> safeMountComponent (fMountID frame) \<or> \<not> safeMountComponent (fSessionID frame) then
        (Inl (commandError (fID frame) ''remote fs command is missing mount/session identity''), mm)
      else if fSessionID frame \<noteq> mmSession mm then (Inl (commandError (fID frame) ''remote fs session identity changed''), mm)
      else if mmClosing mm then (Inl (commandError (fID frame) ''remote fs session is closing''), mm)
      else case mmInitErr mm of
        Some err \<Rightarrow> (Inl (commandError (fID frame) (''initialize local remote fs mounts: '' @ err)), mm)
      | None \<Rightarrow> (case mmMounts mm (fMountID frame) of
          None \<Rightarrow> (Inl (commandError (fID frame) ''remote fs mount is not available''), mm)
        | Some entry \<Rightarrow> (Inr entry, mm\<lparr>mmActive := mmActive mm + 1\<rparr>)))"

definition workspaceFrame :: "mount_entry \<Rightarrow> Frame \<Rightarrow> (Frame, Frame) result" where
  "workspaceFrame entry frame =
     (case WorkspacePathBelow (mePath entry) (fCwd frame) of
        Inl err \<Rightarrow> Inl (commandError (fID frame) err)
      | Inr workspace \<Rightarrow> Inr (frame\<lparr>fCwd := workspace,
          fEnv := (fEnv frame)(''SSHX_REMOTE_FS'' \<mapsto> ''1'',
            ''FS_READ_ONLY'' \<mapsto> (if fMountReadOnly frame then ''1'' else ''0''))\<rparr>))"

definition mmExecute ::
  "string option \<Rightarrow> (64 word \<Rightarrow> string) \<Rightarrow> (command \<Rightarrow> run_result) \<Rightarrow> Frame \<Rightarrow> mount_manager \<Rightarrow> Frame" where
  "mmExecute home durationString run frame mm =
     (case fst (executeCheck frame mm) of
        Inl err \<Rightarrow> err
      | Inr entry \<Rightarrow> (case workspaceFrame entry frame of
          Inl err \<Rightarrow> err
        | Inr frame \<Rightarrow> ExecuteLocal home durationString run frame))"

subsection \<open>Mounts left behind by dead sessions\<close>

text \<open>A session directory as \<open>cleanupStaleReverseMounts\<close> finds it: whether its lease can be opened and
  locked, and its exports with their markers; \<open>None\<close> stands for what cannot be read.\<close>

record stale_export =
  seName :: string
  seIsDir :: bool
  seMarker :: "string option"

record stale_session =
  ssName :: string
  ssIsDir :: bool
  ssLeaseOpens :: bool
  ssLocked :: bool
  ssExports :: "stale_export list option"

text \<open>\<open>detachStaleMount\<close>: \<open>mounted\<close> is the answer of \<open>pathIsMountPoint\<close> (\<open>None\<close> for an error), then come
  the result of \<open>umount\<close> and whether one of the fusermount programs succeeds.\<close>

definition detachStaleMount :: "errtable \<Rightarrow> bool option \<Rightarrow> goerr option \<Rightarrow> bool \<Rightarrow> bool" where
  "detachStaleMount os mounted unmount fusermount =
     (if mounted = Some False then True
      else case unmount of
        None \<Rightarrow> True
      | Some err \<Rightarrow> cause err = Errno (os EINVAL) \<or> cause err = Errno (os ENOENT) \<or> fusermount)"

definition exportSkipped :: "stale_export \<Rightarrow> bool" where
  "exportSkipped e = (\<not> seIsDir e \<or> \<not> safeMountComponent (seName e))"

definition exportMount :: "string \<Rightarrow> stale_export \<Rightarrow> (string, string) result" where
  "exportMount sessionRoot e =
     (case seMarker e of
        None \<Rightarrow> Inl ''unreadable marker''
      | Some marker \<Rightarrow> MountPathBelow (JoinPath sessionRoot (seName e)) (TrimSpace marker))"

definition exportClean :: "(string \<Rightarrow> bool) \<Rightarrow> string \<Rightarrow> stale_export \<Rightarrow> bool" where
  "exportClean detach sessionRoot e =
     (exportSkipped e \<or> (case exportMount sessionRoot e of Inl err \<Rightarrow> False | Inr path \<Rightarrow> detach path))"

definition sessionRemoved :: "(string \<Rightarrow> bool) \<Rightarrow> string \<Rightarrow> string \<Rightarrow> stale_session \<Rightarrow> bool" where
  "sessionRemoved detach root currentSession e =
     (ssIsDir e \<and> ssName e \<noteq> currentSession \<and> safeMountComponent (ssName e) \<and> ssLeaseOpens e \<and> ssLocked e \<and>
      (case ssExports e of None \<Rightarrow> False | Some exports \<Rightarrow> list_all (exportClean detach (JoinPath root (ssName e))) exports))"

text \<open>The session directories that are removed.\<close>

definition cleanupStaleReverseMounts :: "(string \<Rightarrow> bool) \<Rightarrow> string \<Rightarrow> string \<Rightarrow> stale_session list \<Rightarrow> string list" where
  "cleanupStaleReverseMounts detach root currentSession entries =
     map (\<lambda>e. JoinPath root (ssName e)) (filter (sessionRemoved detach root currentSession) entries)"

subsection \<open>Handlers side by side\<close>

text \<open>
  A handler of the manager between two regions: mounting (its mount request is counted as active),
  holding a mount it made, unmounting one that was not entered, leaving, unmounting the entries it
  took, waiting to close, and done.
\<close>

datatype mm_pc =
    MmSetup string string bool
  | MmMounted string mount_entry
  | MmUndo mount_entry "(goerr, string) result"
  | MmLeave "(goerr, string) result"
  | MmUnmounting "mount_entry list"
  | MmWait
  | MmReturned "(goerr, string) result option"

record mm_state =
  mm :: mount_manager
  live_mounts :: "nat set"
  next_mount :: nat
  stuck :: "nat list"
  mm_pcs :: "nat \<rightharpoonup> mm_pc"
  swept :: bool

definition mm_init :: "mount_manager \<Rightarrow> mm_state" where
  "mm_init m = \<lparr>mm = m, live_mounts = {}, next_mount = 0, stuck = [], mm_pcs = Map.empty, swept = False\<rparr>"

text \<open>The outcome of an unmount: the mount is gone, or it stays, held by nobody.\<close>

definition unmounted :: "bool \<Rightarrow> mount_entry \<Rightarrow> mm_state \<Rightarrow> mm_state" where
  "unmounted ok e s =
     (if ok then s\<lparr>live_mounts := live_mounts s - {meMount e}\<rparr> else s\<lparr>stuck := meMount e # stuck s\<rparr>)"

abbreviation at :: "mm_state \<Rightarrow> nat \<Rightarrow> mm_pc \<Rightarrow> mm_state" where
  "at s t p \<equiv> s\<lparr>mm_pcs := (mm_pcs s)(t \<mapsto> p)\<rparr>"

inductive mm_step :: "mm_state \<Rightarrow> mm_state \<Rightarrow> bool" where
  check: "mm_pcs s t = None \<Longrightarrow> mountCheck mountID ro (mm s) = (c, m') \<Longrightarrow>
    mm_step s (at (s\<lparr>mm := m'\<rparr>) t (case c of
        Refuse err \<Rightarrow> MmReturned (Some (Inl (OtherErr err)))
      | Existing path \<Rightarrow> MmReturned (Some (Inr path))
      | SetUp base ro' \<Rightarrow> MmSetup mountID base ro'))"
| failed: "mm_pcs s t = Some (MmSetup mountID base ro) \<Longrightarrow> mm_step s (at s t (MmLeave (Inl err)))"
| mounted: "mm_pcs s t = Some (MmSetup mountID base ro) \<Longrightarrow> SetupMountPoint None None None base h = (as, Inr path) \<Longrightarrow>
    mm_step s (at (s\<lparr>live_mounts := insert (next_mount s) (live_mounts s), next_mount := Suc (next_mount s)\<rparr>) t
      (MmMounted mountID \<lparr>meMount = next_mount s, mePath = path, meBase = base\<rparr>))"
| commit: "mm_pcs s t = Some (MmMounted mountID e) \<Longrightarrow> entryCommit mountID e ctxErr (mm s) = (r, entered, m') \<Longrightarrow>
    mm_step s (at (s\<lparr>mm := m'\<rparr>) t (if entered then MmLeave r else MmUndo e r))"
| undo: "mm_pcs s t = Some (MmUndo e r) \<Longrightarrow> mm_step s (at (unmounted ok e s) t (MmLeave r))"
| leave: "mm_pcs s t = Some (MmLeave r) \<Longrightarrow> mm_step s (at (s\<lparr>mm := activeDone (mm s)\<rparr>) t (MmReturned (Some r)))"
| run_command: "mm_pcs s t = None \<Longrightarrow> executeCheck frame (mm s) = (Inr e, m') \<Longrightarrow>
    mm_step s (at (s\<lparr>mm := m'\<rparr>) t (MmLeave (Inr (mePath e))))"
| release: "mm_pcs s t = None \<Longrightarrow> unmountTake mountID (mm s) = (e, m') \<Longrightarrow>
    mm_step s (at (s\<lparr>mm := m'\<rparr>) t (MmUnmounting (case e of None \<Rightarrow> [] | Some e \<Rightarrow> [e])))"
| detach: "mm_pcs s t = Some (MmUnmounting (e # es)) \<Longrightarrow> mm_step s (at (unmounted ok e s) t (MmUnmounting es))"
| close: "mm_pcs s t = None \<Longrightarrow> closeBegin (mm s) = (first, m') \<Longrightarrow>
    mm_step s (at (s\<lparr>mm := m'\<rparr>) t (if first then MmWait else MmReturned None))"
| sweep: "mm_pcs s t = Some MmWait \<Longrightarrow> mmActive (mm s) = 0 \<Longrightarrow> set (iter (dom (mmMounts (mm s)))) = dom (mmMounts (mm s)) \<Longrightarrow>
    distinct (iter (dom (mmMounts (mm s)))) \<Longrightarrow> closeTake iter (mm s) = (es, m') \<Longrightarrow>
    mm_step s (at (s\<lparr>mm := m', swept := True\<rparr>) t (MmUnmounting es))"

inductive mm_reach :: "mount_manager \<Rightarrow> mm_state \<Rightarrow> bool" for m0 where
  init: "mm_reach m0 (mm_init m0)"
| step: "mm_reach m0 s \<Longrightarrow> mm_step s s' \<Longrightarrow> mm_reach m0 s'"

inductive_cases mm_stepE [consumes 1]: "mm_step s s'"

subsection \<open>Every mount has one holder\<close>

fun pc_holds :: "mm_pc \<Rightarrow> nat list" where
  "pc_holds (MmMounted mountID e) = [meMount e]"
| "pc_holds (MmUndo e r) = [meMount e]"
| "pc_holds (MmUnmounting es) = map meMount es"
| "pc_holds _ = []"

fun pc_active :: "mm_pc \<Rightarrow> bool" where
  "pc_active (MmSetup mountID base ro) = True"
| "pc_active (MmMounted mountID e) = True"
| "pc_active (MmUndo e r) = True"
| "pc_active (MmLeave r) = True"
| "pc_active _ = False"

datatype holder = Table string | Handler nat | Nobody

definition holds :: "mm_state \<Rightarrow> holder \<Rightarrow> nat list" where
  "holds s x = (case x of
     Table mountID \<Rightarrow> (case mmMounts (mm s) mountID of None \<Rightarrow> [] | Some e \<Rightarrow> [meMount e])
   | Handler t \<Rightarrow> (case mm_pcs s t of None \<Rightarrow> [] | Some p \<Rightarrow> pc_holds p)
   | Nobody \<Rightarrow> stuck s)"

definition active_handlers :: "(nat \<rightharpoonup> mm_pc) \<Rightarrow> nat set" where
  "active_handlers pcs = {t. \<exists>p. pcs t = Some p \<and> pc_active p}"

definition mm_inv :: "mm_state \<Rightarrow> bool" where
  "mm_inv s \<longleftrightarrow> exclusive (holds s) (live_mounts s) \<and> (\<forall>k \<in> live_mounts s. k < next_mount s) \<and>
     finite (active_handlers (mm_pcs s)) \<and> mmActive (mm s) = card (active_handlers (mm_pcs s)) \<and>
     (swept s \<longrightarrow> mmClosing (mm s) \<and> mmActive (mm s) = 0 \<and> mmMounts (mm s) = Map.empty) \<and>
     (\<forall>t. mm_pcs s t = Some MmWait \<longrightarrow> mmClosing (mm s))"

lemma active_handlers_upd:
  "active_handlers (pcs(t \<mapsto> p)) = (if pc_active p then insert t (active_handlers pcs) else active_handlers pcs - {t})"
  by (auto simp: active_handlers_def)

lemma holds_simps [simp]:
  "holds s (Table mountID) = (case mmMounts (mm s) mountID of None \<Rightarrow> [] | Some e \<Rightarrow> [meMount e])"
  "holds s (Handler t) = (case mm_pcs s t of None \<Rightarrow> [] | Some p \<Rightarrow> pc_holds p)"
  "holds s Nobody = stuck s"
  by (simp_all add: holds_def)

lemma exclusive_hand:
  assumes e: "exclusive own ls" and x: "own x = l # xs" "x \<noteq> y"
  shows "exclusive (own(x := xs, y := l # own y)) ls"
proof (rule exclusiveI)
  note D = exclusiveD [OF e]
  have l: "l \<notin> set (own z)" if "z \<noteq> x" for z using D(4) [of l x z] x that by auto
  have lx: "l \<notin> set xs" using D(1) [of x] x by simp
  have mem: "k \<in> set ((own(x := xs, y := l # own y)) z) \<longleftrightarrow> (if k = l then z = y else k \<in> set (own z))" for k z
    using l lx x by (auto split: if_splits)
  show "distinct ((own(x := xs, y := l # own y)) z)" for z using D(1) [of x] D(1) [of z] l x by auto
  show "k \<in> ls" if "k \<in> set ((own(x := xs, y := l # own y)) z)" for z k
    using that D(2) [of k z] D(2) [of l x] x by (auto simp: mem split: if_splits)
  show "\<exists>z. k \<in> set ((own(x := xs, y := l # own y)) z)" if "k \<in> ls" for k
    unfolding mem using D(3) [OF that] by auto
  show "z = w" if "k \<in> set ((own(x := xs, y := l # own y)) z)" "k \<in> set ((own(x := xs, y := l # own y)) w)" for z w k
    using that D(4) [of k z w] unfolding mem by (auto split: if_splits)
qed


lemma holds_at:
  "mmMounts (mm s') = mmMounts (mm s) \<Longrightarrow> mm_pcs s' = (mm_pcs s)(t \<mapsto> p) \<Longrightarrow>
   holds s' = (holds s)(Handler t := pc_holds p, Nobody := stuck s')"
  by (rule ext) (auto simp: holds_def split: holder.splits)

lemma active_at:
  assumes "finite (active_handlers pcs)" "n = card (active_handlers pcs)" "t \<in> active_handlers pcs \<longleftrightarrow> was"
    and "n' = (if pc_active p then (if was then n else n + 1) else if was then n - 1 else n)"
  shows "finite (active_handlers (pcs(t \<mapsto> p)))" "n' = card (active_handlers (pcs(t \<mapsto> p)))"
  using assms by (simp_all add: active_handlers_upd card_insert_if)

text \<open>The step of one handler that leaves the table alone.\<close>

lemma mm_inv_at:
  assumes inv: "mm_inv s"
    and mm': "mmMounts (mm s') = mmMounts (mm s)" "mmClosing (mm s) \<longrightarrow> mmClosing (mm s')" "swept s' = swept s"
      "mmClosing (mm s) \<longrightarrow> mmActive (mm s') \<le> mmActive (mm s)"
    and pcs: "mm_pcs s' = (mm_pcs s)(t \<mapsto> p)" "p = MmWait \<longrightarrow> mmClosing (mm s')"
    and act: "(\<exists>q. mm_pcs s t = Some q \<and> pc_active q) \<longleftrightarrow> was"
      "mmActive (mm s') = (if pc_active p then (if was then mmActive (mm s) else mmActive (mm s) + 1)
         else if was then mmActive (mm s) - 1 else mmActive (mm s))"
    and own: "exclusive ((holds s)(Handler t := pc_holds p, Nobody := stuck s')) (live_mounts s')"
      "\<forall>k \<in> live_mounts s'. k < next_mount s'"
  shows "mm_inv s'"
proof -
  have "t \<in> active_handlers (mm_pcs s) \<longleftrightarrow> was" using act(1) by (simp add: active_handlers_def)
  then have "finite (active_handlers (mm_pcs s'))" "mmActive (mm s') = card (active_handlers (mm_pcs s'))"
    using active_at [of "mm_pcs s" "mmActive (mm s)" t was "mmActive (mm s')" p] inv act(2) pcs(1) by (simp_all add: mm_inv_def)
  moreover have "\<forall>u. mm_pcs s' u = Some MmWait \<longrightarrow> mmClosing (mm s')"
    using inv pcs mm'(2) by (auto simp: mm_inv_def)
  ultimately show ?thesis
    using inv mm' own holds_at [OF mm'(1) pcs(1)] by (auto simp: mm_inv_def)
qed

lemma hold_same:
  "exclusive (holds s) ls \<Longrightarrow> holds s (Handler t) = pc_holds p \<Longrightarrow> exclusive ((holds s)(Handler t := pc_holds p, Nobody := stuck s)) ls"
  by (metis exclusive_keep fun_upd_triv holds_simps(3))

lemma unmounted_fields [simp]:
  "mm (unmounted ok e s) = mm s" "next_mount (unmounted ok e s) = next_mount s" "mm_pcs (unmounted ok e s) = mm_pcs s"
  "swept (unmounted ok e s) = swept s"
  by (auto simp: unmounted_def)

lemma live_unmounted: "k \<in> live_mounts (unmounted ok e s) \<Longrightarrow> k \<in> live_mounts s"
  by (auto simp: unmounted_def split: if_splits)

lemma hold_unmounted:
  assumes "exclusive (holds s) (live_mounts s)" "holds s (Handler t) = meMount e # xs"
  shows "exclusive ((holds s)(Handler t := xs, Nobody := stuck (unmounted ok e s))) (live_mounts (unmounted ok e s))"
proof (cases ok)
  case True
  have "(holds s)(Handler t := xs, Nobody := stuck s) = (holds s)(Handler t := xs)"
    by (rule ext) (auto simp: holds_def split: holder.splits)
  then show ?thesis using exclusive_release [OF assms] True by (simp add: unmounted_def)
next
  case False
  then show ?thesis using exclusive_hand [OF assms, of Nobody] by (simp add: unmounted_def)
qed

lemma mm_inv_init: "mmMounts m = Map.empty \<Longrightarrow> mmActive m = 0 \<Longrightarrow> mm_inv (mm_init m)"
  by (auto simp: mm_inv_def mm_init_def exclusive_def holds_def active_handlers_def split: holder.splits)

lemma hold_move:
  assumes e: "exclusive (holds s) ls" and idle: "holds s y = []" and xs: "distinct xs" "y \<notin> set xs"
    and h: "holds s' = (\<lambda>z. if z = y then concat (map (holds s) xs) else if z \<in> set xs then [] else holds s z)"
  shows "exclusive (holds s') ls"
  unfolding h by (rule exclusive_move [OF e idle xs])

lemma mm_inv_step:
  assumes "mm_step s s'" and inv: "mm_inv s"
  shows "mm_inv s'"
proof -
  have e: "exclusive (holds s) (live_mounts s)" and lt: "\<forall>k \<in> live_mounts s. k < next_mount s"
    using inv by (simp_all add: mm_inv_def)
  show ?thesis using assms(1)
  proof cases
    case (check t mountID ro c m')
    have h: "exclusive ((holds s)(Handler t := [], Nobody := stuck s)) (live_mounts s)"
      using hold_same [OF e, of t MmWait] check(2) by simp
    have m: "mmMounts m' = mmMounts (mm s)" "mmClosing m' = mmClosing (mm s)"
      "mmActive m' = mmActive (mm s) + (case c of SetUp base ro' \<Rightarrow> 1 | _ \<Rightarrow> 0)"
      "mmClosing (mm s) \<Longrightarrow> mmActive m' = mmActive (mm s)"
      using check(3) by (auto simp: mountCheck_def split: if_splits option.splits)
    show ?thesis unfolding check(1)
      by (rule mm_inv_at [OF inv, where t = t and was = False and p = "case c of
        Refuse err \<Rightarrow> MmReturned (Some (Inl (OtherErr err))) | Existing path \<Rightarrow> MmReturned (Some (Inr path)) | SetUp base ro' \<Rightarrow> MmSetup mountID base ro'"])
        (use check(2) m lt h in \<open>simp_all split: mount_check.split\<close>)
  next
    case (failed t mountID base ro err)
    show ?thesis unfolding failed(1)
      by (rule mm_inv_at [OF inv, where t = t and was = True and p = "MmLeave (Inl err)"])
        (use failed(2) e lt hold_same [OF e, of t "MmLeave (Inl err)"] in simp_all)
  next
    case (mounted t mountID base ro h as path)
    have "exclusive ((holds s)(Handler t := [next_mount s])) (insert (next_mount s) (live_mounts s))"
      using mounted(2) lt by (intro exclusive_add [OF e]) auto
    moreover have "(holds s)(Handler t := [next_mount s], Nobody := stuck s) = (holds s)(Handler t := [next_mount s])"
      by (rule ext) (auto simp: holds_def split: holder.splits)
    ultimately show ?thesis unfolding mounted(1)
      by (intro mm_inv_at [OF inv, where t = t and was = True and p = "MmMounted mountID \<lparr>meMount = next_mount s, mePath = path, meBase = base\<rparr>"])
        (use mounted(2) lt in \<open>auto simp: less_SucI\<close>)
  next
    case (commit t mountID en ctxErr r entered m')
    show ?thesis
    proof (cases entered)
      case False
      then have "m' = mm s" using commit(3) by (auto simp: entryCommit_def split: option.splits if_splits)
      then show ?thesis unfolding commit(1) using False
        by (intro mm_inv_at [OF inv, where t = t and was = True and p = "MmUndo en r"])
          (use commit(2) e lt hold_same [OF e, of t "MmUndo en r"] in simp_all)
    next
      case True
      then have n: "mmMounts (mm s) mountID = None" "m' = (mm s)\<lparr>mmMounts := (mmMounts (mm s))(mountID \<mapsto> en)\<rparr>" "\<not> mmClosing (mm s)"
        using commit(3) by (auto simp: entryCommit_def split: option.splits if_splits)
      have "exclusive (holds s') (live_mounts s)"
        by (rule hold_move [OF e, where y = "Table mountID" and xs = "[Handler t]"])
          (use n commit(1,2) True in \<open>auto simp: fun_eq_iff holds_def split: holder.splits\<close>)
      moreover have "active_handlers (mm_pcs s') = active_handlers (mm_pcs s)"
        using commit(1,2) True by (auto simp: active_handlers_def)
      ultimately show ?thesis using inv commit(1,2) n True by (auto simp: mm_inv_def)
    qed
  next
    case (undo t en r ok)
    show ?thesis unfolding undo(1)
      by (rule mm_inv_at [OF inv, where t = t and was = True and p = "MmLeave r"])
        (use undo(2) e lt hold_unmounted [OF e, of t en "[]" ok] live_unmounted in auto)
  next
    case (leave t r)
    have a: "0 < mmActive (mm s)"
    proof -
      have "t \<in> active_handlers (mm_pcs s)" using leave(2) by (simp add: active_handlers_def)
      then show ?thesis using inv by (auto simp: mm_inv_def card_gt_0_iff)
    qed
    show ?thesis unfolding leave(1)
      by (rule mm_inv_at [OF inv, where t = t and was = True and p = "MmReturned (Some r)"])
        (use leave(2) e lt hold_same [OF e, of t "MmReturned (Some r)"] in \<open>auto simp: activeDone_def\<close>)
  next
    case (run_command t frame en m')
    have m: "m' = (mm s)\<lparr>mmActive := mmActive (mm s) + 1\<rparr>" "\<not> mmClosing (mm s)"
      using run_command(3) by (auto simp: executeCheck_def split: if_splits option.splits)
    show ?thesis unfolding run_command(1)
      by (rule mm_inv_at [OF inv, where t = t and was = False and p = "MmLeave (Inr (mePath en))"])
        (use run_command(2) m e lt hold_same [OF e, of t "MmLeave (Inr (mePath en))"] in simp_all)
  next
    case (release t mountID eo m')
    have n: "eo = mmMounts (mm s) mountID" "m' = (mm s)\<lparr>mmMounts := (mmMounts (mm s))(mountID := None)\<rparr>"
      using release(3) by (auto simp: unmountTake_def)
    have "exclusive (holds s') (live_mounts s)"
      by (rule hold_move [OF e, where y = "Handler t" and xs = "[Table mountID]"])
        (use n release(1,2) in \<open>auto simp: fun_eq_iff holds_def split: holder.splits option.splits\<close>)
    moreover have "active_handlers (mm_pcs s') = active_handlers (mm_pcs s)"
      using release(1,2) by (auto simp: active_handlers_def)
    ultimately show ?thesis using inv release(1,2) n by (auto simp: mm_inv_def)
  next
    case (detach t en es ok)
    show ?thesis unfolding detach(1)
      by (rule mm_inv_at [OF inv, where t = t and was = False and p = "MmUnmounting es"])
        (use detach(2) e lt hold_unmounted [OF e, of t en "map meMount es" ok] live_unmounted in auto)
  next
    case (close t first m')
    show ?thesis unfolding close(1)
      by (rule mm_inv_at [OF inv, where t = t and was = False and p = "if first then MmWait else MmReturned None"])
        (use close(2,3) e lt hold_same [OF e, of t "if first then MmWait else MmReturned None"] in \<open>auto simp: closeBegin_def\<close>)
  next
    case (sweep t iter es m')
    let ?ids = "iter (dom (mmMounts (mm s)))"
    have n: "es = map (\<lambda>i. the (mmMounts (mm s) i)) ?ids" "m' = (mm s)\<lparr>mmMounts := Map.empty\<rparr>"
      using sweep(6) by (auto simp: closeTake_def)
    have hs: "holds s' = (\<lambda>z. if z = Handler t then concat (map (holds s) (map Table ?ids)) else if z \<in> set (map Table ?ids) then [] else holds s z)"
    proof (rule ext)
      fix z
      have some: "mmMounts (mm s) i = Some (the (mmMounts (mm s) i))" if "i \<in> set ?ids" for i
        using that sweep(4) by auto
      have "concat (map (holds s) (map Table xs)) = map meMount (map (\<lambda>i. the (mmMounts (mm s) i)) xs)" if "set xs \<subseteq> set ?ids" for xs
        using that some by (induction xs) (auto split: option.splits)
      then have "concat (map (holds s) (map Table ?ids)) = map meMount es" using n by blast
      then show "holds s' z = (if z = Handler t then concat (map (holds s) (map Table ?ids)) else if z \<in> set (map Table ?ids) then [] else holds s z)"
        using sweep(1,2,4) n by (auto simp: holds_def split: holder.splits option.splits)
    qed
    have "exclusive (holds s') (live_mounts s)"
      by (rule hold_move [OF e _ _ _ hs]) (use sweep(2,5) in \<open>auto simp: distinct_map inj_on_def\<close>)
    moreover have "active_handlers (mm_pcs s') = active_handlers (mm_pcs s)"
      using sweep(1,2) by (auto simp: active_handlers_def)
    ultimately show ?thesis using inv sweep(1,2,3) n by (auto simp: mm_inv_def)
  qed
qed


lemma mm_inv_reach: "mm_reach m0 s \<Longrightarrow> mmMounts m0 = Map.empty \<Longrightarrow> mmActive m0 = 0 \<Longrightarrow> mm_inv s"
  by (induction rule: mm_reach.induct) (simp_all add: mm_inv_init mm_inv_step)

text \<open>C22. No mount of a session is lost: under any interleaving of mount requests, releases, commands and the end
  of the session, every live mount is held by exactly one entry of the table or one running handler, or
  its unmount failed. Once \<open>Close\<close> has swept the table, no mount can be added any more and the only live
  mounts are those being unmounted.\<close>

theorem mounts_accounted:
  assumes reach: "mm_reach (newRemoteMountManager initErr root sid ro) s" and k: "k \<in> live_mounts s"
  shows "(\<exists>!h. k \<in> set (holds s h)) \<and>
    (if swept s then fst (mountCheck mountID ro' (mm s)) \<noteq> SetUp base ro'' \<and>
       (k \<in> set (stuck s) \<or> (\<exists>t es. mm_pcs s t = Some (MmUnmounting es) \<and> k \<in> meMount ` set es))
     else True)"
proof -
  have inv: "mm_inv s" using mm_inv_reach [OF reach] by (simp add: newRemoteMountManager_def)
  note D = exclusiveD [of "holds s" "live_mounts s"]
  have e: "exclusive (holds s) (live_mounts s)" using inv by (simp add: mm_inv_def)
  obtain h where h: "k \<in> set (holds s h)" using D(3) [OF e k] by blast
  have one: "\<exists>!h. k \<in> set (holds s h)" using h D(4) [OF e] by blast
  have "fst (mountCheck mountID ro' (mm s)) \<noteq> SetUp base ro'' \<and>
       (k \<in> set (stuck s) \<or> (\<exists>t es. mm_pcs s t = Some (MmUnmounting es) \<and> k \<in> meMount ` set es))" if sw: "swept s"
  proof
    have cl: "mmClosing (mm s)" "mmMounts (mm s) = Map.empty" "active_handlers (mm_pcs s) = {}"
      using inv sw by (auto simp: mm_inv_def)
    show "fst (mountCheck mountID ro' (mm s)) \<noteq> SetUp base ro''" using cl(1) by (simp add: mountCheck_def)
    show "k \<in> set (stuck s) \<or> (\<exists>t es. mm_pcs s t = Some (MmUnmounting es) \<and> k \<in> meMount ` set es)"
    proof (cases h)
      case (Table mountID)
      then show ?thesis using h cl(2) by simp
    next
      case Nobody
      then show ?thesis using h by simp
    next
      case (Handler t)
      then obtain p where p: "mm_pcs s t = Some p" "k \<in> set (pc_holds p)" using h by (cases "mm_pcs s t") auto
      have "\<not> pc_active p" using cl(3) p(1) by (auto simp: active_handlers_def)
      then show ?thesis using p by (cases p) auto
    qed
  qed
  then show ?thesis using one by simp
qed

text \<open>A mount is made and entered, then the manager closes and takes it for unmounting.\<close>

theorem mounts_accounted_witness:
  "\<exists>s. mm_reach (newRemoteMountManager None ''/run'' ''s1'' False) s \<and> swept s \<and> live_mounts s = {0} \<and>
     (0 \<in> set (stuck s) \<or> (\<exists>t es. mm_pcs s t = Some (MmUnmounting es) \<and> 0 \<in> meMount ` set es))"
proof -
  let ?m0 = "newRemoteMountManager None ''/run'' ''s1'' False"
  let ?e = "\<lparr>meMount = 0, mePath = ''/run/s1/m/home'', meBase = ''/run/s1/m''\<rparr>"
  have safe: "safeMountComponent ''m''" by code_simp
  have base: "JoinPath (mmRoot ?m0) ''m'' = ''/run/s1/m''" unfolding newRemoteMountManager_def by simp code_simp
  have smp: "SetupMountPoint None None None ''/run/s1/m'' ''home'' =
      ([DoUnmount ''/run/s1/m/home'', DoRemoveAll ''/run/s1/m/home'', DoMkdirAll ''/run/s1/m'',
        DoWriteFile ''/run/s1/m/.mount-path'' (''home'' @ newline)], Inr ''/run/s1/m/home'')" by code_simp
  have c: "mountCheck ''m'' False (mm (mm_init ?m0)) = (SetUp ''/run/s1/m'' False, ?m0\<lparr>mmActive := 1\<rparr>)"
    using safe base by (simp add: mm_init_def mountCheck_def newRemoteMountManager_def)
  let ?s1 = "at ((mm_init ?m0)\<lparr>mm := ?m0\<lparr>mmActive := 1\<rparr>\<rparr>) 0 (MmSetup ''m'' ''/run/s1/m'' False)"
  have 1: "mm_reach ?m0 ?s1"
    using mm_reach.step [OF mm_reach.init mm_step.check [OF _ c, where t = 0]] by (simp add: mm_init_def)
  let ?s2 = "at (?s1\<lparr>live_mounts := {0}, next_mount := 1\<rparr>) 0 (MmMounted ''m'' ?e)"
  have 2: "mm_reach ?m0 ?s2"
    using mm_reach.step [OF 1 mm_step.mounted [OF _ smp, where t = 0 and mountID = "''m''" and ro = False]] by (simp add: mm_init_def)
  have cm: "entryCommit ''m'' ?e None (mm ?s2) = (Inr ''/run/s1/m/home'', True, (mm ?s2)\<lparr>mmMounts := [''m'' \<mapsto> ?e]\<rparr>)"
    by (simp add: entryCommit_def newRemoteMountManager_def mm_init_def)
  let ?s3 = "at (?s2\<lparr>mm := (mm ?s2)\<lparr>mmMounts := [''m'' \<mapsto> ?e]\<rparr>\<rparr>) 0 (MmLeave (Inr ''/run/s1/m/home''))"
  have 3: "mm_reach ?m0 ?s3"
    using mm_reach.step [OF 2 mm_step.commit [OF _ cm, where t = 0]] by simp
  let ?s4 = "at (?s3\<lparr>mm := (mm ?s3)\<lparr>mmActive := 0\<rparr>\<rparr>) 0 (MmReturned (Some (Inr ''/run/s1/m/home'')))"
  have 4: "mm_reach ?m0 ?s4"
    using mm_reach.step [OF 3 mm_step.leave [where t = 0]] by (simp add: activeDone_def)
  have cb: "closeBegin (mm ?s4) = (True, (mm ?s4)\<lparr>mmClosing := True\<rparr>)"
    by (simp add: closeBegin_def newRemoteMountManager_def mm_init_def)
  let ?s5 = "at (?s4\<lparr>mm := (mm ?s4)\<lparr>mmClosing := True\<rparr>\<rparr>) 1 MmWait"
  have 5: "mm_reach ?m0 ?s5"
    using mm_reach.step [OF 4 mm_step.close [OF _ cb, where t = 1]] by (simp add: mm_init_def)
  have ct: "closeTake (\<lambda>_. [''m'']) (mm ?s5) = ([?e], (mm ?s5)\<lparr>mmMounts := Map.empty\<rparr>)"
    by (simp add: closeTake_def)
  let ?s6 = "at (?s5\<lparr>mm := (mm ?s5)\<lparr>mmMounts := Map.empty\<rparr>, swept := True\<rparr>) 1 (MmUnmounting [?e])"
  have 6: "mm_reach ?m0 ?s6"
    using mm_reach.step [OF 5 mm_step.sweep [OF _ _ _ _ ct, where t = 1]] by (simp add: mm_init_def)
  define s where "s = ?s6"
  have s: "swept s" "live_mounts s = {0}" "mm_reach ?m0 s" using 6 by (simp_all add: s_def)
  have "0 \<in> live_mounts s" using s(2) by simp
  then have "0 \<in> set (stuck s) \<or> (\<exists>t es. mm_pcs s t = Some (MmUnmounting es) \<and> 0 \<in> meMount ` set es)"
    using mounts_accounted [OF s(3), THEN conjunct2] unfolding if_P [OF s(1)] by blast
  then show ?thesis using s by blast
qed

subsection \<open>Separate directories\<close>

lemma safe_proper: "safeMountComponent v \<Longrightarrow> proper v"
  by (auto simp: safeMountComponent_def proper_def ContainsAny_def list_ex_iff)

lemma components_single: "proper v \<Longrightarrow> components v = [v] \<and> \<not> IsAbs v"
proof -
  assume v: "proper v"
  then have "\<not> IsAbs v" by (cases v) (auto simp: IsAbs_iff proper_def)
  moreover have "Split v slash = [v]" using v by (intro Split_no_sep) (simp add: proper_def)
  ultimately show ?thesis using v by (simp add: components_def proper_def)
qed

lemma components_base:
  "IsAbs root \<Longrightarrow> safeMountComponent v \<Longrightarrow> IsAbs (JoinPath root v) \<and> components (JoinPath root v) = components root @ [v]"
  using components_below [of root v] components_single [OF safe_proper] safe_proper [of v] by (simp add: proper_def)

lemma mount_below_base:
  "MountPathBelow base h = Inr path \<Longrightarrow> IsAbs base \<Longrightarrow> inside base path \<and> IsAbs path"
  using mount_path.joined_below [of h _ base] by (auto simp: MountPathBelow_def inside_def split: sum.splits)

lemma SetupMountPoint_path: "SetupMountPoint e1 e2 e3 base h = (as, Inr path) \<Longrightarrow> MountPathBelow base h = Inr path"
  by (auto simp: SetupMountPoint_def MountPathBelow_def Let_def split: sum.splits option.splits)

fun action_path :: "fs_action \<Rightarrow> string" where
  "action_path (DoUnmount p) = p"
| "action_path (DoRemoveAll p) = p"
| "action_path (DoMkdirAll p) = p"
| "action_path (DoWriteFile p text) = p"

lemma setup_paths:
  assumes "SetupMountPoint e1 e2 e3 base h = (as, r)" "IsAbs base" "a \<in> set as"
  shows "inside base (action_path a)"
proof -
  have mark: "inside base (JoinPath base ''.mount-path'')"
    using components_below [of base "''.mount-path''"] components_single [of "''.mount-path''"] assms(2)
    by (simp add: proper_def inside_def)
  have self: "inside base base" by (simp add: inside_def)
  show ?thesis
  proof (cases "CleanMountPath h")
    case (Inl err)
    then show ?thesis using assms(1,3) by (simp add: SetupMountPoint_def)
  next
    case (Inr clean)
    then have "inside base (JoinPath base clean)" using mount_path.joined_below [OF Inr assms(2)] by (simp add: inside_def)
    then show ?thesis using assms(1,3) Inr mark self by (auto simp: SetupMountPoint_def Let_def split: option.splits)
  qed
qed

lemma inside_apart: "IsAbs root \<Longrightarrow> safeMountComponent v \<Longrightarrow> safeMountComponent w \<Longrightarrow> inside (JoinPath root v) p \<Longrightarrow>
    inside (JoinPath root w) p \<Longrightarrow> v = w"
  by (auto simp: inside_def components_base)

text \<open>C26. The mounts of a session do not touch each other: whatever hierarchy the server asks for, setting up a mount
  works on paths inside the directory of its own mount id only, never inside that of another id.\<close>

theorem mounts_separate:
  assumes root: "IsAbs (mmRoot m)" and a: "mountCheck a ro m = (SetUp base ro', m')" and b: "safeMountComponent b" "a \<noteq> b"
    and local: "MountLocal (SetupMountPoint e1 e2 e3 base h) mount base = (as, res)"
  shows "\<forall>x \<in> set as. inside base (action_path x) \<and> \<not> inside (JoinPath (mmRoot m) b) (action_path x)"
proof
  fix x assume x: "x \<in> set as"
  have s: "safeMountComponent a" "base = JoinPath (mmRoot m) a" using a by (auto simp: mountCheck_def split: if_splits option.splits)
  then have base: "IsAbs base" using components_base [OF root] by blast
  have "x = DoRemoveAll base \<or> x \<in> set (fst (SetupMountPoint e1 e2 e3 base h))"
    using local x by (auto simp: MountLocal_def split: prod.splits sum.splits)
  then have "inside base (action_path x)"
    using setup_paths [OF prod.collapse [symmetric] base, of x e1 e2 e3 h] by (auto simp: inside_def)
  then show "inside base (action_path x) \<and> \<not> inside (JoinPath (mmRoot m) b) (action_path x)"
    using inside_apart [OF root s(1) b(1)] s(2) b(2) by blast
qed

theorem mounts_separate_witness:
  "inside ''/run/s1/m'' ''/run/s1/m/home'' \<and> \<not> inside ''/run/s1/n'' ''/run/s1/m/home''"
proof -
  let ?m = "newRemoteMountManager None ''/run'' ''s1'' False"
  have safe: "safeMountComponent ''m''" "safeMountComponent ''n''" by code_simp+
  have root: "mmRoot ?m = ''/run/s1''" unfolding newRemoteMountManager_def by simp code_simp
  have b: "JoinPath ''/run/s1'' ''m'' = ''/run/s1/m''" "JoinPath ''/run/s1'' ''n'' = ''/run/s1/n''" "IsAbs ''/run/s1''" by code_simp+
  have c: "mountCheck ''m'' False ?m = (SetUp ''/run/s1/m'' False, ?m\<lparr>mmActive := 1\<rparr>)"
    using safe b root by (simp add: mountCheck_def) (simp add: newRemoteMountManager_def)
  have l: "MountLocal (SetupMountPoint None None None ''/run/s1/m'' ''home'') (\<lambda>p. Inr (7::nat)) ''/run/s1/m'' =
      ([DoUnmount ''/run/s1/m/home'', DoRemoveAll ''/run/s1/m/home'', DoMkdirAll ''/run/s1/m'',
        DoWriteFile ''/run/s1/m/.mount-path'' (''home'' @ newline)], Inr 7)" by code_simp
  show ?thesis using mounts_separate [OF _ c safe(2) _ l] b root by simp
qed

subsection \<open>Commands\<close>



subsection \<open>A cancellation that arrives late\<close>

definition held_mount :: mount_manager where
  "held_mount = (newRemoteMountManager None ''/run'' ''s1'' False)\<lparr>mmMounts :=
     [''m'' \<mapsto> \<lparr>meMount = 0, mePath = ''/run/s1/m/home'', meBase = ''/run/s1/m''\<rparr>]\<rparr>"

text \<open>A cancelled mount can take its retry with it: when the cancellation of a mount request and the repeated
  request arrive in this order, the read loop starts both without waiting; if the repeated request is
  checked first, it is told that the mount exists, and the cancellation then unmounts it, so that the
  commands sent for it are refused.\<close>

theorem late_cancel_unmounts_retry:
  "let cancel = wireFrame0\<lparr>wType := frameCancel, wID := 3, wMountID := ''m''\<rparr>;
       retry = wireFrame0\<lparr>wType := frameRequest, wID := 5, wOp := ''mount.create'', wMountID := ''m''\<rparr>;
       p = (startPeer 0 :: nat peer); (a1, p1) = peerFrame True cancel p; (a2, p2) = peerFrame True retry p1;
       (found, m1) = mountCheck ''m'' False held_mount; (taken, m2) = unmountTake ''m'' m1;
       command = Frame0\<lparr>fType := TypeCommandExec, fID := ''7'', fMountID := ''m'', fSessionID := ''s1'', fCwd := ''.''\<rparr> in
   a1 = Some (Cancelled (Some ''m'')) \<and> a2 = Some (Serve retry) \<and> found = Existing ''/run/s1/m/home'' \<and>
   map_option mePath taken = Some ''/run/s1/m/home'' \<and>
   fst (executeCheck command m2) = Inl (commandError ''7'' ''remote fs mount is not available'')"
proof -
  have safe: "safeMountComponent ''m''" "safeMountComponent ''s1''" by code_simp+
  show ?thesis using safe
    by (simp add: Let_def peerFrame_def startPeer_def frameCancel_def frameRequest_def frameResponse_def MaxInFlight_def wireFrame0_def
      held_mount_def newRemoteMountManager_def mountCheck_def unmountTake_def executeCheck_def Frame0_def)
qed

subsection \<open>Mounts left behind\<close>

lemma TrimSpace_marker: "s \<noteq> [] \<Longrightarrow> \<not> is_space (hd s) \<Longrightarrow> \<not> is_space (last s) \<Longrightarrow> TrimSpace (s @ newline) = s"
proof -
  assume s: "s \<noteq> []" "\<not> is_space (hd s)" "\<not> is_space (last s)"
  have n: "trim_right is_space newline = []" by code_simp
  show ?thesis using trim_left_keep_hd [of s is_space newline] trim_right_keep_last [of s is_space newline] s n
    by (simp add: TrimSpace_def TrimFunc_def)
qed

text \<open>The marker written when a mount point is set up leads the cleanup of a later session back to it: read back,
  trimmed and resolved below the export's directory, it names exactly the path that was mounted,
  provided that the path neither begins nor ends with white space.\<close>

theorem stale_mount_found:
  assumes set: "SetupMountPoint None None None (JoinPath sessionRoot name) h = (as, Inr path)"
    and clean: "CleanMountPath h = Inr c" "\<not> is_space (hd c)" "\<not> is_space (last c)"
  shows "case last as of
      DoWriteFile p marker \<Rightarrow> p = JoinPath (JoinPath sessionRoot name) ''.mount-path'' \<and>
        exportMount sessionRoot \<lparr>seName = name, seIsDir = True, seMarker = Some marker\<rparr> = Inr path
    | _ \<Rightarrow> False"
proof -
  have "c \<noteq> []" using mount_path.relative [OF clean(1)] by simp
  then have "TrimSpace (c @ newline) = c" using TrimSpace_marker clean(2,3) by blast
  then show ?thesis using set clean(1) CleanMountPath_again [OF clean(1)]
    by (auto simp: SetupMountPoint_def exportMount_def MountPathBelow_def Let_def)
qed

text \<open>A path that ends in a space defeats the cleanup: the marker is trimmed when it is read, so the directory
  of a dead session is removed while its mount is still there and cannot be unmounted. Without the
  space the same session is left alone.\<close>

theorem stale_mount_missed:
  "let mark = (\<lambda>h. case SetupMountPoint None None None ''/run/s1/m'' h of
         (as, r) \<Rightarrow> (r, case last as of DoWriteFile p marker \<Rightarrow> Some marker | _ \<Rightarrow> None));
       session = (\<lambda>marker. \<lparr>ssName = ''s1'', ssIsDir = True, ssLeaseOpens = True, ssLocked = True,
         ssExports = Some [\<lparr>seName = ''m'', seIsDir = True, seMarker = marker\<rparr>]\<rparr>);
       busy = (\<lambda>mounted path. detachStaleMount linux (Some (path = mounted)) (Some (Errno 16)) False) in
   fst (mark ''srv/data '') = Inr ''/run/s1/m/srv/data '' \<and>
   cleanupStaleReverseMounts (busy ''/run/s1/m/srv/data '') ''/run'' ''s2'' [session (snd (mark ''srv/data ''))] = [''/run/s1''] \<and>
   fst (mark ''srv/data'') = Inr ''/run/s1/m/srv/data'' \<and>
   cleanupStaleReverseMounts (busy ''/run/s1/m/srv/data'') ''/run'' ''s2'' [session (snd (mark ''srv/data''))] = []"
  by code_simp

theorem stale_mount_found_witness:
  "exportMount ''/run/s1'' \<lparr>seName = ''m'', seIsDir = True, seMarker = Some (''srv/data'' @ newline)\<rparr> =
     Inr ''/run/s1/m/srv/data''"
proof -
  have b: "JoinPath ''/run/s1'' ''m'' = ''/run/s1/m''" by code_simp
  have s: "SetupMountPoint None None None (JoinPath ''/run/s1'' ''m'') ''srv//data'' =
      ([DoUnmount ''/run/s1/m/srv/data'', DoRemoveAll ''/run/s1/m/srv/data'', DoMkdirAll ''/run/s1/m'',
        DoWriteFile ''/run/s1/m/.mount-path'' (''srv/data'' @ newline)], Inr ''/run/s1/m/srv/data'')" unfolding b by code_simp
  have c: "CleanMountPath ''srv//data'' = Inr ''srv/data''" by code_simp
  have sp: "\<not> is_space (hd ''srv/data'')" "\<not> is_space (last ''srv/data'')" by code_simp+
  show ?thesis using stale_mount_found [OF s c sp] by simp
qed

end
