(* ===== verification/Resources.thy ===== *)
theory Resources
  imports Prelude
begin

text \<open>
  Traces of resources: what a piece of code acquires and releases, in order, with its other effects
  between them. \<open>balanced\<close> traces release everything in the reverse order of acquisition; \<open>still_held\<close>
  is what is left when the order does not matter.
\<close>

datatype ('r, 'e) trace_step = Hold 'r | Free 'r | Effect 'e

fun unwind :: "'r list \<Rightarrow> ('r, 'e) trace_step list \<Rightarrow> 'r list option" where
  "unwind st [] = Some st"
| "unwind st (Hold r # as) = unwind (r # st) as"
| "unwind st (Free r # as) = (case st of [] \<Rightarrow> None | s # st' \<Rightarrow> (if s = r then unwind st' as else None))"
| "unwind st (Effect e # as) = unwind st as"

definition balanced :: "('r, 'e) trace_step list \<Rightarrow> bool" where
  "balanced as = (unwind [] as = Some [])"

fun still_held :: "'r list \<Rightarrow> ('r, 'e) trace_step list \<Rightarrow> 'r list option" where
  "still_held st [] = Some st"
| "still_held st (Hold r # as) = still_held (r # st) as"
| "still_held st (Free r # as) = (if r \<in> set st then still_held (remove1 r st) as else None)"
| "still_held st (Effect e # as) = still_held st as"

lemma unwind_append: "unwind st (as @ bs) = (case unwind st as of None \<Rightarrow> None | Some st' \<Rightarrow> unwind st' bs)"
  by (induction st as rule: unwind.induct) (auto split: list.splits)

lemma unwind_deeper: "unwind st as = Some st' \<Longrightarrow> unwind (st @ below) as = Some (st' @ below)"
  by (induction st as rule: unwind.induct) (auto split: list.splits if_splits)

lemma unwind_balanced: "balanced as \<Longrightarrow> unwind st as = Some st"
  using unwind_deeper [of "[]" as "[]" st] by (simp add: balanced_def)

lemma balanced_Nil [simp, intro]: "balanced []"
  by (simp add: balanced_def)

lemma balanced_Effect [simp]: "balanced (Effect e # as) = balanced as"
  by (simp add: balanced_def)

lemma balanced_append [intro]: "balanced as \<Longrightarrow> balanced bs \<Longrightarrow> balanced (as @ bs)"
  by (simp add: balanced_def unwind_append)

lemma balanced_around [intro]: "balanced as \<Longrightarrow> balanced (Hold r # as @ [Free r])"
  by (simp add: balanced_def unwind_append unwind_balanced [unfolded balanced_def])

lemma balanced_small [simp]: "balanced [Hold r, Free r]" "balanced [Hold r, Effect e, Free r]"
  by (simp_all add: balanced_def)

definition around :: "'r \<Rightarrow> ('r, 'e) trace_step list \<Rightarrow> ('r, 'e) trace_step list" where
  "around r as = Hold r # as @ [Free r]"

lemma around_balanced [intro]: "balanced as \<Longrightarrow> balanced (around r as)"
  by (simp add: around_def balanced_around)

text \<open>What is released in reverse order is released: nothing is left and nothing is released twice.\<close>

lemma unwind_still_held: "unwind st as = Some st' \<Longrightarrow> still_held st as = Some st'"
  by (induction st as rule: unwind.induct) (auto split: list.splits if_splits)

lemma still_held_append: "still_held st (as @ bs) = (case still_held st as of None \<Rightarrow> None | Some st' \<Rightarrow> still_held st' bs)"
  by (induction st as rule: still_held.induct) auto

lemma still_held_counts:
  "still_held st as = Some st' \<Longrightarrow>
   count_list st r + count_list as (Hold r) = count_list st' r + count_list as (Free r)"
proof (induction st as rule: still_held.induct)
  case (3 st x as)
  then have m: "x \<in> set st" "still_held (remove1 x st) as = Some st'" by (auto split: if_splits)
  have "count_list st r = count_list (remove1 x st) r + (if x = r then 1 else 0)"
    using m(1) by (induction st) auto
  then show ?case using 3(1) m by (auto split: if_splits)
qed (auto split: if_splits)

lemma balanced_counts: "balanced as \<Longrightarrow> count_list as (Hold r) = count_list as (Free r)"
  using still_held_counts [OF unwind_still_held, of "[]" as "[]" r] by (simp add: balanced_def)

end
