(* ===== verification/MountLife.thy ===== *)
theory MountLife
  imports MountManager Resources
begin

text \<open>
  What happens around the mounts on both ends: the FUSE driver's \<open>Mount\<close> (\<open>internal/remotefs/fuse.go\<close>), the
  handlers of the client's mount manager as wholes (\<open>internal/cli/ssh_bridge_mount.go\<close>), the removal of a
  mount by the server and its cleanup of stale mounts (\<open>internal/bridge/remotefs.go\<close>). The order of unmounting
  and removing directories matters: a recursive removal goes through a mount that is still there.
\<close>

subsection \<open>The driver\<close>

text \<open>The calls of the driver and their outcomes; \<open>fs.Mount\<close> gets the options with their defaults.\<close>

record driver_calls =
  dcMkdir :: "goerr option"
  dcChmod :: "goerr option"
  dcMount :: "mount_options \<Rightarrow> string list \<Rightarrow> goerr option"

datatype driver_act = ActMkdir string | ActChmod string | ActServe string mount_options "string list" | ActRemove string

definition driverMount ::
  "bool \<Rightarrow> driver_calls \<Rightarrow> string \<Rightarrow> bool \<Rightarrow> mount_options \<Rightarrow> driver_act list \<times> (goerr, go_mount) result" where
  "driverMount on_darwin calls path hasBackend options =
     (if \<not> hasBackend then ([], Inl (OtherErr ''remote fs backend is required''))
      else case dcMkdir calls of
        Some err \<Rightarrow> ([ActMkdir path], Inl err)
      | None \<Rightarrow> (case dcChmod calls of
          Some err \<Rightarrow> ([ActMkdir path, ActChmod path], Inl err)
        | None \<Rightarrow>
            (let options = mountDefaults options; kernel = kernelOptions on_darwin options;
                 as = [ActMkdir path, ActChmod path, ActServe path options kernel] in
             case dcMount calls options kernel of
               Some err \<Rightarrow> (as @ [ActRemove path], Inl err)
             | None \<Rightarrow> (as, Inr (newGoMount path)))))"

lemma driverMount_options:
  "ActServe p options kopts \<in> set (fst (driverMount on_darwin calls path hasBackend given)) \<Longrightarrow>
   p = path \<and> moEntryTimeout options > 0 \<and> moAttrTimeout options > 0 \<and> (moReadOnly given \<longrightarrow> ''ro'' \<in> set kopts)"
  by (auto simp: driverMount_def mountDefaults_def kernelOptions_def Let_def split: option.splits if_splits)

subsection \<open>Is something mounted here\<close>

text \<open>\<open>stat\<close> gives the device of a file, \<open>None\<close> where the system does not tell.\<close>

definition isNotExist :: "errtable \<Rightarrow> goerr \<Rightarrow> bool" where
  "isNotExist os err = (cause err = ErrNotExist \<or> cause err = Errno (os ENOENT))"

definition managedPathMounted :: "errtable \<Rightarrow> (string \<Rightarrow> (goerr, nat option) result) \<Rightarrow> string \<Rightarrow> bool \<times> goerr option" where
  "managedPathMounted os stat path =
     (case stat (Dir path) of
        Inl err \<Rightarrow> (False, Some err)
      | Inr parent \<Rightarrow>
          (case stat path of
             Inl err \<Rightarrow> (if isNotExist os err then (False, None) else (True, Some err))
           | Inr self \<Rightarrow>
               (case (parent, self) of
                  (Some d, Some d') \<Rightarrow> (d \<noteq> d', None)
                | _ \<Rightarrow> (True, None))))"

definition pathIsMountPoint :: "errtable \<Rightarrow> (string \<Rightarrow> (goerr, nat option) result) \<Rightarrow> string \<Rightarrow> bool \<times> goerr option" where
  "pathIsMountPoint os stat path =
     (case stat (Dir path) of
        Inl err \<Rightarrow> (False, Some err)
      | Inr parent \<Rightarrow>
          (case stat path of
             Inl err \<Rightarrow> (if isNotExist os err then (False, None) else (False, Some err))
           | Inr self \<Rightarrow>
               (case (parent, self) of
                  (Some d, Some d') \<Rightarrow> (d \<noteq> d', None)
                | _ \<Rightarrow> (True, None))))"

text \<open>Both say without an error that nothing is mounted in the same cases.\<close>

lemma mounted_agree: "managedPathMounted os stat path = (False, None) \<longleftrightarrow> pathIsMountPoint os stat path = (False, None)"
  by (auto simp: managedPathMounted_def pathIsMountPoint_def split: sum.splits option.splits)

lemma not_mounted:
  "managedPathMounted os stat path = (False, None) \<longleftrightarrow>
   (\<exists>d. stat (Dir path) = Inr d \<and> ((\<exists>err. stat path = Inl err \<and> isNotExist os err) \<or> (d \<noteq> None \<and> stat path = Inr d)))"
  by (auto simp: managedPathMounted_def split: sum.splits option.splits)

subsection \<open>The cleanup of the server\<close>

record stale_entry =
  steName :: string
  steIsDir :: bool
  steMarker :: "string option"

text \<open>What the server can do to detach a mount: unmount it, and run one of the fusermount programs.\<close>

record detach_calls =
  dtStat :: "string \<Rightarrow> (goerr, nat option) result"
  dtUnmount :: "string \<Rightarrow> goerr option"
  dtLook :: "string \<Rightarrow> bool"
  dtRun :: "string \<Rightarrow> string \<Rightarrow> bool"

text \<open>The mount point of a session directory; \<open>None\<close> for a marker that leads outside.\<close>

definition staleMountPath :: "string \<Rightarrow> stale_entry \<Rightarrow> string option" where
  "staleMountPath root e =
     (let sessionPath = JoinPath root (steName e) in
      case steMarker e of
        None \<Rightarrow> Some (JoinPath sessionPath ''workspace'')
      | Some marker \<Rightarrow> (case MountPathBelow sessionPath (TrimSpace marker) of Inl err \<Rightarrow> None | Inr p \<Rightarrow> Some p))"

definition fusermountDetach :: "detach_calls \<Rightarrow> string \<Rightarrow> bool" where
  "fusermountDetach calls path =
     (if dtLook calls ''fusermount3'' then dtRun calls ''fusermount3'' path
      else if dtLook calls ''fusermount'' then dtRun calls ''fusermount'' path else False)"

definition staleDetached :: "errtable \<Rightarrow> detach_calls \<Rightarrow> string \<Rightarrow> bool" where
  "staleDetached os calls path =
     (if managedPathMounted os (dtStat calls) path = (False, None) then True
      else case dtUnmount calls path of
        None \<Rightarrow> True
      | Some err \<Rightarrow> cause err = Errno (os EINVAL) \<or> cause err = Errno (os ENOENT) \<or> fusermountDetach calls path)"

definition staleRemoved :: "errtable \<Rightarrow> detach_calls \<Rightarrow> string \<Rightarrow> stale_entry \<Rightarrow> bool" where
  "staleRemoved os calls root e =
     (steIsDir e \<and> safeSessionID (steName e) \<and>
      (case staleMountPath root e of None \<Rightarrow> False | Some path \<Rightarrow> staleDetached os calls path))"

text \<open>The directories that are removed; \<open>None\<close>: the root cannot be read.\<close>

definition cleanupStaleMounts :: "errtable \<Rightarrow> detach_calls \<Rightarrow> string \<Rightarrow> stale_entry list option \<Rightarrow> string list" where
  "cleanupStaleMounts os calls root entries =
     (case entries of None \<Rightarrow> [] | Some es \<Rightarrow> map (\<lambda>e. JoinPath root (steName e)) (filter (staleRemoved os calls root) es))"

lemma stale_removed_below:
  assumes "IsAbs root" "p \<in> set (cleanupStaleMounts os calls root (Some es))"
  shows "\<exists>e \<in> set es. steIsDir e \<and> safeSessionID (steName e) \<and> components p = components root @ [steName e]"
proof -
  have same: "safeSessionID v = safeMountComponent v" for v by (simp add: safeSessionID_def safeMountComponent_def)
  show ?thesis
    using assms(2) components_base [OF assms(1)] unfolding cleanupStaleMounts_def staleRemoved_def
    by (auto simp: same)
qed

lemma stale_kept:
  assumes "staleMountPath root e = Some path" "managedPathMounted os (dtStat calls) path \<noteq> (False, None)"
    and "dtUnmount calls path = Some err" "cause err \<noteq> Errno (os EINVAL)" "cause err \<noteq> Errno (os ENOENT)"
    and "\<not> fusermountDetach calls path"
  shows "\<not> staleRemoved os calls root e"
  using assms by (simp add: staleRemoved_def staleDetached_def)

subsection \<open>The handlers of the client's mount manager\<close>

text \<open>What the handlers do outside the lock, in order: the calls of \<open>SetupMountPoint\<close> and \<open>MountLocal\<close>, unmounting
  with its outcome, and removing a directory with all it contains.\<close>

datatype mount_act = ActSetup fs_action | ActUnmount string bool | ActRemoveAll string | ActCancel | ActUnlock

definition mountAt :: "(string \<Rightarrow> (goerr, nat) result) \<Rightarrow> string \<Rightarrow> string \<Rightarrow> (goerr, mount_entry) result" where
  "mountAt mount base path =
     (case mount path of Inl err \<Rightarrow> Inl err | Inr m \<Rightarrow> Inr \<lparr>meMount = m, mePath = path, meBase = base\<rparr>)"

record setup_calls =
  suRemove :: "goerr option"
  suMkdir :: "goerr option"
  suWrite :: "goerr option"

definition OnMount ::
  "setup_calls \<Rightarrow> (bool \<Rightarrow> string \<Rightarrow> (goerr, nat) result) \<Rightarrow> goerr option \<Rightarrow> bool \<Rightarrow> string \<Rightarrow> string \<Rightarrow> bool \<Rightarrow> mount_manager \<Rightarrow>
   (goerr, string) result \<times> mount_act list \<times> mount_manager" where
  "OnMount calls mount ctxErr undoOk mountID hierarchy readOnly m =
     (case mountCheck mountID readOnly m of
        (Refuse err, m1) \<Rightarrow> (Inl (OtherErr err), [], m1)
      | (Existing path, m1) \<Rightarrow> (Inr path, [], m1)
      | (SetUp base ro, m1) \<Rightarrow>
          (case MountLocal (SetupMountPoint (suRemove calls) (suMkdir calls) (suWrite calls) base hierarchy) (mountAt (mount ro) base) base of
             (as, Inl err) \<Rightarrow> (Inl err, map ActSetup as, activeDone m1)
           | (as, Inr entry) \<Rightarrow>
               (case entryCommit mountID entry ctxErr m1 of
                  (r, entered, m2) \<Rightarrow>
                    (r, map ActSetup as @ (if entered then [] else [ActUnmount (mePath entry) undoOk, ActCancel]), activeDone m2))))"

text \<open>Giving up an entry: it is unmounted, its lifetime is cancelled, and its directory is removed with all it
  contains, whatever the unmounting said.\<close>

definition releaseEntry :: "goerr option \<Rightarrow> mount_entry \<Rightarrow> mount_act list" where
  "releaseEntry err e = [ActUnmount (mePath e) (err = None), ActCancel, ActRemoveAll (meBase e)]"

definition OnUnmount :: "(mount_entry \<Rightarrow> goerr option) \<Rightarrow> string \<Rightarrow> mount_manager \<Rightarrow> goerr option \<times> mount_act list \<times> mount_manager" where
  "OnUnmount unmount mountID m =
     (case unmountTake mountID m of
        (None, m1) \<Rightarrow> (None, [], m1)
      | (Some e, m1) \<Rightarrow> (unmount e, releaseEntry (unmount e) e, m1))"

text \<open>\<open>Close\<close>, once the active handlers are done; \<open>lease\<close>: the manager holds the lease of its directory.\<close>

definition mmClose ::
  "(string set \<Rightarrow> string list) \<Rightarrow> (mount_entry \<Rightarrow> goerr option) \<Rightarrow> bool \<Rightarrow> mount_manager \<Rightarrow> mount_act list \<times> mount_manager" where
  "mmClose iter unmount lease m =
     (case closeBegin m of
        (False, m1) \<Rightarrow> ([], m1)
      | (True, m1) \<Rightarrow>
          (case closeTake iter m1 of
             (es, m2) \<Rightarrow>
               (concat (map (\<lambda>e. releaseEntry (unmount e) e) es) @ [ActCancel] @ (if lease then [ActUnlock] else []) @
                (if mmRoot m = [] then [] else [ActRemoveAll (mmRoot m)]), m2)))"

text \<open>The server ends the context of a mount and removes the directory of its session only after the mount is gone.\<close>

definition lifetimeUnmount :: "goerr option \<Rightarrow> string \<Rightarrow> mount_act list" where
  "lifetimeUnmount err path = ActUnmount path (err = None) # (if err = None then [ActCancel] else [])"

definition serverRelease :: "goerr option \<Rightarrow> string \<Rightarrow> string \<Rightarrow> string \<Rightarrow> mount_act list" where
  "serverRelease err mountRoot sessionID path =
     lifetimeUnmount err path @ (if err = None then [ActRemoveAll (JoinPath mountRoot sessionID)] else [])"

subsection \<open>What a recursive removal destroys\<close>

text \<open>The mounts that are there, and those whose contents a removal went through: the files of the other end.\<close>

record mount_world =
  mwLive :: "string set"
  mwLost :: "string set"

fun worldAct :: "mount_act \<Rightarrow> mount_world \<Rightarrow> mount_world" where
  "worldAct (ActUnmount path ok) w = (if ok then w\<lparr>mwLive := mwLive w - {path}\<rparr> else w)"
| "worldAct (ActRemoveAll base) w = w\<lparr>mwLost := mwLost w \<union> {p \<in> mwLive w. inside base p}\<rparr>"
| "worldAct (ActSetup a) w = w"
| "worldAct ActCancel w = w"
| "worldAct ActUnlock w = w"

definition worldRun :: "mount_act list \<Rightarrow> mount_world \<Rightarrow> mount_world" where
  "worldRun as w = fold worldAct as w"

lemma worldRun_simps [simp]:
  "worldRun [] w = w" "worldRun (a # as) w = worldRun as (worldAct a w)" "worldRun (as @ bs) w = worldRun bs (worldRun as w)"
  by (simp_all add: worldRun_def)



lemma release_spares:
  assumes "\<forall>p \<in> mwLive w. inside (meBase e) p \<longrightarrow> p = mePath e"
  shows "mwLost (worldRun (releaseEntry None e) w) = mwLost w"
  using assms by (auto simp: releaseEntry_def)

text \<open>The table and the count after a whole \<open>OnMount\<close>: it enters the mount or nothing, and is not counted as active
  any more.\<close>

lemma OnMount_state:
  assumes "OnMount calls mount ctxErr undoOk mountID h ro m = (r, as, m')"
  shows "mmActive m' = mmActive m \<and> mmClosing m' = mmClosing m \<and>
    (mmMounts m' = mmMounts m \<or>
      (\<exists>e. mmMounts m mountID = None \<and> mmMounts m' = (mmMounts m)(mountID \<mapsto> e) \<and> r = Inr (mePath e) \<and>
         meBase e = JoinPath (mmRoot m) mountID \<and> MountPathBelow (meBase e) h = Inr (mePath e)))"
proof (cases "mountCheck mountID ro m")
  case (Pair c m1)
  show ?thesis
  proof (cases c)
    case (SetUp base ro')
    have m1: "m1 = m\<lparr>mmActive := mmActive m + 1\<rparr>" "base = JoinPath (mmRoot m) mountID" "mmMounts m mountID = None" "\<not> mmClosing m"
      using Pair SetUp by (auto simp: mountCheck_def split: if_splits option.splits)
    obtain as1 r1 where l: "MountLocal (SetupMountPoint (suRemove calls) (suMkdir calls) (suWrite calls) base h) (mountAt (mount ro') base) base = (as1, r1)"
      by fastforce
    show ?thesis
    proof (cases r1)
      case (Inl err)
      then show ?thesis using assms Pair SetUp l m1 by (simp add: OnMount_def activeDone_def)
    next
      case (Inr e)
      have e: "meBase e = base" "MountPathBelow base h = Inr (mePath e)"
        using l Inr SetupMountPoint_path by (auto simp: MountLocal_def mountAt_def split: prod.splits sum.splits)
      show ?thesis using assms Pair SetUp l m1 Inr e
        by (cases ctxErr) (auto simp: OnMount_def entryCommit_def activeDone_def)
    qed
  qed (use assms Pair in \<open>auto simp: OnMount_def mountCheck_def split: if_splits option.splits\<close>)
qed

subsection \<open>Opening the manager\<close>

text \<open>The directory of the session is made and leased under a lock that excludes the cleanup of other processes.\<close>

datatype manager_resource = CleanupFile | CleanupLock | Lease | LeaseLock
datatype manager_effect = MakeRoot | MakeSession | CleanStale

record manager_calls =
  mcRoot :: "string option"
  mcFile :: "string option"
  mcLock :: "string option"
  mcSession :: "string option"
  mcLease :: "string option"
  mcLeaseLock :: "string option"

definition openMountManager :: "manager_calls \<Rightarrow> string option \<times> (manager_resource, manager_effect) trace_step list" where
  "openMountManager c =
     (case mcRoot c of Some err \<Rightarrow> (Some err, [Effect MakeRoot]) | None \<Rightarrow>
      case mcFile c of Some err \<Rightarrow> (Some err, [Effect MakeRoot]) | None \<Rightarrow>
      case mcLock c of Some err \<Rightarrow> (Some err, [Effect MakeRoot, Hold CleanupFile, Free CleanupFile]) | None \<Rightarrow>
      (case (case mcSession c of Some err \<Rightarrow> (Some err, [Effect MakeSession]) | None \<Rightarrow>
             case mcLease c of Some err \<Rightarrow> (Some err, [Effect MakeSession]) | None \<Rightarrow>
             case mcLeaseLock c of Some err \<Rightarrow> (Some err, [Effect MakeSession, Hold Lease, Free Lease]) | None \<Rightarrow>
               (None, [Effect MakeSession, Hold Lease, Hold LeaseLock, Effect CleanStale])) of
         (err, as) \<Rightarrow> (err, [Effect MakeRoot, Hold CleanupFile, Hold CleanupLock] @ as @ [Free CleanupLock, Free CleanupFile])))"

text \<open>Only a manager that opened keeps something: its lease, locked. The cleanup of stale sessions runs under both
  locks.\<close>

lemma openMountManager_holds:
  "still_held [] (snd (openMountManager c)) = Some (if fst (openMountManager c) = None then [LeaseLock, Lease] else [])"
  by (simp add: openMountManager_def split: option.split)

lemma openMountManager_cleans:
  "Effect CleanStale \<in> set (snd (openMountManager c)) \<longleftrightarrow> fst (openMountManager c) = None"
  by (simp add: openMountManager_def split: option.split)

definition localReverseMountsRoot :: "string \<Rightarrow> string \<Rightarrow> int \<Rightarrow> string" where
  "localReverseMountsRoot runtimeDir tmp uid =
     JoinPath (JoinPath (if runtimeDir = [] then tmp else runtimeDir) (''sshx-'' @ Itoa uid)) ''mounts''"

end
