(* ===== verification/MountRequests.thy ===== *)
theory MountRequests
  imports MountLife Peer
begin

text \<open>
  A request of a peer as a whole (\<open>request\<close>, \<open>send\<close>, \<open>Close\<close> of \<open>internal/remotefs/peer.go\<close>), and the mount
  requests from one end to the other: \<open>CreateMountAtWithOptions\<close> and \<open>ReleaseMount\<close> composed with the read loop
  and the client's mount manager (\<open>internal/cli/ssh_bridge_mount.go\<close>), cancellation included.
\<close>

subsection \<open>A request and what it waits for\<close>

text \<open>Nothing is written on a connection that is done; \<open>write\<close> is the outcome of writing a frame.\<close>

definition peerSend :: "(wireFrame \<Rightarrow> goerr option) \<Rightarrow> wireFrame \<Rightarrow> 's peer \<Rightarrow> goerr option" where
  "peerSend write f p = (if pDone p then Some (OtherErr ''io: read/write on closed pipe'') else write f)"

definition closeMethod :: "'s peer \<Rightarrow> goerr option \<times> 's peer" where
  "closeMethod p = (case closePeer None p of (p1, _, _) \<Rightarrow> (pErr p1, p1))"

definition connectionEnded :: "'s peer \<Rightarrow> goerr" where
  "connectionEnded p = (case pErr p of Some err \<Rightarrow> err | None \<Rightarrow> EOF)"

text \<open>What the two selects of \<open>request\<close> choose: a place among the requests sent, then the response, the end of the
  caller's context, or the end of the connection. \<open>later\<close> is what the other goroutines do to the peer while the
  request waits.\<close>

datatype slot_wait = Slot | SlotContext goerr | SlotDone
datatype answer_wait = Response wireFrame | AnswerContext goerr | AnswerDone

definition cancelFrame :: "64 word \<Rightarrow> wireFrame \<Rightarrow> wireFrame" where
  "cancelFrame i q = wireFrame0\<lparr>wType := frameCancel, wID := i,
     wMountID := (if wOp q = ''mount.create'' then wMountID q else [])\<rparr>"

definition peerRequestRun ::
  "errtable \<Rightarrow> (wireFrame \<Rightarrow> goerr option) \<Rightarrow> nat \<Rightarrow> slot_wait \<Rightarrow> ('s peer \<Rightarrow> 's peer) \<Rightarrow> answer_wait \<Rightarrow> wireFrame \<Rightarrow> 's peer \<Rightarrow>
   (goerr, wireFrame) result \<times> wireFrame list \<times> 's peer" where
  "peerRequestRun os write ch slot later answer q p =
     (case slot of
        SlotContext err \<Rightarrow> (Inl err, [], p)
      | SlotDone \<Rightarrow> (Inl (connectionEnded p), [], p)
      | Slot \<Rightarrow>
          (case peerRequest ch q p of (f, p1) \<Rightarrow>
             (case peerSend write f p1 of
                Some err \<Rightarrow> (Inl err, [], peerRequestEnd (wID f) p1)
              | None \<Rightarrow>
                  (let p2 = later p1; p3 = peerRequestEnd (wID f) p2 in
                   case answer of
                     Response r \<Rightarrow> (responseResult os r, [f], p3)
                   | AnswerContext err \<Rightarrow>
                       (Inl err, f # (if peerSend write (cancelFrame (wID f) q) p2 = None then [cancelFrame (wID f) q] else []), p3)
                   | AnswerDone \<Rightarrow> (Inl (connectionEnded p2), [f], p3)))))"

definition createRequest :: "string \<Rightarrow> string \<Rightarrow> bool \<Rightarrow> wireFrame" where
  "createRequest mountID mountPath readOnly =
     (request_of ''mount.create'')\<lparr>wMountID := mountID, wMountPath := mountPath, wReadOnly := readOnly\<rparr>"

definition releaseRequest :: "string \<Rightarrow> wireFrame" where
  "releaseRequest mountID = (request_of ''mount.release'')\<lparr>wMountID := mountID\<rparr>"

definition CreateMountAtWithOptions ::
  "(wireFrame \<Rightarrow> (goerr, wireFrame) result \<times> 'r) \<Rightarrow> string \<Rightarrow> string \<Rightarrow> bool \<Rightarrow> (goerr, string) result \<times> 'r" where
  "CreateMountAtWithOptions request mountID mountPath readOnly =
     (case request (createRequest mountID mountPath readOnly) of (r, x) \<Rightarrow> (map_sum id wMountPath r, x))"

definition ReleaseMount :: "(wireFrame \<Rightarrow> (goerr, wireFrame) result \<times> 'r) \<Rightarrow> string \<Rightarrow> goerr option \<times> 'r" where
  "ReleaseMount request mountID =
     (case request (releaseRequest mountID) of (Inl err, x) \<Rightarrow> (Some err, x) | (Inr _, x) \<Rightarrow> (None, x))"

text \<open>Whatever a request waits for, its entry is gone when it returns, and the other entries are those the peer
  would have without it.\<close>

lemma request_leaves_no_entry:
  assumes "peerRequestRun os write ch Slot later answer q p = (r, fs, p')"
  shows "pPending p' (pNextID p + 2) = None"
  using assms by (auto simp: peerRequestRun_def peerRequest_def peerRequestEnd_def Let_def split: option.splits answer_wait.splits)

lemma request_on_done:
  assumes "pDone p"
  shows "\<exists>err. fst (peerRequestRun os write ch slot later answer q p) = Inl err"
    "fst (snd (peerRequestRun os write ch slot later answer q p)) = []"
  using assms by (simp_all add: peerRequestRun_def peerRequest_def peerSend_def Let_def split: slot_wait.split)

text \<open>The end of the connection is an error to the caller, also when the connection ended without one.\<close>

lemma done_is_error: "\<exists>err. fst (peerRequestRun os write ch Slot later AnswerDone q p) = Inl err"
  by (auto simp: peerRequestRun_def peerRequest_def Let_def split: option.split)

subsection \<open>The other end\<close>

text \<open>The end that mounts: the client's mount manager and its peer. \<open>early\<close> is the state of the request's context
  when the manager commits the mount, \<open>late\<close> when the handler enters it; \<open>undoOk\<close>: a mount the manager gives up is unmounted.\<close>

type_synonym 's mount_end = "mount_manager \<times> 's peer"

definition unmountAt :: "(mount_entry \<Rightarrow> goerr option) \<Rightarrow> string \<Rightarrow> 's mount_end \<Rightarrow> goerr option \<times> mount_act list \<times> 's mount_end" where
  "unmountAt unmount mountID x =
     (case OnUnmount unmount mountID (fst x) of (err, as, m) \<Rightarrow> (err, as, (m, snd x)))"

definition createServed ::
  "(goerr \<Rightarrow> string) \<Rightarrow> errtable \<Rightarrow> setup_calls \<Rightarrow> (bool \<Rightarrow> string \<Rightarrow> (goerr, nat) result) \<Rightarrow> (mount_entry \<Rightarrow> goerr option) \<Rightarrow>
   bool \<Rightarrow> goerr option \<Rightarrow> goerr option \<Rightarrow> wireFrame \<Rightarrow> 's mount_end \<Rightarrow> wireFrame \<times> mount_act list \<times> 's mount_end" where
  "createServed msg os calls mount unmount undoOk early late q x =
     (case OnMount calls mount early undoOk (wMountID q) (wMountPath q) (wReadOnly q) (fst x) of
        (r, as, m) \<Rightarrow>
          (case handleMountCreate msg os (Some r) late q (snd x) of
             (response, undone, p) \<Rightarrow>
               (if undone
                  then (case unmountAt unmount (wMountID q) (m, p) of (_, bs, y) \<Rightarrow> (response, as @ bs, y))
                else (response, as, (m, p)))))"

definition releaseServed ::
  "(goerr \<Rightarrow> string) \<Rightarrow> errtable \<Rightarrow> (mount_entry \<Rightarrow> goerr option) \<Rightarrow> wireFrame \<Rightarrow> 's mount_end \<Rightarrow>
   wireFrame \<times> mount_act list \<times> 's mount_end" where
  "releaseServed msg os unmount q x =
     (case unmountAt unmount (wMountID q) x of
        (err, as, (m, p)) \<Rightarrow> (case handleMountRelease msg os err q p of (response, p1) \<Rightarrow> (response, as, (m, p1))))"

text \<open>A frame that cancels: the read loop drops the mount from the peer and a goroutine unmounts it.\<close>

definition cancelArrives :: "wireFrame \<Rightarrow> 's mount_end \<Rightarrow> string option \<times> 's mount_end" where
  "cancelArrives f x =
     (case peerFrame True f (snd x) of
        (Some (Cancelled give), p) \<Rightarrow> (give, (fst x, p))
      | (_, p) \<Rightarrow> (None, (fst x, p)))"

text \<open>What a handler leaves in the table: a mount that was created is there, a mount that failed changed nothing.\<close>

lemma OnMount_enters:
  assumes "OnMount calls mount ctxErr ok mountID h ro m = (Inr path, as, m')"
  shows "\<exists>e. mmMounts m' mountID = Some e \<and> mePath e = path"
proof (cases "mountCheck mountID ro m")
  case (Pair c m1)
  then show ?thesis
    using assms by (auto simp: OnMount_def mountCheck_def entryCommit_def activeDone_def
      split: if_splits option.splits prod.splits sum.splits)
qed

lemma OnMount_refused:
  assumes "OnMount calls mount ctxErr ok mountID h ro m = (Inl err, as, m')"
  shows "mmMounts m' = mmMounts m"
  using OnMount_state [OF assms] by auto

lemma OnUnmount_table: "OnUnmount unmount mountID m = (err, as, m') \<Longrightarrow> mmMounts m' = (mmMounts m)(mountID := None)"
  by (auto simp: OnUnmount_def unmountTake_def split: option.splits)

lemma unmountAt_end: "unmountAt unmount mountID (m, p) = (err, as, (m', p')) \<Longrightarrow> mmMounts m' = (mmMounts m)(mountID := None) \<and> p' = p"
  using OnUnmount_table by (fastforce simp: unmountAt_def split: prod.splits)

subsection \<open>Creating a mount, end to end\<close>

text \<open>An uncancelled request: the answer is the path and the mount is held on both levels, or it is the error of the
  manager as it looks across the wire, and nothing changed.\<close>

lemma createServed_result:
  assumes "createServed msg os calls mount unmount ok None None q (m, p) = (response, as, (m', p'))" "\<not> pMountClosed p"
  obtains (created) path e where "response = wireFrame0\<lparr>wMountPath := path\<rparr>" "mmMounts m' (wMountID q) = Some e" "mePath e = path"
      "p' = p\<lparr>pMounts := insert (wMountID q) (pMounts p)\<rparr>"
  | (refused) err where "response = errorFrame msg os err" "mmMounts m' = mmMounts m" "p' = p"
proof -
  obtain r bs m1 where o: "OnMount calls mount None ok (wMountID q) (wMountPath q) (wReadOnly q) m = (r, bs, m1)"
    by (metis prod_cases3)
  show thesis
  proof (cases r)
    case (Inl err)
    then show thesis using assms o OnMount_refused refused by (auto simp: createServed_def handleMountCreate_def)
  next
    case (Inr path)
    then show thesis using assms o OnMount_enters [OF o [unfolded Inr]] created
      by (auto simp: createServed_def handleMountCreate_def mountEntered_def)
  qed
qed

theorem mount_end_to_end:
  assumes msg: "\<And>e. msg e \<noteq> []" and closed: "\<not> pMountClosed p2" and up: "\<not> pDone p1" and sent: "write sent = None"
    and sent_is: "sent = (createRequest mountID h ro)\<lparr>wType := frameRequest, wID := pNextID p1 + 2\<rparr>"
    and served: "createServed msg there calls mount unmount ok None None sent (m, p2) = (response, as, (m', p2'))"
    and fits: "fits (answered (pNextID p1 + 2) response)"
    and create: "CreateMountAtWithOptions (\<lambda>q. peerRequestRun here write ch Slot later
      (Response (sendResponse fits (answered (pNextID p1 + 2) response))) q p1) mountID h ro = (result, fs, p1')"
  shows "fs = [sent] \<and>
    (case result of
       Inr path \<Rightarrow> mountID \<in> pMounts p2' \<and> (\<exists>e. mmMounts m' mountID = Some e \<and> mePath e = path)
     | Inl err \<Rightarrow> mmMounts m' = mmMounts m \<and> p2' = p2 \<and> (\<exists>e. err = across_err here msg there e))"
proof -
  have id: "wMountID sent = mountID" by (simp add: sent_is createRequest_def)
  have run: "peerRequestRun here write ch Slot later (Response (sendResponse fits (answered (pNextID p1 + 2) response)))
      (createRequest mountID h ro) p1 =
      (map_sum id (answered (pNextID p1 + 2)) (responseResult here response), [sent],
       peerRequestEnd (pNextID p1 + 2) (later (snd (peerRequest ch (createRequest mountID h ro) p1))))"
    using up sent fits by (simp add: peerRequestRun_def peerRequest_def peerSend_def Let_def sent_is sendResponse_def)
  have res: "result = map_sum id wMountPath (map_sum id (answered (pNextID p1 + 2)) (responseResult here response))" "fs = [sent]"
    using create unfolding CreateMountAtWithOptions_def run by auto
  from served closed show ?thesis
  proof (cases rule: createServed_result)
    case (created path e)
    then show ?thesis using res id
      by (simp add: responseResult_def wireFrame0_def answered_def)
  next
    case (refused err)
    then show ?thesis using res result_error [OF msg] by auto
  qed
qed

text \<open>Two machines: the request of a client for its home directory, answered by a manager that mounts it.\<close>

theorem mount_end_to_end_witness:
  "let mgr = newRemoteMountManager None ''/run'' ''s'' False;
       sent = (createRequest ''m'' ''home'' False)\<lparr>wType := frameRequest, wID := 3\<rparr>;
       calls = \<lparr>suRemove = None, suMkdir = None, suWrite = None\<rparr>;
       (response, as, (mgr', peer')) = createServed (\<lambda>_. ''refused'') linux calls (\<lambda>_ _. Inr 7) (\<lambda>_. None) True None None sent
         (mgr, startPeer 0 :: nat peer) in
     ''m'' \<in> pMounts peer' \<and> map_option mePath (mmMounts mgr' ''m'') = Some ''/run/s/m/home''"
  by code_simp

subsection \<open>Cancelling\<close>

lemma createServed_cancelled:
  assumes "createServed msg os calls mount unmount ok early (Some err) q (m, p) = (response, as, (m', p'))"
  shows "p' = p \<and> (mmMounts m' = mmMounts m \<or> mmMounts m' (wMountID q) = None)"
proof -
  obtain r bs m1 where o: "OnMount calls mount early ok (wMountID q) (wMountPath q) (wReadOnly q) m = (r, bs, m1)"
    by (metis prod_cases3)
  show ?thesis
  proof (cases r)
    case (Inl e)
    then show ?thesis using assms o OnMount_refused [OF o [unfolded Inl]] by (simp add: createServed_def handleMountCreate_def)
  next
    case (Inr path)
    then have "\<exists>cs. unmountAt unmount (wMountID q) (m1, p) = (fst (unmountAt unmount (wMountID q) (m1, p)), cs, (m', p'))"
      using assms o by (auto simp: createServed_def handleMountCreate_def mountEntered_def split: prod.splits)
    then show ?thesis using unmountAt_end by (metis fun_upd_same)
  qed
qed

lemma cancelArrives_create:
  assumes "mountID \<noteq> []"
  shows "\<exists>p'. cancelArrives (cancelFrame i (createRequest mountID h ro)) (m, p) = (Some mountID, (m, p')) \<and>
    pMounts p' = pMounts p - {mountID} \<and> (i \<in> pActive p \<longrightarrow> i \<in> pCancelled p')"
  using assms by (simp add: cancelArrives_def cancelFrame_def createRequest_def peerFrame_def Let_def request_of_def
    frameCancel_def frameResponse_def frameRequest_def)

text \<open>A caller that gave up takes no mount, whether its cancellation arrives while the mount is being made or after
  it was answered: when both are through, neither the manager nor the peer holds the mount.\<close>

theorem cancelled_create_leaves_nothing:
  assumes "mountID \<noteq> []" "mmMounts m mountID = None" "mountID \<notin> pMounts p" and q: "wMountID q = mountID"
    and frame: "frame = cancelFrame i (createRequest mountID h ro)"
  shows "\<And>response acts y bs z err. \<lbrakk>createServed msg os calls mount unmount ok early (Some err) q (snd (cancelArrives frame (m, p))) = (response, acts, y);
           unmountAt unmount mountID y = (e1, bs, z)\<rbrakk> \<Longrightarrow>
         mmMounts (fst y) mountID = None \<and> mmMounts (fst z) mountID = None \<and> mountID \<notin> pMounts (snd z)"
    and "\<And>response acts y bs z. \<lbrakk>createServed msg os calls mount unmount ok None None q (m, p) = (response, acts, y);
           unmountAt unmount mountID (snd (cancelArrives frame y)) = (e2, bs, z)\<rbrakk> \<Longrightarrow>
         mmMounts (fst z) mountID = None \<and> mountID \<notin> pMounts (snd z)"
proof -
  fix response acts y bs z err
  assume run: "createServed msg os calls mount unmount ok early (Some err) q (snd (cancelArrives frame (m, p))) = (response, acts, y)"
    and un: "unmountAt unmount mountID y = (e1, bs, z)"
  obtain p1 where c: "cancelArrives frame (m, p) = (Some mountID, (m, p1))" "pMounts p1 = pMounts p - {mountID}"
    using cancelArrives_create [OF assms(1), of i h ro m p] frame by blast
  obtain m2 p2 where y: "y = (m2, p2)" by (cases y)
  obtain m3 p3 where z: "z = (m3, p3)" by (cases z)
  have "p2 = p1" "mmMounts m2 mountID = None"
    using createServed_cancelled [OF run [unfolded c(1) y snd_conv]] assms(2) unfolding q by auto
  then show "mmMounts (fst y) mountID = None \<and> mmMounts (fst z) mountID = None \<and> mountID \<notin> pMounts (snd z)"
    using unmountAt_end [OF un [unfolded y z]] c(2) assms(3) unfolding y z by simp
next
  fix response acts y bs z
  assume run: "createServed msg os calls mount unmount ok None None q (m, p) = (response, acts, y)"
    and un: "unmountAt unmount mountID (snd (cancelArrives frame y)) = (e2, bs, z)"
  obtain m1 p1 where y: "y = (m1, p1)" by (cases y)
  obtain m3 p3 where z: "z = (m3, p3)" by (cases z)
  obtain p2 where c: "cancelArrives frame (m1, p1) = (Some mountID, (m1, p2))" "pMounts p2 = pMounts p1 - {mountID}"
    using cancelArrives_create [OF assms(1), of i h ro m1 p1] frame by blast
  show "mmMounts (fst z) mountID = None \<and> mountID \<notin> pMounts (snd z)"
    using unmountAt_end [OF un [unfolded y c(1) snd_conv z]] c(2) unfolding z by simp
qed

text \<open>A release that fails leaves the peer with a mount its manager has dropped; a second release succeeds.\<close>

lemma failed_release:
  assumes "mmMounts m (wMountID q) = Some e" "unmount e = Some err" "wMountID q \<in> pMounts p"
    and "releaseServed msg os unmount q (m, p) = (response, as, (m', p'))"
  shows "response = errorFrame msg os err" "mmMounts m' (wMountID q) = None" "wMountID q \<in> pMounts p'"
    "fst (releaseServed msg os unmount q (m', p')) = wireFrame0"
  using assms by (auto simp: releaseServed_def unmountAt_def OnUnmount_def unmountTake_def handleMountRelease_def split: prod.splits option.splits)

end
