(* ===== verification/Shell.thy ===== *)
theory Shell
  imports GoStrings
begin

text \<open>
  Quoting for the remote shell (\<open>shellQuote\<close> and \<open>remoteShell\<close> of \<open>internal/cli/ssh_session.go\<close>,
  \<open>joinShellCommands\<close>-style command lines) against a specification of how a POSIX shell splits a
  line into words: blanks separate words, single quotes keep everything up to the next one, double
  quotes keep everything but the characters that are active in them. The specification is partial:
  it has no answer for a line with an active character, so an answer means that the shell takes
  the line as one simple command with exactly these words.
\<close>

subsection \<open>Characters\<close>

abbreviation (input) SQ :: string where "SQ \<equiv> [CHR 0x27]"
abbreviation (input) BSL :: string where "BSL \<equiv> [CHR 0x5C]"
abbreviation (input) NL :: string where "NL \<equiv> [CHR 0x0A]"

definition shellQuote :: "string \<Rightarrow> string" where
  \<open>shellQuote s = SQ @ ReplaceAll s (CHR 0x27) (SQ @ ''"'"'' @ SQ) @ SQ\<close>

definition remoteShell :: "string \<Rightarrow> string" where
  "remoteShell script = ''sh -lc '' @ shellQuote script"

text \<open>Escaping for a double-quoted string, as the scripts do it.\<close>

definition escapeDouble :: "string \<Rightarrow> string" where
  \<open>escapeDouble s = ReplaceAll s (CHR 0x22) (BSL @ ''"'')\<close>

subsection \<open>How a shell splits a line into words\<close>

datatype sh_mode = Plain | InSingle | InDouble

text \<open>The characters a shell may act on outside quotes, and those it may act on in double quotes.\<close>

definition sh_active :: "char \<Rightarrow> bool" where
  \<open>sh_active c = (c \<in> set (''|&;<>()$`"*?[]#~=%!{}^'' @ BSL @ SQ @ NL))\<close>

definition sh_active_double :: "char \<Rightarrow> bool" where
  "sh_active_double c = (c \<in> set (''$`!'' @ BSL))"

definition the_word :: "string option \<Rightarrow> string" where
  "the_word w = (case w of None \<Rightarrow> [] | Some s \<Rightarrow> s)"

definition blank :: "char \<Rightarrow> bool" where "blank c = (c = CHR '' '' \<or> c = CHR 0x09)"

fun sh_scan :: "sh_mode \<Rightarrow> string option \<Rightarrow> string \<Rightarrow> string list option" where
  "sh_scan mode w [] = (if mode = Plain then Some (case w of None \<Rightarrow> [] | Some s \<Rightarrow> [s]) else None)"
| "sh_scan Plain w (c # s) =
     (if blank c then map_option (\<lambda>ws. (case w of None \<Rightarrow> [] | Some v \<Rightarrow> [v]) @ ws) (sh_scan Plain None s)
      else if c = CHR 0x27 then sh_scan InSingle (Some (the_word w)) s
      else if c = CHR 0x22 then sh_scan InDouble (Some (the_word w)) s
      else if sh_active c then None
      else sh_scan Plain (Some (the_word w @ [c])) s)"
| "sh_scan InSingle w (c # s) =
     (if c = CHR 0x27 then sh_scan Plain w s else sh_scan InSingle (Some (the_word w @ [c])) s)"
| "sh_scan InDouble w (c # s) =
     (if c = CHR 0x22 then sh_scan Plain w s
      else if sh_active_double c then None
      else sh_scan InDouble (Some (the_word w @ [c])) s)"

definition sh_words :: "string \<Rightarrow> string list option" where
  "sh_words line = sh_scan Plain None line"

subsection \<open>Quoting is undone by the shell\<close>

lemma the_word_simps [simp]: "the_word None = []" "the_word (Some s) = s"
  by (simp_all add: the_word_def)

lemma blank_simps [simp]: "\<not> blank CHR 0x27" "\<not> blank CHR 0x22" "blank CHR '' ''"
  by (simp_all add: blank_def)

lemma ReplaceAll_Cons: "ReplaceAll (c # s) d r = (if c = d then r else [c]) @ ReplaceAll s d r"
  by (simp add: ReplaceAll_def)

lemma ReplaceAll_Nil: "ReplaceAll [] d r = []"
  by (simp add: ReplaceAll_def)

lemma scan_single:
  \<open>sh_scan InSingle (Some w) (ReplaceAll s (CHR 0x27) (SQ @ ''"'"'' @ SQ) @ SQ @ rest) = sh_scan Plain (Some (w @ s)) rest\<close>
  by (induction s arbitrary: w) (simp_all add: ReplaceAll_Cons ReplaceAll_Nil sh_active_double_def)

text \<open>A quoted string is one word, or the end of the word before it, whatever it contains.\<close>

lemma scan_shellQuote [simp]:
  "sh_scan Plain w (shellQuote s @ rest) = sh_scan Plain (Some (the_word w @ s)) rest"
  using scan_single [of "the_word w" s rest] by (simp add: shellQuote_def blank_def)

lemma scan_shellQuote_end [simp]: "sh_scan Plain w (shellQuote s) = Some [the_word w @ s]"
  using scan_shellQuote [of w s "[]"] by simp

lemma scan_blank [simp]:
  "sh_scan Plain w (CHR '' '' # s) = map_option (\<lambda>ws. (case w of None \<Rightarrow> [] | Some v \<Rightarrow> [v]) @ ws) (sh_scan Plain None s)"
  by (simp add: blank_def)

text \<open>A line of quoted words is split into these words.\<close>

theorem sh_words_quoted: "sh_words (Join (map shellQuote ws) '' '') = Some ws"
  unfolding sh_words_def
proof (induction ws)
  case (Cons v ws)
  then show ?case by (cases ws) simp_all
qed simp

lemma sh_words_remoteShell: "sh_words (remoteShell script) = Some [''sh'', ''-lc'', script]"
  by (simp add: sh_words_def remoteShell_def sh_active_def blank_def)

end
