(* ===== verification/SshSession.thy ===== *)
theory SshSession
  imports Shell Identity
begin

text \<open>
  The ssh command lines of an enhanced session: \<open>internal/cli/ssh_session.go\<close>, the environment
  scripts of \<open>internal/cli/state.go\<close> and the proxy of \<open>internal/cli/proxy.go\<close>. The scripts are the
  literal strings of the code; what the remote shell makes of a whole command line is stated with
  \<open>sh_words\<close> of theory Shell. The digest that names the home of a runtime is a parameter.
\<close>

subsection \<open>Command lines of internal transports\<close>

definition baseSSHArgs :: "Parsed \<Rightarrow> string list" where
  "baseSSHArgs parsed =
     (if pTargetIndex parsed < 0 \<or> pTargetIndex parsed \<ge> int (length (pArgs parsed)) then []
      else take (nat (pTargetIndex parsed) + 1) (pArgs parsed))"

definition sshCommandArgs :: "string list \<Rightarrow> string \<Rightarrow> string list" where
  "sshCommandArgs sshArgs remoteCommand =
     (if sshArgs = [] then [remoteCommand]
      else butlast sshArgs @ [''-T'', last sshArgs] @ [remoteCommand])"

definition internalSSHArgs :: "string list \<Rightarrow> string \<Rightarrow> string list" where
  "internalSSHArgs sshArgs remoteCommand = ''-n'' # sshCommandArgs sshArgs remoteCommand"

subsection \<open>Flags\<close>

definition shortOptionClusterContains :: "string \<Rightarrow> char \<Rightarrow> bool" where
  "shortOptionClusterContains arg flag =
     (if length arg < 2 \<or> arg ! 0 \<noteq> CHR ''-'' \<or> arg = ''--'' then False
      else if HasPrefix arg ''-o'' \<or> HasPrefix arg ''-O'' then False
      else flag \<in> set (tl arg))"

definition hasSSHSubsystemFlag :: "string list \<Rightarrow> bool" where
  "hasSSHSubsystemFlag args = list_ex (\<lambda>arg. shortOptionClusterContains arg CHR ''s'') args"

definition hasSSHSessionlessFlag :: "string list \<Rightarrow> bool" where
  "hasSSHSessionlessFlag args =
     list_ex (\<lambda>arg. shortOptionClusterContains arg CHR ''N'' \<or> shortOptionClusterContains arg CHR ''W'') args"

definition hasSSHDisableTTYFlag :: "string list \<Rightarrow> bool" where
  "hasSSHDisableTTYFlag args = list_ex (\<lambda>arg. shortOptionClusterContains arg CHR ''T'') args"

definition hasSSHForceTTYFlag :: "string list \<Rightarrow> bool" where
  "hasSSHForceTTYFlag args = list_ex (\<lambda>arg. arg = ''-t'' \<or> arg = ''-tt'') args"

subsection \<open>Environment scripts\<close>

definition remoteServerHome :: "(string \<Rightarrow> string) \<Rightarrow> string \<Rightarrow> string" where
  "remoteServerHome hexsha targetID = ''$HOME/.sshx_server/runtimes/'' @ RuntimeHomeID hexsha targetID"

definition remoteContextHome :: "string \<Rightarrow> string \<Rightarrow> string" where
  "remoteContextHome targetID contextID = ''$HOME/.sshx_server/targets/'' @ targetID @ ''/contexts/'' @ contextID"

definition remoteServerEnvScript :: "string \<Rightarrow> string" where
  \<open>remoteServerEnvScript remoteHome =
     ''SSHX_SERVER_HOME="'' @ escapeDouble remoteHome @ ''"; SSHX_RUNTIME_ID='' @ shellQuote RuntimeID @ ''; export SSHX_SERVER_HOME SSHX_RUNTIME_ID; case ":$PATH:" in *":$SSHX_SERVER_HOME:"*) ;; *) PATH="$SSHX_SERVER_HOME:$PATH" ;; esac; export PATH''\<close>

definition proxyScript :: "string \<Rightarrow> string" where
  \<open>proxyScript url =
     (if url = [] then []
      else Join [''ALL_PROXY='' @ shellQuote url, ''HTTP_PROXY=$ALL_PROXY'', ''HTTPS_PROXY=$ALL_PROXY'', ''all_proxy=$ALL_PROXY'',
        ''http_proxy=$ALL_PROXY'', ''https_proxy=$ALL_PROXY'',
        ''NO_PROXY="${NO_PROXY:+$NO_PROXY,}${no_proxy:+$no_proxy,}'' @ ''localhost,127.0.0.1,::1'' @ ''"'',
        ''no_proxy="$NO_PROXY"'',
        ''export HTTP_PROXY HTTPS_PROXY ALL_PROXY http_proxy https_proxy all_proxy NO_PROXY no_proxy''] ''; '')\<close>

record bridge_session =
  bsSessionID :: string
  bsContextID :: string
  bsRemoteFS :: bool
  bsMountRoot :: string
  bsWorkspace :: string
  bsReadOnly :: bool
  bsProxyURL :: string
  bsControlPath :: string

definition remoteBridgeEnvScript :: "string \<Rightarrow> bridge_session \<Rightarrow> string" where
  "remoteBridgeEnvScript remoteHome session =
     remoteServerEnvScript remoteHome
     @ (if bsContextID session \<noteq> [] then ''; SSHX_CONTEXT_ID='' @ shellQuote (bsContextID session) @ ''; export SSHX_CONTEXT_ID'' else [])
     @ (if bsSessionID session \<noteq> [] then ''; SSHX_SESSION_ID='' @ shellQuote (bsSessionID session) @ ''; export SSHX_SESSION_ID'' else [])
     @ (if bsRemoteFS session
        then (if bsReadOnly session then ''; FS_READ_ONLY=1'' else ''; FS_READ_ONLY=0'') @ ''; SSHX_REMOTE_FS=1; export SSHX_REMOTE_FS FS_READ_ONLY''
        else ''; SSHX_REMOTE_FS=0; export SSHX_REMOTE_FS'')
     @ (if bsWorkspace session \<noteq> []
        then ''; SSHX_WORKSPACE='' @ shellQuote (bsWorkspace session)
          @ (if bsMountRoot session \<noteq> [] then ''; SSHX_MOUNT_ROOT='' @ shellQuote (bsMountRoot session) else [])
          @ ''; export SSHX_WORKSPACE SSHX_MOUNT_ROOT''
        else [])
     @ (if bsProxyURL session \<noteq> [] then ''; '' @ proxyScript (bsProxyURL session) else [])"

definition integrationContextEnvScript :: "string \<Rightarrow> string \<Rightarrow> string" where
  \<open>integrationContextEnvScript contextID contextHome =
     (let bin = escapeDouble contextHome @ ''/bin''
      in ''SSHX_CONTEXT_ID='' @ shellQuote contextID @ ''; PATH="'' @ bin @ '':$PATH"; export SSHX_CONTEXT_ID PATH'')\<close>

subsection \<open>The remote command\<close>

definition remoteWorkspaceCD :: "string \<Rightarrow> string" where
  \<open>remoteWorkspaceCD workspace = (if workspace = [] then '':'' else ''cd -- "$SSHX_WORKSPACE"'')\<close>

definition loginScript :: "string \<Rightarrow> string" where
  \<open>loginScript envLine = Join
     [envLine,
      ''mkdir -p "$SSHX_SERVER_HOME"'',
      ''shell=${SHELL:-sh}'',
      ''name=${shell##*/}'',
      ''case "$name" in'',
      ''  bash) rc="$SSHX_SERVER_HOME/bashrc"; { printf '%s'' @ BSL @ ''n' '' @ shellQuote (''test -f "$HOME/.bashrc" && . "$HOME/.bashrc"'') @ ''; printf '%s'' @ BSL @ ''n' '' @ shellQuote envLine @ ''; } > "$rc"; exec "$shell" --rcfile "$rc" -i ;;'',
      ''  zsh) zdot="$SSHX_SERVER_HOME/zdotdir"; mkdir -p "$zdot"; { printf '%s'' @ BSL @ ''n' '' @ shellQuote (''test -f "$HOME/.zshrc" && . "$HOME/.zshrc"'') @ ''; printf '%s'' @ BSL @ ''n' '' @ shellQuote envLine @ ''; } > "$zdot/.zshrc"; ZDOTDIR="$zdot" exec "$shell" -i ;;'',
      ''  *) exec "$shell" -i ;;'',
      ''esac''] NL\<close>

definition remoteLoginShellWithEnv :: "string \<Rightarrow> string" where
  "remoteLoginShellWithEnv envLine = remoteShell (loginScript envLine)"

definition commandScript :: "string \<Rightarrow> string \<Rightarrow> string \<Rightarrow> string" where
  \<open>commandScript envLine workspace command =
     (let cdLine = remoteWorkspaceCD workspace;
          commandLine = envLine @ ''; '' @ cdLine @ ''; '' @ command
      in Join
     [envLine,
      cdLine,
      ''mkdir -p "$SSHX_SERVER_HOME"'',
      ''shell=${SHELL:-sh}'',
      ''name=${shell##*/}'',
      ''case "$name" in'',
      ''  bash) err="$SSHX_SERVER_HOME/bash-stderr.$$"; "$shell" -ic '' @ shellQuote commandLine @ '' 2>"$err"; status=$?; sed '/^bash: cannot set terminal process group /d; /^bash: no job control in this shell$/d' "$err" >&2; rm -f "$err"; exit $status ;;'',
      ''  zsh) exec "$shell" -ic '' @ shellQuote commandLine @ '' ;;'',
      ''  *) exec "$shell" -lc '' @ shellQuote commandLine @ '' ;;'',
      ''esac''] NL)\<close>

definition remoteExecCommandShellWithEnv :: "string \<Rightarrow> string \<Rightarrow> string \<Rightarrow> string" where
  "remoteExecCommandShellWithEnv envLine workspace command = remoteShell (commandScript envLine workspace command)"

definition argvScript :: "string \<Rightarrow> string \<Rightarrow> string" where
  \<open>argvScript envLine workspace = Join
     [envLine,
      remoteWorkspaceCD workspace,
      ''mkdir -p "$SSHX_SERVER_HOME"'',
      ''shell=${SHELL:-sh}'',
      ''name=${shell##*/}'',
      ''case "$name" in'',
      ''  bash) err="$SSHX_SERVER_HOME/bash-stderr.$$"; "$shell" -ic '' @ shellQuote (envLine @ ''; "$@"'') @ '' sh "$@" 2>"$err"; status=$?; sed '/^bash: cannot set terminal process group /d; /^bash: no job control in this shell$/d' "$err" >&2; rm -f "$err"; exit $status ;;'',
      ''  zsh) exec "$shell" -ic '' @ shellQuote (envLine @ ''; "$@"'') @ '' sh "$@" ;;'',
      ''  *) "$@" ;;'',
      ''esac''] NL\<close>

definition remoteExecShellWithEnv :: "string \<Rightarrow> string \<Rightarrow> string list \<Rightarrow> string" where
  "remoteExecShellWithEnv envLine workspace argv =
     (if length argv = 1 then remoteExecCommandShellWithEnv envLine workspace (hd argv)
      else Join (map shellQuote ([''sh'', ''-lc'', argvScript envLine workspace, ''sh''] @ argv)) '' '')"

subsection \<open>The session\<close>

definition sessionSSHArgsWithEnv :: "Parsed \<Rightarrow> string \<Rightarrow> string \<Rightarrow> string list" where
  "sessionSSHArgsWithEnv parsed envLine workspace =
     (let args = baseSSHArgs parsed in
      if args = [] then pArgs parsed
      else if pRemoteCommand parsed = [] then
        (if hasSSHSessionlessFlag args then pArgs parsed
         else (if \<not> hasSSHDisableTTYFlag args \<and> \<not> hasSSHForceTTYFlag args then [''-t''] else []) @ args
           @ [remoteLoginShellWithEnv envLine])
      else args @ [remoteExecShellWithEnv envLine workspace (pRemoteCommand parsed)])"

definition sessionSSHArgsForBridge :: "Parsed \<Rightarrow> string \<Rightarrow> bridge_session option \<Rightarrow> string list" where
  "sessionSSHArgsForBridge parsed remoteHome session =
     (case session of
        None \<Rightarrow> sessionSSHArgsWithEnv parsed (remoteServerEnvScript remoteHome) []
      | Some s \<Rightarrow> withControlSlave (sessionSSHArgsWithEnv parsed (remoteBridgeEnvScript remoteHome s) (bsWorkspace s)) (bsControlPath s))"

subsection \<open>Integrations and the proxy\<close>

definition integrationProxyEnvPath :: "string \<Rightarrow> string \<Rightarrow> string" where
  "integrationProxyEnvPath contextHome sessionID = contextHome @ ''/proxy/'' @ sessionID @ ''.env''"

definition integrationProxyErrorPath :: "string \<Rightarrow> string \<Rightarrow> string" where
  "integrationProxyErrorPath contextHome sessionID = contextHome @ ''/proxy/'' @ sessionID @ ''.error''"

definition integrationProxyWaitScript :: "string \<Rightarrow> string \<Rightarrow> bool \<Rightarrow> string" where
  \<open>integrationProxyWaitScript contextHome sessionID strict =
     (let envPath = integrationProxyEnvPath contextHome sessionID;
          errorPath = integrationProxyErrorPath contextHome sessionID;
          strictValue = (if strict then ''1'' else ''0'')
      in Join
     [''proxy_env="'' @ escapeDouble envPath @ ''"'',
      ''proxy_error="'' @ escapeDouble errorPath @ ''"'',
      ''i=0'',
      ''while [ ! -f "$proxy_env" ] && [ ! -f "$proxy_error" ] && [ $i -lt 60 ]; do i=$((i+1)); sleep 0.05; done'',
      ''if [ -f "$proxy_env" ]; then . "$proxy_env"; elif [ '' @ strictValue @ '' -eq 1 ]; then message=$(cat "$proxy_error" 2>/dev/null || true); echo "sshx: proxy unavailable${message:+: $message}" >&2; exit 1; fi''] ''; '')\<close>

definition proxyStateScript :: "string \<Rightarrow> string \<Rightarrow> string \<Rightarrow> string option \<Rightarrow> string" where
  \<open>proxyStateScript contextHome sessionID url proxyErr =
     (let envPath = integrationProxyEnvPath contextHome sessionID;
          errorPath = integrationProxyErrorPath contextHome sessionID;
          content = (case proxyErr of None \<Rightarrow> proxyScript url | Some err \<Rightarrow> err);
          targetPath = (if proxyErr = None then envPath else errorPath);
          otherPath = (if proxyErr = None then errorPath else envPath)
      in Join
     [''set -eu'',
      ''path="'' @ escapeDouble targetPath @ ''"'',
      ''other="'' @ escapeDouble otherPath @ ''"'',
      ''mkdir -p "${path%/*}"'',
      ''tmp="$path.$$.tmp"'',
      ''printf '%s'' @ BSL @ ''n' '' @ shellQuote content @ '' > "$tmp"'',
      ''chmod 600 "$tmp"'',
      ''mv -f "$tmp" "$path"'',
      ''rm -f "$other"''] NL)\<close>

definition removeProxyStateScript :: "string \<Rightarrow> string \<Rightarrow> string" where
  \<open>removeProxyStateScript contextHome sessionID =
     ''rm -f "'' @ escapeDouble (integrationProxyEnvPath contextHome sessionID) @ ''" "''
       @ escapeDouble (integrationProxyErrorPath contextHome sessionID) @ ''"''\<close>

definition integrationSessionSSHArgsWithProxy :: "Parsed \<Rightarrow> string \<Rightarrow> string \<Rightarrow> string \<Rightarrow> bool \<Rightarrow> bool \<Rightarrow> string list" where
  \<open>integrationSessionSSHArgsWithProxy parsed contextID contextHome sessionID useProxy strict =
     (let args = baseSSHArgs parsed in
      if args = [] \<or> hasSSHSubsystemFlag args \<or> (pRemoteCommand parsed = [] \<and> hasSSHSessionlessFlag args) then pArgs parsed
      else
        let envLine = integrationContextEnvScript contextID contextHome
              @ (if useProxy then ''; '' @ integrationProxyWaitScript contextHome sessionID strict else [])
        in if pRemoteCommand parsed = [] then
             (if \<not> hasSSHDisableTTYFlag args \<and> \<not> hasSSHForceTTYFlag args then [''-t''] else []) @ args
             @ [remoteShell (Join [envLine, ''shell=${SHELL:-sh}'', ''exec "$shell" -l''] NL)]
           else
             args @ [remoteShell (Join [envLine, ''shell=${SHELL:-sh}'',
               ''exec "$shell" -c '' @ shellQuote (Join (pRemoteCommand parsed) '' '')] NL)])\<close>

text \<open>The port OpenSSH reports for a dynamic remote forward.\<close>

definition parseAllocatedPort :: "string \<Rightarrow> (string, int) result" where
  "parseAllocatedPort output =
     (let fields = Fields output in
      if fields = [] then Inl ''OpenSSH did not report an allocated proxy port''
      else case List.find (\<lambda>field. case Atoi field of None \<Rightarrow> False | Some port \<Rightarrow> 0 < port \<and> port \<le> 65535) fields of
        None \<Rightarrow> Inl (''invalid allocated proxy port '' @ TrimSpace output)
      | Some field \<Rightarrow> Inr (the (Atoi field)))"

definition remoteDynamicSOCKSSpec :: string where "remoteDynamicSOCKSSpec = ''127.0.0.1:0''"

record proxy_tunnel =
  ptControlPath :: string
  ptSSHArgs :: "string list"
  ptURL :: string
  ptClosed :: bool

text \<open>The commands of a tunnel: \<open>out\<close> is what running ssh gives, the second component the commands run.\<close>

definition startProxyTunnel ::
  "(string list \<Rightarrow> (string, string) result) \<Rightarrow> string list \<Rightarrow> string \<Rightarrow> (string, proxy_tunnel) result \<times> string list list" where
  "startProxyTunnel out sshArgs controlPath =
     (if controlPath = [] then (Inl ''proxy requires an OpenSSH control socket'', [])
      else
        let request = ControlOperationArgs sshArgs controlPath ''forward'' ''R'' remoteDynamicSOCKSSpec;
            cancel = ControlOperationArgs sshArgs controlPath ''cancel'' ''R'' remoteDynamicSOCKSSpec
        in case out request of
             Inl err \<Rightarrow> (Inl (''create remote dynamic SOCKS forward: '' @ err), [request])
           | Inr output \<Rightarrow>
               (case parseAllocatedPort output of
                  Inl err \<Rightarrow> (Inl err, [request, cancel])
                | Inr remotePort \<Rightarrow>
                    (Inr \<lparr>ptControlPath = controlPath, ptSSHArgs = sshArgs,
                       ptURL = ''socks5h://127.0.0.1:'' @ Itoa remotePort, ptClosed = False\<rparr>, [request])))"

definition closeProxyTunnel :: "proxy_tunnel \<Rightarrow> proxy_tunnel \<times> string list list" where
  "closeProxyTunnel t =
     (if ptClosed t then (t, [])
      else (t\<lparr>ptClosed := True\<rparr>, [ControlOperationArgs (ptSSHArgs t) (ptControlPath t) ''cancel'' ''R'' remoteDynamicSOCKSSpec]))"

definition ownControlMaster :: "bool \<Rightarrow> bool \<Rightarrow> bool" where
  "ownControlMaster enhanced integrationSidecar = (enhanced \<and> \<not> integrationSidecar)"


subsection \<open>Command lines with a destination\<close>

lemma Parse_units_command:
  assumes "list_all wf_unit us" "plain_dest t" "''--no-wrap'' \<notin> set rc"
  shows "pTarget (Parse (flatten us @ t # rc)) = t \<and> pRemoteCommand (Parse (flatten us @ t # rc)) = rc \<and>
    pTargetIndex (Parse (flatten us @ t # rc)) = int (length (flatten us)) \<and> pArgs (Parse (flatten us @ t # rc)) = flatten us @ t # rc"
proof -
  have nw: "''--no-wrap'' \<notin> set (flatten us @ t # rc)"
    using assms flatten_no_nowrap by (auto simp: plain_dest_def dest: no_dash_facts(12))
  then have "filter (\<lambda>arg. arg \<noteq> ''--no-wrap'') (flatten us @ t # rc) = flatten us @ t # rc" by (intro filter_True) auto
  then show ?thesis
    using Parse_block_dest [OF opt_block_flatten [OF assms(1)] _ nw] assms(2)
    by (simp add: is_destination_def plain_dest_def)
qed

lemma Insert_units_command:
  assumes "list_all wf_unit us" "plain_dest t" "''--no-wrap'' \<notin> set rc"
  shows "InsertBeforeTarget (Parse (flatten us @ t # rc)) options = flatten us @ options @ t # rc"
proof -
  note P = Parse_units_command [OF assms]
  have nd: "''--'' \<notin> set (flatten us)"
    using assms(1)
  proof (induction us)
    case (Cons u us)
    then show ?case by (cases u) (auto dest: required_value_options no_dash_facts(6))
  qed simp
  have "\<not> (0 < length (flatten us) \<and> (flatten us @ t # rc) ! (length (flatten us) - 1) = ''--'')"
    using no_dashdash_before [OF nd, of "t # rc"] by blast
  then show ?thesis using P unfolding InsertBeforeTarget_def Let_def by auto
qed

lemma baseSSHArgs_command:
  assumes "list_all wf_unit us" "plain_dest t" "''--no-wrap'' \<notin> set rc"
  shows "baseSSHArgs (Parse (flatten us @ t # rc)) = flatten us @ [t]"
  using Parse_units_command [OF assms] by (simp add: baseSSHArgs_def nat_add_distrib)

lemma remoteShell_not_flag: "remoteShell script \<noteq> ''--no-wrap''" "''--no-wrap'' \<noteq> remoteShell script"
  by (simp_all add: remoteShell_def)

lemma remoteExec_not_flag: "length argv \<noteq> 0 \<Longrightarrow> remoteExecShellWithEnv env ws argv \<noteq> ''--no-wrap''"
  by (simp add: remoteExecShellWithEnv_def remoteExecCommandShellWithEnv_def remoteShell_not_flag)
    (simp add: shellQuote_def)

text \<open>What the shell of the other end gets: a command of several words arrives as these words, after the
  script that runs it; any other session is one script.\<close>

lemma remoteExec_words:
  "sh_words (remoteExecShellWithEnv env ws argv) =
     Some (if length argv = 1 then [''sh'', ''-lc'', commandScript env ws (hd argv)]
           else [''sh'', ''-lc'', argvScript env ws, ''sh''] @ argv)"
  by (simp add: remoteExecShellWithEnv_def remoteExecCommandShellWithEnv_def sh_words_remoteShell del: Join.simps list.map
      flip: sh_words_quoted)


text \<open>A command of three words with a blank and a quote in the last one.\<close>

definition session_example :: bridge_session where
  "session_example = \<lparr>bsSessionID = ''s1'', bsContextID = ''c1'', bsRemoteFS = True, bsMountRoot = ''/m'', bsWorkspace = ''/m/w'',
     bsReadOnly = True, bsProxyURL = [], bsControlPath = ''/tmp/c''\<rparr>"


subsection \<open>Internal command lines\<close>

lemma CleanSSHArgs_separator:
  assumes "list_all wf_unit us"
  shows "CleanSSHArgs (flatten us @ [''--'', t]) =
    flatten (filter keep_clean us) @ stripForwardingConfigOptions (stripAuxiliarySSHOptions (stripControlSSHOptions [''--'', t]))"
  using clean.comp.units [OF assms, of "[''--'', t]"] by (simp add: CleanSSHArgs_def keep_clean_def [abs_def])

text \<open>The command lines of the bridge's own transports reach the user's destination, over the session's control
  connection and without a terminal, whatever the user asked for, and run one script there.\<close>

theorem internal_transport:
  assumes "list_all wf_unit us" "plain_dest t" "\<not> HasPrefix controlPath ''-''"
  shows "let args = internalSSHArgs (controlSlaveArgs (flatten us @ [t]) controlPath) (remoteShell script);
      opts = flatten (filter keep_clean us) @ [''-o'', ''ControlMaster=no'', ''-S'', controlPath, ''-o'', ''ClearAllForwardings=yes'']
    in args = ''-n'' # opts @ [''-T'', t, remoteShell script] \<and> pTarget (Parse args) = t \<and>
       pRemoteCommand (Parse args) = [remoteShell script] \<and> \<not> hasSSHForceTTYFlag (flatten (filter keep_clean us)) \<and>
       sh_words (remoteShell script) = Some [''sh'', ''-lc'', script]"
proof -
  let ?vs = "filter keep_clean us @ [Opt ''-o'' ''ControlMaster=no'', Opt ''-S'' controlPath, Opt ''-o'' ''ClearAllForwardings=yes'']"
  have v: "list_all wf_unit (Flag ''-n'' # ?vs @ [Flag ''-T''])"
    using assms(1,3) by (simp add: list_all_filter optionsWithRequiredValue_def)
  have k: "list_all wf_unit (filter keep_clean us)" using assms(1) by (rule list_all_filter)
  have e: "internalSSHArgs (controlSlaveArgs (flatten us @ [t]) controlPath) (remoteShell script) =
      flatten (Flag ''-n'' # ?vs @ [Flag ''-T'']) @ t # [remoteShell script]"
    using CleanSSHArgs_command [OF assms(1,2)] Insert_units [OF k assms(2)]
    by (simp add: internalSSHArgs_def sshCommandArgs_def controlSlaveArgs_def butlast_append)
  have "''--no-wrap'' \<notin> set [remoteShell script]" using remoteShell_not_flag by auto
  note P = Parse_units_command [OF v assms(2) this]
  have "\<not> hasSSHForceTTYFlag (flatten (filter keep_clean us))"
    using k
  proof (induction us)
    case (Cons u us)
    have "\<not> hasSSHForceTTYFlag (unit_args u)" if "keep_clean u" "wf_unit u"
    proof (cases u)
      case (Flag f)
      then have "\<not> isTTYRequestFlag f" using that(1) by (simp add: keep_clean_def)
      moreover have "isTTYRequestFlag ''-t''" "isTTYRequestFlag ''-tt''" by code_simp+
      ultimately show ?thesis using Flag by (auto simp: hasSSHForceTTYFlag_def)
    next
      case (Opt c v)
      have "\<not> optionsWithRequiredValue ''-t''" "\<not> optionsWithRequiredValue ''-tt''" by code_simp+
      moreover have "v \<noteq> ''-t''" "v \<noteq> ''-tt''" using that(2) Opt by auto
      ultimately show ?thesis using that(2) Opt by (auto simp: hasSSHForceTTYFlag_def)
    qed
    then show ?case using Cons by (auto simp: hasSSHForceTTYFlag_def)
  qed (simp add: hasSSHForceTTYFlag_def)
  then show ?thesis using P unfolding e Let_def by (simp add: sh_words_remoteShell)
qed

theorem internal_transport_witness:
  "internalSSHArgs (controlSlaveArgs [''-tt'', ''-p'', ''22'', ''web''] ''/c'') (remoteShell ''true'') =
     [''-n'', ''-p'', ''22'', ''-o'', ''ControlMaster=no'', ''-S'', ''/c'', ''-o'', ''ClearAllForwardings=yes'', ''-T'', ''web'', remoteShell ''true'']"
proof -
  let ?us = "[Flag ''-tt'', Opt ''-p'' ''22'']"
  have u: "list_all wf_unit ?us" "plain_dest ''web''" "\<not> HasPrefix ''/c'' ''-''" by code_simp+
  have "filter keep_clean ?us = [Opt ''-p'' ''22'']" by code_simp
  then show ?thesis using internal_transport [OF u, of "''true''"] by (simp add: Let_def)
qed

text \<open>After \<open>--\<close> the inserted \<open>-T\<close> is no option any more: it becomes the destination of the bridge's own transports,
  and the user's host a word of the remote command.\<close>

theorem separator_hides_destination:
  assumes "list_all wf_unit us" "t \<noteq> ''--no-wrap''"
  shows "pTarget (Parse (internalSSHArgs (flatten us @ [''--'', t]) (remoteShell script))) = ''-T'' \<and>
    pRemoteCommand (Parse (internalSSHArgs (flatten us @ [''--'', t]) (remoteShell script))) = [t, remoteShell script]"
proof -
  have v: "opt_block (flatten (Flag ''-n'' # us))"
    using assms(1) by (intro opt_block_flatten) (simp add: optionsWithRequiredValue_def)
  have e: "internalSSHArgs (flatten us @ [''--'', t]) (remoteShell script) =
      flatten (Flag ''-n'' # us) @ ''--'' # ''-T'' # [t, remoteShell script]"
    by (simp add: internalSSHArgs_def sshCommandArgs_def butlast_append)
  have "''--no-wrap'' \<notin> set (flatten (Flag ''-n'' # us) @ ''--'' # ''-T'' # [t, remoteShell script])"
    using assms(2) flatten_no_nowrap [OF assms(1)] remoteShell_not_flag by auto
  from Parse_block_sep [OF v this] show ?thesis unfolding e by simp
qed

theorem separator_hides_destination_witness:
  "pTarget (Parse (internalSSHArgs [''-p'', ''22'', ''--'', ''web''] (remoteShell ''true''))) = ''-T''"
proof -
  have u: "list_all wf_unit [Opt ''-p'' ''22'']" "''web'' \<noteq> ''--no-wrap''" by code_simp+
  show ?thesis using separator_hides_destination [OF u, of "''true''"] by simp
qed

text \<open>A value attached to its option is read as a cluster of flags: a login name with an \<open>N\<close> in \<open>-lName\<close> makes
  the session look like one without a shell, and it is left unwrapped; with the value as an argument of its
  own it is wrapped.\<close>

lemma attached_value_taken_for_flag:
  assumes "plain_dest t" "CHR ''N'' \<in> set v" "\<not> HasPrefix v ''-''"
  shows "sessionSSHArgsWithEnv (Parse [''-l'' @ v, t]) env ws = [''-l'' @ v, t] \<and>
    (\<exists>opts. sessionSSHArgsWithEnv (Parse [''-l'', v, t]) env ws = opts @ [''-l'', v, t, remoteLoginShellWithEnv env])"
proof -
  have v: "v \<noteq> []" using assms(2) by auto
  have u1: "list_all wf_unit [Flag (''-l'' @ v)]" using v by (simp add: optionsWithRequiredValue_def)
  have u2: "list_all wf_unit [Opt ''-l'' v]" using assms(3) by (simp add: optionsWithRequiredValue_def)
  have n: "''--no-wrap'' \<notin> set ([] :: string list)" by simp
  note P1 = Parse_units_command [OF u1 assms(1) n] and B1 = baseSSHArgs_command [OF u1 assms(1) n]
  note P2 = Parse_units_command [OF u2 assms(1) n] and B2 = baseSSHArgs_command [OF u2 assms(1) n]
  have f1: "hasSSHSessionlessFlag [''-l'' @ v, t]"
    using assms(2) by (simp add: hasSSHSessionlessFlag_def shortOptionClusterContains_def)
  have nd: "\<not> shortOptionClusterContains s c" if "\<not> HasPrefix s ''-''" for s c
    using that by (cases s) (auto simp: shortOptionClusterContains_def)
  have f2: "\<not> hasSSHSessionlessFlag [''-l'', v, t]"
    using nd [OF assms(3)] nd [of t] assms(1) by (simp add: hasSSHSessionlessFlag_def plain_dest_def) (simp add: shortOptionClusterContains_def)
  show ?thesis using P1 B1 P2 B2 f1 f2 by (simp add: sessionSSHArgsWithEnv_def Let_def)
qed

subsection \<open>The proxy port\<close>

text \<open>A tunnel that cannot be used is cancelled with the request that opened it, and a tunnel that was opened is
  cancelled once when it is closed, however often that is.\<close>

lemma proxy_tunnel_cancelled:
  "case startProxyTunnel out sshArgs controlPath of (r, commands) \<Rightarrow>
     let request = ControlOperationArgs sshArgs controlPath ''forward'' ''R'' remoteDynamicSOCKSSpec;
         cancel = ControlOperationArgs sshArgs controlPath ''cancel'' ''R'' remoteDynamicSOCKSSpec
     in (case r of
           Inl err \<Rightarrow> commands = [] \<or> commands = [request] \<and> \<not> is_ok (out request) \<or> commands = [request, cancel]
         | Inr t \<Rightarrow> commands = [request] \<and> snd (closeProxyTunnel t) = [cancel] \<and>
             snd (closeProxyTunnel (fst (closeProxyTunnel t))) = [])"
  by (auto simp: startProxyTunnel_def closeProxyTunnel_def Let_def split: sum.splits)

lemma parseAllocatedPort_range: "parseAllocatedPort output = Inr port \<Longrightarrow> 0 < port \<and> port \<le> 65535"
  by (auto simp: parseAllocatedPort_def Let_def dest!: find_SomeD split: if_splits option.splits)

end
