(* ===== verification/Bootstrap.thy ===== *)
theory Bootstrap
  imports SshSession Config
begin

text \<open>
  Starting the remote server (\<open>internal/cli/bootstrap.go\<close>, \<open>normalizeRemoteOS\<close>, \<open>normalizeRemoteArch\<close> and
  \<open>recordVersionState\<close> of \<open>internal/cli/state.go\<close>): the scripts, what is read from their output, and the
  order in which they are run. The other end is a function from actions to their outcomes; a procedure
  gives its result and the actions it took.
\<close>

subsection \<open>Procedures with a trace\<close>

definition act ::
  "('a \<Rightarrow> ('e, 'o) result) \<Rightarrow> 'a \<Rightarrow> ('o \<Rightarrow> ('e, 'r) result \<times> 'a list) \<Rightarrow> ('e, 'r) result \<times> 'a list" where
  "act world a k =
     (case world a of
        Inl err \<Rightarrow> (Inl err, [a])
      | Inr out \<Rightarrow> (case k out of (r, as) \<Rightarrow> (r, a # as)))"

text \<open>A procedure follows a plan when its actions are a beginning of the plan, all of it if it succeeds.\<close>

definition follows :: "('e, 'r) result \<times> 'a list \<Rightarrow> 'a list \<Rightarrow> bool" where
  "follows p plan \<longleftrightarrow> (\<exists>rest. plan = snd p @ rest \<and> (is_ok (fst p) \<longrightarrow> rest = []))"

lemma follows_act: "(\<And>out. world a = Inr out \<Longrightarrow> follows (k out) plan) \<Longrightarrow> follows (act world a k) (a # plan)"
  by (auto simp: follows_def act_def split: sum.splits prod.splits)

lemma follows_return: "follows (r, []) []"
  by (simp add: follows_def)

lemma follows_fail: "follows (Inl err, []) plan"
  by (simp add: follows_def)

subsection \<open>Scripts\<close>

definition startServerScript :: "string \<Rightarrow> bool \<Rightarrow> string" where
  \<open>startServerScript remoteHome disablePortScan =
     (let serverCmd = ''nohup "$SSHX_SERVER_HOME/sshx" server --socket "$SSHX_SERVER_HOME/sock" --server-info "$SSHX_SERVER_HOME/server-info"''
            @ (if disablePortScan then '' --port-scan-interval 0'' else [])
            @ '' >"$SSHX_SERVER_HOME/server.log" 2>&1 &''
      in Join [remoteServerEnvScript remoteHome, ''mkdir -p "$SSHX_SERVER_HOME"'',
           ''rm -f "$SSHX_SERVER_HOME/sock" "$SSHX_SERVER_HOME/server-info"'', serverCmd] ''; '')\<close>

definition startAndReadServerInfoScript :: "string \<Rightarrow> bool \<Rightarrow> string" where
  \<open>startAndReadServerInfoScript remoteHome disablePortScan =
     startServerScript remoteHome disablePortScan @ NL @ Join
       [''i=0'',
        ''while [ $i -lt 20 ]; do if test -S "$SSHX_SERVER_HOME/sock" && test -f "$SSHX_SERVER_HOME/server-info"; then cat "$SSHX_SERVER_HOME/server-info"; exit 0; fi; i=$((i+1)); sleep 0.1; done'',
        ''exit 1''] ''; ''\<close>

definition probeServerScript :: "string \<Rightarrow> string" where
  \<open>probeServerScript remoteHome = Join
     [remoteServerEnvScript remoteHome,
      ''os=$(uname -s 2>/dev/null || true)'',
      ''arch=$(uname -m 2>/dev/null || true)'',
      ''runtime='',
      ''if test -x "$SSHX_SERVER_HOME/sshx"; then runtime=$("$SSHX_SERVER_HOME/sshx" runtime-id 2>/dev/null || true); fi'',
      ''running=0'',
      ''if test -S "$SSHX_SERVER_HOME/sock" && test -f "$SSHX_SERVER_HOME/server-info"; then running=1; fi'',
      ''printf '%s'' @ BSL @ ''n%s'' @ BSL @ ''n%s'' @ BSL @ ''n%s'' @ BSL @ ''n' "$os" "$arch" "$runtime" "$running"''] ''; ''\<close>

definition installBinaryScript :: "string \<Rightarrow> string" where
  \<open>installBinaryScript remoteHome = Join
     [''set -eu'',
      remoteServerEnvScript remoteHome,
      ''mkdir -p "$SSHX_SERVER_HOME"'',
      ''lock="$SSHX_SERVER_HOME/.install.lock"'',
      ''i=0; while ! mkdir "$lock" 2>/dev/null; do owner=$(cat "$lock/pid" 2>/dev/null || true); if test -n "$owner" && ! kill -0 "$owner" 2>/dev/null; then rm -rf "$lock"; continue; fi; i=$((i+1)); test $i -lt 100 || exit 1; sleep 0.1; done'',
      ''printf '%s'' @ BSL @ ''n' "$$" > "$lock/pid"'',
      ''trap 'rm -rf "$lock"' EXIT HUP INT TERM'',
      ''tmp="$SSHX_SERVER_HOME/sshx.$$.tmp"'',
      ''cat > "$tmp"'',
      ''chmod 755 "$tmp"'',
      ''mv "$tmp" "$SSHX_SERVER_HOME/sshx"'',
      ''rm -rf "$lock"'',
      ''trap - EXIT HUP INT TERM''] ''; ''\<close>

definition stopServerScript :: "string \<Rightarrow> string" where
  \<open>stopServerScript remoteHome = Join
     [remoteServerEnvScript remoteHome,
      ''pid='',
      ''if test -f "$SSHX_SERVER_HOME/server-info"; then pid=$(sed -n 's/.*"pid"[[:space:]]*:[[:space:]]*'' @ BSL @ ''([0-9][0-9]*'' @ BSL @ '').*/'' @ BSL @ ''1/p' "$SSHX_SERVER_HOME/server-info" | head -n 1 || true); fi'',
      ''if test -n "$pid"; then kill "$pid" 2>/dev/null || true; fi'',
      ''if test -z "$pid" && test -d /proc; then for proc in /proc/[0-9]*; do test -r "$proc/cmdline" || continue; cmd=$(tr '' @ SQ @ BSL @ ''000' ' ' < "$proc/cmdline" 2>/dev/null || true); case "$cmd" in *"server --socket $SSHX_SERVER_HOME/sock"*) kill "${proc##*/}" 2>/dev/null || true ;; esac; done; fi'',
      ''i=0'',
      ''while { test -S "$SSHX_SERVER_HOME/sock" || test -f "$SSHX_SERVER_HOME/sock.lock"; } && test $i -lt 30; do i=$((i+1)); sleep 0.1; done'',
      ''rm -f "$SSHX_SERVER_HOME/sock" "$SSHX_SERVER_HOME/server-info"''] ''; ''\<close>

definition readServerInfoScript :: "string \<Rightarrow> string" where
  \<open>readServerInfoScript remoteHome = remoteServerEnvScript remoteHome @ ''; cat "$SSHX_SERVER_HOME/server-info"''\<close>

text \<open>The launcher of a context: it looks for a route of its runtime, or else for the newest route.\<close>

definition contextLauncher :: "string \<Rightarrow> string \<Rightarrow> string" where
  \<open>contextLauncher contextHome contextID = Join
     [''#!/bin/sh'',
      ''set -eu'',
      ''context_home="'' @ escapeDouble contextHome @ ''"'',
      ''runtime=${SSHX_RUNTIME_ID:-'' @ RuntimeID @ ''}'',
      ''SSHX_RUNTIME_ID=$runtime'',
      ''route="$context_home/routes/$runtime.json"'',
      ''if [ ! -f "$route" ]; then route=$(ls -1t "$context_home"/routes/*.json 2>/dev/null | head -n 1 || true); fi'',
      ''[ -n "$route" ] && [ -f "$route" ] || { echo 'sshx: no compatible runtime route for this context' >&2; exit 1; }'',
      ''runtime=$(sed -n 's/.*"runtimeId":"'' @ BSL @ ''([^"]*'' @ BSL @ '')".*/'' @ BSL @ ''1/p' "$route")'',
      ''[ -n "$runtime" ] || { echo 'sshx: invalid context runtime identity' >&2; exit 1; }'',
      ''SSHX_RUNTIME_ID=$runtime'',
      ''SSHX_SERVER_HOME=$(sed -n 's/.*"serverHome":"'' @ BSL @ ''([^"]*'' @ BSL @ '')".*/'' @ BSL @ ''1/p' "$route")'',
      ''[ -n "$SSHX_SERVER_HOME" ] || { echo 'sshx: invalid context runtime route' >&2; exit 1; }'',
      ''SSHX_REMOTE_FS=$(sed -n 's/.*"remoteFs":'' @ BSL @ ''([01]'' @ BSL @ '').*/'' @ BSL @ ''1/p' "$route")'',
      ''SSHX_REMOTE_FS=${SSHX_REMOTE_FS:-0}'',
      ''SSHX_CONTEXT_ID='' @ shellQuote contextID,
      ''export SSHX_SERVER_HOME SSHX_CONTEXT_ID SSHX_RUNTIME_ID SSHX_REMOTE_FS'',
      ''exec "$SSHX_SERVER_HOME/sshx" "$@"''] NL @ NL\<close>

definition contextLauncherScript :: "string \<Rightarrow> string \<Rightarrow> string \<Rightarrow> bool \<Rightarrow> string" where
  \<open>contextLauncherScript contextHome contextID remoteHome remoteFS = Join
     [''set -eu'',
      ''context_home="'' @ escapeDouble contextHome @ ''"'',
      ''runtime_home="'' @ escapeDouble remoteHome @ ''"'',
      ''mkdir -p "$context_home/bin" "$context_home/routes"'',
      ''route_tmp="$context_home/routes/.'' @ RuntimeID @ ''.$$.tmp"'',
      ''printf '{"runtimeId":"%s","serverHome":"%s","remoteFs":%s}'' @ BSL @ ''n' '' @ shellQuote RuntimeID @ '' "$runtime_home" '' @ shellQuote (if remoteFS then ''1'' else ''0'') @ '' > "$route_tmp"'',
      ''chmod 600 "$route_tmp"'',
      ''mv -f "$route_tmp" "$context_home/routes/'' @ RuntimeID @ ''.json"'',
      ''launcher_tmp="$context_home/bin/.sshx.$$.tmp"'',
      ''printf '%s' '' @ shellQuote (contextLauncher contextHome contextID) @ '' > "$launcher_tmp"'',
      ''chmod 700 "$launcher_tmp"'',
      ''mv -f "$launcher_tmp" "$context_home/bin/sshx"''] NL\<close>

subsection \<open>The probe\<close>

text \<open>\<open>bufio.Scanner\<close> on a whole output: lines without their end; a line that does not fit its buffer is an error.\<close>

definition MaxScanTokenSize :: nat where "MaxScanTokenSize = 65536"

definition dropCR :: "string \<Rightarrow> string" where
  "dropCR line = (if line \<noteq> [] \<and> last line = CHR 0x0D then butlast line else line)"

definition scanLines :: "string \<Rightarrow> string list \<times> bool" where
  "scanLines out =
     (let lines = Split out CHR 0x0A;
          lines = (if last lines = [] then butlast lines else lines);
          kept = takeWhile (\<lambda>line. length line < MaxScanTokenSize) lines
      in (map dropCR kept, length kept < length lines))"

record remote_probe =
  rpOS :: string
  rpArch :: string
  rpRuntimeID :: string
  rpRunning :: bool

definition AssetName :: "remote_probe \<Rightarrow> string" where
  "AssetName p = ''sshx-'' @ rpOS p @ ''-'' @ rpArch p"

definition normalizeRemoteOS :: "string \<Rightarrow> (string, string) result" where
  "normalizeRemoteOS s =
     (let v = ToLower (TrimSpace s) in
      if v = ''linux'' then Inr ''linux''
      else if v = [] then Inl ''remote OS probe returned empty value''
      else Inl (''unsupported remote server OS '' @ s))"

definition normalizeRemoteArch :: "string \<Rightarrow> (string, string) result" where
  "normalizeRemoteArch s =
     (let v = ToLower (TrimSpace s) in
      if v = ''x86_64'' \<or> v = ''amd64'' then Inr ''amd64''
      else if v = ''aarch64'' \<or> v = ''arm64'' then Inr ''arm64''
      else if v = [] then Inl ''remote arch probe returned empty value''
      else Inl (''unsupported remote arch '' @ s))"

definition parseRemoteProbe :: "string \<Rightarrow> (string, remote_probe) result" where
  "parseRemoteProbe out =
     (case scanLines out of (lines, tooLong) \<Rightarrow>
        if tooLong then Inl ''token too long''
        else
          let lines = map TrimSpace lines; lines = lines @ replicate (4 - length lines) []
          in case normalizeRemoteOS (lines ! 0) of
               Inl err \<Rightarrow> Inl err
             | Inr osName \<Rightarrow>
                 (case normalizeRemoteArch (lines ! 1) of
                    Inl err \<Rightarrow> Inl err
                  | Inr arch \<Rightarrow> Inr \<lparr>rpOS = osName, rpArch = arch, rpRuntimeID = lines ! 2, rpRunning = (lines ! 3 = ''1'')\<rparr>))"

subsection \<open>The server\<close>

datatype boot_action =
    OutputScript string
  | ExecScript string
  | ExecInputScript string string
  | DownloadBinary string string

text \<open>\<open>info\<close> is the JSON decoder of a server-info file, giving its token.\<close>

definition parseServerInfoToken :: "(string \<Rightarrow> (string, string) result) \<Rightarrow> string \<Rightarrow> (string, string) result" where
  "parseServerInfoToken info out =
     (case info out of
        Inl err \<Rightarrow> Inl err
      | Inr token \<Rightarrow> (if token = [] then Inl ''remote server-info is missing a token'' else Inr token))"

definition readBootstrappedToken ::
  "(string \<Rightarrow> (string, string) result) \<Rightarrow> (boot_action \<Rightarrow> (string, string) result) \<Rightarrow> string \<Rightarrow> (string, string) result \<times> boot_action list" where
  "readBootstrappedToken info world remoteHome =
     act world (OutputScript (readServerInfoScript remoteHome)) (\<lambda>out. (parseServerInfoToken info out, []))"

definition startServer ::
  "(string \<Rightarrow> (string, string) result) \<Rightarrow> (boot_action \<Rightarrow> (string, string) result) \<Rightarrow> string \<Rightarrow> bool \<Rightarrow> (string, string) result \<times> boot_action list" where
  "startServer info world remoteHome disablePortScan =
     act world (OutputScript (startAndReadServerInfoScript remoteHome disablePortScan)) (\<lambda>out. (parseServerInfoToken info out, []))"

definition installAndStart ::
  "(string \<Rightarrow> (string, string) result) \<Rightarrow> (boot_action \<Rightarrow> (string, string) result) \<Rightarrow> string \<Rightarrow> remote_probe \<Rightarrow> string \<Rightarrow> bool \<Rightarrow>
   (string, string) result \<times> boot_action list" where
  "installAndStart info world targetVersion probe remoteHome disablePortScan =
     (if rpRuntimeID probe \<noteq> RuntimeID then
        act world (DownloadBinary targetVersion (AssetName probe)) (\<lambda>localBinary.
          act world (ExecInputScript (installBinaryScript remoteHome) localBinary) (\<lambda>_.
            startServer info world remoteHome disablePortScan))
      else startServer info world remoteHome disablePortScan)"

definition ensureBootstrappedServer ::
  "(string \<Rightarrow> (string, string) result) \<Rightarrow> (boot_action \<Rightarrow> (string, string) result) \<Rightarrow> string \<Rightarrow> string \<Rightarrow> bool \<Rightarrow> bool \<Rightarrow>
   (string, string) result \<times> boot_action list" where
  "ensureBootstrappedServer info world targetVersion remoteHome enabled disablePortScan =
     (if \<not> enabled then (Inr [], [])
      else act world (OutputScript (probeServerScript remoteHome)) (\<lambda>out.
        case parseRemoteProbe out of
          Inl err \<Rightarrow> (Inl err, [])
        | Inr probe \<Rightarrow>
            (if rpRunning probe \<and> rpRuntimeID probe = RuntimeID then readBootstrappedToken info world remoteHome
             else if rpRunning probe then
               act world (ExecScript (stopServerScript remoteHome)) (\<lambda>_.
                 installAndStart info world targetVersion probe remoteHome disablePortScan)
             else installAndStart info world targetVersion probe remoteHome disablePortScan)))"

definition ensureRemoteServer ::
  "(string \<Rightarrow> (string, string) result) \<Rightarrow> (boot_action \<Rightarrow> (string, string) result) \<Rightarrow> string \<Rightarrow> features \<Rightarrow> string \<Rightarrow>
   (string, string) result \<times> boot_action list" where
  "ensureRemoteServer info world targetVersion f remoteHome =
     ensureBootstrappedServer info world targetVersion remoteHome (Enabled f) (\<not> feAutoForward f)"

definition ensureDockerServer ::
  "(string \<Rightarrow> (string, string) result) \<Rightarrow> (boot_action \<Rightarrow> (string, string) result) \<Rightarrow> string \<Rightarrow> features \<Rightarrow> string \<Rightarrow>
   (string, string) result \<times> boot_action list" where
  "ensureDockerServer info world targetVersion f remoteHome =
     ensureBootstrappedServer info world targetVersion remoteHome (feCommandBridge f) True"

definition ensureRemoteContextLauncher ::
  "(boot_action \<Rightarrow> (string, string) result) \<Rightarrow> connection \<Rightarrow> string \<Rightarrow> bool \<Rightarrow> (string, string) result \<times> boot_action list" where
  "ensureRemoteContextLauncher world c remoteHome remoteFS =
     act world (ExecScript (contextLauncherScript (remoteContextHome (cnTargetID c) (cnContextID c)) (cnContextID c) remoteHome remoteFS))
       (\<lambda>out. (Inr out, []))"

text \<open>The ssh command line of an action.\<close>

fun sshTransport :: "string list \<Rightarrow> boot_action \<Rightarrow> string list" where
  "sshTransport sshArgs (OutputScript script) = internalSSHArgs sshArgs (remoteShell script)"
| "sshTransport sshArgs (ExecScript script) = internalSSHArgs sshArgs (remoteShell script)"
| "sshTransport sshArgs (ExecInputScript script file) = sshCommandArgs sshArgs (remoteShell script)"
| "sshTransport sshArgs (DownloadBinary v asset) = []"

subsection \<open>The version state\<close>

record version_state =
  vsCurrent :: string
  vsLast :: string
  vsUpdatedAt :: string

text \<open>What is written; a file that cannot be decoded counts as empty, a file that cannot be read is an error.\<close>

definition recordVersionState ::
  "(string \<Rightarrow> version_state) \<Rightarrow> (version_state \<Rightarrow> string) \<Rightarrow> string option \<Rightarrow> string \<Rightarrow> string \<Rightarrow> file_content \<Rightarrow> string option \<times> file_content" where
  "recordVersionState unmarshal marshal writeErr now current f =
     (let current = (if current = [] then ''dev'' else current) in
      case f of
        Refused err \<Rightarrow> (Some err, f)
      | _ \<Rightarrow>
          (let state = (case f of Content b \<Rightarrow> unmarshal b | _ \<Rightarrow> \<lparr>vsCurrent = [], vsLast = [], vsUpdatedAt = []\<rparr>);
               state = (if vsCurrent state \<noteq> current then state\<lparr>vsLast := vsCurrent state, vsCurrent := current\<rparr> else state);
               state = state\<lparr>vsUpdatedAt := now\<rparr>
           in case writeErr of Some err \<Rightarrow> (Some err, f) | None \<Rightarrow> (None, Content (marshal state @ NL))))"


subsection \<open>What is done to the other end\<close>

text \<open>The plan for a probed host: read the token of a running server of this runtime; otherwise stop a running
  server, install the binary unless it is the right one already, and start it.\<close>

definition boot_plan :: "(boot_action \<Rightarrow> (string, string) result) \<Rightarrow> string \<Rightarrow> string \<Rightarrow> bool \<Rightarrow> remote_probe \<Rightarrow> boot_action list" where
  "boot_plan world targetVersion remoteHome disablePortScan probe =
     (if rpRunning probe \<and> rpRuntimeID probe = RuntimeID then [OutputScript (readServerInfoScript remoteHome)]
      else (if rpRunning probe then [ExecScript (stopServerScript remoteHome)] else [])
         @ (if rpRuntimeID probe \<noteq> RuntimeID then
              [DownloadBinary targetVersion (AssetName probe),
               ExecInputScript (installBinaryScript remoteHome) (case world (DownloadBinary targetVersion (AssetName probe)) of Inr b \<Rightarrow> b | Inl _ \<Rightarrow> [])]
            else [])
         @ [OutputScript (startAndReadServerInfoScript remoteHome disablePortScan)])"

lemma follows_token:
  "follows (act world a (\<lambda>out. (parseServerInfoToken info out, []))) [a]"
  by (auto simp: follows_def act_def split: sum.splits)

lemma follows_installAndStart:
  assumes "\<not> (rpRunning probe \<and> rpRuntimeID probe = RuntimeID)"
  shows "follows (installAndStart info world v probe home dis)
    ((if rpRuntimeID probe \<noteq> RuntimeID then
        [DownloadBinary v (AssetName probe),
         ExecInputScript (installBinaryScript home) (case world (DownloadBinary v (AssetName probe)) of Inr b \<Rightarrow> b | Inl _ \<Rightarrow> [])]
      else []) @ [OutputScript (startAndReadServerInfoScript home dis)])"
  by (auto simp: installAndStart_def startServer_def intro!: follows_act follows_token)

lemma token_nonempty: "parseServerInfoToken info out = Inr token \<Longrightarrow> token \<noteq> [] \<and> info out = Inr token"
  by (auto simp: parseServerInfoToken_def split: sum.splits if_splits)

text \<open>A procedure that succeeds only with a token read from the output of its last action.\<close>

definition reads ::
  "(string \<Rightarrow> (string, string) result) \<Rightarrow> (boot_action \<Rightarrow> (string, string) result) \<Rightarrow> (string, string) result \<times> boot_action list \<Rightarrow> bool" where
  "reads info world p \<longleftrightarrow> (\<forall>token. fst p = Inr token \<longrightarrow>
     snd p \<noteq> [] \<and> (\<exists>out. world (last (snd p)) = Inr out \<and> parseServerInfoToken info out = Inr token))"

lemma reads_act: "(\<And>out. world a = Inr out \<Longrightarrow> reads info world (k out)) \<Longrightarrow> reads info world (act world a k)"
  by (auto simp: reads_def act_def split: sum.splits prod.splits)

lemma reads_token: "reads info world (act world a (\<lambda>out. (parseServerInfoToken info out, [])))"
  by (auto simp: reads_def act_def split: sum.splits)

text \<open>C33. Starting the server does to the other end exactly the beginning of the plan for what the probe found, and all
  of it when it succeeds; it stops after the first action that fails. The token it returns is not empty
  and is the one in the server-info of the last action. A host that cannot be probed, or is not a
  supported one, is left alone, and with nothing enabled nothing is done.\<close>

theorem bootstrap_plan:
  "ensureBootstrappedServer info world v home False dis = (Inr [], []) \<and>
   (case ensureBootstrappedServer info world v home True dis of (r, actions) \<Rightarrow>
      (case world (OutputScript (probeServerScript home)) of
         Inl err \<Rightarrow> r = Inl err \<and> actions = [OutputScript (probeServerScript home)]
       | Inr out \<Rightarrow>
           (case parseRemoteProbe out of
              Inl err \<Rightarrow> r = Inl err \<and> actions = [OutputScript (probeServerScript home)]
            | Inr probe \<Rightarrow> follows (r, actions) (OutputScript (probeServerScript home) # boot_plan world v home dis probe))) \<and>
      (case r of Inl err \<Rightarrow> True | Inr token \<Rightarrow> token \<noteq> [] \<and> (\<exists>out. world (last actions) = Inr out \<and> info out = Inr token)))"
proof -
  let ?p = "ensureBootstrappedServer info world v home True dis"
  let ?probe = "OutputScript (probeServerScript home)"
  have off: "ensureBootstrappedServer info world v home False dis = (Inr [], [])"
    by (simp add: ensureBootstrappedServer_def)
  have fails: "world ?probe = Inl err \<Longrightarrow> ?p = (Inl err, [?probe])" for err
    by (simp add: ensureBootstrappedServer_def act_def)
  have refused: "world ?probe = Inr out \<Longrightarrow> parseRemoteProbe out = Inl err \<Longrightarrow> ?p = (Inl err, [?probe])" for out err
    by (simp add: ensureBootstrappedServer_def act_def)
  have plan: "follows ?p (?probe # boot_plan world v home dis probe)"
    if "world ?probe = Inr out" "parseRemoteProbe out = Inr probe" for out probe
    using that follows_installAndStart [of probe info world v home dis]
    by (auto simp: ensureBootstrappedServer_def boot_plan_def readBootstrappedToken_def intro!: follows_act follows_token)
  have "reads info world ?p"
    by (auto simp: ensureBootstrappedServer_def installAndStart_def startServer_def readBootstrappedToken_def
        intro!: reads_act reads_token split: sum.splits) (simp add: reads_def)
  then have token: "fst ?p = Inr token \<Longrightarrow> \<exists>out. world (last (snd ?p)) = Inr out \<and> parseServerInfoToken info out = Inr token" for token
    by (simp add: reads_def)
  show ?thesis
    using off fails refused plan token token_nonempty by (fastforce split: sum.splits prod.splits)
qed


text \<open>The probe script prints four lines, and these are read back; only Linux on the two supported
  architectures is accepted.\<close>

definition probe_field :: "string \<Rightarrow> bool" where
  "probe_field s \<longleftrightarrow> (\<forall>c \<in> set s. \<not> is_space c) \<and> length s < MaxScanTokenSize"

definition probe_text :: "string \<Rightarrow> string \<Rightarrow> string \<Rightarrow> bool \<Rightarrow> string" where
  "probe_text os arch runtime running = Join [os, arch, runtime, if running then ''1'' else ''0'', []] NL"

lemma parseRemoteProbe_text:
  assumes "probe_field os" "probe_field arch" "probe_field runtime"
  shows "parseRemoteProbe (probe_text os arch runtime running) =
    (case normalizeRemoteOS os of Inl err \<Rightarrow> Inl err
     | Inr o' \<Rightarrow> (case normalizeRemoteArch arch of Inl err \<Rightarrow> Inl err
        | Inr a' \<Rightarrow> Inr \<lparr>rpOS = o', rpArch = a', rpRuntimeID = runtime, rpRunning = running\<rparr>))"
proof -
  let ?r = "if running then ''1'' else ''0''"
  have nl: "CHR 0x0A \<notin> set s" if "probe_field s" for s using that by (auto simp: probe_field_def is_space_def)
  have pf: "probe_field ?r" by (simp add: probe_field_def is_space_def MaxScanTokenSize_def)
  have "Split (probe_text os arch runtime running) CHR 0x0A = [os, arch, runtime, ?r, []]"
    unfolding probe_text_def by (rule Split_Join) (use nl assms pf in auto)
  moreover have cr: "dropCR s = s" if "probe_field s" for s
  proof (cases "s = []")
    case False
    then have "\<not> is_space (last s)" using that by (simp add: probe_field_def)
    then have "last s \<noteq> CHR 0x0D" by (auto simp: is_space_def)
    then show ?thesis by (simp add: dropCR_def)
  qed (simp add: dropCR_def)
  moreover have sh: "length s < MaxScanTokenSize" "TrimSpace s = s" if "probe_field s" for s
    using that by (auto simp: probe_field_def intro: TrimSpace_id)
  ultimately have "scanLines (probe_text os arch runtime running) = ([os, arch, runtime, ?r], False)"
    using assms pf by (simp add: scanLines_def)
  then show ?thesis using sh(2) assms pf by (simp add: parseRemoteProbe_def numeral_eq_Suc split: sum.splits)
qed

text \<open>A new version moves the recorded one to the last version; recording a version again keeps it.\<close>

lemma version_state_history:
  assumes "\<And>s. unmarshal (marshal s @ NL) = s" "v \<noteq> []" "w \<noteq> []" "v \<noteq> w"
  shows "(case recordVersionState unmarshal marshal None t1 v f of (None, f1) \<Rightarrow>
      (case recordVersionState unmarshal marshal None t2 w f1 of (None, f2) \<Rightarrow>
         (case recordVersionState unmarshal marshal None t3 w f2 of (None, Content b) \<Rightarrow>
             unmarshal b = \<lparr>vsCurrent = w, vsLast = v, vsUpdatedAt = t3\<rparr> | _ \<Rightarrow> False) | _ \<Rightarrow> False)
    | (Some err, f1) \<Rightarrow> f1 = f \<and> f = Refused err)"
  using assms by (cases f) (auto simp: recordVersionState_def Let_def)

end
