(* ===== verification/SshConfig.thy ===== *)
theory SshConfig
  imports GoPath "HOL-Library.Char_ord" "HOL-Library.List_Lexorder"
begin

text \<open>
  The host aliases of an ssh configuration (\<open>internal/sshconfig/aliases.go\<close>). The parser of a single
  file is a library: a file is given by its parsed hosts. The file system is a finite table, globbing
  a parameter. The recursion of the code over includes is a function on the stack of what is still
  to be read, in the same order; a file already seen is not read again, which makes it terminate on
  configurations that include themselves.
\<close>

subsection \<open>Parsed files\<close>

record include_node =
  inString :: string
  inComment :: string

datatype config_node = Include include_node | OtherNode

record config_host =
  hoString :: string
  hoPatterns :: "string option list"
  hoNodes :: "config_node list"

datatype config_file = Unreadable string | Undecodable string | Decoded "config_host list"

definition isHostDirective :: "config_host \<Rightarrow> bool" where
  "isHostDirective h =
     (let line = fst (Cut (TrimSpace (hoString h)) (CHR 0x0A));
          key = fst (Cut (ToLower (ReplaceAll line (CHR ''='') '' '')) (CHR '' ''))
      in key = ''host'')"

definition includeDirectives :: "include_node \<Rightarrow> string list" where
  "includeDirectives inc =
     (let line = TrimSpace (if inComment inc \<noteq> [] then fst (Cut (inString inc) (CHR 0x23)) else inString inc);
          lower = ToLower line
      in if HasPrefix lower ''include='' then Fields (drop 8 line)
         else if HasPrefix lower ''include'' then Fields (TrimPrefix (TrimSpace (drop 7 line)) ''='')
         else [])"

definition isConcreteHostAlias :: "string \<Rightarrow> bool" where
  "isConcreteHostAlias s = (s \<noteq> [] \<and> \<not> ContainsAny s ''*?!'')"

definition expandHome :: "string option \<Rightarrow> string \<Rightarrow> string" where
  "expandHome home path =
     (case home of
        None \<Rightarrow> path
      | Some h \<Rightarrow>
          (if h = [] then path else if path = ''~'' then h
           else if HasPrefix path ''~/'' then JoinPath h (drop 2 path) else path))"

subsection \<open>Reading\<close>

text \<open>The home and working directories, the files there are and the matches of a pattern (\<open>None\<close> for a bad one).\<close>

record config_world =
  cwHome :: "string option"
  cwWd :: string
  cwFiles :: "(string \<times> config_file) list"
  cwGlob :: "string \<Rightarrow> string list option"

definition hostAliases :: "config_host \<Rightarrow> string list" where
  "hostAliases h =
     (if isHostDirective h
      then filter isConcreteHostAlias (concat (map (\<lambda>pat. case pat of None \<Rightarrow> [] | Some a \<Rightarrow> [a]) (hoPatterns h)))
      else [])"

definition fileAliases :: "config_host list \<Rightarrow> string set" where
  "fileAliases hosts = set (concat (map hostAliases hosts))"

definition nodeIncludes :: "config_node \<Rightarrow> string list" where
  "nodeIncludes n = (case n of Include inc \<Rightarrow> includeDirectives inc | OtherNode \<Rightarrow> [])"

definition fileIncludes :: "config_world \<Rightarrow> string \<Rightarrow> config_host list \<Rightarrow> string list" where
  "fileIncludes w path hosts =
     map (\<lambda>inc. let inc = expandHome (cwHome w) inc in if IsAbs inc then inc else JoinPath (Dir path) inc)
       (concat (map (\<lambda>h. concat (map nodeIncludes (hoNodes h))) hosts))"

definition pathMatches :: "config_world \<Rightarrow> string \<Rightarrow> string list option" where
  "pathMatches w path =
     (let expanded = expandHome (cwHome w) path;
          expanded = (if IsAbs expanded then expanded else Abs (cwWd w) expanded)
      in map_option (\<lambda>ms. if ms = [] then [expanded] else ms) (cwGlob w expanded))"

datatype config_task = ReadPath string | ReadFile string

definition task_weight :: "config_world \<Rightarrow> config_task \<Rightarrow> nat" where
  "task_weight w t = (case t of ReadFile p \<Rightarrow> 1 | ReadPath p \<Rightarrow> (case pathMatches w p of None \<Rightarrow> 1 | Some ms \<Rightarrow> length ms + 1))"

function collect :: "config_world \<Rightarrow> config_task list \<Rightarrow> string set \<Rightarrow> string set \<Rightarrow> (string, string set) result" where
  "collect w [] seen aliases = Inr aliases"
| "collect w (ReadPath p # ts) seen aliases =
     (case pathMatches w p of
        None \<Rightarrow> Inl ''syntax error in pattern''
      | Some ms \<Rightarrow> collect w (map ReadFile ms @ ts) seen aliases)"
| "collect w (ReadFile p # ts) seen aliases =
     (let clean = Clean p in
      if clean \<in> seen then collect w ts seen aliases
      else case map_of (cwFiles w) clean of
        None \<Rightarrow> collect w ts (insert clean seen) aliases
      | Some (Unreadable err) \<Rightarrow> Inl err
      | Some (Undecodable err) \<Rightarrow> Inl err
      | Some (Decoded hosts) \<Rightarrow>
          collect w (map ReadPath (fileIncludes w clean hosts) @ ts) (insert clean seen) (aliases \<union> fileAliases hosts))"
  by pat_completeness auto
termination
proof (relation "measures [\<lambda>(w, ts, seen, aliases). card (fst ` set (cwFiles w) - seen), \<lambda>(w, ts, seen, aliases). sum_list (map (task_weight w) ts)]", goal_cases)
  case 1
  show ?case by simp
next
  case (2 w p ts seen aliases ms)
  then show ?case by (simp add: task_weight_def comp_def sum_list_triv)
next
  case (3 w p ts seen aliases clean)
  then show ?case by (simp add: task_weight_def)
next
  case (4 w p ts seen aliases clean)
  then have "fst ` set (cwFiles w) - insert clean seen = fst ` set (cwFiles w) - seen"
    by (auto simp: map_of_eq_None_iff)
  then show ?case by (simp add: task_weight_def)
next
  case (5 w p ts seen aliases clean f hosts)
  then have "clean \<in> fst ` set (cwFiles w) - seen" by (force dest: map_of_SomeD)
  then have "fst ` set (cwFiles w) - insert clean seen \<subset> fst ` set (cwFiles w) - seen" by blast
  then show ?case by (simp add: psubset_card_mono)
qed

text \<open>\<open>Aliases\<close>: sorted; \<open>HasAlias\<close>.\<close>

definition Aliases :: "config_world \<Rightarrow> string \<Rightarrow> (string, string list) result" where
  "Aliases w path =
     (if path = [] then Inr []
      else case collect w [ReadPath path] {} {} of
        Inl err \<Rightarrow> Inl err
      | Inr aliases \<Rightarrow> Inr (sorted_list_of_set aliases))"

definition HasAlias :: "config_world \<Rightarrow> string \<Rightarrow> string \<Rightarrow> (string, bool) result" where
  "HasAlias w path target =
     (if path = [] then Inr False
      else case collect w [ReadPath path] {} {} of Inl err \<Rightarrow> Inl err | Inr aliases \<Rightarrow> Inr (target \<in> aliases))"

subsection \<open>The files that are read\<close>

text \<open>The files a configuration reaches through its includes, by their clean paths, and the patterns that
  lead to them.\<close>

inductive reached_path :: "config_world \<Rightarrow> string \<Rightarrow> string \<Rightarrow> bool"
  and reached_file :: "config_world \<Rightarrow> string \<Rightarrow> string \<Rightarrow> bool" for w start where
  begins: "reached_path w start start"
| matched: "reached_path w start p \<Longrightarrow> pathMatches w p = Some ms \<Longrightarrow> m \<in> set ms \<Longrightarrow> reached_file w start (Clean m)"
| included: "reached_file w start f \<Longrightarrow> map_of (cwFiles w) f = Some (Decoded hosts) \<Longrightarrow> p \<in> set (fileIncludes w f hosts) \<Longrightarrow>
    reached_path w start p"

text \<open>What stops the reading: a pattern that is malformed, or a file that cannot be read or parsed.\<close>

definition config_broken :: "config_world \<Rightarrow> string \<Rightarrow> bool" where
  "config_broken w start \<longleftrightarrow> (\<exists>p. reached_path w start p \<and> pathMatches w p = None) \<or>
     (\<exists>f err. reached_file w start f \<and> map_of (cwFiles w) f \<in> {Some (Unreadable err), Some (Undecodable err)})"

definition config_aliases :: "config_world \<Rightarrow> string \<Rightarrow> string set" where
  "config_aliases w start =
     {a. \<exists>f hosts. reached_file w start f \<and> map_of (cwFiles w) f = Some (Decoded hosts) \<and> a \<in> fileAliases hosts}"

definition covered :: "config_world \<Rightarrow> string set \<Rightarrow> config_task list \<Rightarrow> string \<Rightarrow> bool" where
  "covered w seen ts p \<longleftrightarrow> ReadPath p \<in> set ts \<or>
     (\<exists>ms. pathMatches w p = Some ms \<and> (\<forall>m \<in> set ms. Clean m \<in> seen \<or> (\<exists>m'. ReadFile m' \<in> set ts \<and> Clean m' = Clean m)))"

definition collect_inv :: "config_world \<Rightarrow> string \<Rightarrow> config_task list \<Rightarrow> string set \<Rightarrow> string set \<Rightarrow> bool" where
  "collect_inv w start ts seen aliases \<longleftrightarrow>
     covered w seen ts start \<and>
     (\<forall>f hosts p. f \<in> seen \<longrightarrow> map_of (cwFiles w) f = Some (Decoded hosts) \<longrightarrow> p \<in> set (fileIncludes w f hosts) \<longrightarrow> covered w seen ts p) \<and>
     (\<forall>f \<in> seen. reached_file w start f \<and> (\<forall>err. map_of (cwFiles w) f \<notin> {Some (Unreadable err), Some (Undecodable err)})) \<and>
     (\<forall>t \<in> set ts. case t of ReadPath p \<Rightarrow> reached_path w start p | ReadFile m \<Rightarrow> reached_file w start (Clean m)) \<and>
     aliases = {a. \<exists>f hosts. f \<in> seen \<and> map_of (cwFiles w) f = Some (Decoded hosts) \<and> a \<in> fileAliases hosts}"

lemma covered_step:
  "covered w seen (t # ts) p \<Longrightarrow> seen \<subseteq> seen' \<Longrightarrow> set ts \<subseteq> set ts' \<Longrightarrow>
   (\<And>q. t = ReadPath q \<Longrightarrow> covered w seen' ts' q) \<Longrightarrow>
   (\<And>m. t = ReadFile m \<Longrightarrow> Clean m \<in> seen') \<Longrightarrow> covered w seen' ts' p"
  by (cases t) (auto simp: covered_def, (metis subsetD)+)

lemma collect_done:
  assumes "collect_inv w start [] seen aliases"
  shows "\<not> config_broken w start \<and> aliases = config_aliases w start"
proof -
  have begins: "\<exists>ms. pathMatches w start = Some ms \<and> (\<forall>m \<in> set ms. Clean m \<in> seen)"
    and incs: "\<And>f hosts p. f \<in> seen \<Longrightarrow> map_of (cwFiles w) f = Some (Decoded hosts) \<Longrightarrow> p \<in> set (fileIncludes w f hosts) \<Longrightarrow>
      \<exists>ms. pathMatches w p = Some ms \<and> (\<forall>m \<in> set ms. Clean m \<in> seen)"
    and inv: "\<forall>f \<in> seen. reached_file w start f \<and> (\<forall>err. map_of (cwFiles w) f \<notin> {Some (Unreadable err), Some (Undecodable err)})"
      "aliases = {a. \<exists>f hosts. f \<in> seen \<and> map_of (cwFiles w) f = Some (Decoded hosts) \<and> a \<in> fileAliases hosts}"
    using assms unfolding collect_inv_def covered_def by simp_all
  have closed: "reached_path w start p \<Longrightarrow> \<exists>ms. pathMatches w p = Some ms \<and> (\<forall>m \<in> set ms. Clean m \<in> seen)"
    and files: "reached_file w start f \<Longrightarrow> f \<in> seen" for p f
  proof (induction rule: reached_path_reached_file.inducts)
    case begins
    then show ?case using \<open>\<exists>ms. pathMatches w start = Some ms \<and> (\<forall>m \<in> set ms. Clean m \<in> seen)\<close> .
  next
    case (matched p ms m)
    then show ?case by auto
  next
    case (included f hosts p)
    then show ?case using incs by blast
  qed
  have seen: "reached_file w start f \<longleftrightarrow> f \<in> seen" for f using files inv(1) by blast
  have "\<not> config_broken w start" unfolding config_broken_def using closed seen inv(1) by fastforce
  moreover have "aliases = config_aliases w start" unfolding config_aliases_def seen using inv(2) by simp
  ultimately show ?thesis by blast
qed

lemma collect_inv_path:
  assumes "collect_inv w start (ReadPath p # ts) seen aliases" "pathMatches w p = Some ms"
  shows "collect_inv w start (map ReadFile ms @ ts) seen aliases"
proof -
  have c: "covered w seen (map ReadFile ms @ ts) q" if "covered w seen (ReadPath p # ts) q" for q
    using that by (rule covered_step) (auto simp: covered_def assms(2))
  have r: "reached_path w start p" using assms(1) by (simp add: collect_inv_def)
  have "\<forall>m \<in> set ms. reached_file w start (Clean m)" using reached_path_reached_file.matched [OF r assms(2)] by blast
  then show ?thesis using assms(1) c unfolding collect_inv_def by (auto split: config_task.splits)
qed

lemma collect_inv_skip:
  assumes "collect_inv w start (ReadFile p # ts) seen aliases" "Clean p \<in> seen \<or> map_of (cwFiles w) (Clean p) = None"
  shows "collect_inv w start ts (insert (Clean p) seen) aliases"
proof -
  have c: "covered w (insert (Clean p) seen) ts q" if "covered w seen (ReadFile p # ts) q" for q
    using that by (rule covered_step) auto
  have r: "reached_file w start (Clean p)" using assms(1) by (simp add: collect_inv_def)
  have "(f \<in> insert (Clean p) seen \<and> map_of (cwFiles w) f = Some x) \<longleftrightarrow> (f \<in> seen \<and> map_of (cwFiles w) f = Some x)" for f x
    using assms(2) by auto
  then show ?thesis using assms c r unfolding collect_inv_def by auto
qed

lemma collect_inv_file:
  assumes inv: "collect_inv w start (ReadFile p # ts) seen aliases" and f: "map_of (cwFiles w) (Clean p) = Some (Decoded hosts)"
  shows "collect_inv w start (map ReadPath (fileIncludes w (Clean p) hosts) @ ts) (insert (Clean p) seen) (aliases \<union> fileAliases hosts)"
proof -
  let ?ts = "map ReadPath (fileIncludes w (Clean p) hosts) @ ts"
  have c: "covered w (insert (Clean p) seen) ?ts q" if "covered w seen (ReadFile p # ts) q" for q
    using that by (rule covered_step) auto
  have r: "reached_file w start (Clean p)" using inv by (simp add: collect_inv_def)
  have new: "covered w (insert (Clean p) seen) ?ts q" if "q \<in> set (fileIncludes w (Clean p) hosts)" for q
    using that by (simp add: covered_def)
  show ?thesis unfolding collect_inv_def
  proof (intro conjI)
    show "covered w (insert (Clean p) seen) ?ts start" using inv c by (simp add: collect_inv_def)
    show "\<forall>f' hosts' p'. f' \<in> insert (Clean p) seen \<longrightarrow> map_of (cwFiles w) f' = Some (Decoded hosts') \<longrightarrow>
        p' \<in> set (fileIncludes w f' hosts') \<longrightarrow> covered w (insert (Clean p) seen) ?ts p'"
      using inv c new f by (auto simp: collect_inv_def)
    show "\<forall>f' \<in> insert (Clean p) seen. reached_file w start f' \<and>
        (\<forall>err. map_of (cwFiles w) f' \<notin> {Some (Unreadable err), Some (Undecodable err)})"
      using inv r f by (auto simp: collect_inv_def)
    show "\<forall>t \<in> set ?ts. case t of ReadPath p \<Rightarrow> reached_path w start p | ReadFile m \<Rightarrow> reached_file w start (Clean m)"
      using inv reached_path_reached_file.included [OF r f] by (auto simp: collect_inv_def)
    show "aliases \<union> fileAliases hosts =
        {a. \<exists>f' hosts'. f' \<in> insert (Clean p) seen \<and> map_of (cwFiles w) f' = Some (Decoded hosts') \<and> a \<in> fileAliases hosts'}"
      using inv f by (auto simp: collect_inv_def)
  qed
qed

lemma collect_spec:
  "collect_inv w start ts seen aliases \<Longrightarrow>
   (case collect w ts seen aliases of
      Inl err \<Rightarrow> config_broken w start
    | Inr result \<Rightarrow> \<not> config_broken w start \<and> result = config_aliases w start)"
proof (induction w ts seen aliases rule: collect.induct)
  case (1 w seen aliases)
  then show ?case using collect_done [of w start seen aliases] by simp
next
  case (2 w p ts seen aliases)
  show ?case
  proof (cases "pathMatches w p")
    case None
    then show ?thesis using 2(2) by (auto simp: collect_inv_def config_broken_def)
  next
    case (Some ms)
    then show ?thesis using 2(1) [OF Some collect_inv_path [OF 2(2) Some]] by simp
  qed
next
  case (3 w p ts seen aliases)
  note inv = 3(4)
  have r: "reached_file w start (Clean p)" using inv by (simp add: collect_inv_def)
  show ?case
  proof (cases "Clean p \<in> seen")
    case True
    then have "collect_inv w start ts seen aliases" using collect_inv_skip [OF inv] by (simp add: insert_absorb)
    then show ?thesis using 3(1) True by simp
  next
    case False
    show ?thesis
    proof (cases "map_of (cwFiles w) (Clean p)")
      case None
      then show ?thesis using 3(2) [OF refl False None] collect_inv_skip [OF inv] False by simp
    next
      case (Some f)
      show ?thesis
      proof (cases f)
        case (Decoded hosts)
        then show ?thesis using 3(3) [OF refl False Some Decoded] collect_inv_file [OF inv, of hosts] Some False by (simp add: Let_def)
      qed (use Some False r in \<open>auto simp: config_broken_def\<close>)
    qed
  qed
qed

lemma collect_inv_start: "collect_inv w start [ReadPath start] {} {}"
  by (simp add: collect_inv_def covered_def reached_path_reached_file.begins)

text \<open>C28. Reading the aliases ends on every configuration, also when files include each other in a cycle, and
  finds exactly the concrete patterns of the \<open>Host\<close> lines of all files reachable through includes,
  sorted and without duplicates. It fails exactly when a reachable file cannot be read or parsed or
  a reachable pattern is malformed; \<open>HasAlias\<close> agrees with the list.\<close>

theorem aliases_of_reachable_files:
  assumes "path \<noteq> []"
  shows "(case Aliases w path of
      Inl err \<Rightarrow> config_broken w path
    | Inr as \<Rightarrow> \<not> config_broken w path \<and> set as = config_aliases w path \<and> sorted as \<and> distinct as) \<and>
    HasAlias w path target = map_sum id (\<lambda>as. target \<in> set as) (Aliases w path)"
proof -
  note spec = collect_spec [OF collect_inv_start, of w path]
  have fin: "finite A" if "collect w ts seen aliases = Inr A" "finite aliases" for ts seen aliases A
    using that by (induction w ts seen aliases rule: collect.induct)
      (auto simp: Let_def fileAliases_def split: option.splits config_file.splits if_splits)
  show ?thesis
  proof (cases "collect w [ReadPath path] {} {}")
    case (Inl err)
    then show ?thesis using spec assms by (simp add: Aliases_def HasAlias_def)
  next
    case (Inr A)
    then have "finite A" using fin by blast
    then show ?thesis using Inr spec assms by (simp add: Aliases_def HasAlias_def)
  qed
qed

text \<open>Two files that include each other.\<close>

definition cyclic_config :: config_world where
  "cyclic_config = \<lparr>cwHome = Some ''/h'', cwWd = ''/'', cwFiles =
     [(''/h/.ssh/config'', Decoded [\<lparr>hoString = ''Host web *.lan'', hoPatterns = [Some ''web'', Some ''*.lan''],
         hoNodes = [Include \<lparr>inString = ''Include work'', inComment = []\<rparr>, OtherNode]\<rparr>]),
      (''/h/.ssh/work'', Decoded [\<lparr>hoString = ''host=db'', hoPatterns = [Some ''db''],
         hoNodes = [Include \<lparr>inString = ''include = ~/.ssh/config'', inComment = []\<rparr>]\<rparr>])],
     cwGlob = (\<lambda>p. Some [p])\<rparr>"

theorem aliases_of_reachable_files_witness:
  "Aliases cyclic_config ''~/.ssh/config'' = Inr [''db'', ''web''] \<and>
   config_aliases cyclic_config ''~/.ssh/config'' = {''db'', ''web''} \<and> \<not> config_broken cyclic_config ''~/.ssh/config''"
proof -
  have c: "collect cyclic_config [ReadPath ''~/.ssh/config''] {} {} = Inr {''db'', ''web''}" by code_simp
  have "sorted_list_of_set {''db'', ''web''} = [''db'', ''web'']" by code_simp
  then have "Aliases cyclic_config ''~/.ssh/config'' = Inr [''db'', ''web'']" using c by (simp add: Aliases_def)
  then show ?thesis using aliases_of_reachable_files [where path = "''~/.ssh/config''" and w = cyclic_config] by auto
qed

end
