(* ===== verification/Docker.thy ===== *)
theory Docker
  imports Bootstrap SshConfig
begin

text \<open>
  Docker targets (\<open>internal/cli/docker.go\<close>, \<open>docker_transport.go\<close>): which destinations are containers, the list
  of containers, and the command lines of \<open>docker exec\<close>. \<open>net.ParseIP\<close> is a parameter (whether a string
  is an IP address); what docker prints and the aliases of the ssh configuration are arguments.
\<close>

subsection \<open>Containers\<close>

record docker_container =
  dcID :: string
  dcName :: string

definition parseContainerLine :: "string \<Rightarrow> docker_container list" where
  "parseContainerLine line =
     (let line = TrimSpace line in
      if line = [] then []
      else case Cut line CHR 0x09 of (cid, cname, ok) \<Rightarrow>
        if \<not> ok then []
        else let cid = TrimSpace cid; cname = TrimSpace cname in
             if cid = [] \<or> cname = [] then [] else [\<lparr>dcID = cid, dcName = cname\<rparr>])"

definition parseDockerContainers :: "string \<Rightarrow> docker_container list" where
  "parseDockerContainers out = concat (map parseContainerLine (fst (scanLines out)))"

definition shortDockerID :: "string \<Rightarrow> string" where
  "shortDockerID cid = (if length cid \<le> 12 then cid else take 12 cid)"

text \<open>An error, no container, or the container of the target.\<close>

definition matchDockerTarget :: "string \<Rightarrow> docker_container list \<Rightarrow> (string, docker_container option) result" where
  "matchDockerTarget target containers =
     (let idMatches = filter (\<lambda>c. HasPrefix (dcID c) target) containers in
      if length idMatches > 1 then
        Inl (''ambiguous container id prefix '' @ target @ '' matches '' @
          Join (sort (map (\<lambda>c. dcName c @ ''('' @ shortDockerID (dcID c) @ '')'') idMatches)) '', '')
      else if length idMatches = 1 then Inr (Some (hd idMatches))
      else Inr (List.find (\<lambda>c. dcName c = target) containers))"

definition explicitSSHTarget :: "(string \<Rightarrow> bool) \<Rightarrow> Parsed \<Rightarrow> bool" where
  "explicitSSHTarget isIP parsed =
     (if pTargetIndex parsed > 0 then True
      else
        let target = pTarget parsed; host = NormalizeTargetHost target in
        if Contains target CHR ''@'' \<or> HasPrefix target ''['' \<or> Contains target CHR '':'' \<or> Contains host CHR ''.'' then True
        else isIP host)"

definition resolveDockerTarget ::
  "(string \<Rightarrow> bool) \<Rightarrow> (string \<Rightarrow> (string, bool) result) \<Rightarrow> (string, string) result \<Rightarrow> Parsed \<Rightarrow> (string, docker_container option) result" where
  "resolveDockerTarget isIP hasAlias listing parsed =
     (if pTarget parsed = [] \<or> explicitSSHTarget isIP parsed then Inr None
      else case hasAlias (pTarget parsed) of
        Inl err \<Rightarrow> Inr None
      | Inr True \<Rightarrow> Inr None
      | Inr False \<Rightarrow>
          (case listing of
             Inl err \<Rightarrow> Inr None
           | Inr out \<Rightarrow> matchDockerTarget (pTarget parsed) (parseDockerContainers out)))"

subsection \<open>Command lines\<close>

definition dockerExecArgs :: "string \<Rightarrow> bool \<Rightarrow> string list \<Rightarrow> string list" where
  "dockerExecArgs container interactive command =
     [''exec'', if interactive then ''-it'' else ''-i'', container] @ command"

definition dockerExecInputArgs :: "string \<Rightarrow> string list \<Rightarrow> string list" where
  "dockerExecInputArgs container command = [''exec'', ''-i'', container] @ command"

definition dockerInternalExecArgs :: "string \<Rightarrow> string list \<Rightarrow> string list" where
  "dockerInternalExecArgs container command = [''exec'', container] @ command"

definition dockerShell :: "string \<Rightarrow> string list" where
  "dockerShell script = [''sh'', ''-lc'', script]"

definition defaultDockerShellScript :: "string \<Rightarrow> string \<Rightarrow> string" where
  \<open>defaultDockerShellScript execCmd interactiveFlag = Join
     [''if [ -n "$SHELL" ] && command -v "$SHELL" >/dev/null 2>&1; then '' @ execCmd @ '' "$SHELL" '' @ interactiveFlag @ ''; fi'',
      ''if command -v bash >/dev/null 2>&1; then '' @ execCmd @ '' bash '' @ interactiveFlag @ ''; fi'',
      ''if command -v sh >/dev/null 2>&1; then '' @ execCmd @ '' sh '' @ interactiveFlag @ ''; fi'',
      ''echo "sshx: no shell found in container" >&2'',
      ''exit 127''] NL\<close>

definition dockerLoginShell :: "string \<Rightarrow> string list" where
  \<open>dockerLoginShell remoteHome =
     [''sh'', ''-lc'', Join [remoteServerEnvScript remoteHome, ''mkdir -p "$SSHX_SERVER_HOME"'',
        defaultDockerShellScript ''exec'' ''-i''] NL]\<close>

definition dockerExecShell :: "string \<Rightarrow> string list \<Rightarrow> string list" where
  \<open>dockerExecShell remoteHome argv =
     (if length argv = 1 then [''sh'', ''-lc'', remoteServerEnvScript remoteHome @ ''; '' @ hd argv]
      else [''sh'', ''-lc'', remoteServerEnvScript remoteHome @ ''; exec "$@"'', ''sh''] @ argv)\<close>

definition defaultDockerShellCommand :: "string list" where
  "defaultDockerShellCommand = [''sh'', ''-lc'', defaultDockerShellScript ''exec'' ''-i'']"

definition dockerSessionArgs :: "Parsed \<Rightarrow> string \<Rightarrow> string \<Rightarrow> bool \<Rightarrow> string list" where
  "dockerSessionArgs parsed container remoteHome interactive =
     (if pRemoteCommand parsed = [] then dockerExecArgs container interactive (dockerLoginShell remoteHome)
      else dockerExecArgs container interactive (dockerExecShell remoteHome (pRemoteCommand parsed)))"

definition dockerPlainArgs :: "Parsed \<Rightarrow> string \<Rightarrow> bool \<Rightarrow> string list" where
  "dockerPlainArgs parsed container interactive =
     (if pRemoteCommand parsed = [] then dockerExecArgs container interactive defaultDockerShellCommand
      else dockerExecArgs container interactive (pRemoteCommand parsed))"

fun dockerTransport :: "string \<Rightarrow> boot_action \<Rightarrow> string list" where
  "dockerTransport container (OutputScript script) = dockerInternalExecArgs container (dockerShell script)"
| "dockerTransport container (ExecScript script) = dockerInternalExecArgs container (dockerShell script)"
| "dockerTransport container (ExecInputScript script file) = dockerExecInputArgs container (dockerShell script)"
| "dockerTransport container (DownloadBinary v asset) = []"

subsection \<open>Properties\<close>

definition docker_word :: "string \<Rightarrow> bool" where
  "docker_word s \<longleftrightarrow> s \<noteq> [] \<and> (\<forall>c \<in> set s. \<not> is_space c) \<and> length s < 1000"

definition docker_listing :: "docker_container list \<Rightarrow> string" where
  "docker_listing cs = Join (map (\<lambda>c. dcID c @ [CHR 0x09] @ dcName c) cs @ [[]]) NL"

lemma dropWhile_until: "c \<notin> set s \<Longrightarrow> dropWhile (\<lambda>x. x \<noteq> c) (s @ c # t) = c # t"
  by (subst dropWhile_append2) auto

lemma parseContainerLine_word:
  assumes "docker_word (dcID c)" "docker_word (dcName c)"
  shows "parseContainerLine (dcID c @ [CHR 0x09] @ dcName c) = [c]"
proof -
  let ?l = "dcID c @ [CHR 0x09] @ dcName c"
  have w: "\<And>x. x \<in> set (dcID c) \<Longrightarrow> \<not> is_space x" "\<And>x. x \<in> set (dcName c) \<Longrightarrow> \<not> is_space x" "dcID c \<noteq> []" "dcName c \<noteq> []"
    using assms by (auto simp: docker_word_def)
  have t: "TrimSpace ?l = ?l" unfolding TrimSpace_def by (rule TrimFunc_trimmed) (use w in auto)
  have "CHR 0x09 \<notin> set (dcID c)" using w(1) by (auto simp: is_space_def)
  then have "Cut ?l CHR 0x09 = (dcID c, dcName c, True)"
    by (simp add: Cut_def takeWhile_until dropWhile_until)
  moreover have "TrimSpace (dcID c) = dcID c" "TrimSpace (dcName c) = dcName c" using w by (auto intro: TrimSpace_id)
  ultimately show ?thesis using w t by (simp add: parseContainerLine_def Let_def)
qed

text \<open>The listing docker prints is read back.\<close>

lemma parseDockerContainers_listing:
  assumes "list_all (\<lambda>c. docker_word (dcID c) \<and> docker_word (dcName c)) cs"
  shows "parseDockerContainers (docker_listing cs) = cs"
proof -
  let ?line = "\<lambda>c. dcID c @ [CHR 0x09] @ dcName c"
  have line: "CHR 0x0A \<notin> set (?line c) \<and> length (?line c) < MaxScanTokenSize \<and> dropCR (?line c) = ?line c \<and> ?line c \<noteq> []"
    if "c \<in> set cs" for c
  proof -
    have w: "docker_word (dcID c)" "docker_word (dcName c)" using that assms by (auto simp: list_all_iff)
    then have "\<not> is_space (last (?line c))" "?line c \<noteq> []" by (auto simp: docker_word_def)
    then have "last (?line c) \<noteq> CHR 0x0D" by (auto simp: is_space_def)
    moreover have "CHR 0x0A \<notin> set (dcID c)" "CHR 0x0A \<notin> set (dcName c)" using w by (auto simp: docker_word_def is_space_def)
    moreover have "length (dcID c) < 1000" "length (dcName c) < 1000" using w by (simp_all add: docker_word_def)
    ultimately show ?thesis by (simp add: dropCR_def MaxScanTokenSize_def)
  qed
  define L where "L = map ?line cs"
  have "Split (docker_listing cs) CHR 0x0A = L @ [[]]"
    unfolding docker_listing_def L_def by (rule Split_Join) (use line in auto)
  moreover have "takeWhile (\<lambda>l. length l < MaxScanTokenSize) L = L"
    unfolding L_def by (rule takeWhile_id) (use line in auto)
  moreover have "map dropCR L = L" unfolding L_def using line by auto
  ultimately have "fst (scanLines (docker_listing cs)) = map ?line cs" by (simp add: scanLines_def Let_def takeWhile_id) (simp add: L_def)
  moreover have "concat (map parseContainerLine (map ?line ds)) = ds"
    if "list_all (\<lambda>c. docker_word (dcID c) \<and> docker_word (dcName c)) ds" for ds
    using that
  proof (induction ds)
    case (Cons d ds)
    then show ?case using parseContainerLine_word [of d] by simp
  qed simp
  ultimately show ?thesis using assms by (simp add: parseDockerContainers_def)
qed

text \<open>A plain destination that is no ssh alias is the container whose identifier begins with it, or, when none
  does, the first one of this name; it is refused when several identifiers begin with it, and it is an ssh
  destination in every other case, also when docker or the ssh configuration cannot be read.\<close>

theorem docker_target:
  assumes "list_all (\<lambda>c. docker_word (dcID c) \<and> docker_word (dcName c)) cs"
  shows "case resolveDockerTarget isIP hasAlias (Inr (docker_listing cs)) parsed of
      Inl err \<Rightarrow> length (filter (\<lambda>c. HasPrefix (dcID c) (pTarget parsed)) cs) > 1
    | Inr (Some c) \<Rightarrow> \<not> explicitSSHTarget isIP parsed \<and> hasAlias (pTarget parsed) = Inr False \<and> c \<in> set cs \<and>
        (if HasPrefix (dcID c) (pTarget parsed) then filter (\<lambda>c. HasPrefix (dcID c) (pTarget parsed)) cs = [c]
         else dcName c = pTarget parsed \<and> filter (\<lambda>c. HasPrefix (dcID c) (pTarget parsed)) cs = [])
    | Inr None \<Rightarrow> pTarget parsed = [] \<or> explicitSSHTarget isIP parsed \<or> hasAlias (pTarget parsed) \<noteq> Inr False \<or>
        (\<forall>c \<in> set cs. \<not> HasPrefix (dcID c) (pTarget parsed) \<and> dcName c \<noteq> pTarget parsed)"
proof -
  let ?m = "filter (\<lambda>c. HasPrefix (dcID c) (pTarget parsed)) cs"
  have p: "parseDockerContainers (docker_listing cs) = cs" using parseDockerContainers_listing [OF assms] .
  have nil: "c \<in> set cs \<Longrightarrow> \<not> HasPrefix (dcID c) (pTarget parsed)" if "?m = []" for c
    using that by (auto simp: filter_empty_conv)
  consider (ssh) "pTarget parsed = [] \<or> explicitSSHTarget isIP parsed \<or> hasAlias (pTarget parsed) \<noteq> Inr False"
    | (docker) "pTarget parsed \<noteq> []" "\<not> explicitSSHTarget isIP parsed" "hasAlias (pTarget parsed) = Inr False" by blast
  then show ?thesis
  proof cases
    case ssh
    then have "resolveDockerTarget isIP hasAlias (Inr (docker_listing cs)) parsed = Inr None"
      by (auto simp: resolveDockerTarget_def split: sum.splits bool.splits)
    then show ?thesis using ssh by auto
  next
    case docker
    then have r: "resolveDockerTarget isIP hasAlias (Inr (docker_listing cs)) parsed = matchDockerTarget (pTarget parsed) cs"
      by (simp add: resolveDockerTarget_def p)
    consider "length ?m > 1" | c where "?m = [c]" | "?m = []"
      by (cases ?m rule: list.exhaust; case_tac "tl ?m"; fastforce)
    then show ?thesis
    proof cases
      case 1
      then show ?thesis unfolding r by (simp add: matchDockerTarget_def)
    next
      case (2 c)
      then have "c \<in> set ?m" by simp
      then have "c \<in> set cs" "HasPrefix (dcID c) (pTarget parsed)" by auto
      then show ?thesis using 2 docker unfolding r by (simp add: matchDockerTarget_def)
    next
      case 3
      then have m: "matchDockerTarget (pTarget parsed) cs = Inr (List.find (\<lambda>c. dcName c = pTarget parsed) cs)"
        unfolding matchDockerTarget_def by simp
      have np: "\<forall>c \<in> set cs. \<not> HasPrefix (dcID c) (pTarget parsed)" using nil [OF 3] by blast
      show ?thesis
      proof (cases "List.find (\<lambda>c. dcName c = pTarget parsed) cs")
        case None
        then have "\<forall>c \<in> set cs. dcName c \<noteq> pTarget parsed" using find_NoneD by fastforce
        then show ?thesis using np unfolding r m None by simp
      next
        case (Some c)
        from find_SomeD [OF Some] have c: "c \<in> set cs" "dcName c = pTarget parsed" by blast+
        then show ?thesis using np docker 3 unfolding r m Some by simp
      qed
    qed
  qed
qed

theorem docker_target_witness:
  "resolveDockerTarget (\<lambda>_. False) (\<lambda>_. Inr False) (Inr (docker_listing [\<lparr>dcID = ''ab12'', dcName = ''web''\<rparr>, \<lparr>dcID = ''ab34'', dcName = ''db''\<rparr>]))
     (Parse [''db'', ''ls'']) = Inr (Some \<lparr>dcID = ''ab34'', dcName = ''db''\<rparr>) \<and>
   filter (\<lambda>c. HasPrefix (dcID c) ''db'') [\<lparr>dcID = ''ab12'', dcName = ''web''\<rparr>, \<lparr>dcID = ''ab34'', dcName = ''db''\<rparr>] = []"
proof -
  let ?cs = "[\<lparr>dcID = ''ab12'', dcName = ''web''\<rparr>, \<lparr>dcID = ''ab34'', dcName = ''db''\<rparr>]"
  have w: "list_all (\<lambda>c. docker_word (dcID c) \<and> docker_word (dcName c)) ?cs"
    by (simp add: docker_word_def is_space_def)
  have t: "pTarget (Parse [''db'', ''ls'']) = ''db''" by code_simp
  have e: "\<not> explicitSSHTarget (\<lambda>_. False) (Parse [''db'', ''ls''])" by code_simp
  have m: "matchDockerTarget ''db'' ?cs = Inr (Some \<lparr>dcID = ''ab34'', dcName = ''db''\<rparr>)" by code_simp
  have r: "resolveDockerTarget (\<lambda>_. False) (\<lambda>_. Inr False) (Inr (docker_listing ?cs)) (Parse [''db'', ''ls'']) =
      Inr (Some \<lparr>dcID = ''ab34'', dcName = ''db''\<rparr>)"
    using e m parseDockerContainers_listing [OF w] by (simp add: resolveDockerTarget_def t)
  have n: "\<not> HasPrefix ''ab34'' ''db''" by code_simp
  show ?thesis
    using docker_target [OF w, where isIP = "\<lambda>_. False" and hasAlias = "\<lambda>_. Inr False" and parsed = "Parse [''db'', ''ls'']"] n unfolding r t by simp
qed

text \<open>A command of several words reaches the container as these words, after the script that runs it.\<close>

lemma docker_command_words:
  assumes "length (pRemoteCommand parsed) > 1"
  shows "drop 7 (dockerSessionArgs parsed container home interactive) = pRemoteCommand parsed"
    and "drop 3 (dockerPlainArgs parsed container interactive) = pRemoteCommand parsed"
  using assms by (auto simp: dockerSessionArgs_def dockerPlainArgs_def dockerExecArgs_def dockerExecShell_def)

end
