(* ===== verification/Runner.thy ===== *)
theory Runner
  imports Docker
begin

text \<open>
  The decisions of the command (\<open>internal/cli/cli.go\<close>, \<open>timeout.go\<close>, \<open>exec.go\<close> and \<open>runDocker\<close> of \<open>docker.go\<close>):
  a run is its exit code with the effects it has, in order. What the outside does (the configuration,
  the control master, the remote server, the bridge, ssh itself) is the record \<open>run_env\<close> of outcomes;
  a deferred call is an effect after what it was deferred over.
\<close>

subsection \<open>The time limit of a command\<close>

definition maxDurationSeconds :: nat where "maxDurationSeconds = (2 ^ 63 - 1) div 1000000000"

text \<open>Nanoseconds; \<open>ParseDuration\<close> is \<open>time.ParseDuration\<close>.\<close>

definition parseCommandTimeout :: "(string \<Rightarrow> int option) \<Rightarrow> string \<Rightarrow> (string, int) result" where
  "parseCommandTimeout ParseDuration value =
     (if value = [] then Inl ''value is empty''
      else case ParseUint value 63 of
        Some seconds \<Rightarrow>
          (if seconds = 0 \<or> seconds > maxDurationSeconds then Inl ''duration must be greater than zero and fit in a duration''
           else Inr (int seconds * 1000000000))
      | None \<Rightarrow>
          (case ParseDuration value of
             None \<Rightarrow> Inl ''use seconds or a duration such as 500ms, 30s, or 2m''
           | Some timeout \<Rightarrow> (if timeout \<le> 0 then Inl ''duration must be greater than zero'' else Inr timeout)))"

definition commandTimeout :: "(string \<Rightarrow> int option) \<Rightarrow> Parsed \<Rightarrow> (string, int \<times> Parsed) result" where
  "commandTimeout ParseDuration parsed =
     (case pRemoteCommand parsed of
        [] \<Rightarrow> Inr (0, parsed)
      | arg0 # rest \<Rightarrow>
          (let limited = (\<lambda>value consumed.
             (case parseCommandTimeout ParseDuration value of
                Inl err \<Rightarrow> Inl (''invalid --timeout value '' @ value @ '': '' @ err)
              | Inr timeout \<Rightarrow>
                  (let remaining = drop consumed (arg0 # rest) in
                   if remaining = [] then Inl ''command is required after --timeout''
                   else Inr (timeout, parsed\<lparr>pRemoteCommand := remaining,
                          pArgs := take (nat (pTargetIndex parsed) + 1) (pArgs parsed) @ remaining\<rparr>))))
           in if HasPrefix arg0 ''--timeout='' then limited (TrimPrefix arg0 ''--timeout='') 1
              else if arg0 = ''--timeout'' then
                (if rest = [] then Inl ''--timeout requires a value'' else limited (hd rest) 2)
              else Inr (0, parsed)))"

subsection \<open>Running a command\<close>

datatype exec_outcome = Ran | ExitError int | ExecFailed string

text \<open>The outcome of the process and whether its context ran into the deadline.\<close>

definition execWithTimeout :: "exec_outcome \<times> bool \<Rightarrow> int \<Rightarrow> int" where
  "execWithTimeout outcome timeout =
     (case outcome of (Ran, _) \<Rightarrow> 0
      | (failed, deadline) \<Rightarrow>
          (if timeout > 0 \<and> deadline then 124
           else case failed of ExitError code \<Rightarrow> code | _ \<Rightarrow> 1))"

subsection \<open>The effects of a run\<close>

datatype run_action =
    Warn string
  | RunSSH "string list"
  | RunDocker "string list"
  | MakeControlDir string
  | RemoveControlDir string
  | StartMaster string
  | StopMaster string
  | BridgeUp
  | BridgeDown

record run_env =
  reAdapter :: "(string list \<Rightarrow> int) option"
  reSubcommand :: "string \<Rightarrow> string list \<Rightarrow> int"
  reLocal :: "string list \<Rightarrow> int \<Rightarrow> int"
  reParseDuration :: "string \<Rightarrow> int option"
  reDisabled :: bool
  reDefault :: "string option"
  reConfig :: "(string, ssh_config) result"
  reDocker :: "Parsed \<Rightarrow> (string, docker_container option) result"
  reVersion :: "string option"
  reIdentity :: "string list \<Rightarrow> (string, connection) result"
  reResolver :: "string option"
  reSidecar :: bool
  reControlPath :: "string \<Rightarrow> (string, string \<times> string) result"
  reMaster :: "string list \<Rightarrow> string \<Rightarrow> string option"
  reServer :: "string list \<Rightarrow> features \<Rightarrow> string \<Rightarrow> string option"
  reBridge :: "string \<Rightarrow> string list \<Rightarrow> string \<Rightarrow> (string, bridge_session) result"
  reHexsha :: "string \<Rightarrow> string"
  reMarshal :: "ssh_target \<Rightarrow> string"
  reSSH :: "string list \<Rightarrow> exec_outcome \<times> bool"
  reDockerServer :: "string \<Rightarrow> string \<Rightarrow> string option"
  reDockerBridge :: "string \<Rightarrow> string \<Rightarrow> string option"
  reDockerExec :: "string list \<Rightarrow> exec_outcome \<times> bool"
  reInteractive :: bool

type_synonym run = "int \<times> run_action list"

definition before :: "run_action list \<Rightarrow> run \<Rightarrow> run" where
  "before as r = (fst r, as @ snd r)"

definition deferred :: "run \<Rightarrow> run_action list \<Rightarrow> run" where
  "deferred r as = (fst r, snd r @ as)"

definition failRun :: "string \<Rightarrow> int \<Rightarrow> run" where
  "failRun message code = (code, [Warn message])"

definition execSSH :: "run_env \<Rightarrow> string list \<Rightarrow> int \<Rightarrow> run" where
  "execSSH e args timeout = (execWithTimeout (reSSH e args) timeout, [RunSSH args])"

definition execDocker :: "run_env \<Rightarrow> string list \<Rightarrow> int \<Rightarrow> run" where
  "execDocker e args timeout = (execWithTimeout (reDockerExec e args) timeout, [RunDocker args])"

subsection \<open>Enhanced sessions\<close>

text \<open>The warning about the proxy when the session falls back to plain ssh.\<close>

definition proxySkipped :: "ssh_config \<Rightarrow> string \<Rightarrow> string \<Rightarrow> run_action list" where
  "proxySkipped cfg target err =
     (if feProxy (cfFeatures cfg) then [Warn (''sshx: proxy skipped for '' @ target @ '': '' @ err)] else [])"

definition needsSession :: "ssh_config \<Rightarrow> bool" where
  "needsSession cfg = (cfStrict cfg \<or> feRemoteFS (cfFeatures cfg))"

definition runBridge :: "run_env \<Rightarrow> ssh_config \<Rightarrow> Parsed \<Rightarrow> int \<Rightarrow> string list \<Rightarrow> string \<Rightarrow> string \<Rightarrow> run" where
  "runBridge e cfg parsed timeout sshArgs controlPath remoteHome =
     (case reServer e sshArgs (cfFeatures cfg) remoteHome of
        Some err \<Rightarrow>
          (if needsSession cfg then failRun (''sshx: remote server unavailable for '' @ pTarget parsed @ '': '' @ err) 1
           else before (proxySkipped cfg (pTarget parsed) err) (execSSH e (pArgs parsed) timeout))
      | None \<Rightarrow>
          (if Enabled (cfFeatures cfg) then
             (case reBridge e (pTarget parsed) sshArgs remoteHome of
                Inl err \<Rightarrow>
                  (if needsSession cfg then failRun (''sshx: enhanced session unavailable for '' @ pTarget parsed @ '': '' @ err) 1
                   else before (proxySkipped cfg (pTarget parsed) err) (execSSH e (pArgs parsed) timeout))
              | Inr session \<Rightarrow>
                  (let session = (if bsControlPath session = [] then session\<lparr>bsControlPath := controlPath\<rparr> else session)
                   in before [BridgeUp]
                        (deferred (execSSH e (sessionSSHArgsForBridge parsed remoteHome (Some session)) timeout) [BridgeDown])))
           else execSSH e (sessionSSHArgsForBridge parsed remoteHome None) timeout))"

definition runWithMaster :: "run_env \<Rightarrow> ssh_config \<Rightarrow> Parsed \<Rightarrow> int \<Rightarrow> connection \<Rightarrow> string \<Rightarrow> run" where
  "runWithMaster e cfg parsed timeout connection remoteHome =
     (let sshArgs = baseSSHArgs parsed in
      if ownControlMaster (Enabled (cfFeatures cfg)) (reSidecar e) then
        (case reControlPath e (cnSessionID connection) of
           Inl err \<Rightarrow>
             (if needsSession cfg then failRun (''sshx: control master unavailable for '' @ pTarget parsed @ '': '' @ err) 1
              else before [Warn (''sshx: control master skipped: '' @ err)] (runBridge e cfg parsed timeout sshArgs [] remoteHome))
         | Inr (controlDir, controlPath) \<Rightarrow>
             (case reMaster e sshArgs controlPath of
                Some err \<Rightarrow>
                  before [MakeControlDir controlDir, RemoveControlDir controlDir]
                    (if needsSession cfg then failRun (''sshx: control master unavailable for '' @ pTarget parsed @ '': '' @ err) 1
                     else before [Warn (''sshx: control master skipped: '' @ err)] (runBridge e cfg parsed timeout sshArgs [] remoteHome))
              | None \<Rightarrow>
                  before [MakeControlDir controlDir, StartMaster controlPath]
                    (deferred (runBridge e cfg parsed timeout (controlSlaveArgs sshArgs controlPath) controlPath remoteHome)
                      [StopMaster controlPath, RemoveControlDir controlDir])))
      else runBridge e cfg parsed timeout sshArgs [] remoteHome)"

definition runIdentified :: "run_env \<Rightarrow> ssh_config \<Rightarrow> Parsed \<Rightarrow> int \<Rightarrow> run" where
  "runIdentified e cfg parsed timeout =
     (case reIdentity e (baseSSHArgs parsed) of
        Inl err \<Rightarrow>
          (if needsSession cfg then failRun (''sshx: target identity unavailable for '' @ pTarget parsed @ '': '' @ err) 1
           else before [Warn (''sshx: target identity skipped for '' @ pTarget parsed @ '': '' @ err)] (execSSH e (pArgs parsed) timeout))
      | Inr connection \<Rightarrow>
          (let remoteHome = remoteServerHome (reHexsha e) (cnTargetID connection) in
           case (if feAutoForward (cfFeatures cfg) then reResolver e else None) of
             Some err \<Rightarrow>
               (if cfStrict cfg then failRun (''sshx: resolver setup unavailable for '' @ pTarget parsed @ '': '' @ err) 1
                else before [Warn (''sshx: resolver setup skipped: '' @ err)] (runWithMaster e cfg parsed timeout connection remoteHome))
           | None \<Rightarrow> runWithMaster e cfg parsed timeout connection remoteHome))"

definition runEnhanced :: "run_env \<Rightarrow> ssh_config \<Rightarrow> Parsed \<Rightarrow> int \<Rightarrow> run" where
  "runEnhanced e cfg parsed timeout =
     (case reVersion e of
        Some err \<Rightarrow>
          (if cfStrict cfg then failRun (''sshx: version state unavailable: '' @ err) 1
           else before [Warn (''sshx: version state skipped: '' @ err)] (runIdentified e cfg parsed timeout))
      | None \<Rightarrow> runIdentified e cfg parsed timeout)"

subsection \<open>Docker targets\<close>

definition dockerBridged :: "run_env \<Rightarrow> ssh_config \<Rightarrow> Parsed \<Rightarrow> docker_container \<Rightarrow> int \<Rightarrow> run" where
  "dockerBridged e cfg parsed c timeout =
     (let remoteHome = remoteServerHome (reHexsha e)
            (TargetID (reHexsha e) (reMarshal e) \<lparr>tgUser = ''docker'', tgHostname = dcID c, tgPort = 1, tgHostKeyAlias = []\<rparr>);
          plain = execDocker e (dockerPlainArgs parsed (dcID c) (reInteractive e)) timeout
      in case reDockerServer e (dcID c) remoteHome of
           Some err \<Rightarrow>
             (if cfStrict cfg then failRun (''sshx: docker server unavailable for '' @ dcName c @ '': '' @ err) 1
              else before [Warn (''sshx: docker server skipped for '' @ dcName c @ '': '' @ err)] plain)
         | None \<Rightarrow>
             (case reDockerBridge e (dcID c) remoteHome of
                Some err \<Rightarrow>
                  (if cfStrict cfg then failRun (''sshx: docker command bridge unavailable for '' @ dcName c @ '': '' @ err) 1
                   else before [Warn (''sshx: docker command bridge skipped for '' @ dcName c @ '': '' @ err)] plain)
              | None \<Rightarrow>
                  before [BridgeUp]
                    (deferred (execDocker e (dockerSessionArgs parsed (dcID c) remoteHome (reInteractive e)) timeout) [BridgeDown])))"

definition runDocker :: "run_env \<Rightarrow> ssh_config \<Rightarrow> Parsed \<Rightarrow> docker_container \<Rightarrow> int \<Rightarrow> run" where
  "runDocker e cfg parsed c timeout =
     (if feProxy (cfFeatures cfg) \<and> cfStrict cfg then failRun ''sshx: proxy does not support Docker targets'' 1
      else before (if feProxy (cfFeatures cfg) then [Warn ''sshx: proxy skipped for Docker target''] else [])
        (if feRemoteFS (cfFeatures cfg) then failRun ''sshx: remoteFs does not support Docker targets yet'' 1
         else if feCommandBridge (cfFeatures cfg) then
           (case reVersion e of
              Some err \<Rightarrow>
                (if cfStrict cfg then failRun (''sshx: version state unavailable: '' @ err) 1
                 else before [Warn (''sshx: version state skipped: '' @ err)] (dockerBridged e cfg parsed c timeout))
            | None \<Rightarrow> dockerBridged e cfg parsed c timeout)
         else execDocker e (dockerPlainArgs parsed (dcID c) (reInteractive e)) timeout))"

subsection \<open>The command line\<close>

definition runTarget :: "run_env \<Rightarrow> Parsed \<Rightarrow> int \<Rightarrow> run" where
  "runTarget e parsed timeout =
     (if pTarget parsed = ''local'' then (reLocal e (pRemoteCommand parsed) timeout, [])
      else if pNoWrap parsed then execSSH e (pArgs parsed) timeout
      else if reDisabled e \<or> pInfoMode parsed \<or> pTarget parsed = [] then execSSH e (pArgs parsed) timeout
      else case reDefault e of
        Some err \<Rightarrow> failRun (''sshx: config error: '' @ err) 2
      | None \<Rightarrow>
          (case reConfig e of
             Inl err \<Rightarrow> failRun (''sshx: config error: '' @ err) 2
           | Inr cfg \<Rightarrow>
               (case reDocker e parsed of
                  Inl err \<Rightarrow> failRun (''sshx: docker target: '' @ err) 1
                | Inr (Some c) \<Rightarrow> runDocker e cfg parsed c timeout
                | Inr None \<Rightarrow>
                    (if \<not> Enabled (cfFeatures cfg) then execSSH e (pArgs parsed) timeout
                     else runEnhanced e cfg parsed timeout))))"

definition subcommands :: "string list" where
  "subcommands = [''integrate'', ''runtime-id'', ''server'', ''bridge-client'', ''socket-proxy'', ''mux-proxy'', ''local-daemon'',
     ''install-resolver'', ''forward'', ''forwrad'', ''ps'']"

definition Run :: "run_env \<Rightarrow> string list \<Rightarrow> run" where
  "Run e args =
     (case reAdapter e of
        Some adapter \<Rightarrow> (adapter args, [])
      | None \<Rightarrow>
          (if args = [''--version''] \<or> args = [''--help''] then (reSubcommand e (hd args) [], [])
           else if args \<noteq> [] \<and> hd args \<in> set subcommands then (reSubcommand e (hd args) (tl args), [])
           else case commandTimeout (reParseDuration e) (Parse args) of
             Inl err \<Rightarrow> failRun (''sshx: '' @ err) 2
           | Inr (timeout, parsed) \<Rightarrow> runTarget e parsed timeout))"


subsection \<open>What a run leaves behind\<close>

fun is_warning :: "run_action \<Rightarrow> bool" where
  "is_warning (Warn m) = True"
| "is_warning _ = False"

definition effects :: "run_action list \<Rightarrow> run_action list" where
  "effects as = filter (\<lambda>a. \<not> is_warning a) as"

lemma effects_simps [simp]:
  "effects [] = []" "effects (a # as) = (if is_warning a then effects as else a # effects as)" "effects (as @ bs) = effects as @ effects bs"
  by (simp_all add: effects_def)

lemma before_simps [simp]: "fst (before as r) = fst r" "snd (before as r) = as @ snd r"
  by (simp_all add: before_def)

lemma deferred_simps [simp]: "fst (deferred r as) = fst r" "snd (deferred r as) = snd r @ as"
  by (simp_all add: deferred_def)

lemma failRun_simps [simp]: "fst (failRun m c) = c" "effects (snd (failRun m c)) = []"
  by (simp_all add: failRun_def)

lemma exec_simps [simp]:
  "fst (execSSH e args t) = execWithTimeout (reSSH e args) t" "snd (execSSH e args t) = [RunSSH args]"
  "fst (execDocker e args t) = execWithTimeout (reDockerExec e args) t" "snd (execDocker e args t) = [RunDocker args]"
  by (simp_all add: execSSH_def execDocker_def)

lemma proxySkipped_effects [simp]: "effects (proxySkipped cfg t err) = []"
  by (simp add: proxySkipped_def)

text \<open>At most one ssh or docker process, inside the bridge if there is one; a control master and its directory
  around it, the master stopped before its directory is removed.\<close>

definition orderly_core :: "run_action list \<Rightarrow> bool" where
  "orderly_core as \<longleftrightarrow> as = [] \<or> (\<exists>args. as \<in> {[RunSSH args], [BridgeUp, RunSSH args, BridgeDown], [RunDocker args], [BridgeUp, RunDocker args, BridgeDown]})"

definition orderly :: "run_action list \<Rightarrow> bool" where
  "orderly as \<longleftrightarrow> (\<exists>core. orderly_core core \<and>
     (as = core \<or> (\<exists>dir. as = [MakeControlDir dir, RemoveControlDir dir] @ core) \<or>
      (\<exists>dir path. as = [MakeControlDir dir, StartMaster path] @ core @ [StopMaster path, RemoveControlDir dir])))"

lemma orderly_coreI: "orderly_core as \<Longrightarrow> orderly as"
  by (auto simp: orderly_def)

lemma runBridge_core: "orderly_core (effects (snd (runBridge e cfg parsed t sshArgs path home)))"
  by (auto simp: runBridge_def orderly_core_def Let_def split: option.splits sum.splits)

lemma runWithMaster_orderly: "orderly (effects (snd (runWithMaster e cfg parsed t c home)))"
proof -
  note core = runBridge_core [of e cfg parsed t]
  have nil: "orderly_core []" by (simp add: orderly_core_def)
  show ?thesis
  proof (cases "ownControlMaster (Enabled (cfFeatures cfg)) (reSidecar e)")
    case False
    then show ?thesis using core by (auto simp: runWithMaster_def intro: orderly_coreI)
  next
    case True
    show ?thesis
    proof (cases "reControlPath e (cnSessionID c)")
      case (Inl err)
      then show ?thesis using True core nil by (auto simp: runWithMaster_def Let_def intro: orderly_coreI)
    next
      case (Inr dp)
      obtain d p where dp: "dp = (d, p)" by (cases dp)
      show ?thesis
      proof (cases "reMaster e (baseSSHArgs parsed) p")
        case None
        then show ?thesis using True Inr dp core by (auto simp: runWithMaster_def Let_def orderly_def)
      next
        case (Some err)
        then show ?thesis using True Inr dp core nil by (auto simp: runWithMaster_def Let_def orderly_def)
      qed
    qed
  qed
qed

lemma runEnhanced_orderly: "orderly (effects (snd (runEnhanced e cfg parsed t)))"
  using runWithMaster_orderly [of e cfg parsed t]
  by (auto simp: runEnhanced_def runIdentified_def Let_def orderly_core_def intro!: orderly_coreI split: option.splits sum.splits)

lemma runDocker_orderly: "orderly (effects (snd (runDocker e cfg parsed c t)))"
  by (rule orderly_coreI)
    (auto simp: runDocker_def dockerBridged_def Let_def orderly_core_def split: option.splits sum.splits)

lemma runTarget_orderly: "orderly (effects (snd (runTarget e parsed t)))"
  using runEnhanced_orderly [of e _ parsed t] runDocker_orderly [of e _ parsed _ t]
  by (auto simp: runTarget_def orderly_core_def intro!: orderly_coreI split: option.splits sum.splits)


subsection \<open>Falling back\<close>

fun ssh_call :: "run_action \<Rightarrow> string list list" where
  "ssh_call (RunSSH args) = [args]"
| "ssh_call _ = []"

definition ssh_calls :: "run_action list \<Rightarrow> string list list" where
  "ssh_calls as = concat (map ssh_call as)"

lemma ssh_calls_simps [simp]:
  "ssh_calls [] = []" "ssh_calls (a # as) = ssh_call a @ ssh_calls as" "ssh_calls (as @ bs) = ssh_calls as @ ssh_calls bs"
  by (simp_all add: ssh_calls_def)

lemma proxySkipped_calls [simp]: "ssh_calls (proxySkipped cfg t err) = []"
  by (simp add: proxySkipped_def)

lemma failRun_calls [simp]: "ssh_calls (snd (failRun m c)) = []"
  by (simp add: failRun_def)

text \<open>What a run does about ssh: plainly, in a session, or not at all.\<close>

definition decides :: "run_env \<Rightarrow> ssh_config \<Rightarrow> Parsed \<Rightarrow> int \<Rightarrow> run \<Rightarrow> bool" where
  "decides e cfg parsed timeout r \<longleftrightarrow>
     (case ssh_calls (snd r) of
        [] \<Rightarrow> needsSession cfg \<and> fst r = 1
      | [args] \<Rightarrow> fst r = execWithTimeout (reSSH e args) timeout \<and>
          ((\<exists>home s. args = sessionSSHArgsForBridge parsed home (Some s)) \<or> \<not> needsSession cfg \<and> args = pArgs parsed)
      | _ \<Rightarrow> False)"

lemma runBridge_decides: "Enabled (cfFeatures cfg) \<Longrightarrow> decides e cfg parsed t (runBridge e cfg parsed t sshArgs path home)"
  by (auto simp: decides_def runBridge_def Let_def split: option.splits sum.splits)

lemma decides_simps [simp]:
  "decides e cfg parsed t (before [Warn m] r) = decides e cfg parsed t r"
  "decides e cfg parsed t (before [MakeControlDir d, a] r) = decides e cfg parsed t (before [a] r)"
  "decides e cfg parsed t (before [RemoveControlDir d] r) = decides e cfg parsed t r"
  "decides e cfg parsed t (before [StartMaster p] r) = decides e cfg parsed t r"
  "decides e cfg parsed t (deferred r [StopMaster p, RemoveControlDir d]) = decides e cfg parsed t r"
  by (simp_all add: decides_def split: list.splits)

lemma decides_fail: "needsSession cfg \<Longrightarrow> decides e cfg parsed t (failRun m 1)"
  by (simp add: decides_def)

lemma decides_plain: "\<not> needsSession cfg \<Longrightarrow> decides e cfg parsed t (execSSH e (pArgs parsed) t)"
  by (simp add: decides_def)

lemma runWithMaster_decides:
  "Enabled (cfFeatures cfg) \<Longrightarrow> decides e cfg parsed t (runWithMaster e cfg parsed t c home)"
  by (auto simp: runWithMaster_def Let_def runBridge_decides decides_fail split: sum.splits option.splits prod.splits)



subsection \<open>Time limits\<close>

lemma parseCommandTimeout_positive: "parseCommandTimeout P value = Inr timeout \<Longrightarrow> 0 < timeout"
  by (auto simp: parseCommandTimeout_def split: if_splits option.splits)

lemma parseCommandTimeout_seconds:
  "ParseUint value 63 = Some seconds \<Longrightarrow> parseCommandTimeout P value = Inr timeout \<Longrightarrow>
   timeout = int seconds * 1000000000 \<and> timeout < 2 ^ 63"
  by (auto simp: parseCommandTimeout_def maxDurationSeconds_def split: if_splits)

lemma Parse_base:
  "0 \<le> pTargetIndex (Parse args) \<Longrightarrow>
   pArgs (Parse args) = baseSSHArgs (Parse args) @ pRemoteCommand (Parse args) \<and>
   nat (pTargetIndex (Parse args)) < length (pArgs (Parse args))"
proof -
  assume i: "0 \<le> pTargetIndex (Parse args)"
  define L n where "L = pArgs (Parse args)" and "n = nat (pTargetIndex (Parse args))"
  have l: "n < length L" "L = take n L @ pTarget (Parse args) # pRemoteCommand (Parse args)"
    using found_split [OF Parse_found [OF i]] by (simp_all only: L_def n_def)
  have "take (Suc n) L = take (Suc n) (take n L @ pTarget (Parse args) # pRemoteCommand (Parse args))"
    using l(2) by (rule arg_cong)
  also have "\<dots> = take n L @ [pTarget (Parse args)]" using l(1) by simp
  finally have "L = take (Suc n) L @ pRemoteCommand (Parse args)" using l(2) by simp
  moreover have "baseSSHArgs (Parse args) = take (Suc n) L"
  proof -
    have "\<not> (pTargetIndex (Parse args) < 0 \<or> pTargetIndex (Parse args) \<ge> int (length L))" using i l(1) unfolding n_def by linarith
    then show ?thesis unfolding baseSSHArgs_def L_def [symmetric] by (simp add: n_def)
  qed
  ultimately show ?thesis using l(1) unfolding L_def n_def by metis
qed

definition limit_off :: "Parsed \<Rightarrow> int \<times> Parsed \<Rightarrow> bool" where
  "limit_off p tq \<longleftrightarrow> (case tq of (timeout, q) \<Rightarrow>
     pTarget q = pTarget p \<and> baseSSHArgs q = baseSSHArgs p \<and> 0 < timeout \<and> pRemoteCommand q \<noteq> [] \<and>
     pArgs q = baseSSHArgs q @ pRemoteCommand q \<and> (\<exists>n. pRemoteCommand q = drop n (pRemoteCommand p)))"

lemma limit_off_taken:
  assumes "0 \<le> pTargetIndex p" "nat (pTargetIndex p) < length (pArgs p)" "0 < timeout" "drop n (pRemoteCommand p) \<noteq> []"
  shows "limit_off p (timeout, p\<lparr>pRemoteCommand := drop n (pRemoteCommand p),
     pArgs := take (nat (pTargetIndex p) + 1) (pArgs p) @ drop n (pRemoteCommand p)\<rparr>)"
proof -
  have "nat (pTargetIndex p) + 1 \<le> length (pArgs p)" "pTargetIndex p < int (length (pArgs p))" using assms(1,2) by linarith+
  then have "baseSSHArgs (p\<lparr>pRemoteCommand := drop n (pRemoteCommand p),
     pArgs := take (nat (pTargetIndex p) + 1) (pArgs p) @ drop n (pRemoteCommand p)\<rparr>) = take (nat (pTargetIndex p) + 1) (pArgs p)"
    "baseSSHArgs p = take (nat (pTargetIndex p) + 1) (pArgs p)"
    using assms(1) by (simp_all add: baseSSHArgs_def)
  then show ?thesis using assms(3,4) by (auto simp: limit_off_def)
qed

text \<open>A time limit is taken off the front of the remote command and nothing else changes: the options and the
  destination stay, a command remains, and the limit is positive; without one the line is as it was.\<close>

lemma timeout_taken_off:
  "case commandTimeout P (Parse args) of
     Inl err \<Rightarrow> pRemoteCommand (Parse args) \<noteq> []
   | Inr (timeout, p) \<Rightarrow> (timeout, p) = (0, Parse args) \<or> limit_off (Parse args) (timeout, p)"
proof -
  define p where "p = Parse args"
  have "case commandTimeout P p of Inl err \<Rightarrow> pRemoteCommand p \<noteq> [] | Inr tq \<Rightarrow> tq = (0, p) \<or> limit_off p tq"
  proof (cases "pRemoteCommand p")
    case Nil
    then show ?thesis by (simp add: commandTimeout_def)
  next
    case (Cons a rest)
    then have i: "0 \<le> pTargetIndex p" using Parse_not_found [of args] unfolding p_def by force
    then have l: "nat (pTargetIndex p) < length (pArgs p)" using Parse_base [of args] unfolding p_def by blast
    have off: "limit_off p (t, p\<lparr>pRemoteCommand := drop n (a # rest), pArgs := take (nat (pTargetIndex p) + 1) (pArgs p) @ drop n (a # rest)\<rparr>)"
      if "parseCommandTimeout P v = Inr t" "drop n (a # rest) \<noteq> []" for t v n
      using limit_off_taken [OF i l parseCommandTimeout_positive [OF that(1)], of n] that(2) Cons by simp
    show ?thesis
      unfolding commandTimeout_def Cons using off [where n = 1] off [where n = 2] by (auto simp: Let_def split: sum.splits)
  qed
  then show ?thesis unfolding p_def by (auto split: sum.splits)
qed

end
