(* ===== verification/Integration.thy ===== *)
theory Integration
  imports Config Layout
begin

text \<open>
  The installation of the editor integrations (\<open>internal/integration/integration.go\<close>, \<open>jsonc.go\<close>,
  \<open>parseIntegrateInstallArgs\<close> of \<open>internal/cli/integrate.go\<close>): profiles, descriptors, the search for
  the upstream ssh and scp behind installed shims, and the installation as a transaction on the profile
  directory and the editor's settings. The JSON library is the record \<open>hujson\<close> of its operations; the
  outcome of each file operation is an argument.
\<close>

subsection \<open>Profiles and descriptors\<close>

definition ParseProfile :: "string \<Rightarrow> (string, string) result" where
  "ParseProfile v =
     (let p = ToLower (TrimSpace v) in
      if p = ''vscode'' \<or> p = ''cursor'' then Inr p
      else Inl (''unsupported integration '' @ v @ '' (expected vscode or cursor)''))"

definition isProfileAlphaNumeric :: "char \<Rightarrow> bool" where
  "isProfileAlphaNumeric c = (let n = of_char c :: nat in (97 \<le> n \<and> n \<le> 122) \<or> (48 \<le> n \<and> n \<le> 57))"

definition validProfile :: "string \<Rightarrow> bool" where
  "validProfile v =
     (if length v = 0 \<or> length v > 64 \<or> v = ''.'' \<or> v = ''..'' then False
      else isProfileAlphaNumeric (hd v) \<and>
        list_all (\<lambda>c. isProfileAlphaNumeric c \<or> c = CHR ''-'' \<or> c = CHR ''_'' \<or> c = CHR ''.'') v)"

record descriptor =
  deSchema :: int
  deProfile :: string
  deSSHPath :: string
  deSCPPath :: string
  deDriverPath :: string
  deSettings :: string
  dePreviousSSH :: string
  deInstalledAt :: string

definition ReadDescriptor :: "(string \<Rightarrow> (string, descriptor) result) \<Rightarrow> file_content \<Rightarrow> (string, descriptor) result" where
  "ReadDescriptor unmarshal f =
     (case f of
        Missing \<Rightarrow> Inl ''file does not exist''
      | Refused err \<Rightarrow> Inl err
      | Content b \<Rightarrow>
          (case unmarshal b of
             Inl err \<Rightarrow> Inl err
           | Inr d \<Rightarrow>
               (if deSchema d \<noteq> 1 \<or> \<not> validProfile (deProfile d) \<or> deSSHPath d = [] \<or> deSCPPath d = []
                then Inl ''invalid sshx integration descriptor'' else Inr d)))"

definition DefaultRoot :: "string \<Rightarrow> string \<Rightarrow> string" where
  "DefaultRoot overrideDir home =
     (if overrideDir \<noteq> [] then overrideDir else JoinPath (JoinPath home ''.sshx'') ''integrations'')"

definition joinAll :: "string \<Rightarrow> string list \<Rightarrow> string" where
  "joinAll path names = foldl JoinPath path names"

text \<open>The settings file: home directory, operating system, \<open>ConfigHome\<close> and \<open>XDG_CONFIG_HOME\<close>.\<close>

definition SettingsPath :: "string \<Rightarrow> string option \<Rightarrow> string \<Rightarrow> string \<Rightarrow> string \<Rightarrow> (string, string) result" where
  "SettingsPath profile userHome goos configHome xdg =
     (case userHome of
        None \<Rightarrow> Inl ''resolve user home directory''
      | Some home \<Rightarrow>
          (let product = (if profile = ''cursor'' then ''Cursor'' else ''Code'') in
           if home = [] then Inl ''resolve user home directory''
           else if goos = ''darwin'' then
             Inr (joinAll home [''Library'', ''Application Support'', product, ''User'', ''settings.json''])
           else if goos = ''linux'' then
             (let configHome = (if configHome = [] then xdg else configHome);
                  configHome = (if configHome = [] then JoinPath home ''.config'' else configHome)
              in Inr (joinAll configHome [product, ''User'', ''settings.json'']))
           else Inl (profile @ '' integration is unsupported on '' @ goos)))"

subsection \<open>The JSON settings\<close>

definition jsonPointer :: "string \<Rightarrow> string" where
  "jsonPointer key = ''/'' @ ReplaceAll (ReplaceAll key (CHR ''~'') ''~0'') (CHR ''/'') ''~1''"

record 'v hujson =
  hjParse :: "string \<Rightarrow> (string, 'v) result"
  hjIsObject :: "'v \<Rightarrow> bool"
  hjFind :: "'v \<Rightarrow> string \<Rightarrow> 'v option"
  hjString :: "'v \<Rightarrow> string option"
  hjAdd :: "'v \<Rightarrow> string \<Rightarrow> string \<Rightarrow> (string, 'v) result"
  hjPack :: "'v \<Rightarrow> string"

definition parseObject :: "'v hujson \<Rightarrow> string \<Rightarrow> (string, 'v) result" where
  "parseObject lib src =
     (case hjParse lib src of
        Inl err \<Rightarrow> Inl err
      | Inr v \<Rightarrow> (if hjIsObject lib v then Inr v else Inl ''settings root must be a JSON object''))"

definition StringProperty :: "'v hujson \<Rightarrow> string \<Rightarrow> string \<Rightarrow> (string, string \<times> bool) result" where
  "StringProperty lib src key =
     (case parseObject lib src of
        Inl err \<Rightarrow> Inl err
      | Inr v \<Rightarrow>
          (case hjFind lib v (jsonPointer key) of
             None \<Rightarrow> Inr ([], False)
           | Some item \<Rightarrow>
               (case hjString lib item of None \<Rightarrow> Inl (key @ '' must be a string'') | Some s \<Rightarrow> Inr (s, True))))"

definition SetStringProperty :: "'v hujson \<Rightarrow> string \<Rightarrow> string \<Rightarrow> string \<Rightarrow> (string, string) result" where
  "SetStringProperty lib src key v =
     (case parseObject lib src of
        Inl err \<Rightarrow> Inl err
      | Inr obj \<Rightarrow> (case hjAdd lib obj (jsonPointer key) v of Inl err \<Rightarrow> Inl err | Inr obj' \<Rightarrow> Inr (hjPack lib obj')))"

subsection \<open>The clients behind a shim\<close>

text \<open>What the search sees: the working directory, the files of descriptors, \<open>PATH\<close>, which paths are
  executable files, what a client prints for \<open>-V\<close>, and which paths are the same file.\<close>

record client_world =
  cwdDir :: string
  cwDescriptor :: "string \<Rightarrow> (string, descriptor) result"
  cwLookPath :: "string \<Rightarrow> string option"
  cwExecutable :: "string \<Rightarrow> bool"
  cwVersion :: "string \<Rightarrow> string"
  cwSame :: "string \<Rightarrow> string \<Rightarrow> bool"

definition samePath :: "client_world \<Rightarrow> string \<Rightarrow> string \<Rightarrow> bool" where
  "samePath w a b =
     (if a = [] \<or> b = [] then False
      else let aa = Abs (cwdDir w) a; bb = Abs (cwdDir w) b in cwSame w aa bb)"

definition DescriptorForInvocation :: "client_world \<Rightarrow> string \<Rightarrow> (string, descriptor) result" where
  "DescriptorForInvocation w invocation =
     (let invocation = (if Contains invocation CHR ''/'' then invocation
            else case cwLookPath w invocation of Some resolved \<Rightarrow> resolved | None \<Rightarrow> invocation);
          abs = Abs (cwdDir w) invocation
      in cwDescriptor w (JoinPath (Dir (Dir abs)) ''integration.json''))"

fun unwrap_loop :: "client_world \<Rightarrow> bool \<Rightarrow> nat \<Rightarrow> string list \<Rightarrow> string \<Rightarrow> (string, string) result" where
  "unwrap_loop w scp 0 seen path = Inl ''sshx integration shim chain is too deep''"
| "unwrap_loop w scp (Suc n) seen path =
     (let abs = Abs (cwdDir w) path in
      if abs \<in> set seen then Inl ''recursive sshx integration shim''
      else case DescriptorForInvocation w abs of
        Inl err \<Rightarrow> Inr abs
      | Inr d \<Rightarrow>
          (let path = (if scp then deSCPPath d else deSSHPath d) in
           if path = [] then Inl ''sshx integration shim has no upstream client''
           else unwrap_loop w scp n (abs # seen) path))"

definition unwrapIntegrationClient :: "client_world \<Rightarrow> string \<Rightarrow> bool \<Rightarrow> (string, string) result" where
  "unwrapIntegrationClient w path scp = unwrap_loop w scp 8 [] path"

definition ContainsString :: "string \<Rightarrow> string \<Rightarrow> bool" where
  "ContainsString s t = list_ex (\<lambda>i. HasPrefix (drop i s) t) [0..<length s + 1]"

fun findOpenSSH_loop :: "client_world \<Rightarrow> string \<Rightarrow> string list \<Rightarrow> string list \<Rightarrow> (string, string) result" where
  "findOpenSSH_loop w executable seen [] = Inl ''a usable OpenSSH client was not found''"
| "findOpenSSH_loop w executable seen (candidate # rest) =
     (if candidate = [] then findOpenSSH_loop w executable seen rest
      else case unwrapIntegrationClient w candidate False of
        Inl err \<Rightarrow> findOpenSSH_loop w executable seen rest
      | Inr candidate \<Rightarrow>
          (let abs = Abs (cwdDir w) candidate in
           if abs \<in> set seen \<or> samePath w abs executable then findOpenSSH_loop w executable seen rest
           else if \<not> cwExecutable w abs then findOpenSSH_loop w executable (abs # seen) rest
           else if ContainsString (cwVersion w abs) ''OpenSSH'' then Inr abs
           else findOpenSSH_loop w executable (abs # seen) rest))"

definition findOpenSSH :: "client_world \<Rightarrow> string \<Rightarrow> string \<Rightarrow> (string, string) result" where
  "findOpenSSH w preferred executable =
     findOpenSSH_loop w executable [] (preferred # (case cwLookPath w ''ssh'' of Some p \<Rightarrow> [p] | None \<Rightarrow> []))"

fun findSCP_loop :: "client_world \<Rightarrow> string \<Rightarrow> string list \<Rightarrow> (string, string) result" where
  "findSCP_loop w executable [] = Inl ''a usable OpenSSH scp client was not found''"
| "findSCP_loop w executable (candidate # rest) =
     (case unwrapIntegrationClient w candidate True of
        Inl err \<Rightarrow> findSCP_loop w executable rest
      | Inr candidate \<Rightarrow>
          (let abs = Abs (cwdDir w) candidate in
           if samePath w abs executable then findSCP_loop w executable rest
           else if cwExecutable w abs then Inr abs
           else findSCP_loop w executable rest))"

definition findSCP :: "client_world \<Rightarrow> string \<Rightarrow> string \<Rightarrow> (string, string) result" where
  "findSCP w sshPath executable =
     findSCP_loop w executable (JoinPath (Dir sshPath) ''scp'' # (case cwLookPath w ''scp'' of Some p \<Rightarrow> [p] | None \<Rightarrow> []))"

subsection \<open>The staging directory\<close>

text \<open>\<open>atomicWrite\<close> writes a temporary file and renames it: the errors of its steps in order, the file before and after.\<close>

definition atomicWrite :: "string option list \<Rightarrow> string \<Rightarrow> nat \<Rightarrow> (string \<times> nat) option \<Rightarrow> string option \<times> (string \<times> nat) option" where
  "atomicWrite steps bytes mode old =
     (case List.find (\<lambda>e. e \<noteq> None) steps of
        Some err \<Rightarrow> (err, old)
      | None \<Rightarrow> (None, Some (bytes, mode)))"

text \<open>What \<open>Stat\<close>, \<open>Lstat\<close>, \<open>EvalSymlinks\<close> and \<open>ReadDescriptor\<close> say of the staging directory: directories and
  regular files with their permissions, symbolic links, their targets.\<close>

record staged_view =
  svDir :: "string \<Rightarrow> (bool \<times> nat) option"
  svSymlink :: "string \<Rightarrow> bool"
  svResolved :: "string \<Rightarrow> string option"
  svFile :: "string \<Rightarrow> (bool \<times> nat) option"
  svDescriptor :: "string \<Rightarrow> (string, descriptor) result"

definition validateDir :: "staged_view \<Rightarrow> string \<Rightarrow> string option" where
  "validateDir v dir =
     (case svDir v dir of
        Some (True, mode) \<Rightarrow> (if mode = 448 then None else Some (''integration directory permissions are invalid: '' @ dir))
      | _ \<Rightarrow> Some (''integration directory permissions are invalid: '' @ dir))"

definition validateShim :: "client_world \<Rightarrow> staged_view \<Rightarrow> string \<Rightarrow> string \<Rightarrow> string \<Rightarrow> string option" where
  "validateShim w v root executable name =
     (let path = joinAll root [''bin'', name] in
      if \<not> svSymlink v path then Some (''integration '' @ name @ '' shim is not a symlink'')
      else case svResolved v path of
          None \<Rightarrow> Some (''integration '' @ name @ '' shim does not invoke the current sshx binary'')
        | Some resolved \<Rightarrow>
            (if samePath w resolved executable then None
             else Some (''integration '' @ name @ '' shim does not invoke the current sshx binary'')))"

definition validateProfile :: "client_world \<Rightarrow> staged_view \<Rightarrow> string \<Rightarrow> string \<Rightarrow> descriptor \<Rightarrow> string option" where
  "validateProfile w v root executable de =
     (case List.find (\<lambda>e. e \<noteq> None)
             [validateDir v root, validateDir v (JoinPath root ''bin''),
              validateShim w v root executable ''ssh'', validateShim w v root executable ''scp''] of
        Some err \<Rightarrow> err
      | None \<Rightarrow>
          (let descriptorPath = JoinPath root ''integration.json'' in
           if svFile v descriptorPath \<noteq> Some (True, 384) then Some ''integration descriptor permissions are invalid''
           else if svDescriptor v descriptorPath \<noteq> Inr de then Some ''integration descriptor invocation chain is invalid''
           else None))"

definition selfCheck :: "(string \<Rightarrow> string list \<Rightarrow> string) \<Rightarrow> string \<Rightarrow> string \<Rightarrow> string \<Rightarrow> string \<Rightarrow> string option" where
  "selfCheck run sshShim scpShim upstreamSSH upstreamSCP =
     (let want = TrimSpace (run upstreamSSH [''-V'']); got = TrimSpace (run sshShim [''-V''])
      in if got \<noteq> want then Some (''SSH shim self-check failed: got '' @ got @ '', want '' @ want)
         else if TrimSpace (run scpShim []) \<noteq> TrimSpace (run upstreamSCP []) then Some ''SCP shim self-check failed''
         else None)"

text \<open>Staging: the errors of its file operations, in the order of the code, then its two checks.\<close>

record 'p staging =
  sgDir :: string
  sgMkdirTemp :: "string option"
  sgMkdirBin :: "string option"
  sgSymlink :: "string \<Rightarrow> string option"
  sgDescriptor :: "string option"
  sgMarker :: "string option"
  sgView :: staged_view
  sgRun :: "string \<Rightarrow> string list \<Rightarrow> string"
  sgContent :: "descriptor \<Rightarrow> bool \<Rightarrow> 'p"

definition stageProfile :: "client_world \<Rightarrow> 'p staging \<Rightarrow> string \<Rightarrow> bool \<Rightarrow> descriptor \<Rightarrow> (string, 'p) result" where
  "stageProfile w g executable npmManaged de =
     (case List.find (\<lambda>e. e \<noteq> None)
             ([sgMkdirTemp g, sgMkdirBin g, sgSymlink g ''ssh'', sgSymlink g ''scp'', sgDescriptor g] @
              (if npmManaged then [sgMarker g] else []) @
              [validateProfile w (sgView g) (sgDir g) executable de,
               selfCheck (sgRun g) (joinAll (sgDir g) [''bin'', ''ssh'']) (joinAll (sgDir g) [''bin'', ''scp''])
                 (deSSHPath de) (deSCPPath de)]) of
        Some (Some err) \<Rightarrow> Inl err
      | _ \<Rightarrow> Inr (sgContent g de npmManaged))"

subsection \<open>The transaction\<close>

text \<open>The profile directory and its backup, and the settings file with its permissions.\<close>

record 'p install_disk =
  idProfile :: "'p option"
  idBackup :: "'p option"
  idSettings :: "(string \<times> nat) option"

text \<open>The errors of the steps; \<open>icReadBack\<close> is what the settings file holds when it is read again, if another
  program has changed it. The booleans are the steps whose errors the code ignores.\<close>

record commit_outcomes =
  icClearBackup :: bool
  icLstat :: "string option"
  icRenameBackup :: "string option"
  icRenameStaging :: "string option"
  icWriteSettings :: "string option list"
  icReadBack :: "(string, string) result option"
  icDropBackup :: bool
  icRestoreSettings :: bool
  icRemoveProfile :: bool
  icRestoreProfile :: bool

definition settings_read :: "commit_outcomes \<Rightarrow> 'p install_disk \<Rightarrow> (string, string) result" where
  "settings_read out d =
     (case icReadBack out of
        Some r \<Rightarrow> r
      | None \<Rightarrow> (case idSettings d of None \<Rightarrow> Inl ''file does not exist'' | Some (b, m) \<Rightarrow> Inr b))"

text \<open>The deferred rollback; \<open>original\<close> is the content and mode the settings file had.\<close>

definition rollback :: "commit_outcomes \<Rightarrow> (string \<times> nat) option \<Rightarrow> bool \<Rightarrow> 'p install_disk \<Rightarrow> 'p install_disk" where
  "rollback out original settingsCommitted d =
     (let d = (if settingsCommitted \<and> icRestoreSettings out then d\<lparr>idSettings := original\<rparr> else d);
          d = (if icRemoveProfile out then d\<lparr>idProfile := None\<rparr> else d)
      in case idBackup d of
           None \<Rightarrow> d
         | Some p \<Rightarrow> (if icRestoreProfile out \<and> idProfile d = None then d\<lparr>idProfile := Some p, idBackup := None\<rparr> else d))"

definition backupProfile :: "commit_outcomes \<Rightarrow> 'p install_disk \<Rightarrow> (string, 'p install_disk) result" where
  "backupProfile out d =
     (case icLstat out of
        Some err \<Rightarrow> Inl err
      | None \<Rightarrow>
          (case idProfile d of
             None \<Rightarrow> Inr d
           | Some p \<Rightarrow>
               (case icRenameBackup out of
                  Some err \<Rightarrow> Inl err
                | None \<Rightarrow> Inr (d\<lparr>idProfile := None, idBackup := Some p\<rparr>))))"

definition settingsKey :: string where "settingsKey = ''remote.SSH.path''"

definition verifySettings :: "'v hujson \<Rightarrow> client_world \<Rightarrow> commit_outcomes \<Rightarrow> string \<Rightarrow> 'p install_disk \<Rightarrow> string option" where
  "verifySettings lib w out finalSSH d =
     (case settings_read out d of
        Inl err \<Rightarrow> Some err
      | Inr installed \<Rightarrow>
          (case StringProperty lib installed settingsKey of
             Inl err \<Rightarrow> Some err
           | Inr (v, present) \<Rightarrow>
               (if \<not> present \<or> \<not> samePath w v finalSSH then Some ''remote.SSH.path verification failed'' else None)))"

definition commitProfile ::
  "'v hujson \<Rightarrow> client_world \<Rightarrow> commit_outcomes \<Rightarrow> 'p \<Rightarrow> (string \<times> nat) option \<Rightarrow> string \<Rightarrow> nat \<Rightarrow> string \<Rightarrow>
   'p install_disk \<Rightarrow> string option \<times> 'p install_disk" where
  "commitProfile lib w out new original patched mode finalSSH d0 =
     (let d = (if icClearBackup out then d0\<lparr>idBackup := None\<rparr> else d0) in
      case backupProfile out d of
        Inl err \<Rightarrow> (Some err, d)
      | Inr d \<Rightarrow>
          (case icRenameStaging out of
             Some err \<Rightarrow> (Some err, rollback out original False d)
           | None \<Rightarrow>
               (let d = d\<lparr>idProfile := Some new\<rparr> in
                case atomicWrite (icWriteSettings out) patched mode (idSettings d) of
                  (Some err, s) \<Rightarrow> (Some err, rollback out original False (d\<lparr>idSettings := s\<rparr>))
                | (None, s) \<Rightarrow>
                    (let d = d\<lparr>idSettings := s\<rparr> in
                     case verifySettings lib w out finalSSH d of
                       Some err \<Rightarrow> (Some err, rollback out original True d)
                     | None \<Rightarrow> (None, if icDropBackup out then d\<lparr>idBackup := None\<rparr> else d)))))"

text \<open>The whole installation. \<open>iaStat\<close>: the settings file that was read could also be examined.\<close>

record install_args =
  iaProfile :: string
  iaHome :: "string option"
  iaGOOS :: string
  iaConfigHome :: string
  iaXDG :: string
  iaOverrideDir :: string
  iaExecutable :: "(string, string) result"
  iaNPM :: bool
  iaNow :: string
  iaSettingsErr :: "string option"
  iaStat :: bool
  iaRootErr :: "string option"
  iaLockErr :: "string option"

record install_result =
  irProfile :: string
  irSettingsPath :: string
  irSSHShim :: string

definition upstreamPath :: "client_world \<Rightarrow> string \<Rightarrow> string \<Rightarrow> string \<times> string" where
  "upstreamPath w profileRoot previous =
     (if samePath w previous (joinAll profileRoot [''bin'', ''ssh'']) then
        (case cwDescriptor w (JoinPath profileRoot ''integration.json'') of
           Inl err \<Rightarrow> ([], previous)
         | Inr d \<Rightarrow> (deSSHPath d, if dePreviousSSH d \<noteq> [] then dePreviousSSH d else previous))
      else (previous, previous))"

definition settingsMode :: "install_args \<Rightarrow> (string \<times> nat) option \<Rightarrow> nat" where
  "settingsMode a s = (case s of Some (b, m) \<Rightarrow> (if iaStat a then m else 384) | None \<Rightarrow> 384)"

definition settingsSource :: "(string \<times> nat) option \<Rightarrow> string" where
  "settingsSource s = (case s of Some (b, m) \<Rightarrow> (if TrimSpace b = [] then ''{}'' @ [CHR 0x0A] else b) | None \<Rightarrow> ''{}'' @ [CHR 0x0A])"

text \<open>The part before the settings are read, and the clients the shims will stand for.\<close>

definition installPaths :: "client_world \<Rightarrow> install_args \<Rightarrow> (string, string \<times> string) result" where
  "installPaths w a =
     (case SettingsPath (iaProfile a) (iaHome a) (iaGOOS a) (iaConfigHome a) (iaXDG a) of
        Inl err \<Rightarrow> Inl err
      | Inr settingsPath \<Rightarrow>
          (case iaExecutable a of
             Inl err \<Rightarrow> Inl err
           | Inr exe \<Rightarrow>
               (case iaSettingsErr a of Some err \<Rightarrow> Inl err | None \<Rightarrow> Inr (settingsPath, Abs (cwdDir w) exe))))"

definition profileRoot :: "install_args \<Rightarrow> string" where
  "profileRoot a = JoinPath (DefaultRoot (iaOverrideDir a) (case iaHome a of Some home \<Rightarrow> home | None \<Rightarrow> [])) (iaProfile a)"

definition installDescriptor ::
  "client_world \<Rightarrow> install_args \<Rightarrow> string \<Rightarrow> string \<Rightarrow> string \<Rightarrow> (string, descriptor) result" where
  "installDescriptor w a settingsPath executable previous =
     (case (iaRootErr a, iaLockErr a) of
        (Some err, _) \<Rightarrow> Inl err
      | (None, Some err) \<Rightarrow> Inl (''another '' @ iaProfile a @ '' integration install is active: '' @ err)
      | (None, None) \<Rightarrow>
          (let up = upstreamPath w (profileRoot a) previous in
           case findOpenSSH w (fst up) executable of
             Inl err \<Rightarrow> Inl err
           | Inr upstreamSSH \<Rightarrow>
               (case findSCP w upstreamSSH executable of
                  Inl err \<Rightarrow> Inl err
                | Inr upstreamSCP \<Rightarrow>
                    Inr \<lparr>deSchema = 1, deProfile = iaProfile a, deSSHPath = upstreamSSH, deSCPPath = upstreamSCP,
                         deDriverPath = executable, deSettings = settingsPath, dePreviousSSH = snd up, deInstalledAt = iaNow a\<rparr>)))"

definition Install ::
  "'v hujson \<Rightarrow> client_world \<Rightarrow> install_args \<Rightarrow> 'p staging \<Rightarrow> commit_outcomes \<Rightarrow> 'p install_disk \<Rightarrow>
   (string, install_result) result \<times> 'p install_disk" where
  "Install lib w a g out d =
     (case installPaths w a of
        Inl err \<Rightarrow> (Inl err, d)
      | Inr (settingsPath, executable) \<Rightarrow>
          (let mode = settingsMode a (idSettings d);
               original = (case idSettings d of None \<Rightarrow> None | Some (b, m) \<Rightarrow> Some (b, mode));
               source = settingsSource (idSettings d);
               finalSSH = joinAll (profileRoot a) [''bin'', ''ssh''] in
           case StringProperty lib source settingsKey of
             Inl err \<Rightarrow> (Inl (''read '' @ settingsPath @ '': '' @ err), d)
           | Inr (previous, present) \<Rightarrow>
               (case installDescriptor w a settingsPath executable previous of
                  Inl err \<Rightarrow> (Inl err, d)
                | Inr de \<Rightarrow>
                    (case stageProfile w g executable (iaNPM a) de of
                       Inl err \<Rightarrow> (Inl err, d)
                     | Inr new \<Rightarrow>
                         (case SetStringProperty lib source settingsKey finalSSH of
                            Inl err \<Rightarrow> (Inl (''update '' @ settingsPath @ '': '' @ err), d)
                          | Inr patched \<Rightarrow>
                              (case commitProfile lib w out new original patched mode finalSSH d of
                                 (Some err, d') \<Rightarrow> (Inl err, d')
                               | (None, d') \<Rightarrow>
                                   (Inr \<lparr>irProfile = iaProfile a, irSettingsPath = settingsPath, irSSHShim = finalSSH\<rparr>, d')))))))"

subsection \<open>The command\<close>

definition parseIntegrateInstallArgs :: "string list \<Rightarrow> (string \<times> bool) option" where
  "parseIntegrateInstallArgs args =
     (if length args < 2 \<or> length args > 3 \<or> hd args \<noteq> ''install'' then None
      else let result = foldl (\<lambda>acc arg. case acc of
               None \<Rightarrow> None
             | Some (profile, yes) \<Rightarrow>
                 (if arg = ''-y'' then (if yes then None else Some (profile, True))
                  else if profile \<noteq> [] then None else Some (arg, yes))) (Some ([], False)) (tl args)
           in case result of None \<Rightarrow> None | Some (profile, yes) \<Rightarrow> if profile = [] then None else Some (profile, yes))"

fun confirmIntegrationInstall :: "string list \<Rightarrow> string option \<Rightarrow> (string, bool) result" where
  "confirmIntegrationInstall [] err = (case err of Some e \<Rightarrow> Inl e | None \<Rightarrow> Inr False)"
| "confirmIntegrationInstall (line # rest) err =
     (let answer = ToLower (TrimSpace line) in
      if answer = ''y'' \<or> answer = ''yes'' then Inr True
      else if answer = ''n'' \<or> answer = ''no'' then Inr False
      else confirmIntegrationInstall rest err)"

text \<open>The command: the answers on standard input, the executable, the installation; exit code and disk.\<close>

definition runIntegrate ::
  "string list \<Rightarrow> string list \<times> string option \<Rightarrow> (string, string) result \<Rightarrow>
   (string \<Rightarrow> 'p install_disk \<Rightarrow> (string, install_result) result \<times> 'p install_disk) \<Rightarrow>
   'p install_disk \<Rightarrow> int \<times> 'p install_disk" where
  "runIntegrate args input executable install d =
     (case parseIntegrateInstallArgs args of
        None \<Rightarrow> (2, d)
      | Some (profileName, assumeYes) \<Rightarrow>
          (case ParseProfile profileName of
             Inl err \<Rightarrow> (2, d)
           | Inr profile \<Rightarrow>
               (case (if assumeYes then Inr True else confirmIntegrationInstall (fst input) (snd input)) of
                  Inl err \<Rightarrow> (1, d)
                | Inr False \<Rightarrow> (1, d)
                | Inr True \<Rightarrow>
                    (case executable of
                       Inl err \<Rightarrow> (1, d)
                     | Inr exe \<Rightarrow>
                         (case install profile d of
                            (Inl err, d') \<Rightarrow> (1, d')
                          | (Inr result, d') \<Rightarrow> (0, d'))))))"

subsection \<open>Shims are followed to the client they stand for\<close>

lemma Abs_Abs [simp]: "IsAbs wd \<Longrightarrow> Abs wd (Abs wd p) = Abs wd p"
  using Abs_absolute [of wd p] Clean_Abs [of wd p] by (simp add: Abs_def [of wd "Abs wd p"])

definition shimTarget :: "bool \<Rightarrow> descriptor \<Rightarrow> string" where
  "shimTarget scp d = (if scp then deSCPPath d else deSSHPath d)"

text \<open>\<open>n\<close> shims lead from a path to a client that is none.\<close>

inductive shim_chain :: "client_world \<Rightarrow> bool \<Rightarrow> nat \<Rightarrow> string \<Rightarrow> string \<Rightarrow> bool" for w scp where
  client: "DescriptorForInvocation w (Abs (cwdDir w) p) = Inl err \<Longrightarrow> shim_chain w scp 0 p (Abs (cwdDir w) p)"
| shim: "DescriptorForInvocation w (Abs (cwdDir w) p) = Inr d \<Longrightarrow> shimTarget scp d \<noteq> [] \<Longrightarrow>
    shim_chain w scp n (shimTarget scp d) q \<Longrightarrow> shim_chain w scp (Suc n) p q"

inductive_cases shim_chainE: "shim_chain w scp n p q"

lemma shim_chain_same: "shim_chain w scp n p q \<Longrightarrow> shim_chain w scp m x y \<Longrightarrow> Abs (cwdDir w) p = Abs (cwdDir w) x \<Longrightarrow> n = m \<and> q = y"
proof (induction n p q arbitrary: m x y rule: shim_chain.induct)
  case (client p err)
  from client.prems(1) show ?case by (rule shim_chainE) (use client in auto)
next
  case (shim p d n q)
  from shim.prems(1) show ?case
  proof (rule shim_chainE)
    fix err
    assume "DescriptorForInvocation w (Abs (cwdDir w) x) = Inl err"
    then show ?thesis using shim.hyps(1) shim.prems(2) by simp
  next
    fix d' k
    assume "m = Suc k" and d': "DescriptorForInvocation w (Abs (cwdDir w) x) = Inr d'" and "shim_chain w scp k (shimTarget scp d') y"
    moreover have "d' = d" using d' shim.hyps(1) shim.prems(2) by simp
    ultimately show ?thesis using shim.IH [of k "shimTarget scp d" y] by simp
  qed
qed

lemma unwrap_loop_sound: "unwrap_loop w scp n seen p = Inr q \<Longrightarrow> \<exists>k<n. shim_chain w scp k p q"
proof (induction w scp n seen p rule: unwrap_loop.induct)
  case (2 w scp n seen p)
  let ?a = "Abs (cwdDir w) p"
  have unseen: "?a \<notin> set seen" using "2.prems" by (auto simp: Let_def split: if_splits)
  show ?case
  proof (cases "DescriptorForInvocation w ?a")
    case (Inl err)
    then have "q = ?a" using "2.prems" unseen by (simp add: Let_def)
    then show ?thesis using shim_chain.client [OF Inl] by blast
  next
    case (Inr d)
    then have target: "shimTarget scp d \<noteq> []" and rest: "unwrap_loop w scp n (?a # seen) (shimTarget scp d) = Inr q"
      using "2.prems" unseen by (auto simp: Let_def shimTarget_def split: if_splits)
    have "\<exists>k<n. shim_chain w scp k (shimTarget scp d) q"
      using "2.IH" [OF refl unseen Inr refl] target rest by (auto simp: shimTarget_def)
    then show ?thesis using shim_chain.shim [OF Inr target] by (meson Suc_mono)
  qed
qed simp

lemma unwrap_loop_complete:
  "shim_chain w scp k p q \<Longrightarrow> k < n \<Longrightarrow> (\<And>s. s \<in> set seen \<Longrightarrow> \<exists>m>k. \<exists>x y. Abs (cwdDir w) x = s \<and> shim_chain w scp m x y) \<Longrightarrow>
   unwrap_loop w scp n seen p = Inr q"
proof (induction k p q arbitrary: n seen rule: shim_chain.induct)
  case (client p err)
  obtain n' where n: "n = Suc n'" using client.prems(1) by (cases n) auto
  have "Abs (cwdDir w) p \<notin> set seen"
    using client.prems(2) shim_chain_same [OF shim_chain.client [OF client.hyps]] by (metis less_irrefl)
  then show ?case using client.hyps by (simp add: n Let_def)
next
  case (shim p d k q)
  obtain n' where n: "n = Suc n'" using shim.prems(1) by (cases n) auto
  note here = shim_chain.shim [OF shim.hyps(1) shim.hyps(2) shim.hyps(3)]
  have unseen: "Abs (cwdDir w) p \<notin> set seen"
    using shim.prems(2) shim_chain_same [OF here] by (metis less_irrefl)
  have "unwrap_loop w scp n' (Abs (cwdDir w) p # seen) (shimTarget scp d) = Inr q"
  proof (rule shim.IH)
    show "k < n'" using shim.prems(1) n by simp
  next
    fix s
    assume "s \<in> set (Abs (cwdDir w) p # seen)"
    then show "\<exists>m>k. \<exists>x y. Abs (cwdDir w) x = s \<and> shim_chain w scp m x y"
      using here shim.prems(2) by (metis Suc_lessD lessI set_ConsD)
  qed
  then show ?case using unseen shim.hyps by (simp add: n Let_def shimTarget_def)
qed

text \<open>C35. Following shims terminates and finds exactly what it should: the client at the end of a chain of at most
  seven installed shims, and nothing when the chain is longer, runs in a circle or names no client.\<close>
theorem unwrap_chain:
  "unwrapIntegrationClient w p scp = Inr q \<longleftrightarrow> (\<exists>k<8. shim_chain w scp k p q)"
  unfolding unwrapIntegrationClient_def
  using unwrap_loop_sound [of w scp 8 "[]" p q] unwrap_loop_complete [of w scp _ p q 8 "[]"] by auto

lemma shim_chain_end: "shim_chain w scp k p q \<Longrightarrow> \<exists>x. q = Abs (cwdDir w) x \<and> (\<exists>err. DescriptorForInvocation w q = Inl err)"
  by (induction rule: shim_chain.induct) auto

text \<open>The ssh client found is executable, says it is OpenSSH, is not sshx itself and is no shim.\<close>

lemma findOpenSSH_usable:
  assumes wd: "IsAbs (cwdDir w)"
  shows "findOpenSSH_loop w executable seen cs = Inr p \<Longrightarrow>
    cwExecutable w p \<and> ContainsString (cwVersion w p) ''OpenSSH'' \<and> \<not> samePath w p executable \<and>
    (\<exists>c\<in>set cs. \<exists>k<8. shim_chain w False k c p) \<and> (\<exists>err. DescriptorForInvocation w p = Inl err)"
proof (induction cs arbitrary: seen)
  case (Cons c cs)
  show ?case
  proof (cases "c = [] \<or> (\<exists>err. unwrapIntegrationClient w c False = Inl err)")
    case True
    then have "findOpenSSH_loop w executable seen cs = Inr p" using Cons.prems by (auto split: if_splits)
    then show ?thesis using Cons.IH by auto
  next
    case False
    then obtain q where c: "c \<noteq> []" and q: "unwrapIntegrationClient w c False = Inr q"
      by (cases "unwrapIntegrationClient w c False") auto
    obtain k where k: "k < 8" "shim_chain w False k c q" using q unwrap_loop_sound unfolding unwrapIntegrationClient_def by blast
    have abs: "Abs (cwdDir w) q = q" using shim_chain_end [OF k(2)] Abs_Abs [OF wd] by auto
    show ?thesis
    proof (cases "q \<in> set seen \<or> samePath w q executable \<or> \<not> cwExecutable w q \<or> \<not> ContainsString (cwVersion w q) ''OpenSSH''")
      case True
      then obtain seen' where "findOpenSSH_loop w executable seen' cs = Inr p"
        using Cons.prems c q abs by (auto simp: Let_def split: if_splits)
      then show ?thesis using Cons.IH by auto
    next
      case False
      then have "p = q" using Cons.prems c q abs by (simp add: Let_def)
      then show ?thesis using False k shim_chain_end [OF k(2)] by auto
    qed
  qed
qed simp

lemma findSCP_usable:
  assumes wd: "IsAbs (cwdDir w)"
  shows "findSCP_loop w executable cs = Inr p \<Longrightarrow>
    cwExecutable w p \<and> \<not> samePath w p executable \<and> (\<exists>err. DescriptorForInvocation w p = Inl err)"
proof (induction cs)
  case (Cons c cs)
  show ?case
  proof (cases "unwrapIntegrationClient w c True")
    case (Inl err)
    then show ?thesis using Cons by simp
  next
    case (Inr q)
    then obtain k where k: "shim_chain w True k c q" using unwrap_loop_sound unfolding unwrapIntegrationClient_def by blast
    have abs: "Abs (cwdDir w) q = q" using shim_chain_end [OF k] Abs_Abs [OF wd] by auto
    show ?thesis using Cons Inr abs shim_chain_end [OF k] by (auto simp: Let_def split: if_splits)
  qed
qed simp

subsection \<open>Installing is all or nothing\<close>

text \<open>The steps whose errors the rollback ignores have worked, and there is no stale backup in the way.\<close>

definition undoes :: "commit_outcomes \<Rightarrow> 'p install_disk \<Rightarrow> bool" where
  "undoes out d = ((icClearBackup out \<or> idBackup d = None) \<and> icRestoreSettings out \<and> icRemoveProfile out \<and> icRestoreProfile out)"

definition untouched :: "'p install_disk \<Rightarrow> 'p install_disk \<Rightarrow> bool" where
  "untouched d d' = (idProfile d' = idProfile d \<and> idSettings d' = idSettings d)"

lemma untouched_refl [simp]: "untouched d d" by (simp add: untouched_def)

lemma atomicWrite_error: "atomicWrite steps bytes mode old = (Some err, s) \<Longrightarrow> s = old"
  by (auto simp: atomicWrite_def split: option.splits)

lemma atomicWrite_done: "atomicWrite steps bytes mode old = (None, s) \<Longrightarrow> s = Some (bytes, mode)"
  by (auto simp: atomicWrite_def find_Some_iff split: option.splits)

lemma rollback_restores:
  assumes "icRestoreSettings out" "icRemoveProfile out" "icRestoreProfile out"
    and "c \<or> idSettings d = original" and "idBackup d = old"
  shows "idProfile (rollback out original c d) = old \<and> idSettings (rollback out original c d) = original"
  using assms by (auto simp: rollback_def Let_def split: option.split)

lemma backupProfile_keeps:
  "backupProfile out d = Inr d' \<Longrightarrow> idBackup d = None \<Longrightarrow>
   idProfile d' = None \<and> idBackup d' = idProfile d \<and> idSettings d' = idSettings d"
  by (auto simp: backupProfile_def split: option.splits)

lemma commitProfile_fails:
  assumes "commitProfile lib w out new (idSettings d) patched mode final d = (Some err, d')" and undo: "undoes out d"
  shows "untouched d d'"
proof -
  define d1 where "d1 = (if icClearBackup out then d\<lparr>idBackup := None\<rparr> else d)"
  have d1: "idBackup d1 = None" "idProfile d1 = idProfile d" "idSettings d1 = idSettings d"
    using undo by (auto simp: d1_def undoes_def)
  note undoing = undo [unfolded undoes_def]
  note run = assms(1) [unfolded commitProfile_def Let_def, folded d1_def]
  show ?thesis
  proof (cases "backupProfile out d1")
    case (Inl e)
    then show ?thesis using run d1 by (simp add: untouched_def)
  next
    case (Inr d2)
    note d2 = backupProfile_keeps [OF Inr d1(1)]
    show ?thesis
    proof (cases "icRenameStaging out")
      case (Some e)
      then show ?thesis using run Inr d1 d2 undoing rollback_restores [of out False d2 "idSettings d" "idProfile d"]
        by (auto simp: untouched_def)
    next
      case None
      obtain e s where w: "atomicWrite (icWriteSettings out) patched mode (idSettings d2) = (e, s)" by fastforce
      define d3 where "d3 = d2\<lparr>idProfile := Some new, idSettings := s\<rparr>"
      have d3: "idBackup d3 = idProfile d" using d1 d2 by (simp add: d3_def)
      show ?thesis
      proof (cases e)
        case (Some x)
        then have "d' = rollback out (idSettings d) False d3" and "idSettings d3 = idSettings d"
          using run Inr None w atomicWrite_error [of _ _ _ _ x s] d1 d2 by (auto simp: d3_def)
        then show ?thesis using undoing d3 rollback_restores [of out False d3 "idSettings d" "idProfile d"] by (simp add: untouched_def)
      next
        case e: None
        then have "d' = rollback out (idSettings d) True d3"
          using run Inr None w by (auto simp: d3_def split: option.splits)
        then show ?thesis using undoing d3 rollback_restores [of out True d3 "idSettings d" "idProfile d"] by (simp add: untouched_def)
      qed
    qed
  qed
qed

lemma commitProfile_succeeds:
  assumes "commitProfile lib w out new original patched mode final d = (None, d')"
  shows "idProfile d' = Some new \<and> idSettings d' = Some (patched, mode) \<and> verifySettings lib w out final d' = None \<and>
         (icDropBackup out \<longrightarrow> idBackup d' = None)"
proof -
  have same: "verifySettings lib w out final (x\<lparr>idBackup := None\<rparr>) = verifySettings lib w out final x" for x :: "'a install_disk"
    by (cases "icReadBack out") (simp_all add: verifySettings_def settings_read_def)
  show ?thesis
    using assms by (auto simp: commitProfile_def Let_def same split: sum.splits option.splits prod.splits if_splits dest!: atomicWrite_done)
qed

lemma installed_shape:
  assumes "Install lib w a g out d = (Inr res, d')"
  obtains de patched where
    "findSCP w (deSSHPath de) (deDriverPath de) = Inr (deSCPPath de)"
    "stageProfile w g (deDriverPath de) (iaNPM a) de = Inr (sgContent g de (iaNPM a))"
    "SetStringProperty lib (settingsSource (idSettings d)) settingsKey (irSSHShim res) = Inr patched"
    "idProfile d' = Some (sgContent g de (iaNPM a))"
    "idSettings d' = Some (patched, settingsMode a (idSettings d))"
    "verifySettings lib w out (irSSHShim res) d' = None"
    "icDropBackup out \<longrightarrow> idBackup d' = None"
proof -
  define original where "original = (case idSettings d of None \<Rightarrow> None | Some (b, m) \<Rightarrow> Some (b, settingsMode a (idSettings d)))"
  define final where "final = joinAll (profileRoot a) [''bin'', ''ssh'']"
  note run = assms [unfolded Install_def Let_def, folded original_def final_def]
  obtain sp exe where 1: "installPaths w a = Inr (sp, exe)" using run by (cases "installPaths w a") auto
  obtain prev pr where 2: "StringProperty lib (settingsSource (idSettings d)) settingsKey = Inr (prev, pr)"
    using run 1 by (cases "StringProperty lib (settingsSource (idSettings d)) settingsKey") auto
  obtain de where 3: "installDescriptor w a sp exe prev = Inr de"
    using run 1 2 by (cases "installDescriptor w a sp exe prev") auto
  obtain new where 4: "stageProfile w g exe (iaNPM a) de = Inr new"
    using run 1 2 3 by (cases "stageProfile w g exe (iaNPM a) de") auto
  obtain patched where 5: "SetStringProperty lib (settingsSource (idSettings d)) settingsKey final = Inr patched"
    using run 1 2 3 4 by (cases "SetStringProperty lib (settingsSource (idSettings d)) settingsKey final") auto
  obtain e d'' where 6: "commitProfile lib w out new original patched (settingsMode a (idSettings d)) final d = (e, d'')" by fastforce
  have 7: "e = None" "d'' = d'" "irSSHShim res = final" using run 1 2 3 4 5 6 by (auto split: option.splits)
  have 8: "deDriverPath de = exe" "findSCP w (deSSHPath de) exe = Inr (deSCPPath de)"
    using 3 by (auto simp: installDescriptor_def Let_def split: option.splits sum.splits)
  have 9: "new = sgContent g de (iaNPM a)" using 4 by (auto simp: stageProfile_def split: option.splits)
  show ?thesis
    using that [of de patched] 4 5 8 9 commitProfile_succeeds [OF 6 [unfolded 7(1,2)]] by (simp add: 7)
qed

text \<open>C34. Installing an editor integration is all or nothing. When it reports success, the profile directory is the
  staged one, which has passed its checks, the settings file holds the old settings with \<open>remote.SSH.path\<close> set
  to the new shim and keeps its permissions, and reading it back gave a path that is that shim. When it fails, at
  any step, the profile directory and the settings are exactly as they were, as long as the undo steps, whose
  errors the code ignores, work.\<close>
theorem Install_transaction:
  "case Install lib w a g out d of
     (Inr res, d') \<Rightarrow>
       (\<exists>de patched. stageProfile w g (deDriverPath de) (iaNPM a) de = Inr (sgContent g de (iaNPM a)) \<and>
          SetStringProperty lib (settingsSource (idSettings d)) settingsKey (irSSHShim res) = Inr patched \<and>
          idProfile d' = Some (sgContent g de (iaNPM a)) \<and>
          idSettings d' = Some (patched, settingsMode a (idSettings d)) \<and>
          verifySettings lib w out (irSSHShim res) d' = None)
   | (Inl err, d') \<Rightarrow> (if undoes out d \<and> iaStat a then untouched d d' else True)"
proof (cases "fst (Install lib w a g out d)")
  case (Inr res)
  then have "Install lib w a g out d = (Inr res, snd (Install lib w a g out d))" by (metis prod.collapse)
  then show ?thesis by (rule installed_shape) (auto simp: case_prod_beta Inr)
next
  case (Inl err)
  have "untouched d (snd (Install lib w a g out d))" if undo: "undoes out d" and stat: "iaStat a"
  proof -
    define mode where "mode = settingsMode a (idSettings d)"
    have original: "(case idSettings d of None \<Rightarrow> None | Some (b, m) \<Rightarrow> Some (b, mode)) = idSettings d"
      using stat by (auto simp: mode_def settingsMode_def split: option.split)
    show ?thesis
      using Inl undo unfolding Install_def Let_def mode_def [symmetric] original
      by (force split: sum.splits option.splits prod.splits dest: commitProfile_fails)
  qed
  then show ?thesis by (simp add: case_prod_beta Inl)
qed

subsection \<open>The setting's name and the arguments\<close>

fun unescapePointer :: "string \<Rightarrow> string" where
  "unescapePointer [] = []"
| "unescapePointer [c] = [c]"
| "unescapePointer (c # d # s) =
     (if c = CHR ''~'' \<and> d = CHR ''0'' then CHR ''~'' # unescapePointer s
      else if c = CHR ''~'' \<and> d = CHR ''1'' then CHR ''/'' # unescapePointer s
      else c # unescapePointer (d # s))"

definition escapeChar :: "char \<Rightarrow> string" where
  "escapeChar c = (if c = CHR ''~'' then ''~0'' else if c = CHR ''/'' then ''~1'' else [c])"

lemma jsonPointer_concat: "jsonPointer key = CHR ''/'' # concat (map escapeChar key)"
proof -
  have "ReplaceAll (ReplaceAll key (CHR ''~'') ''~0'') (CHR ''/'') ''~1'' = concat (map escapeChar key)"
    by (induction key) (auto simp: ReplaceAll_def escapeChar_def)
  then show ?thesis by (simp add: jsonPointer_def)
qed

text \<open>The pointer names one member of the root object: one reference token, which decodes to the key.\<close>

lemma jsonPointer_one_member:
  "unescapePointer (tl (jsonPointer key)) = key \<and> CHR ''/'' \<notin> set (tl (jsonPointer key))"
proof -
  have plain: "unescapePointer (c # s) = c # unescapePointer s" if "c \<noteq> CHR ''~''" for c s
    using that by (cases s) auto
  have "unescapePointer (concat (map escapeChar key)) = key"
    by (induction key) (auto simp: escapeChar_def plain)
  moreover have "CHR ''/'' \<notin> set (concat (map escapeChar key))" by (induction key) (auto simp: escapeChar_def)
  ultimately show ?thesis by (simp add: jsonPointer_concat)
qed

lemma parseIntegrateInstallArgs_spec:
  "parseIntegrateInstallArgs args = Some (p, yes) \<longleftrightarrow>
   p \<noteq> [] \<and> p \<noteq> ''-y'' \<and> (args = [''install'', p] \<and> \<not> yes \<or> args \<in> {[''install'', ''-y'', p], [''install'', p, ''-y'']} \<and> yes
     \<or> args = [''install'', [], p] \<and> \<not> yes)"
proof (cases "length args = 2 \<or> length args = 3")
  case False
  then show ?thesis by (auto simp: parseIntegrateInstallArgs_def)
next
  case True
  then consider (two) a b where "args = [a, b]" | (three) a b c where "args = [a, b, c]"
    by (auto simp: length_Suc_conv numeral_2_eq_2 numeral_3_eq_3)
  then show ?thesis
    by cases (auto simp: parseIntegrateInstallArgs_def split: if_splits)
qed

end
