(* ===== verification/Adapter.thy ===== *)
theory Adapter
  imports Runner Integration Resources
begin

text \<open>
  sshx in the place of the ssh or scp of an editor (\<open>internal/cli/integration_adapter.go\<close>): the decisions
  of the adapter, the command lines it runs, the registry of live sessions that scp and later windows
  join, and the sidecar that sets the session's services up beside the main connection. What the
  outside does is the records \<open>adapter_env\<close> and \<open>sidecar_env\<close> of outcomes. Log lines are effects; the time
  stamps in them are left out.
\<close>

subsection \<open>The registry of sessions\<close>

record active_session =
  asTargetID :: string
  asContextID :: string
  asSessionID :: string
  asControlPath :: string
  asPID :: int

definition integrationSessionsRoot :: "string \<Rightarrow> int \<Rightarrow> string \<Rightarrow> string" where
  "integrationSessionsRoot tmp uid profile = joinAll tmp [''sshx-'' @ Itoa uid, ''integrations'', profile, ''sessions'']"

definition integrationSessionPath :: "string \<Rightarrow> int \<Rightarrow> string \<Rightarrow> string \<Rightarrow> string \<Rightarrow> string" where
  "integrationSessionPath tmp uid profile targetID sessionID =
     joinAll (integrationSessionsRoot tmp uid profile) [targetID, sessionID @ ''.json'']"

definition HasSuffix :: "string \<Rightarrow> string \<Rightarrow> bool" where
  "HasSuffix s t = (length t \<le> length s \<and> drop (length s - length t) s = t)"

text \<open>A directory as a map of file names; a file that does not parse is \<open>None\<close>. What runs and which paths are sockets.\<close>

datatype registry_file = Unreadable | Holds "active_session option"

record registry_world =
  rwFile :: "string \<Rightarrow> registry_file"
  rwAlive :: "int \<Rightarrow> bool"
  rwSocket :: "string \<Rightarrow> bool"

text \<open>The directory entries in the order of \<open>ReadDir\<close> (name, is a directory); the session found and the files removed,
  the empty name for the directory itself, which is removed (when it is empty by then) if no session was found.\<close>

fun readSessions_loop :: "registry_world \<Rightarrow> string \<Rightarrow> (string \<times> bool) list \<Rightarrow> active_session option \<times> string list" where
  "readSessions_loop w targetID [] = (None, [])"
| "readSessions_loop w targetID ((name, isDir) # rest) =
     (if isDir \<or> \<not> HasSuffix name ''.json'' then readSessions_loop w targetID rest
      else case rwFile w name of
        Unreadable \<Rightarrow> readSessions_loop w targetID rest
      | Holds None \<Rightarrow> (let r = readSessions_loop w targetID rest in (fst r, name # snd r))
      | Holds (Some s) \<Rightarrow>
          (if asTargetID s \<noteq> targetID \<or> asControlPath s = [] then
             (let r = readSessions_loop w targetID rest in (fst r, name # snd r))
           else if asPID s \<le> 0 \<or> \<not> rwAlive w (asPID s) then
             (let r = readSessions_loop w targetID rest in (fst r, name # snd r))
           else if \<not> rwSocket w (asControlPath s) then
             (let r = readSessions_loop w targetID rest in (fst r, name # snd r))
           else (Some s, [])))"

definition readIntegrationSession ::
  "registry_world \<Rightarrow> string \<Rightarrow> (string, (string \<times> bool) list) result \<Rightarrow> active_session option \<times> string list" where
  "readIntegrationSession w targetID listing =
     (case listing of
        Inl err \<Rightarrow> (None, [])
      | Inr entries \<Rightarrow>
          (case readSessions_loop w targetID (rev entries) of
             (None, removed) \<Rightarrow> (None, removed @ [[]])
           | found \<Rightarrow> found))"

text \<open>The registry as a file per session: writing is atomic, removing looks at the control path first.\<close>

type_synonym registry = "string \<Rightarrow> active_session option"

definition writeIntegrationSession :: "string option \<Rightarrow> string \<Rightarrow> active_session \<Rightarrow> registry \<Rightarrow> string option \<times> registry" where
  "writeIntegrationSession failure path s reg = (case failure of Some err \<Rightarrow> (Some err, reg) | None \<Rightarrow> (None, reg(path \<mapsto> s)))"

definition removeIntegrationSession :: "string \<Rightarrow> string \<Rightarrow> registry \<Rightarrow> registry" where
  "removeIntegrationSession path controlPath reg =
     (case reg path of
        None \<Rightarrow> reg
      | Some s \<Rightarrow> (if asControlPath s = controlPath then reg(path := None) else reg))"

subsection \<open>Command lines\<close>

definition hasSSHControlOperation :: "Parsed \<Rightarrow> bool" where
  "hasSSHControlOperation parsed = list_ex (\<lambda>arg. HasPrefix arg ''-O'') (take (nat (pTargetIndex parsed)) (pArgs parsed))"

definition removeNoWrap :: "string list \<Rightarrow> string list \<times> bool" where
  "removeNoWrap args = (filter (\<lambda>arg. arg \<noteq> ''--no-wrap'') args, ''--no-wrap'' \<in> set args)"

definition scpValueOptions :: "string list" where
  "scpValueOptions = [''-c'', ''-D'', ''-F'', ''-i'', ''-J'', ''-l'', ''-o'', ''-P'', ''-S'', ''-X'']"

definition scpHost :: "string \<Rightarrow> string option" where
  "scpHost arg =
     (case IndexByte arg CHR '':'' of
        None \<Rightarrow> None
      | Some colon \<Rightarrow>
          (if colon = 0 then None
           else let target = take colon arg;
                    target = (if HasPrefix target ''['' \<and> HasSuffix target '']'' then Trim target ''[]'' else target)
                in if target \<noteq> [] \<and> \<not> Contains target CHR ''/'' then Some target else None))"

text \<open>The ssh options of an scp command line and the hosts it names, the last one last.\<close>

fun scpIdentity_loop :: "string list \<Rightarrow> string list \<times> string list" where
  "scpIdentity_loop [] = ([], [])"
| "scpIdentity_loop [arg] =
     (if arg \<in> set scpValueOptions \<or> HasPrefix arg ''-'' then ([], [])
      else case scpHost arg of None \<Rightarrow> ([], []) | Some target \<Rightarrow> ([], [target]))"
| "scpIdentity_loop (arg # v # rest) =
     (if arg \<in> set scpValueOptions then
        (let r = scpIdentity_loop rest
         in ((if arg = ''-P'' then [''-p'', v] else if arg \<in> set [''-F'', ''-i'', ''-J'', ''-o''] then [arg, v] else []) @ fst r, snd r))
      else if HasPrefix arg ''-'' then scpIdentity_loop (v # rest)
      else (let r = scpIdentity_loop (v # rest)
            in case scpHost arg of None \<Rightarrow> r | Some target \<Rightarrow> (fst r, target # snd r)))"

definition scpIdentityArgs :: "string list \<Rightarrow> string list" where
  "scpIdentityArgs args =
     (let r = scpIdentity_loop args in if length (remdups (snd r)) \<noteq> 1 then [] else fst r @ [last (snd r)])"

definition controlOptions :: "bool \<Rightarrow> string \<Rightarrow> string list" where
  "controlOptions controlMaster controlPath =
     (if controlMaster then [''-o'', ''ControlMaster=yes'', ''-o'', ''ControlPersist=no'', ''-S'', controlPath]
      else [''-o'', ''ControlMaster=no'', ''-S'', controlPath])"

definition adapterMainArgs :: "Parsed \<Rightarrow> connection \<Rightarrow> string \<Rightarrow> bool \<Rightarrow> bool \<Rightarrow> bool \<Rightarrow> string \<Rightarrow> string list" where
  "adapterMainArgs parsed connection contextHome proxy strict controlMaster controlPath =
     InsertBeforeTarget
       (Parse (stripControlOptions
         (integrationSessionSSHArgsWithProxy parsed (cnContextID connection) contextHome (cnSessionID connection) proxy strict)))
       (controlOptions controlMaster controlPath)"

definition adapterSidecarArgs :: "Parsed \<Rightarrow> string \<Rightarrow> string list" where
  "adapterSidecarArgs parsed controlPath =
     baseSSHArgs (Parse (InsertBeforeTarget
       (Parse (stripAuxiliaryActionOptions (stripControlOptions (pArgs parsed))))
       [''-o'', ''ControlMaster=no'', ''-o'', ''ControlPath='' @ controlPath, ''-o'', ''ClearAllForwardings=yes'']))"

definition newControlPath ::
  "string \<Rightarrow> int \<Rightarrow> string option \<Rightarrow> (string \<Rightarrow> (string, string) result) \<Rightarrow> string option \<Rightarrow> string \<Rightarrow> (string, string \<times> string) result" where
  "newControlPath tmp uid mkdirErr mkdirTemp chmodErr sessionID =
     (case mkdirErr of
        Some err \<Rightarrow> Inl err
      | None \<Rightarrow>
          (case mkdirTemp (JoinPath (joinAll tmp [''sshx-'' @ Itoa uid, ''c'']) (take 8 sessionID @ ''-'')) of
             Inl err \<Rightarrow> Inl err
           | Inr dir \<Rightarrow> (case chmodErr of Some err \<Rightarrow> Inl err | None \<Rightarrow> Inr (dir, JoinPath dir ''m''))))"

subsection \<open>Running a client\<close>

text \<open>\<open>Exited\<close> has the code of the process, which is negative when a signal ended it.\<close>

datatype client_outcome = PipeFailed | StartFailed | Finished | Exited int "nat option" | WaitFailed

definition execAdapterCommand :: "client_outcome \<Rightarrow> int" where
  "execAdapterCommand outcome =
     (case outcome of
        PipeFailed \<Rightarrow> 1
      | StartFailed \<Rightarrow> 1
      | Finished \<Rightarrow> 0
      | Exited code signal \<Rightarrow>
          (if code \<ge> 0 then code else case signal of Some s \<Rightarrow> 128 + int s | None \<Rightarrow> 1)
      | WaitFailed \<Rightarrow> 1)"

subsection \<open>The adapter\<close>

datatype adapter_resource = ControlDir string | Sidecar string "string list" string
datatype adapter_effect = RunClient string "string list" | LogLine string

type_synonym adapter_run = "int \<times> (adapter_resource, adapter_effect) trace_step list"

record adapter_env =
  aeDescriptor :: "(string, descriptor) result"
  aeDisabled :: bool
  aeDefault :: "string option"
  aeConfig :: "(string, ssh_config) result"
  aeIdentity :: "string \<Rightarrow> string list \<Rightarrow> string \<Rightarrow> (string, connection) result"
  aeHexsha :: "string \<Rightarrow> string"
  aeRegistry :: registry_world
  aeListing :: "string \<Rightarrow> string \<Rightarrow> (string, (string \<times> bool) list) result"
  aeControl :: "string \<Rightarrow> (string, string \<times> string) result"
  aeClient :: "string \<Rightarrow> string list \<Rightarrow> client_outcome"

definition runClient :: "adapter_env \<Rightarrow> string \<Rightarrow> string list \<Rightarrow> adapter_run" where
  "runClient e path args = (execAdapterCommand (aeClient e path args), [Effect (RunClient path args)])"

definition joinedSession :: "adapter_env \<Rightarrow> descriptor \<Rightarrow> connection \<Rightarrow> active_session option" where
  "joinedSession e d connection =
     fst (readIntegrationSession (aeRegistry e) (cnTargetID connection) (aeListing e (deProfile d) (cnTargetID connection)))"

definition runIntegratedSCP :: "adapter_env \<Rightarrow> descriptor \<Rightarrow> string list \<Rightarrow> adapter_run" where
  "runIntegratedSCP e d args =
     (let identityArgs = scpIdentityArgs args; plain = runClient e (deSCPPath d) args in
      if identityArgs = [] then plain
      else case aeIdentity e (deSSHPath d) identityArgs (deProfile d) of
        Inl err \<Rightarrow> plain
      | Inr connection \<Rightarrow>
          (case joinedSession e d connection of
             None \<Rightarrow> plain
           | Some session \<Rightarrow>
               runClient e (deSCPPath d) ([''-o'', ''ControlMaster=no'', ''-o'', ''ControlPath='' @ asControlPath session] @ args)))"

definition adapterSession :: "adapter_env \<Rightarrow> descriptor \<Rightarrow> ssh_config \<Rightarrow> Parsed \<Rightarrow> connection \<Rightarrow> bool \<Rightarrow> string \<Rightarrow> adapter_run" where
  "adapterSession e d cfg parsed connection controlMaster controlPath =
     (let contextHome = remoteContextHome (cnTargetID connection) (cnContextID connection);
          mainArgs = adapterMainArgs parsed connection contextHome (feProxy (cfFeatures cfg)) (cfStrict cfg) controlMaster controlPath;
          main = runClient e (deSSHPath d) mainArgs;
          sidecar = Sidecar (pTarget parsed) (adapterSidecarArgs parsed controlPath) controlPath
      in (fst main, Hold sidecar # snd main @ [Free sidecar]))"

definition runIntegrationAdapter :: "adapter_env \<Rightarrow> string \<Rightarrow> string list \<Rightarrow> adapter_run" where
  "runIntegrationAdapter e invocation args =
     (case aeDescriptor e of
        Inl err \<Rightarrow> runClient e ''ssh'' args
      | Inr d \<Rightarrow>
          (if Base invocation = ''scp'' then
             (case removeNoWrap args of (cleanArgs, noWrap) \<Rightarrow>
                if noWrap \<or> aeDisabled e then runClient e (deSCPPath d) cleanArgs else runIntegratedSCP e d args)
           else
             let parsed = Parse args;
                 plain = runClient e (deSSHPath d) (pArgs parsed);
                 logged = (\<lambda>err. (fst plain, Effect (LogLine err) # snd plain))
             in if pNoWrap parsed \<or> aeDisabled e \<or> pInfoMode parsed \<or> pTarget parsed = [] \<or> hasSSHControlOperation parsed then plain
                else case aeDefault e of
                  Some err \<Rightarrow> logged err
                | None \<Rightarrow>
                    (case aeConfig e of
                       Inl err \<Rightarrow> logged err
                     | Inr cfg \<Rightarrow>
                         (if \<not> Enabled (cfFeatures cfg) then plain
                          else case aeIdentity e (deSSHPath d) (baseSSHArgs parsed) (deProfile d) of
                            Inl err \<Rightarrow> logged err
                          | Inr connection \<Rightarrow>
                              (case joinedSession e d connection of
                                 Some session \<Rightarrow> adapterSession e d cfg parsed connection False (asControlPath session)
                               | None \<Rightarrow>
                                   (case aeControl e (cnSessionID connection) of
                                      Inl err \<Rightarrow> logged err
                                    | Inr (controlDir, controlPath) \<Rightarrow>
                                        (let r = adapterSession e d cfg parsed connection True controlPath
                                         in (fst r, Hold (ControlDir controlDir) # snd r @ [Free (ControlDir controlDir)]))))))))"

subsection \<open>The sidecar\<close>

datatype sidecar_resource = SessionFile | LogFile | ProxyTunnel | ProxyState | SidecarBridge
datatype sidecar_effect = SideLog string | WaitDone

record sidecar_env =
  seReady :: bool
  seWriteSession :: "string option"
  seTunnel :: "string option"
  seProxyState :: "string option \<Rightarrow> string option"
  seResolver :: "string option"
  seServer :: "features \<Rightarrow> string option"
  seLauncher :: "bool \<Rightarrow> string option"
  seBridge :: "string option"

type_synonym sidecar_run = "(sidecar_resource, sidecar_effect) trace_step list"

definition sideLog :: "string \<Rightarrow> (sidecar_resource, sidecar_effect) trace_step" where
  "sideLog msg = Effect (SideLog msg)"

text \<open>From the check of the features to the end; \<open>proxyTunnelActive\<close> keeps the tunnel up when the services fail.\<close>

definition sidecarServices :: "sidecar_env \<Rightarrow> ssh_config \<Rightarrow> bool \<Rightarrow> sidecar_run" where
  "sidecarServices e cfg proxyTunnelActive =
     (let sidecarFeatures = (cfFeatures cfg)\<lparr>feProxy := False\<rparr>;
          stay = (if proxyTunnelActive then [Effect WaitDone] else [])
      in if \<not> Enabled sidecarFeatures then [Effect WaitDone]
         else
           let resolver = (if feAutoForward (cfFeatures cfg) then seResolver e else None);
               sidecarFeatures = (if resolver \<noteq> None then sidecarFeatures\<lparr>feAutoForward := False\<rparr> else sidecarFeatures);
               resolverLog = (case resolver of None \<Rightarrow> [] | Some err \<Rightarrow> [sideLog (''resolver: '' @ err)])
           in resolverLog @
             (case seServer e sidecarFeatures of
                Some err \<Rightarrow> sideLog (''remote server: '' @ err) # stay
              | None \<Rightarrow>
                  (case seLauncher e (feRemoteFS (cfFeatures cfg)) of
                     Some err \<Rightarrow> sideLog (''context launcher: '' @ err) # stay
                   | None \<Rightarrow>
                       (case seBridge e of
                          Some err \<Rightarrow> sideLog (''sidecar: '' @ err) # stay
                        | None \<Rightarrow> [Hold SidecarBridge, Effect WaitDone, Free SidecarBridge]))))"

definition sidecarProxy :: "sidecar_env \<Rightarrow> ssh_config \<Rightarrow> sidecar_run" where
  "sidecarProxy e cfg =
     (if \<not> feProxy (cfFeatures cfg) then sidecarServices e cfg False
      else case seTunnel e of
        Some proxyErr \<Rightarrow>
          (let body = (if cfStrict cfg then [Effect WaitDone] else sidecarServices e cfg False)
           in sideLog proxyErr #
              (case seProxyState e (Some proxyErr) of
                 Some err \<Rightarrow> sideLog (''write proxy error state: '' @ err) # body
               | None \<Rightarrow> Hold ProxyState # body @ [Free ProxyState]))
      | None \<Rightarrow>
          (case seProxyState e None of
             Some err \<Rightarrow>
               [Hold ProxyTunnel, Free ProxyTunnel, sideLog (''write proxy environment: '' @ err)] @
               (if cfStrict cfg then [Effect WaitDone] else sidecarServices e cfg False)
           | None \<Rightarrow>
               Hold ProxyState # (Hold ProxyTunnel # sidecarServices e cfg True @ [Free ProxyTunnel]) @ [Free ProxyState]))"

text \<open>The file of the session is taken away at the end whether or not it could be written.\<close>

definition runIntegrationSidecar :: "sidecar_env \<Rightarrow> ssh_config \<Rightarrow> sidecar_run" where
  "runIntegrationSidecar e cfg =
     (if \<not> seReady e then [sideLog ''OpenSSH control master did not become ready'']
      else Hold SessionFile #
        ((case seWriteSession e of None \<Rightarrow> [] | Some err \<Rightarrow> [sideLog err]) @
         (Hold LogFile # sidecarProxy e cfg @ [Free LogFile])) @ [Free SessionFile])"

subsection \<open>What the registry gives\<close>

definition usable_session :: "registry_world \<Rightarrow> string \<Rightarrow> active_session \<Rightarrow> bool" where
  "usable_session w targetID s \<longleftrightarrow>
     asTargetID s = targetID \<and> asControlPath s \<noteq> [] \<and> 0 < asPID s \<and> rwAlive w (asPID s) \<and> rwSocket w (asControlPath s)"

text \<open>The session an entry stands for, and whether it is litter: a readable file that stands for none.\<close>

definition entry_session :: "registry_world \<Rightarrow> string \<Rightarrow> string \<times> bool \<Rightarrow> active_session option" where
  "entry_session w targetID entry =
     (if snd entry \<or> \<not> HasSuffix (fst entry) ''.json'' then None
      else case rwFile w (fst entry) of
        Holds (Some s) \<Rightarrow> (if usable_session w targetID s then Some s else None)
      | _ \<Rightarrow> None)"

definition litter :: "registry_world \<Rightarrow> string \<Rightarrow> string \<times> bool \<Rightarrow> bool" where
  "litter w targetID entry \<longleftrightarrow> \<not> snd entry \<and> HasSuffix (fst entry) ''.json'' \<and> rwFile w (fst entry) \<noteq> Unreadable \<and>
     entry_session w targetID entry = None"

lemma readSessions_entry:
  "readSessions_loop w targetID (entry # rest) =
     (case entry_session w targetID entry of
        Some s \<Rightarrow> (Some s, [])
      | None \<Rightarrow> (let r = readSessions_loop w targetID rest
                in (fst r, (if litter w targetID entry then [fst entry] else []) @ snd r)))"
  by (cases entry)
    (auto simp: entry_session_def litter_def usable_session_def Let_def split: registry_file.splits option.splits)

text \<open>Joining a session: the last entry of the registry that stands for a live session of this target is
  taken, with the socket of a control master that is there; the entries looked at before it that stand for no
  live session are removed, and no others.\<close>
theorem readIntegrationSession_spec:
  "readSessions_loop w targetID entries =
     (case dropWhile (\<lambda>entry. entry_session w targetID entry = None) entries of
        [] \<Rightarrow> None | entry # rest \<Rightarrow> entry_session w targetID entry,
      map fst (filter (litter w targetID) (takeWhile (\<lambda>entry. entry_session w targetID entry = None) entries)))"
  by (induction entries)
    (auto simp: readSessions_entry Let_def simp del: readSessions_loop.simps(2) split: option.split)

lemma joined_is_usable:
  assumes "fst (readIntegrationSession w targetID listing) = Some s"
  shows "usable_session w targetID s"
proof -
  obtain entries where "listing = Inr entries" "fst (readSessions_loop w targetID (rev entries)) = Some s"
    using assms by (auto simp: readIntegrationSession_def split: sum.splits prod.splits option.splits)
  then obtain entry where "entry_session w targetID entry = Some s"
    by (auto simp: readIntegrationSession_spec split: list.splits)
  then show ?thesis by (auto simp: entry_session_def split: if_splits registry_file.splits option.splits)
qed

lemma removeIntegrationSession_own:
  "removeIntegrationSession path c (snd (writeIntegrationSession None path s reg)) =
     (if asControlPath s = c then reg(path := None) else reg(path \<mapsto> s))"
  by (simp add: removeIntegrationSession_def writeIntegrationSession_def)

subsection \<open>One client, whatever happens\<close>

definition clients :: "(adapter_resource, adapter_effect) trace_step list \<Rightarrow> (string \<times> string list) list" where
  "clients as = List.map_filter (\<lambda>a. case a of Effect (RunClient path args) \<Rightarrow> Some (path, args) | _ \<Rightarrow> None) as"

lemma clients_simps [simp]:
  "clients [] = []" "clients (Effect (RunClient p as) # rest) = (p, as) # clients rest"
  "clients (Effect (LogLine m) # rest) = clients rest" "clients (Hold r # rest) = clients rest"
  "clients (Free r # rest) = clients rest" "clients (xs @ ys) = clients xs @ clients ys"
  by (simp_all add: clients_def List.map_filter_def)

text \<open>A run of exactly one client, which decides the exit code, with everything set up for it taken down in reverse order.\<close>

definition one_client :: "adapter_env \<Rightarrow> (string \<Rightarrow> string list \<Rightarrow> bool) \<Rightarrow> adapter_run \<Rightarrow> bool" where
  "one_client e ok r \<longleftrightarrow> balanced (snd r) \<and>
     (case clients (snd r) of [(path, args)] \<Rightarrow> ok path args \<and> fst r = execAdapterCommand (aeClient e path args) | _ \<Rightarrow> False)"

lemma one_client_run [simp]: "one_client e ok (runClient e path args) \<longleftrightarrow> ok path args"
  by (simp add: one_client_def runClient_def)

lemma one_client_logged: "one_client e ok (c, as) \<Longrightarrow> one_client e ok (c, Effect (LogLine err) # as)"
  by (simp add: one_client_def cong: list.case_cong prod.case_cong)

lemma one_client_around: "one_client e ok (c, as) \<Longrightarrow> one_client e ok (c, Hold r # as @ [Free r])"
  by (auto simp: one_client_def cong: list.case_cong prod.case_cong)

text \<open>The command lines the adapter may run: the user's without \<open>--no-wrap\<close>, or the session's.\<close>

definition session_line :: "adapter_env \<Rightarrow> descriptor \<Rightarrow> Parsed \<Rightarrow> string list \<Rightarrow> bool" where
  "session_line e d parsed line \<longleftrightarrow>
     (\<exists>cfg c master controlPath. aeConfig e = Inr cfg \<and> Enabled (cfFeatures cfg) \<and>
        aeIdentity e (deSSHPath d) (baseSSHArgs parsed) (deProfile d) = Inr c \<and>
        (if master then \<exists>dir. aeControl e (cnSessionID c) = Inr (dir, controlPath)
         else \<exists>s. usable_session (aeRegistry e) (cnTargetID c) s \<and> controlPath = asControlPath s) \<and>
        line = adapterMainArgs parsed c (remoteContextHome (cnTargetID c) (cnContextID c))
                 (feProxy (cfFeatures cfg)) (cfStrict cfg) master controlPath)"

definition adapter_line :: "adapter_env \<Rightarrow> string \<Rightarrow> string list \<Rightarrow> string \<Rightarrow> string list \<Rightarrow> bool" where
  "adapter_line e invocation args path line \<longleftrightarrow>
     (case aeDescriptor e of
        Inl err \<Rightarrow> path = ''ssh'' \<and> line = args
      | Inr d \<Rightarrow>
          (if Base invocation = ''scp'' then path = deSCPPath d \<and>
             (line = fst (removeNoWrap args) \<or>
              (\<exists>c s. aeIdentity e (deSSHPath d) (scpIdentityArgs args) (deProfile d) = Inr c \<and>
                 usable_session (aeRegistry e) (cnTargetID c) s \<and>
                 line = [''-o'', ''ControlMaster=no'', ''-o'', ''ControlPath='' @ asControlPath s] @ args))
           else path = deSSHPath d \<and> (line = pArgs (Parse args) \<or> session_line e d (Parse args) line)))"

lemma adapterSession_client:
  "ok (deSSHPath d) (adapterMainArgs parsed c (remoteContextHome (cnTargetID c) (cnContextID c))
     (feProxy (cfFeatures cfg)) (cfStrict cfg) master controlPath) \<Longrightarrow>
   one_client e ok (adapterSession e d cfg parsed c master controlPath)"
  by (simp add: adapterSession_def Let_def one_client_around runClient_def one_client_def balanced_def)

lemma integratedSCP_client:
  assumes "ok (deSCPPath d) args"
    and "\<And>c s. aeIdentity e (deSSHPath d) (scpIdentityArgs args) (deProfile d) = Inr c \<Longrightarrow>
      usable_session (aeRegistry e) (cnTargetID c) s \<Longrightarrow>
      ok (deSCPPath d) ([''-o'', ''ControlMaster=no'', ''-o'', ''ControlPath='' @ asControlPath s] @ args)"
  shows "one_client e ok (runIntegratedSCP e d args)"
  using assms by (auto simp: runIntegratedSCP_def Let_def joinedSession_def dest!: joined_is_usable split: sum.split option.split)

lemma adapter_ssh:
  assumes d: "aeDescriptor e = Inr d" and b: "Base invocation \<noteq> ''scp''"
  shows "one_client e (adapter_line e invocation args) (runIntegrationAdapter e invocation args)"
proof -
  define p where "p = Parse args"
  let ?ok = "adapter_line e invocation args" and ?plain = "runClient e (deSSHPath d) (pArgs p)"
  have plain: "one_client e ?ok ?plain"
    using d b by (simp add: adapter_line_def p_def)
  have logged: "one_client e ?ok (fst ?plain, Effect (LogLine err) # snd ?plain)" for err
    using plain by (intro one_client_logged) simp
  note run = runIntegrationAdapter_def [of e invocation args, unfolded Let_def, folded p_def]
  show ?thesis
  proof (cases "pNoWrap p \<or> aeDisabled e \<or> pInfoMode p \<or> pTarget p = [] \<or> hasSSHControlOperation p \<or> aeDefault e \<noteq> None \<or>
      (\<exists>err. aeConfig e = Inl err)")
    case True
    then show ?thesis using plain logged unfolding run by (auto simp: d b split: option.split)
  next
    case False
    then obtain cfg where cfg: "aeConfig e = Inr cfg" by (cases "aeConfig e") auto
    show ?thesis
    proof (cases "Enabled (cfFeatures cfg)")
      case off: False
      then show ?thesis using plain False cfg unfolding run by (auto simp: d b)
    next
      case on: True
      show ?thesis
      proof (cases "aeIdentity e (deSSHPath d) (baseSSHArgs p) (deProfile d)")
        case (Inl err)
        then show ?thesis using logged False cfg on unfolding run by (auto simp: d b)
      next
        case c: (Inr c)
        have session: "one_client e ?ok (adapterSession e d cfg p c master path)"
          if "if master then \<exists>dir. aeControl e (cnSessionID c) = Inr (dir, path)
              else \<exists>s. usable_session (aeRegistry e) (cnTargetID c) s \<and> path = asControlPath s" for master path
        proof (rule adapterSession_client)
          have "session_line e d p (adapterMainArgs p c (remoteContextHome (cnTargetID c) (cnContextID c))
              (feProxy (cfFeatures cfg)) (cfStrict cfg) master path)"
            unfolding session_line_def using cfg on c that by blast
          then show "?ok (deSSHPath d) (adapterMainArgs p c (remoteContextHome (cnTargetID c) (cnContextID c))
              (feProxy (cfFeatures cfg)) (cfStrict cfg) master path)"
            using d b by (simp add: adapter_line_def p_def)
        qed
        show ?thesis
        proof (cases "joinedSession e d c")
          case (Some s)
          then have "usable_session (aeRegistry e) (cnTargetID c) s" by (auto simp: joinedSession_def dest: joined_is_usable)
          then show ?thesis using session [of False "asControlPath s"] Some False cfg on c unfolding run by (auto simp: d b)
        next
          case None
          show ?thesis
          proof (cases "aeControl e (cnSessionID c)")
            case (Inl err)
            then show ?thesis using logged None False cfg on c unfolding run by (auto simp: d b)
          next
            case (Inr dp)
            obtain dir path where dp: "dp = (dir, path)" by (cases dp)
            have "one_client e ?ok (fst (adapterSession e d cfg p c True path),
                Hold (ControlDir dir) # snd (adapterSession e d cfg p c True path) @ [Free (ControlDir dir)])"
              using session [of True path] Inr dp by (intro one_client_around) simp
            then show ?thesis using Inr dp None False cfg on c unfolding run by (auto simp: d b)
          qed
        qed
      qed
    qed
  qed
qed


subsection \<open>The sidecar leaves nothing behind\<close>

lemma sidecarServices_balanced: "balanced (sidecarServices e cfg active)"
  by (auto simp: sidecarServices_def Let_def sideLog_def balanced_def split: option.split)

lemma sidecarProxy_balanced: "balanced (sidecarProxy e cfg)"
proof -
  note s = sidecarServices_balanced
  have wait: "balanced (if b then [Effect WaitDone] else sidecarServices e cfg False)" for b
    using s by simp
  have body: "balanced (Hold r # as @ [Free r])" if "balanced as" for r and as :: sidecar_run
    using that by (rule balanced_around)
  have "balanced (Hold ProxyTunnel # Free ProxyTunnel # as)" if "balanced as" for as :: sidecar_run
    using balanced_append [OF body [OF balanced_Nil, of ProxyTunnel] that] by simp
  then show ?thesis
    using s wait body [OF wait] body [OF body [OF s]] by (auto simp: sidecarProxy_def sideLog_def Let_def split: option.split)
qed

text \<open>The sidecar of a session takes down everything it set up: the bridge, the proxy tunnel, the state it wrote
  for the session's shell, the log and the session's file in the registry, each once and in the reverse order,
  whichever of its steps fail.\<close>
theorem sidecar_cleans_up:
  "balanced (runIntegrationSidecar e cfg) \<and>
   count_list (runIntegrationSidecar e cfg) (Hold r) = count_list (runIntegrationSidecar e cfg) (Free r)"
proof -
  have w: "balanced (case seWriteSession e of None \<Rightarrow> [] | Some err \<Rightarrow> [sideLog err])"
    by (simp add: sideLog_def split: option.split)
  have l: "balanced (Hold LogFile # sidecarProxy e cfg @ [Free LogFile])"
    using sidecarProxy_balanced by (rule balanced_around)
  have "balanced (runIntegrationSidecar e cfg)"
    unfolding runIntegrationSidecar_def using balanced_around [OF balanced_append [OF w l]]
    by (cases "seReady e") (simp_all only: if_True if_False not_True_eq_False not_False_eq_True sideLog_def balanced_Effect balanced_Nil)
  then show ?thesis by (simp add: balanced_counts)
qed

subsection \<open>The command line of a session\<close>

lemma stripControl_dest: "plain_dest t \<Longrightarrow> stripControlOptions (t # rest) = t # stripControlOptions rest"
  by (simp add: plain_dest_def no_dash_facts)

lemma stripAction_dest: "plain_dest t \<Longrightarrow> stripAuxiliaryActionOptions (t # rest) = t # stripAuxiliaryActionOptions rest"
  by (simp add: plain_dest_def no_dash_facts)

lemma set_tl: "set (tl xs) \<subseteq> set xs" by (cases xs) auto

lemma stripControl_step:
  "stripControlOptions (arg # rest) \<in>
     {stripControlOptions (tl rest), stripControlOptions rest, arg # stripControlOptions rest, arg # hd rest # stripControlOptions (tl rest)}
     - (if rest = [] then {arg # hd rest # stripControlOptions (tl rest)} else {}) \<or>
   rest = [] \<and> stripControlOptions (arg # rest) \<in> {[], [arg]}"
  by (cases rest) auto

lemma stripControl_subset: "set (stripControlOptions args) \<subseteq> set args"
proof (induction "length args" arbitrary: args rule: less_induct)
  case less
  show ?case
  proof (cases args)
    case (Cons arg rest)
    have r: "set (stripControlOptions rest) \<subseteq> set rest" using less Cons by simp
    have t: "set (stripControlOptions (tl rest)) \<subseteq> set rest"
      using less [of "tl rest"] Cons set_tl [of rest] by (cases rest) auto
    show ?thesis
    proof (cases "rest = []")
      case True
      then show ?thesis using Cons by auto
    next
      case False
      then have "hd rest \<in> set rest" by simp
      then show ?thesis using stripControl_step [of arg rest] r t Cons False by (auto simp del: stripControlOptions.simps)
    qed
  qed simp
qed

lemma stripAction_subset: "set (stripAuxiliaryActionOptions args) \<subseteq> set args"
proof (induction args rule: stripAuxiliaryActionOptions.induct)
  case (2 arg rest)
  have tl: "set (stripAuxiliaryActionOptions (tl rest)) \<subseteq> set rest"
    if "set (stripAuxiliaryActionOptions (tl rest)) \<subseteq> set (tl rest)"
    using that set_tl by (rule subset_trans)
  show ?case
    unfolding stripAuxiliaryActionOptions.simps using 2 tl by (simp del: stripAuxiliaryActionOptions.simps split: if_split) blast
qed simp

primrec keep_action :: "ssh_unit \<Rightarrow> bool" where
  "keep_action (Flag f) \<longleftrightarrow> \<not> (length f > 2 \<and> valueActions (take 2 f)) \<and> f \<noteq> ''-N'' \<and> f \<noteq> ''-f''"
| "keep_action (Opt c v) \<longleftrightarrow> \<not> valueActions c"

interpretation action: unit_filter stripAuxiliaryActionOptions keep_action
proof
  fix u rest
  assume wf: "wf_unit u"
  show "stripAuxiliaryActionOptions (unit_args u @ rest) =
      (if keep_action u then unit_args u else []) @ stripAuxiliaryActionOptions rest"
  proof (cases u)
    case (Flag f)
    with wf have "wf_unit (Flag f)" by simp
    from wf_Flag_facts [OF this] show ?thesis by (simp add: Flag)
  next
    case (Opt c v)
    with wf have "wf_unit (Opt c v)" by simp
    from wf_Opt_facts [OF this] show ?thesis by (simp add: Opt no_dash_facts)
  qed
qed (simp add: plain_dest_def no_dash_facts)

lemma stripControl_units:
  "list_all wf_unit us \<Longrightarrow> stripControlOptions (flatten us @ rest) = flatten (filter keep_control us) @ stripControlOptions rest"
  using control.units [of us rest] filters_agree by simp

definition controlUnits :: "bool \<Rightarrow> string \<Rightarrow> ssh_unit list" where
  "controlUnits master path =
     (if master then [Opt ''-o'' ''ControlMaster=yes'', Opt ''-o'' ''ControlPersist=no'', Opt ''-S'' path]
      else [Opt ''-o'' ''ControlMaster=no'', Opt ''-S'' path])"

lemma controlUnits: "flatten (controlUnits master path) = controlOptions master path"
  by (simp add: controlUnits_def controlOptions_def)

lemma controlUnits_wf: "\<not> HasPrefix path ''-'' \<Longrightarrow> list_all wf_unit (controlUnits master path)"
  by (simp add: controlUnits_def optionsWithRequiredValue_def)

lemma controlOptions_socket: "sshControlPath (controlOptions master path @ rest) = path"
proof -
  have "\<not> EqualFold (fst (Cut ''ControlMaster=yes'' CHR ''='')) ''ControlPath''" "\<not> EqualFold (fst (Cut ''ControlPersist=no'' CHR ''='')) ''ControlPath''"
    "\<not> EqualFold (fst (Cut ''ControlMaster=no'' CHR ''='')) ''ControlPath''" by code_simp+
  then show ?thesis by (auto simp: controlOptions_def split: prod.splits)
qed

lemma session_script:
  assumes "baseSSHArgs p = args" "args \<noteq> []" "\<not> hasSSHSubsystemFlag args" "pRemoteCommand p = rc"
    "\<not> (rc = [] \<and> hasSSHSessionlessFlag args)"
  shows "\<exists>script. integrationSessionSSHArgsWithProxy p ctx home sid proxy strict =
    (if rc = [] \<and> \<not> hasSSHDisableTTYFlag args \<and> \<not> hasSSHForceTTYFlag args then [''-t''] else []) @ args @ [remoteShell script]"
proof (cases "rc = []")
  case True
  then show ?thesis using assms unfolding integrationSessionSSHArgsWithProxy_def Let_def by (simp only: if_True if_False simp_thms) blast
next
  case False
  then show ?thesis using assms unfolding integrationSessionSSHArgsWithProxy_def Let_def by (simp only: if_True if_False simp_thms append_Nil) blast
qed

text \<open>A session started by an editor goes to the editor's destination with all its options except those that
  name a control socket; the socket is the session's, as master or as slave, and what the editor wanted to run
  becomes one script for the remote shell (a terminal is asked for only for a login shell).\<close>
theorem adapter_session_line:
  assumes us: "list_all wf_unit us" and t: "plain_dest t" and rc: "''--no-wrap'' \<notin> set rc"
    and path: "\<not> HasPrefix path ''-''" and no_subsystem: "\<not> hasSSHSubsystemFlag (flatten us @ [t])"
  shows "let opts = flatten (filter keep_control us);
      line = adapterMainArgs (Parse (flatten us @ t # rc)) c home proxy strict master path
    in sshControlPath line = path \<and> pTarget (Parse line) = t \<and>
       (if rc = [] \<and> hasSSHSessionlessFlag (flatten us @ [t]) then line = opts @ controlOptions master path @ [t]
        else \<exists>script. line = (if rc = [] \<and> \<not> hasSSHDisableTTYFlag (flatten us @ [t]) \<and> \<not> hasSSHForceTTYFlag (flatten us @ [t])
                then [''-t''] else []) @ opts @ controlOptions master path @ [t, remoteShell script] \<and>
              sh_words (remoteShell script) = Some [''sh'', ''-lc'', script])"
proof -
  note P = Parse_units_command [OF us t rc] and B = baseSSHArgs_command [OF us t rc]
  let ?I = "integrationSessionSSHArgsWithProxy (Parse (flatten us @ t # rc)) (cnContextID c) home (cnSessionID c) proxy strict"
  let ?tty = "if rc = [] \<and> \<not> hasSSHDisableTTYFlag (flatten us @ [t]) \<and> \<not> hasSSHForceTTYFlag (flatten us @ [t]) then [Flag ''-t''] else []"
  have shape: "InsertBeforeTarget (Parse (stripControlOptions (flatten vs @ t # cmd))) (controlOptions master path) =
        flatten (filter keep_control vs) @ controlOptions master path @ t # cmd \<and>
      sshControlPath (flatten (filter keep_control vs) @ controlOptions master path @ t # cmd) = path \<and>
      pTarget (Parse (flatten (filter keep_control vs) @ controlOptions master path @ t # cmd)) = t"
    if vs: "list_all wf_unit vs" and cmd: "stripControlOptions cmd = cmd" "''--no-wrap'' \<notin> set cmd" for vs cmd
  proof -
    have k: "list_all wf_unit (filter keep_control vs)" "list_all keep_control (filter keep_control vs)"
      using vs by (auto simp: list_all_filter list_all_iff)
    have l: "list_all wf_unit (filter keep_control vs @ controlUnits master path)"
      using k(1) controlUnits_wf [OF path] by simp
    have "stripControlOptions (flatten vs @ t # cmd) = flatten (filter keep_control vs) @ t # cmd"
      using stripControl_units [OF vs, of "t # cmd"] stripControl_dest [OF t] cmd(1) by simp
    then show ?thesis
      using Insert_units_command [OF k(1) t cmd(2)] keep_control_no_socket [OF k] controlOptions_socket
        Parse_units_command [OF l t cmd(2)] by (simp add: controlUnits)
  qed
  show ?thesis
  proof (cases "rc = [] \<and> hasSSHSessionlessFlag (flatten us @ [t])")
    case True
    then have "?I = flatten us @ [t]" using P B no_subsystem by (simp add: integrationSessionSSHArgsWithProxy_def)
    then show ?thesis using shape [OF us, of "[]"] True unfolding adapterMainArgs_def Let_def by simp
  next
    case False
    have "\<exists>script. ?I = (if rc = [] \<and> \<not> hasSSHDisableTTYFlag (flatten us @ [t]) \<and> \<not> hasSSHForceTTYFlag (flatten us @ [t])
        then [''-t''] else []) @ (flatten us @ [t]) @ [remoteShell script]"
      using P False no_subsystem by (intro session_script) (simp_all only: B, auto)
    then have "\<exists>script. ?I = flatten (?tty @ us) @ t # [remoteShell script]" by auto
    then obtain script where I: "?I = flatten (?tty @ us) @ t # [remoteShell script]" ..
    have tty: "list_all wf_unit (?tty @ us)" using us by (simp add: optionsWithRequiredValue_def)
    have keep: "keep_control (Flag ''-t'')" by simp
    have "stripControlOptions [remoteShell script] = [remoteShell script]" by (simp add: remoteShell_def)
    moreover have "''--no-wrap'' \<notin> set [remoteShell script]" using remoteShell_not_flag by auto
    ultimately have S: "adapterMainArgs (Parse (flatten us @ t # rc)) c home proxy strict master path =
        flatten (filter keep_control (?tty @ us)) @ controlOptions master path @ [t, remoteShell script]"
      "sshControlPath (flatten (filter keep_control (?tty @ us)) @ controlOptions master path @ [t, remoteShell script]) = path"
      "pTarget (Parse (flatten (filter keep_control (?tty @ us)) @ controlOptions master path @ [t, remoteShell script])) = t"
      using shape [OF tty, of "[remoteShell script]"] unfolding adapterMainArgs_def I by simp_all
    have F: "flatten (filter keep_control (?tty @ us)) = (if rc = [] \<and> \<not> hasSSHDisableTTYFlag (flatten us @ [t]) \<and>
        \<not> hasSSHForceTTYFlag (flatten us @ [t]) then [''-t''] else []) @ flatten (filter keep_control us)"
      using keep by simp
    show ?thesis using S False sh_words_remoteShell [of script] unfolding Let_def S(1) unfolding F by auto
  qed
qed

theorem adapter_session_line_witness:
  "\<exists>script. adapterMainArgs (Parse [''-o'', ''ControlPath=/mine'', ''-p'', ''22'', ''web'', ''uname'', ''-a''])
       \<lparr>cnTargetID = ''t'', cnContextID = ''c'', cnSessionID = ''s''\<rparr> ''/home'' False False True ''/m'' =
     [''-p'', ''22'', ''-o'', ''ControlMaster=yes'', ''-o'', ''ControlPersist=no'', ''-S'', ''/m'', ''web'', remoteShell script]"
proof -
  let ?us = "[Opt ''-o'' ''ControlPath=/mine'', Opt ''-p'' ''22'']" and ?c = "\<lparr>cnTargetID = ''t'', cnContextID = ''c'', cnSessionID = ''s''\<rparr>"
  have h: "list_all wf_unit ?us" "plain_dest ''web''" "''--no-wrap'' \<notin> set [''uname'', ''-a'']" "\<not> HasPrefix ''/m'' ''-''"
    "\<not> hasSSHSubsystemFlag (flatten ?us @ [''web''])" by code_simp+
  have k: "filter keep_control ?us = [Opt ''-p'' ''22'']" by code_simp
  show ?thesis using adapter_session_line [OF h, of ?c "''/home''" False False True] unfolding k by (auto simp: Let_def controlOptions_def)
qed

text \<open>The sidecar's own connections: the editor's options without control sockets, forwards and background flags,
  through the session's socket.\<close>

lemma adapter_sidecar_line:
  assumes us: "list_all wf_unit us" and t: "plain_dest t" and rc: "''--no-wrap'' \<notin> set rc"
  shows "adapterSidecarArgs (Parse (flatten us @ t # rc)) path =
    flatten (filter keep_action (filter keep_control us)) @
      [''-o'', ''ControlMaster=no'', ''-o'', ''ControlPath='' @ path, ''-o'', ''ClearAllForwardings=yes'', t]"
proof -
  let ?vs = "filter keep_action (filter keep_control us)" and ?rc = "stripAuxiliaryActionOptions (stripControlOptions rc)"
  let ?opts = "[Opt ''-o'' ''ControlMaster=no'', Opt ''-o'' (''ControlPath='' @ path), Opt ''-o'' ''ClearAllForwardings=yes'']"
  have k: "list_all wf_unit (filter keep_control us)" "list_all wf_unit ?vs" using us by (simp_all add: list_all_filter)
  have n: "''--no-wrap'' \<notin> set ?rc" using rc stripControl_subset stripAction_subset by blast
  have o: "list_all wf_unit (?vs @ ?opts)" using k by (simp add: optionsWithRequiredValue_def)
  have s: "stripAuxiliaryActionOptions (stripControlOptions (flatten us @ t # rc)) = flatten ?vs @ t # ?rc"
    using stripControl_units [OF us, of "t # rc"] action.units [OF k(1), of "t # stripControlOptions rc"] stripControl_dest [OF t]
      stripAction_dest [OF t] by simp
  have "flatten ?vs @ flatten ?opts @ t # ?rc = flatten (?vs @ ?opts) @ t # ?rc" by simp
  then show ?thesis
    using Parse_units_command [OF us t rc] Insert_units_command [OF k(2) t n, of "flatten ?opts"] baseSSHArgs_command [OF o t n] s
    by (simp add: adapterSidecarArgs_def)
qed

subsection \<open>scp\<close>

text \<open>A port given as one argument is not seen: the copy is identified with the session of the default port.\<close>

lemma attached_port_ignored:
  "scpIdentityArgs [''-P2222'', ''notes.txt'', ''web:notes.txt''] = [''web'']"
  "scpIdentityArgs [''-P'', ''2222'', ''notes.txt'', ''web:notes.txt''] = [''-p'', ''2222'', ''web'']"
  by code_simp+

text \<open>The first colon of a bracketed IPv6 address is inside the brackets: the host becomes a bracket.\<close>

lemma bracketed_host_misread:
  "scpIdentityArgs [''notes.txt'', ''[::1]:notes.txt''] = [''['']"
  by code_simp

lemma scpIdentityArgs_one_host:
  "scpIdentityArgs args \<noteq> [] \<Longrightarrow> set (snd (scpIdentity_loop args)) = {last (scpIdentityArgs args)}"
proof -
  assume "scpIdentityArgs args \<noteq> []"
  then have c: "length (remdups (snd (scpIdentity_loop args))) = 1"
    unfolding scpIdentityArgs_def Let_def by (metis (full_types))
  then have l: "last (scpIdentityArgs args) = last (snd (scpIdentity_loop args))"
    unfolding scpIdentityArgs_def Let_def by (simp only: if_False simp_thms last_snoc)
  from c have "card (set (snd (scpIdentity_loop args))) = 1" unfolding length_remdups_card_conv .
  then obtain x where x: "set (snd (scpIdentity_loop args)) = {x}" by (rule card_1_singletonE)
  then have "snd (scpIdentity_loop args) \<noteq> []" by (metis insert_not_empty list.set(1))
  then have "last (snd (scpIdentity_loop args)) \<in> {x}" using last_in_set unfolding x [symmetric] by blast
  then show ?thesis unfolding x l by blast
qed

end
