(* ===== verification/BridgeStart.thy ===== *)
theory BridgeStart
  imports Runner Resources Layout Locald BridgeClient
begin

text \<open>
  Setting up and taking down a bridge (\<open>defaultStartBridge\<close>, \<open>startControlMaster\<close> and \<open>ensureLocalDaemon\<close> of
  \<open>internal/cli/ssh_bridge.go\<close>, \<open>startDockerBridge\<close> of \<open>docker.go\<close>) as traces of what is acquired and
  released. The outcome of each step is a field of the record \<open>bridge_env\<close>; the goroutine that serves the
  commands is theory BridgeClient, the mount table theory MountManager, the daemon theory Locald.
\<close>

subsection \<open>The environment\<close>

datatype handshake = ClientReady | ReadyError string | ClientEnded string | HandshakeTimeout

record bridge_env =
  beToken :: string
  beServerInfo :: "string \<Rightarrow> (string, string) result"
  beReadInfo :: "(string, string) result"
  beHexsha :: "string \<Rightarrow> string"
  beMarshal :: "ssh_target \<Rightarrow> string"
  beUUID :: "(string, string) result"
  beConnection :: connection
  beTarget :: string
  beSSHPath :: string
  beSSHArgs :: "string list"
  beRunnerSocket :: string
  beRemoteHome :: string
  beAutoForward :: bool
  beRemoteFS :: bool
  beUseProxy :: bool
  beSidecar :: bool
  beStrict :: bool
  beReadOnly :: bool
  beSuffix :: string
  beDNSAddr :: string
  beVersion :: string
  beDaemon :: "string option"
  beProcess :: "string list \<Rightarrow> string option"
  beLease :: "Request \<Rightarrow> string option"
  beMux :: "string option"
  beHandshake :: handshake
  bePeer :: "string option"
  beGetwd :: "(string, string) result"
  beMountsRoot :: string
  beUserHome :: "(string, string) result"
  beOpenDir :: "string \<Rightarrow> string option"
  beRegister :: "string option"
  beCreateMount :: "string \<Rightarrow> (string, string) result"
  beSSH :: "string list \<Rightarrow> (string, string) result"

datatype bridge_resource =
  BridgeContext | ControlProxy | LocalLease | MuxSession | MountTable | DataPeer | ExportedDir | RemoteMount | ProxySocks

datatype bridge_effect = EnsureDaemon | RunInternal "string list" | RegisterExport | UnregisterExport | ProxySkipped string

type_synonym bridge_steps = "(bridge_resource, bridge_effect) trace_step list"

subsection \<open>Before the handshake\<close>

definition fetchRemoteToken :: "bridge_env \<Rightarrow> (string, string) result" where
  "fetchRemoteToken e = (case beReadInfo e of Inl err \<Rightarrow> Inl err | Inr out \<Rightarrow> parseServerInfoToken (beServerInfo e) out)"

definition bridgeToken :: "bridge_env \<Rightarrow> (string, string) result" where
  "bridgeToken e = (if beToken e = [] then fetchRemoteToken e else Inr (beToken e))"

text \<open>Identifiers that are missing are filled in.\<close>

definition bridgeConnection :: "bridge_env \<Rightarrow> (string, connection) result" where
  "bridgeConnection e =
     (let c = beConnection e;
          c = (if cnTargetID c = [] then c\<lparr>cnTargetID := TargetID (beHexsha e) (beMarshal e)
                 \<lparr>tgUser = ''unknown'', tgHostname = beTarget e, tgPort = 22, tgHostKeyAlias = []\<rparr>\<rparr> else c);
          c = (if cnContextID c = [] then c\<lparr>cnContextID := ContextID (beHexsha e) ''direct'' (cnTargetID c) ''cli''\<rparr> else c)
      in if cnSessionID c \<noteq> [] then Inr c
         else case beUUID e of Inl err \<Rightarrow> Inl err | Inr uuid \<Rightarrow> Inr (c\<lparr>cnSessionID := uuid\<rparr>))"

definition bridgeControlPath :: "bridge_env \<Rightarrow> string" where
  "bridgeControlPath e = (let p = sshControlPath (beSSHArgs e) in if p = [] then beRunnerSocket e else p)"

definition muxProxyScript :: "string \<Rightarrow> string" where
  \<open>muxProxyScript remoteHome =
     remoteServerEnvScript remoteHome @ ''; exec "$SSHX_SERVER_HOME/sshx" mux-proxy --control "$SSHX_SERVER_HOME/sock" --fs "$SSHX_SERVER_HOME/sock.fs"''\<close>

definition socketProxyScript :: "string \<Rightarrow> string" where
  \<open>socketProxyScript remoteHome =
     remoteServerEnvScript remoteHome @ ''; exec "$SSHX_SERVER_HOME/sshx" socket-proxy --socket "$SSHX_SERVER_HOME/sock"''\<close>

text \<open>What the session asks of the local daemon: its lease, and a forward for each port the server reports.\<close>

definition leaseRequest :: "bridge_env \<Rightarrow> connection \<Rightarrow> Request" where
  "leaseRequest e c =
     Request0\<lparr>rqSSHPath := beSSHPath e, rqTarget := beTarget e, rqSSHArgs := CleanSSHArgs (beSSHArgs e), rqDomainSuffix := beSuffix e,
       rqDNSAddr := beDNSAddr e, rqLeaseID := cnSessionID c, rqTargetID := cnTargetID c, rqControlPath := bridgeControlPath e,
       rqAppVersion := beVersion e\<rparr>"

definition OnPortObserved :: "bridge_env \<Rightarrow> connection \<Rightarrow> bool \<Rightarrow> string \<Rightarrow> int \<Rightarrow> Request option" where
  "OnPortObserved e c autoForwardStopped host port =
     (if autoForwardStopped then None
      else Some (Request0\<lparr>rqType := TypeEnsureTargetPort, rqSSHPath := beSSHPath e, rqTarget := beTarget e,
        rqSSHArgs := CleanSSHArgs (beSSHArgs e), rqRemoteHost := host, rqRemotePort := port, rqLeaseID := cnSessionID c,
        rqTargetID := cnTargetID c, rqControlPath := bridgeControlPath e, rqDomainSuffix := beSuffix e, rqDNSAddr := beDNSAddr e\<rparr>))"

definition OnPortGone :: "bridge_env \<Rightarrow> connection \<Rightarrow> bool \<Rightarrow> int \<Rightarrow> Request option" where
  "OnPortGone e c autoForwardStopped port =
     (if autoForwardStopped then None
      else Some (Request0\<lparr>rqType := TypeRemoveTargetPort, rqSSHPath := beSSHPath e, rqTarget := beTarget e,
        rqSSHArgs := CleanSSHArgs (beSSHArgs e), rqRemotePort := port, rqLeaseID := cnSessionID c, rqTargetID := cnTargetID c\<rparr>))"

definition bridgeCapabilities :: "bridge_env \<Rightarrow> string list" where
  "bridgeCapabilities e =
     [''command.exec.batch-stdin'', ''heartbeat.v1''] @ (if beRemoteFS e then [''remotefs.fs.v1''] else [])"

definition bridgeAllows :: "bool \<Rightarrow> bool \<Rightarrow> (string list \<Rightarrow> bool) \<Rightarrow> string list \<Rightarrow> bool" where
  "bridgeAllows commandBridge remoteFS policy argv = ((commandBridge \<or> remoteFS) \<and> policy argv)"

text \<open>Who runs a command: this host directly, or the mount table once the data session is there.\<close>

definition bridgeExecute :: "(Frame \<Rightarrow> Frame) \<Rightarrow> (Frame \<Rightarrow> Frame) option \<Rightarrow> bool \<Rightarrow> Frame \<Rightarrow> Frame" where
  "bridgeExecute executeLocal mountTable peer frame =
     (if \<not> fRemoteFS frame then executeLocal frame
      else if \<not> peer then commandError (fID frame) ''remote fs data session is unavailable''
      else case mountTable of
        None \<Rightarrow> commandError (fID frame) ''remote fs mount manager is unavailable''
      | Some execute \<Rightarrow> execute frame)"

subsection \<open>The exported workspace\<close>

record workspace_state =
  wkMountRoot :: string
  wkWorkspace :: string
  wkOpened :: bool

definition exportCwd :: "bridge_env \<Rightarrow> (string, string) result" where
  "exportCwd e =
     (case beGetwd e of
        Inl err \<Rightarrow> Inl err
      | Inr cwd \<Rightarrow>
          (case PathWithin cwd (beMountsRoot e) cwd of
             Inl err \<Rightarrow> Inl err
           | Inr True \<Rightarrow> Inl ''cwd is inside an sshx mount; leave the mount before running this command''
           | Inr False \<Rightarrow> Inr cwd))"

definition exportWorkspace :: "bridge_env \<Rightarrow> string option \<times> workspace_state \<times> bridge_steps" where
  "exportWorkspace e =
     (let none = \<lparr>wkMountRoot = [], wkWorkspace = [], wkOpened = False\<rparr> in
      case exportCwd e of
        Inl err \<Rightarrow> (Some err, none, [])
      | Inr cwd \<Rightarrow>
          (case CurrentExportLayout (beUserHome e) cwd cwd of
             Inl err \<Rightarrow> (Some err, none, [])
           | Inr layout \<Rightarrow>
               (case beOpenDir e (elRootPath layout) of
                  Some err \<Rightarrow> (Some err, none, [])
                | None \<Rightarrow>
                    (let opened = none\<lparr>wkOpened := True\<rparr> in
                     case beRegister e of
                       Some err \<Rightarrow> (Some err, opened, [Hold ExportedDir])
                     | None \<Rightarrow>
                         (case beCreateMount e (elMountPath layout) of
                            Inl err \<Rightarrow> (Some err, opened, [Hold ExportedDir, Effect RegisterExport])
                          | Inr mountRoot \<Rightarrow>
                              (let steps = [Hold ExportedDir, Effect RegisterExport] @
                                     (if mountRoot = [] then [] else [Hold RemoteMount]);
                                   mounted = opened\<lparr>wkMountRoot := mountRoot\<rparr>
                               in case WorkspacePathBelow mountRoot (elRelativeCwd layout) of
                                    Inl err \<Rightarrow> (Some err, mounted, steps)
                                  | Inr workspace \<Rightarrow> (None, mounted\<lparr>wkWorkspace := workspace\<rparr>, steps)))))))"

definition dropWorkspace :: "bridge_env \<Rightarrow> workspace_state \<Rightarrow> bridge_steps" where
  "dropWorkspace e ws =
     (if wkMountRoot ws = [] then [] else [Free RemoteMount]) @ [Effect UnregisterExport] @
     (if wkOpened ws then [Free ExportedDir] else []) @ [Free MountTable, Free DataPeer]"

subsection \<open>Starting\<close>

text \<open>\<open>cancel\<close>, the lease and, if the code names it, the multiplexer; then the control proxy.\<close>

definition shutBridge :: "bool \<Rightarrow> bool \<Rightarrow> bridge_steps" where
  "shutBridge lease mux =
     [Free BridgeContext] @ (if lease then [Free LocalLease] else []) @ (if mux then [Free MuxSession] else []) @
     [Free ControlProxy]"

record live_bridge =
  lvTunnel :: "proxy_tunnel option"
  lvPeer :: bool
  lvLease :: bool
  lvTable :: bool
  lvWorkspace :: workspace_state

definition stopBridge :: "live_bridge \<Rightarrow> bridge_steps" where
  "stopBridge b =
     (case lvTunnel b of None \<Rightarrow> [] | Some t \<Rightarrow> [Free ProxySocks]) @
     (if lvPeer b then
        (if wkMountRoot (lvWorkspace b) = [] then [] else [Free RemoteMount]) @
        (if wkOpened (lvWorkspace b) then [Effect UnregisterExport] else []) @ [Free DataPeer]
      else []) @
     (if wkOpened (lvWorkspace b) then [Free ExportedDir] else []) @
     (if lvTable b then [Free MountTable] else []) @
     [Free BridgeContext, Free MuxSession] @ (if lvLease b then [Free LocalLease] else []) @ [Free ControlProxy]"

type_synonym bridge_result = "(string, bridge_session \<times> live_bridge) result \<times> bridge_steps"

definition startSession :: "bridge_env \<Rightarrow> connection \<Rightarrow> bool \<Rightarrow> live_bridge \<Rightarrow> bridge_result" where
  "startSession e c wantProxy b =
     (let session = (\<lambda>tunnel. \<lparr>bsSessionID = cnSessionID c, bsContextID = cnContextID c, bsRemoteFS = beRemoteFS e,
            bsMountRoot = wkMountRoot (lvWorkspace b), bsWorkspace = wkWorkspace (lvWorkspace b), bsReadOnly = beReadOnly e,
            bsProxyURL = (case tunnel of None \<Rightarrow> [] | Some t \<Rightarrow> ptURL t), bsControlPath = bridgeControlPath e\<rparr>)
      in if \<not> wantProxy then (Inr (session None, b), [])
         else case startProxyTunnel (beSSH e) (beSSHArgs e) (bridgeControlPath e) of
           (Inr t, runs) \<Rightarrow>
             (Inr (session (Some t), b\<lparr>lvTunnel := Some t\<rparr>), map (\<lambda>args. Effect (RunInternal args)) runs @ [Hold ProxySocks])
         | (Inl err, runs) \<Rightarrow>
             (if beStrict e then (Inl err, map (\<lambda>args. Effect (RunInternal args)) runs @ shutBridge (lvLease b) True)
              else (Inr (session None, b), map (\<lambda>args. Effect (RunInternal args)) runs @ [Effect (ProxySkipped err)])))"

text \<open>After the handshake: the data session and the workspace, then the proxy.\<close>

definition startData :: "bridge_env \<Rightarrow> connection \<Rightarrow> bool \<Rightarrow> bool \<Rightarrow> bridge_result" where
  "startData e c wantProxy lease =
     (let b = \<lparr>lvTunnel = None, lvPeer = False, lvLease = lease, lvTable = beRemoteFS e,
            lvWorkspace = \<lparr>wkMountRoot = [], wkWorkspace = [], wkOpened = False\<rparr>\<rparr>
      in if \<not> beRemoteFS e then startSession e c wantProxy b
         else case bePeer e of
           Some err \<Rightarrow> (Inl (''remote fs: '' @ err), shutBridge lease True)
         | None \<Rightarrow>
             (if beSidecar e then
                (case startSession e c wantProxy (b\<lparr>lvPeer := True\<rparr>) of (r, steps) \<Rightarrow> (r, Hold DataPeer # steps))
              else case exportWorkspace e of
                  (Some err, ws, steps) \<Rightarrow>
                    (Inl (''remote fs: '' @ err), Hold DataPeer # steps @ dropWorkspace e ws @ shutBridge lease True)
                | (None, ws, steps) \<Rightarrow>
                    (case startSession e c wantProxy (b\<lparr>lvPeer := True, lvWorkspace := ws\<rparr>) of
                       (r, rest) \<Rightarrow> (r, Hold DataPeer # steps @ rest))))"

definition startClient :: "bridge_env \<Rightarrow> connection \<Rightarrow> bool \<Rightarrow> bool \<Rightarrow> bridge_result" where
  "startClient e c wantProxy lease =
     (case beMux e of
        Some err \<Rightarrow> (Inl err, shutBridge lease False)
      | None \<Rightarrow>
          (let up = Hold MuxSession # (if beRemoteFS e then [Hold MountTable] else []) in
           case beHandshake e of
             ReadyError err \<Rightarrow> (Inl err, up @ shutBridge lease False)
           | ClientEnded err \<Rightarrow> (Inl err, up @ shutBridge lease False)
           | HandshakeTimeout \<Rightarrow> (Inl ''timed out waiting for command bridge handshake'', up @ shutBridge lease False)
           | ClientReady \<Rightarrow> (case startData e c wantProxy lease of (r, steps) \<Rightarrow> (r, up @ steps))))"

definition startLease :: "bridge_env \<Rightarrow> connection \<Rightarrow> bool \<Rightarrow> bridge_result" where
  "startLease e c wantProxy =
     (if \<not> beAutoForward e then startClient e c wantProxy False
      else case beLease e (leaseRequest e c) of
        Some err \<Rightarrow> (Inl err, shutBridge False False)
      | None \<Rightarrow> (case startClient e c wantProxy True of (r, steps) \<Rightarrow> (r, Hold LocalLease # steps)))"

definition startProxied :: "bridge_env \<Rightarrow> connection \<Rightarrow> bridge_result" where
  "startProxied e c =
     (let wantProxy = (beUseProxy e \<and> \<not> beSidecar e); err = ''proxy requires an OpenSSH control socket'' in
      if wantProxy \<and> bridgeControlPath e = [] then
        (if beStrict e then (Inl err, shutBridge False False)
         else (case startLease e c False of (r, steps) \<Rightarrow> (r, Effect (ProxySkipped err) # steps)))
      else startLease e c wantProxy)"

definition defaultStartBridge :: "bridge_env \<Rightarrow> bridge_result" where
  "defaultStartBridge e =
     (case bridgeToken e of
        Inl err \<Rightarrow> (Inl err, [])
      | Inr token \<Rightarrow>
          (case bridgeConnection e of
             Inl err \<Rightarrow> (Inl err, [])
           | Inr c \<Rightarrow>
               (let ensured = (if beAutoForward e then [Effect EnsureDaemon] else []);
                    command = sshCommandArgs (beSSHArgs e) (remoteShell (muxProxyScript (beRemoteHome e)))
                in case (if beAutoForward e then beDaemon e else None) of
                     Some err \<Rightarrow> (Inl err, ensured)
                   | None \<Rightarrow>
                       (case beProcess e command of
                          Some err \<Rightarrow> (Inl err, ensured @ [Hold BridgeContext, Free BridgeContext])
                        | None \<Rightarrow>
                            (case startProxied e c of
                               (r, steps) \<Rightarrow> (r, ensured @ [Hold BridgeContext, Hold ControlProxy] @ steps))))))"

subsection \<open>What a start leaves behind\<close>

text \<open>Starting with \<open>st\<close> held: a bridge that is up holds what stopping it gives back, all of it; a start that
  fails has given back the context, the ssh process, the lease and the tunnel, and everything when \<open>clean\<close>.\<close>

definition settled :: "bool \<Rightarrow> bridge_resource list \<Rightarrow> bridge_result \<Rightarrow> bool" where
  "settled clean st r \<longleftrightarrow>
     (case fst r of
        Inr (session, b) \<Rightarrow> still_held st (snd r @ stopBridge b) = Some []
      | Inl err \<Rightarrow>
          (case still_held st (snd r) of
             None \<Rightarrow> False
           | Some left \<Rightarrow> set left \<subseteq> {MuxSession, MountTable, DataPeer, ExportedDir, RemoteMount} \<and> (clean \<longrightarrow> left = [])))"

lemma settled_step:
  "settled clean st (r, Hold x # steps) \<longleftrightarrow> settled clean (x # st) (r, steps)"
  "settled clean st (r, Effect y # steps) \<longleftrightarrow> settled clean st (r, steps)"
  by (auto simp: settled_def split: sum.split)

lemma settled_effects: "settled clean st (r, map (\<lambda>a. Effect (f a)) as @ steps) \<longleftrightarrow> settled clean st (r, steps)"
  by (induction as) (simp_all add: settled_step)

lemma settled_weaken: "settled c1 st r \<Longrightarrow> c2 \<longrightarrow> c1 \<Longrightarrow> settled c2 st r"
  unfolding settled_def by (auto split: sum.splits option.splits)

lemma settled_mono: "settled True st r \<Longrightarrow> settled clean st r"
  by (auto simp: settled_def split: sum.splits option.splits)

abbreviation lease_held :: "bool \<Rightarrow> bridge_resource list" where
  "lease_held lease \<equiv> if lease then [LocalLease] else []"

abbreviation tables :: "bool \<Rightarrow> bridge_resource list" where
  "tables table \<equiv> if table then [MountTable] else []"

text \<open>What is held when the proxy is started.\<close>

definition bridge_held :: "live_bridge \<Rightarrow> bridge_resource list" where
  "bridge_held b =
     (if wkMountRoot (lvWorkspace b) = [] then [] else [RemoteMount]) @ (if wkOpened (lvWorkspace b) then [ExportedDir] else []) @
     (if lvPeer b then [DataPeer] else []) @ tables (lvTable b) @ [MuxSession] @ lease_held (lvLease b) @ [ControlProxy, BridgeContext]"

definition sound_bridge :: "live_bridge \<Rightarrow> bool" where
  "sound_bridge b \<longleftrightarrow> lvTunnel b = None \<and> (wkMountRoot (lvWorkspace b) \<noteq> [] \<longrightarrow> lvPeer b)"

lemma startSession_settled:
  assumes "sound_bridge b"
  shows "settled (\<not> (beStrict e \<and> wantProxy)) (bridge_held b) (startSession e c wantProxy b)"
proof -
  have stop: "settled clean (bridge_held b) (Inr (s, b), [])" for clean s
    using assms by (auto simp: settled_def bridge_held_def sound_bridge_def stopBridge_def)
  have proxied: "settled clean (bridge_held b) (Inr (s, b\<lparr>lvTunnel := Some t\<rparr>), [Hold ProxySocks])" for clean s t
    using assms by (auto simp: settled_def bridge_held_def sound_bridge_def stopBridge_def)
  have refused: "settled False (bridge_held b) (Inl err, shutBridge (lvLease b) True)" for err
    using assms by (auto simp: settled_def bridge_held_def sound_bridge_def shutBridge_def)
  show ?thesis
  proof (cases wantProxy)
    case False
    then show ?thesis using stop by (simp add: startSession_def Let_def)
  next
    case True
    obtain r runs where t: "startProxyTunnel (beSSH e) (beSSHArgs e) (bridgeControlPath e) = (r, runs)" by fastforce
    show ?thesis
      using True t stop proxied refused by (cases r) (auto simp: startSession_def Let_def settled_effects settled_step)
  qed
qed

text \<open>Exporting the workspace: what it has acquired when it ends, and that a failure gives it back.\<close>

definition export_held :: "workspace_state \<Rightarrow> bridge_resource list" where
  "export_held ws = (if wkMountRoot ws = [] then [] else [RemoteMount]) @ (if wkOpened ws then [ExportedDir] else [])"

lemma exportWorkspace_held:
  assumes "exportWorkspace e = (err, ws, steps)"
  shows "still_held st (steps @ rest) = still_held (export_held ws @ st) rest"
  using assms by (auto simp: exportWorkspace_def export_held_def Let_def split: sum.splits option.splits if_splits)

lemma settled_export:
  assumes "exportWorkspace e = (err, ws, steps)"
  shows "settled clean st (r, steps @ rest) \<longleftrightarrow> settled clean (export_held ws @ st) (r, rest)"
  by (cases r) (simp_all add: settled_def exportWorkspace_held [OF assms])

definition data_clean :: "bridge_env \<Rightarrow> bool \<Rightarrow> bool" where
  "data_clean e wantProxy = (\<not> (beStrict e \<and> wantProxy) \<and> (beRemoteFS e \<longrightarrow> bePeer e = None))"

lemma startData_settled:
  "settled (data_clean e wantProxy) (tables (beRemoteFS e) @ [MuxSession] @ lease_held lease @ [ControlProxy, BridgeContext])
     (startData e c wantProxy lease)"
proof (cases "beRemoteFS e")
  case False
  define b where "b = \<lparr>lvTunnel = None, lvPeer = False, lvLease = lease, lvTable = False,
     lvWorkspace = \<lparr>wkMountRoot = [], wkWorkspace = [], wkOpened = False\<rparr>\<rparr>"
  have "sound_bridge b" "bridge_held b = [MuxSession] @ lease_held lease @ [ControlProxy, BridgeContext]"
    by (simp_all add: b_def sound_bridge_def bridge_held_def)
  then show ?thesis using startSession_settled [of b e wantProxy c] False by (simp add: startData_def b_def data_clean_def)
next
  case fs: True
  let ?st = "MountTable # MuxSession # lease_held lease @ [ControlProxy, BridgeContext]"
  show ?thesis
  proof (cases "bePeer e")
    case (Some err)
    have "settled False ?st (Inl (''remote fs: '' @ err), shutBridge lease True)"
      by (auto simp: settled_def shutBridge_def)
    then show ?thesis using fs Some by (simp add: startData_def data_clean_def)
  next
    case None
    define b where "b = (\<lambda>ws. \<lparr>lvTunnel = None, lvPeer = True, lvLease = lease, lvTable = True, lvWorkspace = ws\<rparr>)"
    have b: "sound_bridge (b ws)" "bridge_held (b ws) = export_held ws @ DataPeer # ?st" for ws
      by (simp_all add: b_def sound_bridge_def bridge_held_def export_held_def)
    show ?thesis
    proof (cases "beSidecar e")
      case True
      define ws where "ws = \<lparr>wkMountRoot = [], wkWorkspace = [], wkOpened = False\<rparr>"
      obtain r steps where r: "startSession e c wantProxy (b ws) = (r, steps)" by fastforce
      have "settled (\<not> (beStrict e \<and> wantProxy)) (DataPeer # ?st) (r, steps)"
        using startSession_settled [OF b(1), of e wantProxy ws c] unfolding b(2) r by (simp add: export_held_def ws_def)
      then show ?thesis
        using r fs None True by (simp add: startData_def data_clean_def b_def ws_def settled_step)
    next
      case False
      obtain failed ws steps where x: "exportWorkspace e = (failed, ws, steps)" by (cases "exportWorkspace e") auto
      note held = exportWorkspace_held [OF x]
      show ?thesis
      proof (cases failed)
        case (Some err)
        have "settled True (DataPeer # ?st) (Inl (''remote fs: '' @ err), steps @ dropWorkspace e ws @ shutBridge lease True)"
          by (auto simp: settled_def held export_held_def dropWorkspace_def shutBridge_def)
        then show ?thesis using fs None False x Some by (auto simp: startData_def settled_step intro: settled_mono)
      next
        case ok: None
        obtain r rest where r: "startSession e c wantProxy (b ws) = (r, rest)" by fastforce
        have "settled (\<not> (beStrict e \<and> wantProxy)) (export_held ws @ DataPeer # ?st) (r, rest)"
          using startSession_settled [OF b(1), of e wantProxy ws c] unfolding b(2) r .
        then have "settled (\<not> (beStrict e \<and> wantProxy)) (DataPeer # ?st) (r, steps @ rest)"
          by (simp only: settled_export [OF x])
        then show ?thesis using r fs None False x ok by (simp add: startData_def data_clean_def b_def settled_step)
      qed
    qed
  qed
qed

definition start_clean :: "bridge_env \<Rightarrow> bool" where
  "start_clean e = ((beMux e = None \<longrightarrow> beHandshake e = ClientReady) \<and> \<not> (beStrict e \<and> beUseProxy e \<and> \<not> beSidecar e) \<and>
     (beRemoteFS e \<longrightarrow> bePeer e = None))"

lemma startClient_settled:
  assumes "start_clean e \<longrightarrow> data_clean e wantProxy"
  shows "settled (start_clean e) (lease_held lease @ [ControlProxy, BridgeContext]) (startClient e c wantProxy lease)"
proof (cases "beMux e")
  case (Some err)
  then show ?thesis by (auto simp: startClient_def settled_def shutBridge_def)
next
  case None
  let ?st = "lease_held lease @ [ControlProxy, BridgeContext]"
  have up: "settled clean ?st (r, (Hold MuxSession # (if beRemoteFS e then [Hold MountTable] else [])) @ steps) \<longleftrightarrow>
      settled clean (tables (beRemoteFS e) @ [MuxSession] @ ?st) (r, steps)" for clean r steps
    by (simp add: settled_step)
  have failed: "settled False (tables (beRemoteFS e) @ [MuxSession] @ ?st) (Inl err, shutBridge lease False)" for err
    by (auto simp: settled_def shutBridge_def)
  show ?thesis
  proof (cases "beHandshake e")
    case ClientReady
    obtain r steps where r: "startData e c wantProxy lease = (r, steps)" by fastforce
    have "settled (data_clean e wantProxy) (tables (beRemoteFS e) @ [MuxSession] @ ?st) (r, steps)"
      using startData_settled [of e wantProxy lease c] r by simp
    then have "settled (start_clean e) (tables (beRemoteFS e) @ [MuxSession] @ ?st) (r, steps)"
      by (rule settled_weaken) (rule assms)
    then show ?thesis using ClientReady None r up by (simp add: startClient_def Let_def del: append.simps)
  qed (use failed up None in \<open>simp_all add: startClient_def Let_def start_clean_def del: append.simps\<close>)
qed

lemma startProxied_settled: "settled (start_clean e) [ControlProxy, BridgeContext] (startProxied e c)"
proof -
  have lease: "settled (start_clean e) [ControlProxy, BridgeContext] (startLease e c wantProxy)"
    if w: "start_clean e \<longrightarrow> data_clean e wantProxy" for wantProxy
  proof (cases "beAutoForward e \<and> beLease e (leaseRequest e c) = None")
    case True
    obtain r steps where r: "startClient e c wantProxy True = (r, steps)" by fastforce
    have "settled (start_clean e) [LocalLease, ControlProxy, BridgeContext] (r, steps)"
      using startClient_settled [OF w, of True c] r by simp
    then show ?thesis using True r by (simp add: startLease_def settled_step)
  next
    case False
    have "settled (start_clean e) [ControlProxy, BridgeContext] (Inl err, shutBridge False False)" for err
      by (simp add: settled_def shutBridge_def)
    then show ?thesis
      using False startClient_settled [OF w, of False c] by (auto simp: startLease_def split: option.split)
  qed
  have skipped: "start_clean e \<longrightarrow> data_clean e False" and wanted: "start_clean e \<longrightarrow> data_clean e (beUseProxy e \<and> \<not> beSidecar e)"
    by (auto simp: start_clean_def data_clean_def)
  have refused: "settled (start_clean e) [ControlProxy, BridgeContext] (Inl err, shutBridge False False)" for err
    by (simp add: settled_def shutBridge_def)
  show ?thesis
    using lease [OF skipped] lease [OF wanted] refused by (simp add: startProxied_def Let_def settled_step case_prod_beta)
qed

text \<open>C37. Starting a bridge and stopping it leaves nothing: the session a start returns is stopped by giving back
  exactly what the start acquired, each once. A start that fails has always ended the ssh process, its context,
  the lease of the local daemon and the proxy tunnel, and nothing is given back that was not acquired; it has
  given back everything, unless it failed in the handshake, in connecting the data session or in a proxy
  that is required.\<close>
theorem bridge_starts:
  "case defaultStartBridge e of
     (Inr (session, b), steps) \<Rightarrow> still_held [] (steps @ stopBridge b) = Some []
   | (Inl err, steps) \<Rightarrow>
       (case still_held [] steps of
          None \<Rightarrow> False
        | Some left \<Rightarrow> set left \<subseteq> {MuxSession, MountTable, DataPeer, ExportedDir, RemoteMount} \<and> (if start_clean e then left = [] else True))"
proof -
  have "settled (start_clean e) [] (defaultStartBridge e)"
  proof (cases "bridgeToken e")
    case (Inl err)
    then show ?thesis by (simp add: defaultStartBridge_def settled_def)
  next
    case (Inr token)
    show ?thesis
    proof (cases "bridgeConnection e")
      case (Inl err)
      then show ?thesis using Inr by (simp add: defaultStartBridge_def settled_def)
    next
      case c: (Inr c)
      obtain r steps where r: "startProxied e c = (r, steps)" by fastforce
      have "settled (start_clean e) [ControlProxy, BridgeContext] (r, steps)" using startProxied_settled [of e c] r by simp
      then show ?thesis using Inr c r
        by (simp add: defaultStartBridge_def Let_def settled_step split: option.split) (simp add: settled_def)
    qed
  qed
  then show ?thesis by (auto simp: settled_def split: sum.splits prod.splits option.splits)
qed

text \<open>A proxy that is required and cannot be had leaves the data session, the exported directory and the mount table.\<close>

lemma strict_proxy_leaves:
  assumes "beStrict e" "beRemoteFS e" "bePeer e = None" "\<not> beSidecar e" "exportWorkspace e = (None, ws, steps)"
    "fst (startProxyTunnel (beSSH e) (beSSHArgs e) (bridgeControlPath e)) = Inl err"
  shows "\<exists>out. startData e c True lease = (Inl err, out) \<and>
    still_held (MountTable # MuxSession # lease_held lease @ [ControlProxy, BridgeContext]) out = Some (export_held ws @ [DataPeer, MountTable])"
proof -
  obtain runs where t: "startProxyTunnel (beSSH e) (beSSHArgs e) (bridgeControlPath e) = (Inl err, runs)"
    using assms(6) by (metis prod.collapse)
  have skip: "still_held st (map (\<lambda>args. Effect (RunInternal args)) runs @ rest) = still_held st rest" for st and rest :: bridge_steps
    by (induction runs) auto
  show ?thesis
    using assms t exportWorkspace_held [OF assms(5)]
    by (simp add: startData_def startSession_def Let_def skip export_held_def shutBridge_def)
qed

subsection \<open>The control master\<close>

datatype master_resource = MasterHook | MasterListener | MasterProcess
datatype master_effect = AskExit "string list"

text \<open>\<open>hook\<close> is a replacement of the start, \<open>listener\<close> the placeholder used when the execution of ssh is replaced;
  the real master is an ssh process. \<open>ready\<close>: the socket appeared in time. With the trace of stopping.\<close>

record master_env =
  meHook :: "(string, unit) result option"
  meOverridden :: bool
  meListener :: "string option"
  meStart :: "string list \<Rightarrow> string option"
  meReady :: bool

definition startControlMaster ::
  "master_env \<Rightarrow> string list \<Rightarrow> string \<Rightarrow> string option \<times> (master_resource, master_effect) trace_step list \<times> (master_resource, master_effect) trace_step list" where
  "startControlMaster e sshArgs controlPath =
     (let late = Some ''OpenSSH control master did not become ready'' in
      case meHook e of
        Some (Inl err) \<Rightarrow> (Some err, [], [])
      | Some (Inr _) \<Rightarrow>
          (if meReady e then (None, [Hold MasterHook], [Free MasterHook]) else (late, [Hold MasterHook, Free MasterHook], []))
      | None \<Rightarrow>
          (if meOverridden e then
             (case meListener e of Some err \<Rightarrow> (Some err, [], []) | None \<Rightarrow> (None, [Hold MasterListener], [Free MasterListener]))
           else case meStart e (controlMasterListenArgs sshArgs controlPath) of
             Some err \<Rightarrow> (Some err, [], [])
           | None \<Rightarrow>
               (if meReady e then (None, [Hold MasterProcess], [Effect (AskExit (controlExitArgs sshArgs controlPath)), Free MasterProcess])
                else (late, [Hold MasterProcess, Free MasterProcess], []))))"

lemma startControlMaster_settled:
  "case startControlMaster e sshArgs controlPath of
     (failure, steps, stop) \<Rightarrow> balanced (steps @ stop) \<and> (failure \<noteq> None \<longrightarrow> stop = [])"
  by (auto simp: startControlMaster_def Let_def balanced_def split: option.splits sum.splits)

subsection \<open>The bridge of a container\<close>

datatype docker_resource = DockerContext | DockerProcess

record docker_env =
  dkToken :: string
  dkServerInfo :: "string \<Rightarrow> (string, string) result"
  dkReadInfo :: "string list \<Rightarrow> (string, string) result"
  dkStart :: "string list \<Rightarrow> string option"
  dkHandshake :: handshake

definition fetchDockerToken :: "docker_env \<Rightarrow> string \<Rightarrow> string \<Rightarrow> (string, string) result" where
  "fetchDockerToken e container remoteHome =
     (case dkReadInfo e (dockerInternalExecArgs container (dockerShell (readServerInfoScript remoteHome))) of
        Inl err \<Rightarrow> Inl err
      | Inr out \<Rightarrow> parseServerInfoToken (dkServerInfo e) out)"

text \<open>Cancelling the context ends the process.\<close>

definition startDockerBridge :: "docker_env \<Rightarrow> string \<Rightarrow> string \<Rightarrow>
    string option \<times> (docker_resource, unit) trace_step list \<times> (docker_resource, unit) trace_step list" where
  "startDockerBridge e container remoteHome =
     (let up = [Hold DockerContext, Hold DockerProcess]; down = [Free DockerProcess, Free DockerContext] in
      case (if dkToken e = [] then fetchDockerToken e container remoteHome else Inr (dkToken e)) of
        Inl err \<Rightarrow> (Some err, [], [])
      | Inr token \<Rightarrow>
          (case dkStart e (dockerExecInputArgs container (dockerShell (socketProxyScript remoteHome))) of
             Some err \<Rightarrow> (Some err, [Hold DockerContext, Free DockerContext], [])
           | None \<Rightarrow>
               (case dkHandshake e of
                  ClientReady \<Rightarrow> (None, up, down)
                | ReadyError err \<Rightarrow> (Some err, up @ down, [])
                | ClientEnded err \<Rightarrow> (Some err, up @ down, [])
                | HandshakeTimeout \<Rightarrow> (Some ''timed out waiting for docker command bridge handshake'', up @ down, []))))"

lemma startDockerBridge_settled:
  "case startDockerBridge e container remoteHome of
     (failure, steps, stop) \<Rightarrow> balanced (steps @ stop) \<and> (failure \<noteq> None \<longrightarrow> stop = [])"
  by (auto simp: startDockerBridge_def Let_def balanced_def split: option.splits sum.splits handshake.splits)

end
