(* ===== verification/LocalCommands.thy ===== *)
theory LocalCommands
  imports BridgeStart Integration SshConfig Loopback "HOL-Library.List_Lexorder" "HOL-Library.Product_Lexorder" "HOL-Library.Char_ord"
    "HOL-Library.Multiset"
begin

text \<open>
  The subcommands (\<open>internal/cli/builtins.go\<close>), their default paths (\<open>paths.go\<close>), the resolver entry
  (\<open>resolver.go\<close>) and the local daemon a session needs (\<open>ensureLocalDaemon\<close> of \<open>ssh_bridge.go\<close>). The
  environment is a map, the parsed flags of a subcommand are an argument (\<open>None\<close> when the flag package
  reported an error), and the services it starts are outcomes.
\<close>

subsection \<open>Default paths\<close>

type_synonym environ = "string \<Rightarrow> string"

definition domainDNSAddr :: "environ \<Rightarrow> string" where
  "domainDNSAddr env = (let v = env ''SSHX_DOMAIN_DNS_ADDR'' in if v \<noteq> [] then v else ''127.0.0.1:53535'')"

definition defaultDomainSuffix :: "environ \<Rightarrow> string" where
  "defaultDomainSuffix env = (let user = env ''USER'' in (if user = [] then ''user'' else user) @ ''.sshx'')"

text \<open>The home directory is empty when it is not known.\<close>

definition serverPath :: "environ \<Rightarrow> string \<Rightarrow> string \<Rightarrow> string \<Rightarrow> string \<Rightarrow> string" where
  "serverPath env home tmp name fallback =
     (let serverHome = env ''SSHX_SERVER_HOME'' in
      if serverHome \<noteq> [] then JoinPath serverHome name
      else if home = [] then JoinPath tmp fallback
      else joinAll home [''.sshx'', name])"

definition defaultSocketPath :: "environ \<Rightarrow> string \<Rightarrow> string \<Rightarrow> string" where
  "defaultSocketPath env home tmp = serverPath env home tmp ''sock'' ''sshx.sock''"

definition defaultVersionStatePath :: "environ \<Rightarrow> string \<Rightarrow> string \<Rightarrow> string" where
  "defaultVersionStatePath env home tmp = serverPath env home tmp ''version-state.json'' ''sshx-version-state.json''"

definition defaultServerInfoPath :: "environ \<Rightarrow> string \<Rightarrow> string \<Rightarrow> string" where
  "defaultServerInfoPath env home tmp = serverPath env home tmp ''server-info'' ''sshx-server-info''"

definition DefaultSocketPath :: "string \<Rightarrow> string \<Rightarrow> string" where
  "DefaultSocketPath home tmp = (if home = [] then JoinPath tmp ''sshx-local.sock'' else joinAll home [''.sshx'', ''local.sock''])"

definition defaultLocalDaemonSocketPath :: "environ \<Rightarrow> string \<Rightarrow> string \<Rightarrow> string" where
  "defaultLocalDaemonSocketPath env home tmp =
     (let override = env ''SSHX_LOCAL_DAEMON_SOCKET'' in if override \<noteq> [] then override else DefaultSocketPath home tmp)"

definition defaultCacheRoot :: "environ \<Rightarrow> string \<Rightarrow> string \<Rightarrow> string" where
  "defaultCacheRoot env home tmp =
     (let override = env ''SSHX_CACHE_DIR''; xdg = env ''XDG_CACHE_HOME'' in
      if override \<noteq> [] then override
      else if xdg \<noteq> [] then JoinPath xdg ''sshx''
      else if home = [] then JoinPath tmp ''sshx-cache''
      else joinAll home [''.cache'', ''sshx''])"

subsection \<open>Host and port\<close>

text \<open>\<open>net.SplitHostPort\<close>.\<close>

definition SplitHostPort :: "string \<Rightarrow> (string, string \<times> string) result" where
  "SplitHostPort hostport =
     (let finish = (\<lambda>host j k i.
            if Contains (drop j hostport) CHR ''['' then Inl ''unexpected '' else
            if Contains (drop k hostport) CHR '']'' then Inl ''unexpected '' else Inr (host, drop (i + 1) hostport))
      in case LastIndexByte hostport CHR '':'' of
        None \<Rightarrow> Inl ''missing port in address''
      | Some i \<Rightarrow>
          (if hd hostport = CHR ''['' then
             (case IndexByte hostport CHR '']'' of
                None \<Rightarrow> Inl ''missing bracket in address''
              | Some close \<Rightarrow>
                  (if close + 1 = length hostport then Inl ''missing port in address''
                   else if close + 1 = i then finish (take (close - 1) (tl hostport)) 1 (close + 1) i
                   else if hostport ! (close + 1) = CHR '':'' then Inl ''too many colons in address''
                   else Inl ''missing port in address''))
           else if Contains (take i hostport) CHR '':'' then Inl ''too many colons in address''
           else finish (take i hostport) 0 0 i))"

definition splitHostPortDefault :: "string \<Rightarrow> string \<Rightarrow> (string, string \<times> string) result" where
  "splitHostPortDefault addr defaultPort =
     (case SplitHostPort addr of
        Inr hp \<Rightarrow> Inr hp
      | Inl err \<Rightarrow> (if \<not> Contains addr CHR '':'' then Inr (addr, defaultPort) else Inl err))"

subsection \<open>The resolver entry\<close>

definition resolverContent :: "string \<Rightarrow> (string, string) result" where
  "resolverContent addr =
     (case splitHostPortDefault addr ''53'' of
        Inl err \<Rightarrow> Inl err
      | Inr (host, port) \<Rightarrow> Inr (''nameserver '' @ host @ NL @ ''port '' @ port @ NL))"

definition resolverWriteScript :: "string \<Rightarrow> string \<Rightarrow> string \<Rightarrow> string" where
  "resolverWriteScript dir path content =
     ''mkdir -p '' @ shellQuote dir @ '' && printf %s '' @ shellQuote content @ '' > '' @ shellQuote path"

text \<open>The file before, whether writing it directly works, what \<open>ifconfig\<close> prints; the script run as root, if any.\<close>

datatype resolver_plan = ResolverFailed string | ResolverReady | RunAsRoot string

definition defaultEnsureResolver ::
  "string \<Rightarrow> environ \<Rightarrow> (string \<Rightarrow> file_content) \<Rightarrow> string option \<Rightarrow> string option \<Rightarrow> resolver_plan" where
  "defaultEnsureResolver goos env readFile writeErr ifconfig =
     (if goos \<noteq> ''darwin'' then ResolverReady
      else let suffix = Trim (defaultDomainSuffix env) ''.'' in
        if suffix = [] then ResolverFailed ''domain suffix is required''
        else case resolverContent (domainDNSAddr env) of
          Inl err \<Rightarrow> ResolverFailed err
        | Inr content \<Rightarrow>
            (let path = JoinPath ''/etc/resolver'' suffix;
                 aliasCmds = loopbackAliasCommands goos ifconfig;
                 plan = (\<lambda>resolverOK.
                   if resolverOK \<and> aliasCmds = [] then ResolverReady
                   else RunAsRoot (joinShellCommands
                     ((if resolverOK then [] else [resolverWriteScript (Dir path) path content]) @ aliasCmds)))
             in case readFile path of
                  Content current \<Rightarrow> plan (current = content \<or> writeErr = None)
                | file_content.Refused err \<Rightarrow> ResolverFailed err
                | Missing \<Rightarrow> plan (writeErr = None)))"

text \<open>The subcommand that prints or writes the entry: exit code, output, and the file written.\<close>

record resolver_flags =
  rfSuffix :: string
  rfDNSAddr :: string
  rfApply :: bool

definition runInstallResolver :: "resolver_flags option \<Rightarrow> string option \<Rightarrow> int \<times> string \<times> (string \<times> string) option" where
  "runInstallResolver flags writeErr =
     (case flags of
        None \<Rightarrow> (2, [], None)
      | Some f \<Rightarrow>
          (case resolverContent (rfDNSAddr f) of
             Inl err \<Rightarrow> (2, [], None)
           | Inr content \<Rightarrow>
               (let path = JoinPath ''/etc/resolver'' (Trim (rfSuffix f) ''.'') in
                if \<not> rfApply f then (0, ''# '' @ path @ NL @ content, None)
                else case writeErr of Some err \<Rightarrow> (1, [], None) | None \<Rightarrow> (0, [], Some (path, content)))))"

subsection \<open>Listing forwards and targets\<close>

definition forwardAddress :: "Forwarded \<Rightarrow> string" where
  "forwardAddress fwd =
     ''http://'' @ (if fdDomain fwd = [] then ''127.0.0.1'' else fdDomain fwd) @ '':'' @ Itoa (fdLocalPort fwd)"

definition forward_key :: "Forwarded \<Rightarrow> string \<times> int \<times> int" where
  "forward_key fwd = (fdTarget fwd, fdLocalPort fwd, fdRemotePort fwd)"

definition forwardLine :: "Forwarded \<Rightarrow> string" where
  "forwardLine fwd = forwardAddress fwd @ '' -> '' @ fdTarget fwd @ '':'' @ Itoa (fdRemotePort fwd)"

definition runForwardList :: "(string, Response) result \<Rightarrow> int \<times> string list" where
  "runForwardList reply =
     (case reply of
        Inl err \<Rightarrow> (1, [])
      | Inr resp \<Rightarrow> (if \<not> rsOK resp then (1, []) else (0, map forwardLine (sort_key forward_key (rsForwards resp)))))"

text \<open>Lines on standard output; a container is printed with a tab before its short identifier.\<close>

definition runPS :: "(string, string list) result \<Rightarrow> (string, docker_container list) result \<Rightarrow> int \<times> string list" where
  "runPS aliases containers =
     (0, [''SSH config''] @ map (\<lambda>alias. ''  '' @ alias) (case aliases of Inl err \<Rightarrow> [] | Inr as \<Rightarrow> as) @ [[], ''Docker containers''] @
       (case containers of
          Inl err \<Rightarrow> [''  unavailable: '' @ err]
        | Inr cs \<Rightarrow> map (\<lambda>c. ''  '' @ dcName c @ [CHR 0x09] @ shortDockerID (dcID c)) cs))"

subsection \<open>The services\<close>

text \<open>What was started, with its arguments, and the exit code.\<close>

definition runServer :: "'f option \<Rightarrow> ('f \<Rightarrow> string) \<Rightarrow> (string, string) result \<Rightarrow> string option \<Rightarrow> ('f \<Rightarrow> string \<Rightarrow> string option) \<Rightarrow>
    int \<times> ('f \<times> string) option" where
  "runServer flags token generated versionState serve =
     (case flags of
        None \<Rightarrow> (2, None)
      | Some f \<Rightarrow>
          (case (if token f = [] then generated else Inr (token f)) of
             Inl err \<Rightarrow> (1, None)
           | Inr t \<Rightarrow>
               (case versionState of
                  Some err \<Rightarrow> (1, None)
                | None \<Rightarrow> (case serve f t of Some err \<Rightarrow> (1, Some (f, t)) | None \<Rightarrow> (0, Some (f, t))))))"

definition runSocketCommand :: "string option \<Rightarrow> (string \<Rightarrow> string option) \<Rightarrow> int" where
  "runSocketCommand socketPath run =
     (case socketPath of
        None \<Rightarrow> 2
      | Some path \<Rightarrow> (if path = [] then 2 else case run path of Some err \<Rightarrow> 1 | None \<Rightarrow> 0))"

definition runLocalDaemon :: "string option \<Rightarrow> (string \<Rightarrow> string option) \<Rightarrow> int" where
  "runLocalDaemon socketPath serve =
     (case socketPath of None \<Rightarrow> 2 | Some path \<Rightarrow> (case serve path of Some err \<Rightarrow> 1 | None \<Rightarrow> 0))"

text \<open>Dialling until the deadline: each attempt with its result, whether the context ended while it ran, whether the
  deadline had passed after it, and whether the context ended in the pause. \<open>None\<close>: more attempts are needed.\<close>

record dial_attempt =
  daResult :: "(string, unit) result"
  daCancelled :: bool
  daLate :: bool
  daPauseCancelled :: bool

fun dialUnixRetry :: "dial_attempt list \<Rightarrow> (string, unit) result option" where
  "dialUnixRetry [] = None"
| "dialUnixRetry (a # rest) =
     (case daResult a of
        Inr c \<Rightarrow> Some (Inr c)
      | Inl err \<Rightarrow>
          (if daCancelled a then Some (Inl err)
           else if daLate a then Some (Inl err)
           else if daPauseCancelled a then Some (Inl ''context canceled'')
           else dialUnixRetry rest))"

datatype proxy_socket = ControlConn | FSConn

definition runMuxProxy ::
  "(string \<times> string) option \<Rightarrow> (string \<Rightarrow> (string, unit) result) \<Rightarrow> string option \<Rightarrow> int \<times> (proxy_socket, unit) trace_step list" where
  "runMuxProxy flags dial proxy =
     (case flags of
        None \<Rightarrow> (2, [])
      | Some (controlPath, fsPath) \<Rightarrow>
          (if controlPath = [] \<or> fsPath = [] then (2, [])
           else case dial controlPath of
             Inl err \<Rightarrow> (1, [])
           | Inr _ \<Rightarrow>
               (case dial fsPath of
                  Inl err \<Rightarrow> (1, [Hold ControlConn, Free ControlConn])
                | Inr _ \<Rightarrow>
                    (case proxy of Some err \<Rightarrow> 1 | None \<Rightarrow> 0,
                     [Hold ControlConn, Hold FSConn, Free FSConn, Free ControlConn]))))"

subsection \<open>sshx local\<close>

record server_address =
  saAddress :: string
  saToken :: string

definition localBridgeSocket :: "environ \<Rightarrow> (string, server_address) result \<Rightarrow> string \<times> string" where
  "localBridgeSocket env info =
     (let socketPath = env ''SSHX_BRIDGE_SOCKET''; token = env ''SSHX_BRIDGE_TOKEN'' in
      if socketPath = [] \<and> (env ''SSH_CONNECTION'' \<noteq> [] \<or> env ''SSHX_SERVER_HOME'' \<noteq> []) then
        (case info of Inr i \<Rightarrow> (saAddress i, saToken i) | Inl err \<Rightarrow> (socketPath, token))
      else (socketPath, token))"

definition localBridgeRequest :: "environ \<Rightarrow> string list \<Rightarrow> byte list \<Rightarrow> (string, string) result \<Rightarrow> 64 word \<Rightarrow> local_request option" where
  "localBridgeRequest env argv stdin getwd timeout =
     (let remoteFS = (env ''SSHX_REMOTE_FS'' = ''1'');
          request = (\<lambda>cwd vars. \<lparr>lrArgv = argv, lrStdin = stdin, lrEnv = vars, lrCwd = cwd, lrContextID = env ''SSHX_CONTEXT_ID'',
            lrSessionID = env ''SSHX_SESSION_ID'', lrRemoteFS = remoteFS, lrReadOnly = (env ''FS_READ_ONLY'' = ''1''), lrTimeout = timeout\<rparr>)
      in if remoteFS then
           (case getwd of
              Inl err \<Rightarrow> None
            | Inr cwd \<Rightarrow> Some (request cwd [''SSHX_REMOTE_FS'' \<mapsto> ''1'', ''SSHX_REMOTE_CWD'' \<mapsto> cwd]))
         else
           (case getwd of
              Inl err \<Rightarrow> Some (request [] [''SSHX_REMOTE_FS'' \<mapsto> ''0''])
            | Inr cwd \<Rightarrow> Some (request [] [''SSHX_REMOTE_FS'' \<mapsto> ''0'', ''SSHX_REMOTE_CWD'' \<mapsto> cwd])))"

text \<open>The exit code, with what is written to standard output and standard error besides messages.\<close>

definition runLocalBridge ::
  "environ \<Rightarrow> (string, server_address) result \<Rightarrow> (string, byte list) result \<Rightarrow> (string, string) result \<Rightarrow>
   (string \<Rightarrow> local_request \<Rightarrow> string list \<Rightarrow> CommandResult \<times> string option) \<Rightarrow> string list \<Rightarrow> 64 word \<Rightarrow> int \<times> byte list \<times> byte list" where
  "runLocalBridge env info stdin getwd requestCommand argv timeout =
     (case localBridgeSocket env info of (socketPath, token) \<Rightarrow>
        if socketPath = [] then (2, [], [])
        else if argv = [] then (2, [], [])
        else case stdin of
          Inl err \<Rightarrow> (1, [], [])
        | Inr input \<Rightarrow>
            (let token = (if token = [] then (case info of Inr i \<Rightarrow> saToken i | Inl err \<Rightarrow> token) else token) in
             case localBridgeRequest env argv input getwd timeout of
               None \<Rightarrow> (1, [], [])
             | Some request \<Rightarrow>
                 (case requestCommand socketPath request [token] of
                    (result, Some err) \<Rightarrow> (crExitCode result, [], [])
                  | (result, None) \<Rightarrow> (crExitCode result, crStdout result, crStderr result))))"

subsection \<open>The local daemon of a session\<close>

definition localDaemonResponseCompatible :: "Response \<Rightarrow> bool" where
  "localDaemonResponseCompatible resp =
     (FrameCompatible (Frame0\<lparr>fProtocolVersion := rsProtocolVersion resp, fProtocolMin := rsProtocolMin resp,
        fProtocolMax := rsProtocolMax resp\<rparr>) \<and> rsRuntimeID resp = LocalRuntimeID)"

text \<open>The processes to interrupt: the lines of \<open>ps\<close> that run a local daemon on this socket.\<close>

definition legacyDaemon :: "int \<Rightarrow> string \<Rightarrow> string \<Rightarrow> int option" where
  "legacyDaemon self socketPath psLine =
     (case Cut (TrimSpace psLine) CHR '' '' of (pidText, command, ok) \<Rightarrow>
        if \<not> ok \<or> \<not> ContainsString (TrimSpace command) (''local-daemon --socket '' @ socketPath) then None
        else case Atoi (TrimSpace pidText) of
          None \<Rightarrow> None
        | Some pid \<Rightarrow> (if pid \<le> 0 \<or> pid = self then None else Some pid))"

definition terminateLegacyLocalDaemons :: "int \<Rightarrow> (string, string) result \<Rightarrow> string \<Rightarrow> int list" where
  "terminateLegacyLocalDaemons self ps socketPath =
     (case ps of Inl err \<Rightarrow> [] | Inr out \<Rightarrow> List.map_filter (legacyDaemon self socketPath) (Split out CHR 0x0A))"

datatype daemon_action = AskShutdown | Interrupt int | StartDaemon "string list"

record daemon_env =
  dmPing :: "(string, Response) result"
  dmGone :: bool
  dmPS :: "(string, string) result"
  dmSelf :: int
  dmPrepare :: "string option"
  dmStart :: "string option"
  dmPings :: "(string, Response) result list"

text \<open>The pings after the start, until one is answered by a compatible daemon or the time is up.\<close>

fun awaitDaemon :: "(string, Response) result list \<Rightarrow> string option \<Rightarrow> string option" where
  "awaitDaemon [] lastErr = (case lastErr of Some err \<Rightarrow> Some err | None \<Rightarrow> Some ''local daemon did not start'')"
| "awaitDaemon (Inl err # rest) lastErr = awaitDaemon rest (Some err)"
| "awaitDaemon (Inr resp # rest) lastErr =
     (if localDaemonResponseCompatible resp then None
      else awaitDaemon rest (Some (''local daemon runtime is '' @ rsRuntimeID resp @ ''/protocol '' @ Itoa (rsProtocolMin resp) @ ''-'' @
             Itoa (rsProtocolMax resp))))"

definition ensureLocalDaemon :: "daemon_env \<Rightarrow> string \<Rightarrow> string option \<times> daemon_action list" where
  "ensureLocalDaemon e socketPath =
     (let start = (case dmPrepare e of
            Some err \<Rightarrow> (Some err, [])
          | None \<Rightarrow>
              (case dmStart e of
                 Some err \<Rightarrow> (Some err, [])
               | None \<Rightarrow> (awaitDaemon (dmPings e) None, [StartDaemon [''local-daemon'', ''--socket'', socketPath]])))
      in case dmPing e of
           Inl err \<Rightarrow> start
         | Inr resp \<Rightarrow>
             (if localDaemonResponseCompatible resp then (None, [])
              else (fst start, AskShutdown #
                (if dmGone e then [] else map Interrupt (terminateLegacyLocalDaemons (dmSelf e) (dmPS e) socketPath)) @ snd start)))"

subsection \<open>Server information and the server binary\<close>

record server_info =
  siProtocol :: string
  siAddress :: string
  siToken :: string
  siVersion :: string
  siRuntimeID :: string
  siProtocolMin :: int
  siProtocolMax :: int
  siPID :: int

text \<open>The information written when a server starts, and read by its clients; the errors of the file system first.\<close>

definition WriteServerInfo ::
  "(server_info \<Rightarrow> string) \<Rightarrow> string option \<Rightarrow> string option \<Rightarrow> int \<Rightarrow> string \<Rightarrow> string \<Rightarrow> string \<Rightarrow> string \<Rightarrow> file_content \<Rightarrow>
   string option \<times> file_content" where
  "WriteServerInfo marshal mkdirErr writeErr pid defaultVersion socketPath token appVersion file0 =
     (case mkdirErr of
        Some err \<Rightarrow> (Some err, file0)
      | None \<Rightarrow>
          (let appVersion = (if appVersion = [] then defaultVersion else appVersion);
               info = \<lparr>siProtocol = ''unix'', siAddress = socketPath, siToken = token, siVersion = appVersion, siRuntimeID = RuntimeID,
                       siProtocolMin = MinVersion, siProtocolMax = MaxVersion, siPID = pid\<rparr>
           in case writeErr of Some err \<Rightarrow> (Some err, file0) | None \<Rightarrow> (None, Content (marshal info @ NL))))"

definition ReadServerInfo :: "(string \<Rightarrow> (string, server_info) result) \<Rightarrow> file_content \<Rightarrow> (string, server_info) result" where
  "ReadServerInfo unmarshal f =
     (case f of Missing \<Rightarrow> Inl ''file does not exist'' | file_content.Refused err \<Rightarrow> Inl err | Content b \<Rightarrow> unmarshal b)"

text \<open>The download into the cache: a temporary file, renamed at the end.\<close>

datatype download_resource = TempFile string
datatype download_effect = Fetch string | Cached string

record download_env =
  dlOverride :: string
  dlOverrideErr :: "string option"
  dlCached :: bool
  dlMkdir :: "string option"
  dlBaseURL :: string
  dlRequest :: "string option"
  dlResponse :: "(string, int \<times> string) result"
  dlOpen :: "string option"
  dlCopy :: "string option"
  dlClose :: "string option"
  dlRename :: "string option"

definition defaultDownloadBinary ::
  "download_env \<Rightarrow> string \<Rightarrow> int \<Rightarrow> string \<Rightarrow> string \<Rightarrow> (string, string) result \<times> (download_resource, download_effect) trace_step list" where
  "defaultDownloadBinary e cacheRoot pid targetVersion assetName =
     (if dlOverride e \<noteq> [] then
        (case dlOverrideErr e of Some err \<Rightarrow> (Inl err, []) | None \<Rightarrow> (Inr (dlOverride e), []))
      else if targetVersion = [] \<or> targetVersion = ''dev'' then
        (Inl ''remote binary download requires a release version; set SSHX_REMOTE_BINARY for dev builds'', [])
      else
        let cachePath = joinAll cacheRoot [''remote'', targetVersion, assetName];
            baseURL = (if dlBaseURL e = [] then ''https://github.com/xiaot623/sshx/releases/download'' else dlBaseURL e);
            url = trim_right (\<lambda>c. c = CHR ''/'') baseURL @ ''/v'' @ targetVersion @ ''/'' @ assetName;
            tmpPath = cachePath @ ''.'' @ Itoa pid @ ''.tmp''
        in if dlCached e then (Inr cachePath, [])
           else case dlMkdir e of
             Some err \<Rightarrow> (Inl err, [])
           | None \<Rightarrow>
               (case dlRequest e of
                  Some err \<Rightarrow> (Inl err, [])
                | None \<Rightarrow>
                    (case dlResponse e of
                       Inl err \<Rightarrow> (Inl err, [Effect (Fetch url)])
                     | Inr (status, text) \<Rightarrow>
                         (if status < 200 \<or> status \<ge> 300 then
                            (Inl (''download '' @ url @ '': GitHub returned '' @ text), [Effect (Fetch url)])
                          else case dlOpen e of
                            Some err \<Rightarrow> (Inl err, [Effect (Fetch url)])
                          | None \<Rightarrow>
                              (let bad = (\<lambda>err. (Inl err, [Effect (Fetch url), Hold (TempFile tmpPath), Free (TempFile tmpPath)])) in
                               case dlCopy e of
                                 Some err \<Rightarrow> bad err
                               | None \<Rightarrow>
                                   (case dlClose e of
                                      Some err \<Rightarrow> bad err
                                    | None \<Rightarrow>
                                        (case dlRename e of
                                           Some err \<Rightarrow> bad err
                                         | None \<Rightarrow> (Inr cachePath,
                                             [Effect (Fetch url), Hold (TempFile tmpPath), Free (TempFile tmpPath), Effect (Cached cachePath)]))))))))"

lemma ServerInfo_roundtrip:
  assumes "\<And>info. unmarshal (marshal info @ NL) = Inr info"
    and "WriteServerInfo marshal mkdirErr writeErr pid defaultVersion socketPath token appVersion file0 = (None, f)"
  shows "\<exists>info. ReadServerInfo unmarshal f = Inr info \<and> siAddress info = socketPath \<and> siToken info = token \<and> siPID info = pid"
  using assms by (auto simp: WriteServerInfo_def ReadServerInfo_def Let_def split: option.splits)

text \<open>The cache gets the binary only when all of it has arrived, and no temporary file is left.\<close>

lemma download_complete:
  "case defaultDownloadBinary e cacheRoot pid v asset of
     (r, steps) \<Rightarrow> balanced steps \<and>
       (Effect (Cached path) \<in> set steps \<longrightarrow> r = Inr path \<and> dlCopy e = None \<and> dlClose e = None \<and> dlRename e = None)"
  by (auto simp: defaultDownloadBinary_def Let_def balanced_def split: option.splits sum.splits prod.splits if_splits)

subsection \<open>Properties\<close>

lemma takeWhile_rev_until: "c \<notin> set p \<Longrightarrow> takeWhile (\<lambda>x. x \<noteq> c) (rev (h @ c # p)) = rev p"
  by (simp, subst takeWhile_append2) auto

lemma LastIndexByte_last: "c \<notin> set p \<Longrightarrow> LastIndexByte (h @ c # p) c = Some (length h)"
  unfolding LastIndexByte_def takeWhile_rev_until by simp

lemma IndexByte_first: "c \<notin> set h \<Longrightarrow> IndexByte (h @ c # p) c = Some (length h)"
  unfolding IndexByte_def by (subst takeWhile_append2) auto

lemma Contains_iff: "Contains s c \<longleftrightarrow> c \<in> set s"
  by (auto simp: Contains_def list_ex_iff)

text \<open>What \<open>JoinHostPort\<close> puts together, \<open>SplitHostPort\<close> takes apart, bracketed or not.\<close>

lemma SplitHostPort_Join:
  assumes h: "CHR ''['' \<notin> set host" "CHR '']'' \<notin> set host"
    and p: "CHR '':'' \<notin> set port" "CHR ''['' \<notin> set port" "CHR '']'' \<notin> set port"
  shows "SplitHostPort (JoinHostPort host port) = Inr (host, port)"
proof (cases "CHR '':'' \<in> set host \<or> CHR ''%'' \<in> set host")
  case True
  let ?s = "(CHR ''['' # host @ [CHR '']'']) @ CHR '':'' # port"
  have j: "JoinHostPort host port = ?s" using True by (simp add: JoinHostPort_def Contains_iff)
  have l: "LastIndexByte ?s CHR '':'' = Some (length host + 2)" using LastIndexByte_last [OF p(1), of "CHR ''['' # host @ [CHR '']'']"] by simp
  have e: "IndexByte ?s CHR '']'' = Some (length host + 1)"
    using IndexByte_first [of "CHR '']''" "CHR ''['' # host" "CHR '':'' # port"] h(2) by simp
  show ?thesis
    unfolding SplitHostPort_def j Let_def l e using h p by (simp add: Contains_iff)
next
  case False
  let ?s = "host @ CHR '':'' # port"
  have j: "JoinHostPort host port = ?s" using False by (simp add: JoinHostPort_def Contains_iff)
  have l: "LastIndexByte ?s CHR '':'' = Some (length host)" by (rule LastIndexByte_last [OF p(1)])
  have "hd ?s \<noteq> CHR ''[''" using h(1) by (cases host) auto
  then show ?thesis unfolding SplitHostPort_def j Let_def l using h p False by (simp add: Contains_iff)
qed

lemma runForwardList_lines:
  "runForwardList (Inr resp) = (0, ls) \<Longrightarrow>
   \<exists>fs. ls = map forwardLine fs \<and> mset fs = mset (rsForwards resp) \<and> sorted (map forward_key fs)"
  by (auto simp: runForwardList_def split: if_splits intro!: exI [of _ "sort_key forward_key (rsForwards resp)"])

lemma dialUnixRetry_ends: "list_ex daLate attempts \<Longrightarrow> dialUnixRetry attempts \<noteq> None"
  by (induction attempts) (auto split: sum.splits)

lemma dialUnixRetry_connected: "dialUnixRetry attempts = Some (Inr c) \<Longrightarrow> \<exists>a\<in>set attempts. daResult a = Inr c"
  by (induction attempts) (auto split: sum.splits if_splits)

lemma runMuxProxy_closes: "balanced (snd (runMuxProxy flags dial proxy))"
  by (auto simp: runMuxProxy_def balanced_def split: option.splits sum.splits prod.splits)

lemma in_map_filter: "y \<in> set (List.map_filter f xs) \<Longrightarrow> \<exists>x\<in>set xs. f x = Some y"
  by (induction xs) (auto simp: List.map_filter_simps split: option.splits)

lemma legacyDaemon_pid: "legacyDaemon self socketPath psLine = Some pid \<Longrightarrow> 0 < pid \<and> pid \<noteq> self"
  unfolding legacyDaemon_def by (auto split: prod.splits option.splits if_splits)

lemma legacyDaemon_spec:
  assumes "pid \<in> set (terminateLegacyLocalDaemons self ps socketPath)"
  shows "0 < pid \<and> pid \<noteq> self"
proof (cases ps)
  case (Inl err)
  then show ?thesis using assms by (simp add: terminateLegacyLocalDaemons_def)
next
  case (Inr out)
  then have "pid \<in> set (List.map_filter (legacyDaemon self socketPath) (Split out CHR 0x0A))"
    using assms by (simp only: terminateLegacyLocalDaemons_def sum.case)
  then show ?thesis using in_map_filter legacyDaemon_pid by metis
qed

lemma awaitDaemon_ok: "awaitDaemon pings lastErr = None \<Longrightarrow> \<exists>resp. Inr resp \<in> set pings \<and> localDaemonResponseCompatible resp"
  by (induction pings lastErr rule: awaitDaemon.induct) (auto split: if_splits option.splits)

definition compatible_reply :: "(string, Response) result \<Rightarrow> bool" where
  "compatible_reply r \<longleftrightarrow> (case r of Inl err \<Rightarrow> False | Inr resp \<Rightarrow> localDaemonResponseCompatible resp)"

definition asked_ok :: "daemon_env \<Rightarrow> daemon_action list \<Rightarrow> bool" where
  "asked_ok e asked \<longleftrightarrow>
     (case dmPing e of
        Inl err \<Rightarrow> asked = []
      | Inr resp \<Rightarrow> (\<exists>pids. asked = AskShutdown # map Interrupt pids \<and> (dmGone e \<longrightarrow> pids = []) \<and> (\<forall>pid\<in>set pids. 0 < pid \<and> pid \<noteq> dmSelf e)))"

definition started_ok :: "daemon_env \<Rightarrow> string \<Rightarrow> string option \<Rightarrow> daemon_action list \<Rightarrow> bool" where
  "started_ok e socketPath result started \<longleftrightarrow>
     started = [] \<and> result \<noteq> None \<or>
     started = [StartDaemon [''local-daemon'', ''--socket'', socketPath]] \<and> (result = None \<longrightarrow> (\<exists>reply\<in>set (dmPings e). compatible_reply reply))"

text \<open>A session that forwards ports has a local daemon it can talk to: when \<open>ensureLocalDaemon\<close> succeeds, a
  daemon of a compatible version has answered. One that is compatible is left alone; an incompatible one is
  asked to shut down before another is started, and only when its socket stays are other processes that serve
  this socket interrupted; at most one daemon is started, and without one that answers in time there is an error.\<close>
theorem local_daemon_ready:
  "case ensureLocalDaemon e socketPath of
     (result, actions) \<Rightarrow>
       (if compatible_reply (dmPing e) then result = None \<and> actions = []
        else \<exists>asked started. actions = asked @ started \<and> asked_ok e asked \<and> started_ok e socketPath result started)"
proof -
  define start where "start = (case dmPrepare e of
      Some err \<Rightarrow> (Some err, [])
    | None \<Rightarrow>
        (case dmStart e of
           Some err \<Rightarrow> (Some err, [])
         | None \<Rightarrow> (awaitDaemon (dmPings e) None, [StartDaemon [''local-daemon'', ''--socket'', socketPath]])))"
  obtain r started where s: "start = (r, started)" by (cases start)
  have started: "started_ok e socketPath r started"
  proof (cases "dmPrepare e = None \<and> dmStart e = None")
    case True
    then have "r = awaitDaemon (dmPings e) None" "started = [StartDaemon [''local-daemon'', ''--socket'', socketPath]]"
      using s by (simp_all add: start_def)
    then show ?thesis using awaitDaemon_ok [of "dmPings e" None] by (force simp: started_ok_def compatible_reply_def)
  next
    case False
    moreover have "fst start = r" "snd start = started" using s by simp_all
    ultimately show ?thesis by (cases "dmPrepare e"; cases "dmStart e"; auto simp: start_def started_ok_def)
  qed
  note run = ensureLocalDaemon_def [of e socketPath, folded start_def, unfolded Let_def s]
  show ?thesis
  proof (cases "dmPing e")
    case (Inl err)
    then have "ensureLocalDaemon e socketPath = (r, [] @ started)" "asked_ok e []" by (simp_all add: run asked_ok_def)
    then show ?thesis using started Inl by (simp only: prod.case compatible_reply_def sum.case if_False) blast
  next
    case (Inr resp)
    show ?thesis
    proof (cases "localDaemonResponseCompatible resp")
      case True
      then show ?thesis using Inr by (simp add: run compatible_reply_def)
    next
      case False
      define pids where "pids = (if dmGone e then [] else terminateLegacyLocalDaemons (dmSelf e) (dmPS e) socketPath)"
      have "asked_ok e (AskShutdown # map Interrupt pids)"
        using legacyDaemon_spec [of _ "dmSelf e" "dmPS e" socketPath] Inr by (auto simp: pids_def asked_ok_def)
      moreover have "ensureLocalDaemon e socketPath = (r, (AskShutdown # map Interrupt pids) @ started)"
        using Inr False by (simp add: run pids_def)
      moreover have "\<not> compatible_reply (dmPing e)" using Inr False by (simp add: compatible_reply_def)
      ultimately show ?thesis using started by (simp only: prod.case if_False) blast
    qed
  qed
qed

text \<open>An error of the bridge is never reported as success.\<close>

lemma RequestCommand_error: "RequestCommand uuid exchange r token = (result, Some err) \<Longrightarrow> crExitCode result \<noteq> 0"
  by (auto simp: RequestCommand_def readResponse_def failed_def split: if_splits sum.splits option.splits)


end
