(* ===== verification/ProcessLock.thy ===== *)
theory ProcessLock
  imports GoStrings
begin

text \<open>
  The lock file of an installation and of the daemons (\<open>internal/processlock/processlock.go\<close>): every system call
  of \<open>Acquire\<close> and \<open>Release\<close> is a step of a process, and the steps of all processes interleave. The
  file that is open and the file that has the name are told apart: a written identifier goes to the file
  the process created, also after somebody else has removed its name.
\<close>

record lock_disk =
  lkName :: "nat option"
  lkFile :: "nat \<Rightarrow> string"
  lkNext :: nat

text \<open>Where a process is: before attempt \<open>n\<close>, with the file it created, having read a lock that exists, about to remove
  it, holding the lock with its file, refused, or not interested.\<close>

datatype lock_pc = LockIdle | Attempt nat | Created nat | Exists nat | RemoveStale nat | Holding nat | LockRefused

record lock_world =
  lwDisk :: lock_disk
  lwPC :: "int \<Rightarrow> lock_pc"

text \<open>The holder the contents name, if they name one that is alive (or that may not be signalled).\<close>

definition liveHolder :: "(int \<Rightarrow> bool) \<Rightarrow> string option \<Rightarrow> int option" where
  "liveHolder alive contents =
     (case contents of
        None \<Rightarrow> None
      | Some c \<Rightarrow>
          (case Atoi (TrimSpace c) of
             None \<Rightarrow> None
           | Some pid \<Rightarrow> (if pid > 0 \<and> alive pid then Some pid else None)))"

definition pidLine :: "int \<Rightarrow> string" where "pidLine pid = Itoa pid @ [CHR 0x0A]"

text \<open>One step of process \<open>pid\<close>; \<open>failure\<close> is an error other than "exists" or "does not exist".\<close>

definition lockStep :: "(int \<Rightarrow> bool) \<Rightarrow> bool \<Rightarrow> int \<Rightarrow> lock_pc \<Rightarrow> lock_disk \<Rightarrow> lock_pc \<times> lock_disk" where
  "lockStep alive failure pid pc d =
     (case pc of
        LockIdle \<Rightarrow> (Attempt 0, d)
      | Attempt n \<Rightarrow>
          (if n \<ge> 2 \<or> failure then (LockRefused, d)
           else case lkName d of
             None \<Rightarrow> (Created (lkNext d), d\<lparr>lkName := Some (lkNext d), lkFile := (lkFile d)(lkNext d := []), lkNext := lkNext d + 1\<rparr>)
           | Some f \<Rightarrow> (Exists n, d))
      | Created f \<Rightarrow>
          (if failure then (LockRefused, d\<lparr>lkName := None\<rparr>)
           else (Holding f, d\<lparr>lkFile := (lkFile d)(f := pidLine pid)\<rparr>))
      | Exists n \<Rightarrow>
          (case liveHolder alive (if failure then None else map_option (lkFile d) (lkName d)) of
             Some holder \<Rightarrow> (LockRefused, d)
           | None \<Rightarrow> (RemoveStale n, d))
      | RemoveStale n \<Rightarrow> (if failure then (LockRefused, d) else (Attempt (n + 1), d\<lparr>lkName := None\<rparr>))
      | Holding f \<Rightarrow> (LockIdle, d\<lparr>lkName := None\<rparr>)
      | LockRefused \<Rightarrow> (LockIdle, d))"

inductive lock_run :: "(int \<Rightarrow> bool) \<Rightarrow> lock_world \<Rightarrow> lock_world \<Rightarrow> bool" for alive where
  here: "lock_run alive w w"
| step: "lock_run alive w v \<Longrightarrow> lockStep alive failure pid (lwPC v pid) (lwDisk v) = (pc, d) \<Longrightarrow>
    lock_run alive w \<lparr>lwDisk = d, lwPC = (lwPC v)(pid := pc)\<rparr>"

subsection \<open>A lock that is held excludes everybody\<close>

text \<open>The lock of process \<open>h\<close> stands: the file of that name is its own and names it. Other processes are before
  their attempt, have found the file or have been refused.\<close>

definition lock_stands :: "int \<Rightarrow> nat \<Rightarrow> lock_world \<Rightarrow> bool" where
  "lock_stands h f w \<longleftrightarrow>
     lwPC w h = Holding f \<and> lkName (lwDisk w) = Some f \<and> lkFile (lwDisk w) f = pidLine h \<and>
     (\<forall>pid. pid \<noteq> h \<longrightarrow> (case lwPC w pid of LockIdle \<Rightarrow> True | Attempt n \<Rightarrow> True | Exists n \<Rightarrow> True | LockRefused \<Rightarrow> True | _ \<Rightarrow> False))"

text \<open>A run in which \<open>h\<close> keeps the lock and reading the lock file works.\<close>

inductive kept_run :: "(int \<Rightarrow> bool) \<Rightarrow> int \<Rightarrow> lock_world \<Rightarrow> lock_world \<Rightarrow> bool" for alive h where
  here: "kept_run alive h w w"
| step: "kept_run alive h w v \<Longrightarrow> pid \<noteq> h \<Longrightarrow> (failure \<longrightarrow> \<not> (\<exists>n. lwPC v pid = Exists n)) \<Longrightarrow>
    lockStep alive failure pid (lwPC v pid) (lwDisk v) = (pc, d) \<Longrightarrow>
    kept_run alive h w \<lparr>lwDisk = d, lwPC = (lwPC v)(pid := pc)\<rparr>"

lemma TrimSpace_line:
  assumes "\<And>c. c \<in> set s \<Longrightarrow> \<not> is_space c"
  shows "TrimSpace (s @ [CHR 0x0A]) = s"
proof -
  have n: "is_space (CHR 0x0A)" by (simp add: is_space_def)
  have l: "dropWhile is_space s = s" using assms by (cases s) auto
  have r: "dropWhile is_space (rev s) = rev s" using assms by (cases "rev s") (auto simp: rev_eq_Cons_iff)
  show ?thesis
  proof (cases "s = []")
    case True
    then show ?thesis using n by (simp add: TrimSpace_def TrimFunc_def trim_left_def trim_right_def)
  next
    case False
    then have "dropWhile is_space (s @ [CHR 0x0A]) = s @ [CHR 0x0A]" using assms by (cases s) auto
    then show ?thesis using n r by (simp add: TrimSpace_def TrimFunc_def trim_left_def trim_right_def)
  qed
qed

lemma liveHolder_own:
  assumes "0 < h" "h < 2 ^ 63" "alive h"
  shows "liveHolder alive (Some (pidLine h)) = Some h"
proof -
  obtain n where n: "h = int n" using assms(1) by (metis zero_less_imp_eq_int)
  have "\<And>c. c \<in> set (nat_digits n) \<Longrightarrow> \<not> is_space c" using Itoa_not_sep nat_digits_all_digits by blast
  then have "TrimSpace (pidLine h) = nat_digits n" by (simp add: pidLine_def n TrimSpace_line)
  moreover have "n < 2 ^ 63" using assms(2) n by simp
  ultimately show ?thesis using assms(1,3) Atoi_nat_digits [of n] by (simp add: liveHolder_def n)
qed

lemma lock_stands_step:
  assumes stands: "lock_stands h f w" and h: "0 < h" "h < 2 ^ 63" "alive h"
    and other: "pid \<noteq> h" "failure \<longrightarrow> \<not> (\<exists>n. lwPC w pid = Exists n)"
    and run: "lockStep alive failure pid (lwPC w pid) (lwDisk w) = (pc, d)"
  shows "lock_stands h f \<lparr>lwDisk = d, lwPC = (lwPC w)(pid := pc)\<rparr>"
proof -
  note s = stands [unfolded lock_stands_def]
  have "d = lwDisk w \<and> (case pc of LockIdle \<Rightarrow> True | Attempt n \<Rightarrow> True | Exists n \<Rightarrow> True | LockRefused \<Rightarrow> True | _ \<Rightarrow> False)"
  proof (cases "lwPC w pid")
    case (Exists n)
    then have "\<not> failure" using other(2) by auto
    then have "(pc, d) = (LockRefused, lwDisk w)"
      using run Exists s liveHolder_own [where alive = alive, OF h] by (simp add: lockStep_def)
    then show ?thesis by simp
  next
    case (Attempt n)
    then show ?thesis using run s by (auto simp: lockStep_def split: if_splits)
  qed (use s other run in \<open>auto simp: lockStep_def split: lock_pc.splits\<close>)
  then show ?thesis using s other(1) unfolding lock_stands_def by simp
qed


definition free_disk :: lock_disk where
  "free_disk = \<lparr>lkName = None, lkFile = (\<lambda>_. []), lkNext = 0\<rparr>"

definition lock_script :: "(int \<Rightarrow> bool) \<Rightarrow> int list \<Rightarrow> lock_world \<Rightarrow> lock_world" where
  "lock_script alive pids w = foldl (\<lambda>v pid. case lockStep alive False pid (lwPC v pid) (lwDisk v) of (pc, d) \<Rightarrow>
     \<lparr>lwDisk = d, lwPC = (lwPC v)(pid := pc)\<rparr>) w pids"

lemma lock_script_run: "lock_run alive u w \<Longrightarrow> lock_run alive u (lock_script alive pids w)"
proof (induction pids arbitrary: w)
  case (Cons pid pids)
  obtain pc d where s: "lockStep alive False pid (lwPC w pid) (lwDisk w) = (pc, d)" by fastforce
  have "lock_run alive u \<lparr>lwDisk = d, lwPC = (lwPC w)(pid := pc)\<rparr>" using Cons.prems s by (rule lock_run.step)
  from Cons.IH [OF this] show ?case by (simp add: lock_script_def s)
qed (simp add: lock_script_def)

text \<open>A second process that finds the file of the first one before the identifier is written takes it for stale
  and removes it: both hold the lock.\<close>

lemma lock_race:
  "\<exists>w. lock_run (\<lambda>_. True) \<lparr>lwDisk = free_disk, lwPC = (\<lambda>_. LockIdle)\<rparr> w \<and> lwPC w 1 = Holding 0 \<and> lwPC w 2 = Holding 1"
proof -
  let ?w = "lock_script (\<lambda>_. True) [1, 1, 2, 2, 2, 2, 2, 1, 2] \<lparr>lwDisk = free_disk, lwPC = (\<lambda>_. LockIdle)\<rparr>"
  have empty: "Atoi (TrimSpace []) = None" by code_simp
  have "lwPC ?w 1 = Holding 0 \<and> lwPC ?w 2 = Holding 1"
    by (simp add: lock_script_def lockStep_def free_disk_def liveHolder_def empty)
  moreover have "lock_run (\<lambda>_. True) \<lparr>lwDisk = free_disk, lwPC = (\<lambda>_. LockIdle)\<rparr> ?w" by (rule lock_script_run) (rule lock_run.here)
  ultimately show ?thesis by blast
qed


end
