(* ===== verification/Relay.thy ===== *)
theory Relay
  imports Protocol
begin

text \<open>
  Streams joined by copying goroutines: \<open>Proxy\<close> and the session set-up of \<open>internal/mux/mux.go\<close>, \<open>SocketProxy\<close>
  and the buffer of \<open>internal/bridge/client.go\<close>. An \<open>io.Copy\<close> is a pipe with the bytes its source still gives
  and those it has written; the pipes of a proxy move in any order until the proxy returns.
\<close>

subsection \<open>Setting up a session\<close>

definition nextStream :: "bool \<Rightarrow> ('st \<Rightarrow> ('e, 'stream) result \<times> 'st) \<Rightarrow> ('st \<Rightarrow> ('e, 'stream) result \<times> 'st) \<Rightarrow>
    'st \<Rightarrow> ('e, 'stream) result \<times> 'st" where
  "nextStream client openStream acceptStream st = (if client then openStream st else acceptStream st)"

text \<open>\<open>created\<close> is the smux session over the transport; when a channel cannot be opened it is closed again.\<close>

definition newMuxSession ::
  "bool \<Rightarrow> ('st \<Rightarrow> ('e, 'stream) result \<times> 'st) \<Rightarrow> ('st \<Rightarrow> ('e, 'stream) result \<times> 'st) \<Rightarrow> ('st \<Rightarrow> 'st) \<Rightarrow> ('e, 'st) result \<Rightarrow>
   ('e, (byte \<rightharpoonup> 'stream)) result \<times> 'st option" where
  "newMuxSession client openStream acceptStream closeSession created =
     (case created of
        Inl err \<Rightarrow> (Inl err, None)
      | Inr st \<Rightarrow>
          (case openMuxSession (nextStream client openStream acceptStream) st of
             (Inl err, st1) \<Rightarrow> (Inl err, Some (closeSession st1))
           | (Inr channels, st1) \<Rightarrow> (Inr channels, Some st1)))"

definition muxNewClient where "muxNewClient = newMuxSession True"
definition muxNewServer where "muxNewServer = newMuxSession False"

text \<open>An absent channel reads as \<open>None\<close>.\<close>

definition muxChannel :: "(byte \<rightharpoonup> 'stream) \<Rightarrow> byte \<Rightarrow> 'stream option" where
  "muxChannel channels i = channels i"

lemma newMuxSession_channels:
  "newMuxSession client op ac cl created = (Inr channels, st) \<Longrightarrow>
   muxChannel channels ChannelControl \<noteq> None \<and> muxChannel channels ChannelFS \<noteq> None"
  by (auto simp: newMuxSession_def muxChannel_def split: sum.splits prod.splits dest!: openSession_channels)

subsection \<open>Pipes\<close>

datatype endpoint = Channel byte | ControlConn | FSConn | StdStream | SocketConn

record pipe =
  ppFrom :: endpoint
  ppTo :: endpoint
  ppCloses :: bool
  ppRest :: "byte list"
  ppSent :: "byte list"
  ppResult :: "copy_error option option"

record relay =
  rlPipes :: "pipe list"
  rlClosed :: "endpoint set"
  rlOutcome :: "copy_error option option"

definition startPipe :: "(endpoint \<Rightarrow> byte list) \<Rightarrow> endpoint \<times> endpoint \<times> bool \<Rightarrow> pipe" where
  "startPipe source ends = (case ends of (from, to, closes) \<Rightarrow>
     \<lparr>ppFrom = from, ppTo = to, ppCloses = closes, ppRest = source from, ppSent = [], ppResult = None\<rparr>)"

definition startRelay :: "(endpoint \<Rightarrow> byte list) \<Rightarrow> (endpoint \<times> endpoint \<times> bool) list \<Rightarrow> relay" where
  "startRelay source ends = \<lparr>rlPipes = map (startPipe source) ends, rlClosed = {}, rlOutcome = None\<rparr>"

text \<open>The pipes of the two proxies; the flag: the pipe closes its end (\<open>channel.Close\<close>, \<open>CloseWrite\<close>).\<close>

definition muxPipes :: "(endpoint \<times> endpoint \<times> bool) list" where
  "muxPipes = [(Channel ChannelControl, ControlConn, False), (ControlConn, Channel ChannelControl, True),
     (Channel ChannelFS, FSConn, False), (FSConn, Channel ChannelFS, True)]"

definition socketPipes :: "(endpoint \<times> endpoint \<times> bool) list" where
  "socketPipes = [(StdStream, SocketConn, True), (SocketConn, StdStream, False)]"

definition muxProxy ::
  "('st \<Rightarrow> ('e, 'stream) result \<times> 'st) \<Rightarrow> ('st \<Rightarrow> ('e, 'stream) result \<times> 'st) \<Rightarrow> ('st \<Rightarrow> 'st) \<Rightarrow> ('e, 'st) result \<Rightarrow>
   (endpoint \<Rightarrow> byte list) \<Rightarrow> ('e, relay) result" where
  "muxProxy openStream acceptStream closeSession created source =
     (case fst (muxNewServer openStream acceptStream closeSession created) of
        Inl err \<Rightarrow> Inl err
      | Inr channels \<Rightarrow> Inr (startRelay source muxPipes))"

definition SocketProxy :: "'e option \<Rightarrow> (endpoint \<Rightarrow> byte list) \<Rightarrow> ('e, relay) result" where
  "SocketProxy dialErr source = (case dialErr of Some err \<Rightarrow> Inl err | None \<Rightarrow> Inr (startRelay source socketPipes))"

definition socketCopyError :: "copy_error option \<Rightarrow> copy_error option" where
  "socketCopyError err = (if err = Some ErrEOF then None else err)"

definition pipeMove :: "nat \<Rightarrow> pipe \<Rightarrow> pipe" where
  "pipeMove n p = p\<lparr>ppRest := drop n (ppRest p), ppSent := ppSent p @ take n (ppRest p)\<rparr>"

definition pipeEnd :: "nat \<Rightarrow> copy_error option \<Rightarrow> relay \<Rightarrow> relay" where
  "pipeEnd i err s =
     (let p = rlPipes s ! i in
      s\<lparr>rlPipes := (rlPipes s)[i := p\<lparr>ppResult := Some err\<rparr>],
        rlClosed := (if ppCloses p then insert (ppTo p) (rlClosed s) else rlClosed s)\<rparr>)"

text \<open>A copy ends without an error at the end of its source, with one at any time. The proxy returns at the first
  result it receives, or when it is told to stop (its context, the end of the session).\<close>

inductive relay_step :: "(copy_error option \<Rightarrow> copy_error option) \<Rightarrow> relay \<Rightarrow> relay \<Rightarrow> bool" for norm where
  copy: "i < length (rlPipes s) \<Longrightarrow> ppResult (rlPipes s ! i) = None \<Longrightarrow>
    relay_step norm s (s\<lparr>rlPipes := (rlPipes s)[i := pipeMove n (rlPipes s ! i)]\<rparr>)"
| ended: "i < length (rlPipes s) \<Longrightarrow> ppResult (rlPipes s ! i) = None \<Longrightarrow> ppRest (rlPipes s ! i) = [] \<Longrightarrow>
    relay_step norm s (pipeEnd i None s)"
| broken: "i < length (rlPipes s) \<Longrightarrow> ppResult (rlPipes s ! i) = None \<Longrightarrow>
    relay_step norm s (pipeEnd i (Some err) s)"
| result: "rlOutcome s = None \<Longrightarrow> i < length (rlPipes s) \<Longrightarrow> ppResult (rlPipes s ! i) = Some err \<Longrightarrow>
    relay_step norm s (s\<lparr>rlOutcome := Some (norm err)\<rparr>)"
| told: "rlOutcome s = None \<Longrightarrow> relay_step norm s (s\<lparr>rlOutcome := Some None\<rparr>)"

inductive relay_reach :: "(copy_error option \<Rightarrow> copy_error option) \<Rightarrow> relay \<Rightarrow> relay \<Rightarrow> bool" for norm s0 where
  start: "relay_reach norm s0 s0"
| step: "relay_reach norm s0 s \<Longrightarrow> relay_step norm s s' \<Longrightarrow> relay_reach norm s0 s'"

subsection \<open>What a proxy writes\<close>

definition pipe_ok :: "(endpoint \<Rightarrow> byte list) \<Rightarrow> endpoint \<times> endpoint \<times> bool \<Rightarrow> pipe \<Rightarrow> bool" where
  "pipe_ok source ends p \<longleftrightarrow>
     (ppFrom p, ppTo p, ppCloses p) = ends \<and> ppSent p @ ppRest p = source (fst ends) \<and>
     (ppResult p = Some None \<longrightarrow> ppRest p = [])"

definition relay_ok :: "(copy_error option \<Rightarrow> copy_error option) \<Rightarrow> (endpoint \<Rightarrow> byte list) \<Rightarrow> (endpoint \<times> endpoint \<times> bool) list \<Rightarrow> relay \<Rightarrow> bool" where
  "relay_ok norm source ends s \<longleftrightarrow>
     list_all2 (pipe_ok source) ends (rlPipes s) \<and>
     (\<forall>r. rlOutcome s = Some r \<longrightarrow> r = None \<or> (\<exists>p \<in> set (rlPipes s). \<exists>err. ppResult p = Some err \<and> r = norm err))"

lemma relay_ok_start: "relay_ok norm source ends (startRelay source ends)"
  by (auto simp: relay_ok_def startRelay_def list_all2_conv_all_nth startPipe_def pipe_ok_def split: prod.split)

lemma kept_result:
  "i < length ps \<Longrightarrow> ppResult (ps ! i) = None \<Longrightarrow> p \<in> set ps \<Longrightarrow> ppResult p = Some r \<Longrightarrow> p \<in> set (ps[i := q])"
  by (metis in_set_conv_nth length_list_update nth_list_update_neq option.distinct(1))

lemma relay_ok_update:
  assumes ok: "relay_ok norm source ends s" and i: "i < length (rlPipes s)" "ppResult (rlPipes s ! i) = None"
    and q: "pipe_ok source (ends ! i) q"
  shows "relay_ok norm source ends (s\<lparr>rlPipes := (rlPipes s)[i := q], rlClosed := cl\<rparr>)"
proof -
  have "list_all2 (pipe_ok source) ends ((rlPipes s)[i := q])"
    using ok q i(1) by (auto simp: relay_ok_def list_all2_conv_all_nth nth_list_update)
  moreover have "r = None \<or> (\<exists>p \<in> set ((rlPipes s)[i := q]). \<exists>err. ppResult p = Some err \<and> r = norm err)"
    if "rlOutcome s = Some r" for r
    using ok that kept_result [OF i] unfolding relay_ok_def by blast
  ultimately show ?thesis by (simp add: relay_ok_def)
qed

lemma relay_ok_step: "relay_step norm s s' \<Longrightarrow> relay_ok norm source ends s \<Longrightarrow> relay_ok norm source ends s'"
proof (induction rule: relay_step.induct)
  case (copy i s n)
  then have p: "pipe_ok source (ends ! i) (rlPipes s ! i)" by (simp add: relay_ok_def list_all2_conv_all_nth)
  then have "pipe_ok source (ends ! i) (pipeMove n (rlPipes s ! i))" using copy by (simp add: pipe_ok_def pipeMove_def)
  from relay_ok_update [OF copy(3,1,2) this, of "rlClosed s"] show ?case by simp
next
  case (ended i s)
  then have "pipe_ok source (ends ! i) (rlPipes s ! i)" by (simp add: relay_ok_def list_all2_conv_all_nth)
  then have "pipe_ok source (ends ! i) ((rlPipes s ! i)\<lparr>ppResult := Some None\<rparr>)"
    using ended by (simp add: pipe_ok_def)
  from relay_ok_update [OF ended(4,1,2) this] show ?case by (simp add: pipeEnd_def Let_def)
next
  case (broken i s err)
  then have "pipe_ok source (ends ! i) (rlPipes s ! i)" by (simp add: relay_ok_def list_all2_conv_all_nth)
  then have "pipe_ok source (ends ! i) ((rlPipes s ! i)\<lparr>ppResult := Some (Some err)\<rparr>)"
    using broken by (simp add: pipe_ok_def)
  from relay_ok_update [OF broken(3,1,2) this] show ?case by (simp add: pipeEnd_def Let_def)
next
  case (result s i err)
  then have "rlPipes s ! i \<in> set (rlPipes s)" by simp
  then show ?case using result by (auto simp: relay_ok_def)
next
  case (told s)
  then show ?case by (simp add: relay_ok_def)
qed

text \<open>Whatever the order of the copies, each end of a proxy gets a prefix of the bytes its counterpart gave:
  the control connection those of the control channel and the file system connection those of the file
  system channel, nothing crosses over, and all of them when its copy ended without an error. An error is
  returned only when a copy failed with one.\<close>

theorem relayed_bytes:
  assumes "relay_reach norm (startRelay source ends) s" "i < length ends" "ends ! i = (from, to, closes)"
  shows "let p = rlPipes s ! i in
    length (rlPipes s) = length ends \<and> ppFrom p = from \<and> ppTo p = to \<and>
    source from = ppSent p @ ppRest p \<and> (ppResult p = Some None \<longrightarrow> ppRest p = []) \<and>
    (\<forall>err. rlOutcome s = Some (Some err) \<longrightarrow> (\<exists>q \<in> set (rlPipes s). \<exists>e. ppResult q = Some e \<and> norm e = Some err))"
proof -
  have ok: "relay_ok norm source ends s"
    using assms(1) by (induction rule: relay_reach.induct) (auto intro: relay_ok_start relay_ok_step)
  then have "length (rlPipes s) = length ends" "pipe_ok source (ends ! i) (rlPipes s ! i)"
    using assms(2) by (simp_all add: relay_ok_def list_all2_conv_all_nth)
  moreover have "\<exists>q \<in> set (rlPipes s). \<exists>e. ppResult q = Some e \<and> norm e = Some err" if "rlOutcome s = Some (Some err)" for err
    using ok that unfolding relay_ok_def by force
  ultimately show ?thesis using assms(3) by (auto simp: Let_def pipe_ok_def)
qed

fun relay_script :: "(relay \<Rightarrow> relay) list \<Rightarrow> relay \<Rightarrow> relay" where
  "relay_script [] s = s"
| "relay_script (f # fs) s = relay_script fs (f s)"

fun relay_script_ok :: "(copy_error option \<Rightarrow> copy_error option) \<Rightarrow> (relay \<Rightarrow> relay) list \<Rightarrow> relay \<Rightarrow> bool" where
  "relay_script_ok norm [] s = True"
| "relay_script_ok norm (f # fs) s = (relay_step norm s (f s) \<and> relay_script_ok norm fs (f s))"

lemma relay_script_reach: "relay_script_ok norm fs s \<Longrightarrow> relay_reach norm s0 s \<Longrightarrow> relay_reach norm s0 (relay_script fs s)"
  by (induction fs arbitrary: s) (auto intro: relay_reach.step)

definition relayMove :: "nat \<Rightarrow> nat \<Rightarrow> relay \<Rightarrow> relay" where
  "relayMove i n s = s\<lparr>rlPipes := (rlPipes s)[i := pipeMove n (rlPipes s ! i)]\<rparr>"

definition relayReturn :: "copy_error option \<Rightarrow> relay \<Rightarrow> relay" where
  "relayReturn r s = s\<lparr>rlOutcome := Some r\<rparr>"

lemma relay_scripted:
  "i < length (rlPipes s) \<Longrightarrow> ppResult (rlPipes s ! i) = None \<Longrightarrow> relay_step norm s (relayMove i n s)"
  "i < length (rlPipes s) \<Longrightarrow> ppResult (rlPipes s ! i) = None \<Longrightarrow> ppRest (rlPipes s ! i) = [] \<Longrightarrow> relay_step norm s (pipeEnd i None s)"
  "rlOutcome s = None \<Longrightarrow> i < length (rlPipes s) \<Longrightarrow> ppResult (rlPipes s ! i) = Some err \<Longrightarrow> norm err = r \<Longrightarrow> relay_step norm s (relayReturn r s)"
  unfolding relayMove_def relayReturn_def by (auto intro: relay_step.copy relay_step.ended relay_step.result)

lemmas relay_defs = startRelay_def startPipe_def relayMove_def pipeMove_def pipeEnd_def relayReturn_def

text \<open>\<open>SocketProxy\<close> returns when its standard input ends, although it only half-closed the socket for that: what the
  server still sends is not written.\<close>

definition question :: "endpoint \<Rightarrow> byte list" where
  "question e = (case e of StdStream \<Rightarrow> [1, 2] | SocketConn \<Rightarrow> [7, 8, 9] | _ \<Rightarrow> [])"

lemma answer_cut_short:
  "\<exists>s. relay_reach socketCopyError (startRelay question socketPipes) s \<and> rlOutcome s = Some None \<and>
     ppResult (rlPipes s ! 0) = Some None \<and> ppSent (rlPipes s ! 1) = [7] \<and> ppRest (rlPipes s ! 1) = [8, 9]"
proof -
  define fs where "fs = [relayMove 0 2, relayMove 1 1, pipeEnd 0 None, relayReturn None]"
  have "relay_script_ok socketCopyError fs (startRelay question socketPipes)"
    unfolding fs_def relay_script_ok.simps
    by (intro conjI TrueI relay_scripted(1,2) relay_scripted(3) [where i = 0 and err = None])
      (simp_all add: relay_defs socketPipes_def question_def socketCopyError_def Let_def)
  then have "relay_reach socketCopyError (startRelay question socketPipes) (relay_script fs (startRelay question socketPipes))"
    by (rule relay_script_reach) (rule relay_reach.start)
  moreover define s where "s = relay_script fs (startRelay question socketPipes)"
  moreover have "rlOutcome s = Some None \<and> ppResult (rlPipes s ! 0) = Some None \<and> ppSent (rlPipes s ! 1) = [7] \<and>
    ppRest (rlPipes s ! 1) = [8, 9]"
    by (simp add: s_def fs_def relay_defs socketPipes_def question_def Let_def)
  ultimately show ?thesis by blast
qed

text \<open>A question goes through and its answer comes back in parts.\<close>

theorem relayed_bytes_witness:
  "\<exists>s. relay_reach normalizeCopyError (startRelay question socketPipes) s \<and> ppSent (rlPipes s ! 1) = [7, 8] \<and>
     question SocketConn = ppSent (rlPipes s ! 1) @ ppRest (rlPipes s ! 1)"
proof -
  define fs where "fs = [relayMove 0 2, relayMove 1 1, relayMove 1 1]"
  define s where "s = relay_script fs (startRelay question socketPipes)"
  have "relay_script_ok normalizeCopyError fs (startRelay question socketPipes)"
    unfolding fs_def relay_script_ok.simps
    by (intro conjI TrueI relay_scripted(1)) (simp_all add: relay_defs socketPipes_def)
  then have r: "relay_reach normalizeCopyError (startRelay question socketPipes) s"
    unfolding s_def by (rule relay_script_reach) (rule relay_reach.start)
  have sent: "ppSent (rlPipes s ! 1) = [7, 8]" by (simp add: s_def fs_def relay_defs socketPipes_def question_def)
  have e: "socketPipes ! 1 = (SocketConn, StdStream, False)" "1 < length socketPipes" by (simp_all add: socketPipes_def)
  have "question SocketConn = ppSent (rlPipes s ! 1) @ ppRest (rlPipes s ! 1)"
    using relayed_bytes [OF r e(2,1)] by (simp only: Let_def)
  with r sent show ?thesis by blast
qed

subsection \<open>The buffer of a command's output\<close>

text \<open>\<open>syncBuffer\<close>: every write appends under the lock; \<open>Bytes\<close> is a copy of what was written.\<close>

definition syncWrite :: "byte list \<Rightarrow> byte list \<Rightarrow> nat \<times> byte list" where
  "syncWrite p b = (length p, b @ p)"

definition syncBytes :: "byte list \<Rightarrow> byte list" where
  "syncBytes b = [] @ b"

lemma syncBuffer_concat: "syncBytes (fold (\<lambda>p b. snd (syncWrite p b)) ps b) = b @ concat ps"
  by (induction ps arbitrary: b) (simp_all add: syncWrite_def syncBytes_def)

text \<open>\<open>signalReady\<close>: without a channel, or when its buffer is full, nothing is sent; it never waits.\<close>

definition signalReady :: "(nat \<times> 'e option list) option \<Rightarrow> 'e option \<Rightarrow> (nat \<times> 'e option list) option" where
  "signalReady ready err =
     (case ready of
        None \<Rightarrow> None
      | Some (capacity, queue) \<Rightarrow> Some (capacity, if length queue < capacity then queue @ [err] else queue))"

lemma signalReady_first: "ready = Some (1, []) \<Longrightarrow> signalReady (signalReady ready e1) e2 = Some (1, [e1])"
  by (simp add: signalReady_def)

end
