(* ===== verification/Connections.thy ===== *)
theory Connections
  imports Prelude
begin

text \<open>
  How the two servers (\<open>internal/locald\<close>, \<open>internal/bridge\<close>) count their connections: the accept loops, the
  table of connections, the wait group, and the shutdown, as a step system.
\<close>

subsection \<open>Counting connections\<close>

text \<open>
  Both servers keep a table of their connections and a wait group of the goroutines that handle them.
  A connection is fetched by the accept loop that returns from \<open>Serve\<close> or, in the bridge, by the second loop of
  the data connections (\<open>Fetched True\<close>), which runs in a goroutine of its own; then it is registered
  under the lock or refused while draining; its handler ends by leaving the table and the wait group, in this
  order. When the accept loop ends the server closes the connections of the table and waits. \<open>Closing d\<close>
  and \<open>Ended d\<close> remember whether the server was draining then.
\<close>

datatype conn_pc = Fetched bool | Handled | Left
datatype serve_phase = Accepting | Closing bool | Ended bool

record conn_state =
  csTable :: "nat set"
  csWait :: int
  csClosed :: "nat set"
  csSeen :: "nat set"
  csDraining :: bool
  csPhase :: serve_phase
  csPC :: "nat \<rightharpoonup> conn_pc"

definition conn_start :: conn_state where
  "conn_start = \<lparr>csTable = {}, csWait = 0, csClosed = {}, csSeen = {}, csDraining = False, csPhase = Accepting, csPC = Map.empty\<rparr>"

definition registerConn :: "nat \<Rightarrow> conn_state \<Rightarrow> conn_state" where
  "registerConn c s =
     (if csDraining s then s\<lparr>csClosed := insert c (csClosed s), csPC := (csPC s)(c := None)\<rparr>
      else s\<lparr>csTable := insert c (csTable s), csWait := csWait s + 1, csPC := (csPC s)(c \<mapsto> Handled)\<rparr>)"

definition closeConnections :: "conn_state \<Rightarrow> conn_state" where
  "closeConnections s = s\<lparr>csClosed := csClosed s \<union> csTable s, csPhase := Closing (csDraining s)\<rparr>"

definition leaveTable :: "nat \<Rightarrow> conn_state \<Rightarrow> conn_state" where
  "leaveTable c s = s\<lparr>csTable := csTable s - {c}, csPC := (csPC s)(c \<mapsto> Left)\<rparr>"

definition handlerDone :: "nat \<Rightarrow> conn_state \<Rightarrow> conn_state" where
  "handlerDone c s = s\<lparr>csWait := csWait s - 1, csPC := (csPC s)(c := None)\<rparr>"

inductive conn_step :: "bool \<Rightarrow> conn_state \<Rightarrow> conn_state \<Rightarrow> bool" for side where
  fetch: "csPhase s = Accepting \<Longrightarrow> c \<notin> csSeen s \<Longrightarrow> Some (Fetched False) \<notin> range (csPC s) \<Longrightarrow>
    conn_step side s (s\<lparr>csSeen := insert c (csSeen s), csPC := (csPC s)(c \<mapsto> Fetched False)\<rparr>)"
| fetch_data: "side \<Longrightarrow> csPhase s = Accepting \<Longrightarrow> c \<notin> csSeen s \<Longrightarrow> Some (Fetched True) \<notin> range (csPC s) \<Longrightarrow>
    conn_step side s (s\<lparr>csSeen := insert c (csSeen s), csPC := (csPC s)(c \<mapsto> Fetched True)\<rparr>)"
| register: "csPC s c = Some (Fetched b) \<Longrightarrow> conn_step side s (registerConn c s)"
| leave: "csPC s c = Some Handled \<Longrightarrow> conn_step side s (leaveTable c s)"
| finished: "csPC s c = Some Left \<Longrightarrow> conn_step side s (handlerDone c s)"
| drain: "conn_step side s (s\<lparr>csDraining := True\<rparr>)"
| close: "csPhase s = Accepting \<Longrightarrow> Some (Fetched False) \<notin> range (csPC s) \<Longrightarrow> conn_step side s (closeConnections s)"
| return: "csPhase s = Closing d \<Longrightarrow> csWait s = 0 \<Longrightarrow> conn_step side s (s\<lparr>csPhase := Ended d\<rparr>)"

inductive conn_reach :: "bool \<Rightarrow> conn_state \<Rightarrow> bool" for side where
  start: "conn_reach side conn_start"
| step: "conn_reach side s \<Longrightarrow> conn_step side s s' \<Longrightarrow> conn_reach side s'"

inductive_cases conn_stepE [consumes 1]: "conn_step side s s'"

definition running :: "(nat \<rightharpoonup> conn_pc) \<Rightarrow> nat set" where
  "running m = {c. m c = Some Handled}"

definition served :: "(nat \<rightharpoonup> conn_pc) \<Rightarrow> nat set" where
  "served m = {c. m c = Some Handled \<or> m c = Some Left}"

definition fetched :: "(nat \<rightharpoonup> conn_pc) \<Rightarrow> bool set" where
  "fetched m = {b. Some (Fetched b) \<in> range m}"

lemma conn_upd [simp]:
  "running (m(c := v)) = (if v = Some Handled then insert c (running m) else running m - {c})"
  "served (m(c := v)) = (if v = Some Handled \<or> v = Some Left then insert c (served m) else served m - {c})"
  by (auto simp: running_def served_def)

lemma conn_at:
  "m c = None \<Longrightarrow> c \<notin> running m \<and> c \<notin> served m"
  "m c = Some (Fetched b) \<Longrightarrow> c \<notin> running m \<and> c \<notin> served m \<and> b \<in> fetched m"
  "m c = Some Handled \<Longrightarrow> c \<in> running m \<and> c \<in> served m"
  "m c = Some Left \<Longrightarrow> c \<notin> running m \<and> c \<in> served m"
  by (auto simp: running_def served_def fetched_def image_iff) metis

lemma fetched_upd: "b \<in> fetched (m(c := v)) \<Longrightarrow> v = Some (Fetched b) \<or> b \<in> fetched m"
  by (auto simp: fetched_def image_iff fun_upd_apply split: if_splits)

fun phase_over :: "serve_phase \<Rightarrow> bool option" where
  "phase_over Accepting = None"
| "phase_over (Closing d) = Some d"
| "phase_over (Ended d) = Some d"

text \<open>The invariant: the table holds the running handlers, the wait group counts the handlers, and once the
  connections are closed no handler has an open connection, unless a data connection was fetched before.\<close>

definition conn_inv :: "bool \<Rightarrow> conn_state \<Rightarrow> bool" where
  "conn_inv side s \<longleftrightarrow>
     finite (served (csPC s)) \<and> dom (csPC s) \<subseteq> csSeen s \<and>
     csTable s = running (csPC s) \<and> csWait s = int (card (served (csPC s))) \<and>
     (True \<in> fetched (csPC s) \<longrightarrow> side) \<and> (False \<in> fetched (csPC s) \<longrightarrow> csPhase s = Accepting) \<and>
     (\<forall>d. phase_over (csPhase s) = Some d \<longrightarrow> (d \<longrightarrow> csDraining s) \<and> ((side \<longrightarrow> d) \<longrightarrow> csTable s \<subseteq> csClosed s)) \<and>
     (\<forall>d. csPhase s = Ended d \<longrightarrow> (side \<longrightarrow> d) \<longrightarrow> served (csPC s) = {})"

lemma conn_inv_start: "conn_inv side conn_start"
  by (simp add: conn_inv_def conn_start_def served_def running_def fetched_def)

lemma conn_invI:
  "finite (served (csPC s)) \<Longrightarrow> dom (csPC s) \<subseteq> csSeen s \<Longrightarrow> csTable s = running (csPC s) \<Longrightarrow>
   csWait s = int (card (served (csPC s))) \<Longrightarrow> (True \<in> fetched (csPC s) \<Longrightarrow> side) \<Longrightarrow>
   (False \<in> fetched (csPC s) \<Longrightarrow> csPhase s = Accepting) \<Longrightarrow>
   (\<And>d. phase_over (csPhase s) = Some d \<Longrightarrow> d \<Longrightarrow> csDraining s) \<Longrightarrow>
   (\<And>d. phase_over (csPhase s) = Some d \<Longrightarrow> side \<longrightarrow> d \<Longrightarrow> csTable s \<subseteq> csClosed s) \<Longrightarrow>
   (\<And>d. csPhase s = Ended d \<Longrightarrow> side \<longrightarrow> d \<Longrightarrow> served (csPC s) = {}) \<Longrightarrow> conn_inv side s"
  unfolding conn_inv_def by blast

lemma conn_invD:
  assumes "conn_inv side s"
  shows "finite (served (csPC s))" "dom (csPC s) \<subseteq> csSeen s" "csTable s = running (csPC s)"
    "csWait s = int (card (served (csPC s)))" "True \<in> fetched (csPC s) \<Longrightarrow> side"
    "False \<in> fetched (csPC s) \<Longrightarrow> csPhase s = Accepting"
    "phase_over (csPhase s) = Some d \<Longrightarrow> d \<Longrightarrow> csDraining s"
    "phase_over (csPhase s) = Some d \<Longrightarrow> side \<longrightarrow> d \<Longrightarrow> running (csPC s) \<subseteq> csClosed s"
    "csPhase s = Ended d \<Longrightarrow> side \<longrightarrow> d \<Longrightarrow> served (csPC s) = {}"
  using assms by (simp_all add: conn_inv_def) metis+

lemma conn_inv_fetch:
  assumes inv: "conn_inv side s" and c: "c \<notin> csSeen s" and p: "csPhase s = Accepting" and b: "b \<longrightarrow> side"
  shows "conn_inv side (s\<lparr>csSeen := insert c (csSeen s), csPC := (csPC s)(c \<mapsto> Fetched b)\<rparr>)"
proof -
  note i = conn_invD [OF inv]
  have "csPC s c = None" using i(2) c by blast
  note new = conn_at(1) [of "csPC s", OF this]
  have "True \<in> fetched ((csPC s)(c \<mapsto> Fetched b)) \<Longrightarrow> side"
    using fetched_upd [of True "csPC s" c "Some (Fetched b)"] b i(5) by auto
  then show ?thesis using i(1-4) new p by (intro conn_invI) auto
qed

lemma conn_inv_register:
  assumes inv: "conn_inv side s" and c: "csPC s c = Some (Fetched b)"
  shows "conn_inv side (registerConn c s)"
proof -
  note i = conn_invD [OF inv]
  note new = conn_at(2) [of "csPC s", OF c]
  have f: "x \<in> fetched ((csPC s)(c := v)) \<Longrightarrow> x \<in> fetched (csPC s)" if "v = None \<or> v = Some Handled" for x v
    using fetched_upd [of x "csPC s" c v] that by auto
  have seen: "c \<in> csSeen s" using i(2) c by auto
  show ?thesis
  proof (cases "csDraining s")
    case True
    then have "registerConn c s = s\<lparr>csClosed := insert c (csClosed s), csPC := (csPC s)(c := None)\<rparr>"
      by (simp add: registerConn_def)
    then show ?thesis using i(1-6) new f [of None] True by (intro conn_invI) (auto dest: i(8) i(9))
  next
    case False
    then have r: "registerConn c s = s\<lparr>csTable := insert c (csTable s), csWait := csWait s + 1, csPC := (csPC s)(c \<mapsto> Handled)\<rparr>"
      by (simp add: registerConn_def)
    have over: "side \<and> \<not> d" if "phase_over (csPhase s) = Some d" for d
    proof -
      have "csPhase s \<noteq> Accepting" using that by auto
      then have "b" using new i(6) by (cases b) auto
      then show ?thesis using i(5) i(7) [OF that] new False by auto
    qed
    then have ended: "side \<and> \<not> d" if "csPhase s = Ended d" for d using that by simp
    show ?thesis
      unfolding r using i(1-6) new f [of "Some Handled"] seen by (intro conn_invI) (auto dest: over ended)
  qed
qed

lemma conn_inv_leave:
  assumes inv: "conn_inv side s" and c: "csPC s c = Some Handled"
  shows "conn_inv side (leaveTable c s)"
proof -
  note i = conn_invD [OF inv]
  note at = conn_at(3) [of "csPC s", OF c]
  have f: "x \<in> fetched ((csPC s)(c \<mapsto> Left)) \<Longrightarrow> x \<in> fetched (csPC s)" for x
    using fetched_upd [of x "csPC s" c "Some Left"] by auto
  have sv: "insert c (served (csPC s)) = served (csPC s)" using at by auto
  have seen: "c \<in> csSeen s" using i(2) c by auto
  show ?thesis unfolding leaveTable_def
    using i(1-6) f seen sv by (intro conn_invI) (auto dest: i(7) i(8) i(9))
qed

lemma conn_inv_done:
  assumes inv: "conn_inv side s" and c: "csPC s c = Some Left"
  shows "conn_inv side (handlerDone c s)"
proof -
  note i = conn_invD [OF inv]
  note at = conn_at(4) [of "csPC s", OF c]
  have f: "x \<in> fetched ((csPC s)(c := None)) \<Longrightarrow> x \<in> fetched (csPC s)" for x
    using fetched_upd [of x "csPC s" c None] by auto
  have sv: "int (card (served (csPC s) - {c})) = int (card (served (csPC s))) - 1"
    using i(1) at by (simp add: card_Diff_singleton of_nat_diff Suc_leI card_gt_0_iff) (metis One_nat_def Suc_leI card_gt_0_iff empty_iff of_nat_1 of_nat_diff)
  show ?thesis unfolding handlerDone_def
    using i(1-6) f sv at by (intro conn_invI) (auto dest: i(7) i(8) i(9))
qed

lemma conn_inv_step: "conn_step side s s' \<Longrightarrow> conn_inv side s \<Longrightarrow> conn_inv side s'"
proof (induction rule: conn_step.induct)
  case (fetch s c)
  then show ?case by (intro conn_inv_fetch) auto
next
  case (fetch_data s c)
  then show ?case by (intro conn_inv_fetch) auto
next
  case (drain s)
  then show ?case by (intro conn_invI) (auto dest: conn_invD)
next
  case (close s)
  have "False \<notin> fetched (csPC s)" using close by (simp add: fetched_def)
  then show ?case using conn_invD(1-5) [OF close(3)] unfolding closeConnections_def by (intro conn_invI) auto
next
  case (return s d)
  then have "served (csPC s) = {}" unfolding conn_inv_def by simp
  then show ?case using conn_invD(1-6) [OF return(3)] conn_invD(7,8) [OF return(3)] return(1) by (intro conn_invI) auto
qed (auto intro: conn_inv_register conn_inv_leave conn_inv_done)

lemma conn_inv_reach: "conn_reach side s \<Longrightarrow> conn_inv side s"
  by (induction rule: conn_reach.induct) (auto intro: conn_inv_start conn_inv_step)

subsection \<open>Shutdown waits for every handler\<close>

text \<open>C24. Under any interleaving of the accept loops, the handlers and the shutdown, the wait group counts the
  handlers that have not ended and the table holds those that serve. Once the server has closed its
  connections every connection that is still served is closed, and when \<open>Serve\<close> returns no handler is
  left: always in a server with one accept loop (the local daemon), and in the bridge when it was draining.\<close>

theorem connections_drained:
  assumes "conn_reach side s"
  shows "csWait s = int (card (served (csPC s))) \<and> csTable s = running (csPC s) \<and>
    (\<forall>d. (side \<longrightarrow> d) \<longrightarrow>
      (csPhase s = Closing d \<longrightarrow> csTable s \<subseteq> csClosed s) \<and>
      (csPhase s = Ended d \<longrightarrow> served (csPC s) = {} \<and> csTable s = {} \<and> csWait s = 0))"
proof -
  note i = conn_invD [OF conn_inv_reach [OF assms]]
  have sub: "running (csPC s) \<subseteq> served (csPC s)" by (auto simp: running_def served_def)
  have "running (csPC s) = {}" if "csPhase s = Ended d" "side \<longrightarrow> d" for d using sub i(9) [OF that] by simp
  then show ?thesis using i(3,4) i(8) i(9) by auto
qed

text \<open>The exact steps of a run, for the examples.\<close>

fun conn_script :: "(conn_state \<Rightarrow> conn_state) list \<Rightarrow> conn_state \<Rightarrow> conn_state" where
  "conn_script [] s = s"
| "conn_script (f # fs) s = conn_script fs (f s)"

fun conn_script_ok :: "bool \<Rightarrow> (conn_state \<Rightarrow> conn_state) list \<Rightarrow> conn_state \<Rightarrow> bool" where
  "conn_script_ok side [] s = True"
| "conn_script_ok side (f # fs) s = (conn_step side s (f s) \<and> conn_script_ok side fs (f s))"

lemma conn_script_reach: "conn_script_ok side fs s \<Longrightarrow> conn_reach side s \<Longrightarrow> conn_reach side (conn_script fs s)"
  by (induction fs arbitrary: s) (auto intro: conn_reach.step)

definition fetchConn :: "bool \<Rightarrow> nat \<Rightarrow> conn_state \<Rightarrow> conn_state" where
  "fetchConn b c s = s\<lparr>csSeen := insert c (csSeen s), csPC := (csPC s)(c \<mapsto> Fetched b)\<rparr>"

definition serveEnds :: "conn_state \<Rightarrow> conn_state" where
  "serveEnds s = s\<lparr>csPhase := Ended (csDraining s)\<rparr>"

lemmas conn_script_simps = fetchConn_def serveEnds_def registerConn_def leaveTable_def handlerDone_def closeConnections_def

lemma scripted_steps:
  "csPhase s = Accepting \<Longrightarrow> c \<notin> csSeen s \<Longrightarrow> b \<longrightarrow> side \<Longrightarrow> \<forall>x. csPC s x \<noteq> Some (Fetched b) \<Longrightarrow> conn_step side s (fetchConn b c s)"
  "csPhase s = Accepting \<Longrightarrow> \<forall>x. csPC s x \<noteq> Some (Fetched False) \<Longrightarrow> conn_step side s (closeConnections s)"
  "csPhase s = Closing (csDraining s) \<Longrightarrow> csWait s = 0 \<Longrightarrow> conn_step side s (serveEnds s)"
proof -
  show "csPhase s = Accepting \<Longrightarrow> c \<notin> csSeen s \<Longrightarrow> b \<longrightarrow> side \<Longrightarrow> \<forall>x. csPC s x \<noteq> Some (Fetched b) \<Longrightarrow> conn_step side s (fetchConn b c s)"
    unfolding fetchConn_def by (cases b) (auto intro!: conn_step.fetch conn_step.fetch_data simp: image_iff dest: sym)
  show "csPhase s = Accepting \<Longrightarrow> \<forall>x. csPC s x \<noteq> Some (Fetched False) \<Longrightarrow> conn_step side s (closeConnections s)"
    by (rule conn_step.close) (auto simp: image_iff dest: sym)
  show "csPhase s = Closing (csDraining s) \<Longrightarrow> csWait s = 0 \<Longrightarrow> conn_step side s (serveEnds s)"
    unfolding serveEnds_def by (rule conn_step.return)
qed

lemma scripted_register: "\<exists>b. csPC s c = Some (Fetched b) \<Longrightarrow> conn_step side s (registerConn c s)"
  by (blast intro: conn_step.register)

lemmas scripted = scripted_steps scripted_register conn_step.leave conn_step.finished

text \<open>A data connection that was accepted just before the end of a bridge that is cancelled from outside (a
  signal: not draining) is registered after the connections were closed and after the wait: it is neither
  closed nor waited for.\<close>

lemma late_data_connection:
  "\<exists>s. conn_reach True s \<and> csPhase s = Ended False \<and> csPC s 0 = Some Handled \<and> 0 \<notin> csClosed s"
proof -
  define fs where "fs = [fetchConn True 0, closeConnections, serveEnds, registerConn 0]"
  have "conn_script_ok True fs conn_start"
    unfolding fs_def conn_script_ok.simps
    by (intro conjI TrueI scripted) (simp_all add: conn_script_simps conn_start_def ex_bool_eq)
  then have "conn_reach True (conn_script fs conn_start)" by (rule conn_script_reach) (rule conn_reach.start)
  moreover have "csPhase (conn_script fs conn_start) = Ended False \<and> csPC (conn_script fs conn_start) 0 = Some Handled \<and>
    0 \<notin> csClosed (conn_script fs conn_start)"
    by (simp add: fs_def conn_script_simps conn_start_def)
  ultimately show ?thesis by blast
qed

text \<open>A connection that is served when the server closes its connections: it is closed, leaves, and the server
  ends.\<close>

theorem connections_drained_witness:
  "\<exists>s. conn_reach False s \<and> csPhase s = Ended False \<and> 0 \<in> csClosed s \<and> served (csPC s) = {} \<and> csWait s = 0"
proof -
  define fs where "fs = [fetchConn False 0, registerConn 0, closeConnections, leaveTable 0, handlerDone 0, serveEnds]"
  define s where "s = conn_script fs conn_start"
  have "conn_script_ok False fs conn_start"
    unfolding fs_def conn_script_ok.simps
    by (intro conjI TrueI scripted) (simp_all add: conn_script_simps conn_start_def ex_bool_eq)
  then have r: "conn_reach False s" unfolding s_def by (rule conn_script_reach) (rule conn_reach.start)
  have e: "csPhase s = Ended False" "0 \<in> csClosed s" by (simp_all add: s_def fs_def conn_script_simps conn_start_def)
  have "served (csPC s) = {} \<and> csWait s = 0" using connections_drained [OF r] e(1) by (simp add: ex_bool_eq)
  with r e show ?thesis by (intro exI [of _ s]) simp
qed

end
