(* ===== verification/Serving.thy ===== *)
theory Serving
  imports Bridge Locald Resources Connections
begin

text \<open>
  The life of the two servers: \<open>Serve\<close> of \<open>internal/locald/locald.go\<close> and of \<open>internal/bridge/bridge.go\<close> as
  traces of what they acquire and release, the first frame of a connection of the bridge, the end of the
  daemon's forwards, and the timing of the lease monitor. Theory Connections counts the connections.
\<close>

subsection \<open>Serving\<close>

datatype serve_resource = ServeContext | ServerLock | Listener | SocketFile | Connections | FSListener | InfoFile
datatype serve_effect =
  RemoveStaleSocket | CleanStaleMounts | MonitorStartup | AcceptLoop | RemoveStaleFSSocket | AcceptFSLoop |
  ObservePorts | MonitorLeases

type_synonym serve_run = "string option \<times> (serve_resource, serve_effect) trace_step list"

text \<open>What the outside answers: \<open>None\<close> is success. \<open>snEnded\<close>: the accept loop ended because its context was
  cancelled or its listener closed.\<close>

record serve_env =
  snSocketPath :: string
  snMkdir :: "string option"
  snLock :: "string option"
  snListen :: "string option"
  snChmod :: "string option"
  snFSMkdir :: "string option"
  snFSListen :: "string option"
  snFSChmod :: "string option"
  snInfoPath :: string
  snWriteInfo :: "string option"
  snPortScan :: bool
  snEnded :: bool
  snAcceptErr :: string

definition acceptResult :: "serve_env \<Rightarrow> string option" where
  "acceptResult e = (if snEnded e then None else Some (snAcceptErr e))"

text \<open>The socket file is removed only while it is still the one that was created; files are identities.\<close>

definition removeOwnedSocket :: "'i option \<Rightarrow> 'i option \<Rightarrow> 'i option" where
  "removeOwnedSocket owned current =
     (case owned of None \<Rightarrow> current | Some i \<Rightarrow> (if current = Some i then None else current))"

definition removeSocketIfOwned :: "'i option \<Rightarrow> 'i option \<Rightarrow> 'i option" where
  "removeSocketIfOwned owned current =
     (case owned of None \<Rightarrow> current | Some i \<Rightarrow> (if current = Some i then None else current))"

text \<open>Where a bridge keeps its second socket and its mounts, unless it is told.\<close>

definition bridgePaths :: "string \<Rightarrow> string \<Rightarrow> string \<Rightarrow> string \<times> string" where
  "bridgePaths socketPath fsSocketPath mountRoot =
     (if fsSocketPath = [] then socketPath @ ''.fs'' else fsSocketPath,
      if mountRoot = [] then JoinPath (Dir socketPath) ''mounts'' else mountRoot)"

text \<open>A deferred release of \<open>r\<close> runs after everything that was deferred later.\<close>

definition deferring :: "serve_resource \<Rightarrow> serve_run \<Rightarrow> serve_run" where
  "deferring r run = (fst run, around r (snd run))"

definition after :: "serve_effect \<Rightarrow> serve_run \<Rightarrow> serve_run" where
  "after x run = (fst run, Effect x # snd run)"

definition failing :: "string option \<Rightarrow> serve_run \<Rightarrow> serve_run" where
  "failing err run = (case err of Some e \<Rightarrow> (Some e, []) | None \<Rightarrow> run)"

definition localdServe :: "serve_env \<Rightarrow> serve_run" where
  "localdServe e =
     (if snSocketPath e = [] then (Some ''local daemon socket path is required'', [])
      else failing (snMkdir e) (failing (snLock e) (deferring ServerLock (after RemoveStaleSocket
        (failing (snListen e) (deferring Listener (deferring SocketFile (deferring Connections
          (failing (snChmod e) (after MonitorStartup (after AcceptLoop (acceptResult e, []))))))))))))"

text \<open>\<open>listenFS\<close>: the listener is closed at once when its permissions cannot be set.\<close>

definition listenFS :: "serve_env \<Rightarrow> serve_run \<Rightarrow> serve_run" where
  "listenFS e serving =
     failing (snFSMkdir e) (after RemoveStaleFSSocket (failing (snFSListen e)
       (deferring FSListener (failing (snFSChmod e) (after AcceptFSLoop serving)))))"

definition bridgeServe :: "serve_env \<Rightarrow> serve_run" where
  "bridgeServe e =
     (let accepting = after MonitorLeases (after AcceptLoop (acceptResult e, []));
          observing = (if snPortScan e then after ObservePorts accepting else accepting);
          informing = (if snInfoPath e = [] then observing else failing (snWriteInfo e) (deferring InfoFile observing)) in
      if snSocketPath e = [] then (Some ''socket path is required'', [])
      else deferring ServeContext (failing (snMkdir e) (failing (snLock e) (deferring ServerLock
        (after CleanStaleMounts (after RemoveStaleSocket (failing (snListen e) (deferring Listener (deferring SocketFile
          (deferring Connections (failing (snChmod e) (listenFS e informing))))))))))))"

lemma serve_run_balanced [intro]:
  "balanced (snd run) \<Longrightarrow> balanced (snd (deferring r run))"
  "balanced (snd run) \<Longrightarrow> balanced (snd (after x run))"
  "balanced (snd run) \<Longrightarrow> balanced (snd (failing err run))"
  by (auto simp: deferring_def after_def failing_def around_balanced split: option.split)

lemma listenFS_balanced [intro]: "balanced (snd serving) \<Longrightarrow> balanced (snd (listenFS e serving))"
  unfolding listenFS_def by (intro serve_run_balanced)

text \<open>Both servers give up everything in reverse order on every path: the information file before the sockets,
  the connections before the listener, the lock last (the bridge's context after it).\<close>

lemma servers_clean_up: "balanced (snd (localdServe e))" "balanced (snd (bridgeServe e))"
proof -
  show "balanced (snd (localdServe e))"
  proof (cases "snSocketPath e = []")
    case False
    have "balanced (snd (acceptResult e, []))" by simp
    then show ?thesis unfolding localdServe_def by (simp only: False if_False) (intro serve_run_balanced)
  qed (simp add: localdServe_def)
  show "balanced (snd (bridgeServe e))"
  proof (cases "snSocketPath e = []")
    case False
    define accepting where "accepting = after MonitorLeases (after AcceptLoop (acceptResult e, []))"
    have a: "balanced (snd accepting)" by (simp add: accepting_def after_def)
    define observing where "observing = (if snPortScan e then after ObservePorts accepting else accepting)"
    have o: "balanced (snd observing)" using a unfolding observing_def by (auto simp: after_def)
    define informing where "informing = (if snInfoPath e = [] then observing else failing (snWriteInfo e) (deferring InfoFile observing))"
    have i: "balanced (snd informing)" using o serve_run_balanced(1,3) unfolding informing_def by auto
    show ?thesis
      unfolding bridgeServe_def Let_def accepting_def [symmetric] observing_def [symmetric] informing_def [symmetric]
      by (simp only: False if_False) (intro serve_run_balanced listenFS_balanced i)
  qed (simp add: bridgeServe_def)
qed

text \<open>A server holds its sockets only under its lock: without the lock it leaves the files alone.\<close>

lemma servers_locked:
  "snLock e = Some err \<Longrightarrow> snMkdir e = None \<Longrightarrow>
   Effect RemoveStaleSocket \<notin> set (snd (localdServe e)) \<and> Effect RemoveStaleSocket \<notin> set (snd (bridgeServe e)) \<and>
   Effect CleanStaleMounts \<notin> set (snd (bridgeServe e))"
  by (simp add: localdServe_def bridgeServe_def failing_def deferring_def around_def Let_def)

lemma removeOwnedSocket_others: "removeOwnedSocket owned current \<noteq> current \<Longrightarrow> owned = current \<and> removeOwnedSocket owned current = None"
  by (auto simp: removeOwnedSocket_def split: option.splits if_splits)

subsection \<open>A connection of the bridge\<close>

text \<open>\<open>handleConn\<close> up to the loops it enters: the frames sent, and how it goes on. \<open>hello\<close> is \<open>None\<close> when no frame
  could be read; \<open>sendOk\<close> and \<open>ports\<close> are as in \<open>serveClient\<close>.\<close>

datatype conn_fate = ConnClosed | ReadLoop clientConn | RequesterLoop string string

definition bridgeHandleConn ::
  "string \<Rightarrow> string \<Rightarrow> int \<Rightarrow> nat \<Rightarrow> bool \<Rightarrow> Frame list \<Rightarrow> Frame option \<Rightarrow> bridge \<Rightarrow> bridge \<times> Frame list \<times> conn_fate" where
  "bridgeHandleConn token v now i sendOk ports hello s =
     (case hello of
        None \<Rightarrow> (s, [], ConnClosed)
      | Some frame \<Rightarrow>
          (case checkHello token v frame of
             HelloRejected err \<Rightarrow> (s, [err], ConnClosed)
           | HelloRequester contextID sessionID \<Rightarrow> (s, [], RequesterLoop contextID sessionID)
           | HelloClient frame \<Rightarrow>
               (let c = clientOf i now frame in
                case serveClient s v now c sendOk ports of
                  (s1, sent, stays) \<Rightarrow> (s1, sent, if stays then ReadLoop c else ConnClosed))))"

text \<open>Only a connection that knows the token and the protocol gets into a loop; a client that does is registered,
  every other connection leaves the clients as they were.\<close>

lemma bridgeHandleConn_trust:
  assumes "bridgeHandleConn token v now i sendOk ports hello s = (s1, sent, fate)" "fate \<noteq> ConnClosed"
  shows "\<exists>frame. hello = Some frame \<and> fType frame = TypeHello \<and> (token = [] \<or> fToken frame = token) \<and>
    FrameCompatible frame \<and> fRuntimeID frame = RuntimeID"
proof (cases hello)
  case (Some frame)
  then have "\<nexists>err. checkHello token v frame = HelloRejected err" using assms by (auto simp: bridgeHandleConn_def)
  then have "fType frame = TypeHello" "token = [] \<or> fToken frame = token" "FrameCompatible frame" "fRuntimeID frame = RuntimeID"
    by (simp_all add: checkHello_def split: if_splits)
  with Some show ?thesis by blast
qed (use assms in \<open>simp add: bridgeHandleConn_def\<close>)

lemma bridgeHandleConn_clients:
  assumes "bridgeHandleConn token v now i sendOk ports hello s = (s1, sent, fate)" "i \<notin> ccId ` set (clients s)"
  shows "clients s1 = clients s @ (case fate of ReadLoop c \<Rightarrow> [c] | _ \<Rightarrow> [])"
proof -
  have keep: "filter (\<lambda>d. ccId d \<noteq> i) (clients s) = clients s"
    using assms(2) by (auto intro: filter_True)
  show ?thesis
  proof (cases hello)
    case (Some frame)
    show ?thesis
    proof (cases "checkHello token v frame")
      case (HelloClient h)
      define c where "c = clientOf i now h"
      have i: "ccId c = i" by (simp add: c_def clientOf_def)
      have "clients s1 = clients s @ (case fate of ReadLoop c \<Rightarrow> [c] | _ \<Rightarrow> []) \<and> True"
        using assms(1) Some HelloClient keep i unfolding bridgeHandleConn_def c_def [symmetric] Let_def
        by (auto simp: c_def [symmetric] serveClient_def addClient_def removeClient_clients split: prod.splits if_splits)
      then show ?thesis by simp
    qed (use assms(1) Some in \<open>auto simp: bridgeHandleConn_def\<close>)
  qed (use assms(1) in \<open>auto simp: bridgeHandleConn_def\<close>)
qed

subsection \<open>The lease monitor's interval and the end of the bridge\<close>

text \<open>A third of the heartbeat timeout, at most a quarter of a second, at least a millisecond (in nanoseconds; where
  rounding down and Go's rounding towards zero differ the interval is the millisecond).\<close>

definition leaseInterval :: "int \<Rightarrow> int" where
  "leaseInterval timeout =
     (let interval = timeout div 3; interval = (if interval > 250000000 then 250000000 else interval) in
      if interval \<le> 0 then 1000000 else interval)"

lemma leaseInterval_bounds:
  "0 < leaseInterval t \<and> leaseInterval t \<le> 250000000 \<and> (1000000 \<le> t \<longrightarrow> 3 * leaseInterval t \<le> t)"
  by (auto simp: leaseInterval_def Let_def)

datatype shutdown_act = CancelServe | CloseListener

text \<open>\<open>initiateShutdown\<close> of the bridge; \<open>once\<close>: it ran before.\<close>

definition bridgeShutdown :: "bool \<Rightarrow> bridge \<Rightarrow> bridge \<times> shutdown_act list" where
  "bridgeShutdown once s = (if once then (s, []) else (s\<lparr>bDraining := True\<rparr>, [CancelServe, CloseListener]))"

text \<open>A tick of the monitor with what it leads to.\<close>

definition monitorLeasesTick :: "timeouts \<Rightarrow> int \<Rightarrow> bool \<Rightarrow> bridge \<Rightarrow> bridge \<times> shutdown_act list" where
  "monitorLeasesTick t now once s =
     (case monitorTick t now s of
        (True, s1) \<Rightarrow> bridgeShutdown once s1
      | (False, s1) \<Rightarrow> (s1, []))"

lemma monitor_ends_idle:
  "snd (monitorLeasesTick t now once s) \<noteq> [] \<Longrightarrow>
   clients (fst (monitorLeasesTick t now once s)) = [] \<and> connections (fst (monitorLeasesTick t now once s)) = {} \<and>
   bDraining (fst (monitorLeasesTick t now once s))"
  by (auto simp: monitorLeasesTick_def bridgeShutdown_def monitorTick_def Let_def confirmDrain_def split: prod.splits if_splits)

text \<open>The connections \<open>closeConnections\<close> closes: those of the table, in the order of the iteration.\<close>

definition bridgeCloseConnections :: "(nat set \<Rightarrow> nat list) \<Rightarrow> bridge \<Rightarrow> nat list" where
  "bridgeCloseConnections iter s = iter (connections s)"

subsection \<open>The end of the daemon\<close>

text \<open>\<open>stopResources\<close>: every forward manager of the table is stopped; the forwards it held are dropped, the connections
  of the sessions are closed and the responders stopped.\<close>

definition stopResources ::
  "(string set \<Rightarrow> string list) \<Rightarrow> (int set \<Rightarrow> int list) \<Rightarrow> daemon \<Rightarrow> daemon \<times> string list \<times> Forward list \<times> string list" where
  "stopResources iterk iterp d =
     (d\<lparr>forwarders := (\<lambda>k. map_option (\<lambda>m. fst (stop_locked iterp m)) (forwarders d k))\<rparr>,
      iterk (dom (sessions d)),
      concat (map (\<lambda>k. snd (stop_locked iterp (the (forwarders d k)))) (iterk (dom (forwarders d)))),
      iterk (dom (domains d)))"

text \<open>After it no manager of the table opens a forward any more, and every forward that one held is dropped.\<close>

lemma stopResources_stops:
  assumes "stopResources iterk iterp d = (d', conns, fs, doms)"
  shows "forwarders d' k = Some m \<Longrightarrow> stopped m"
    and "set (iterk (dom (forwarders d))) = dom (forwarders d) \<Longrightarrow> forwarders d k = Some m \<Longrightarrow> \<not> stopped m \<Longrightarrow>
      set (iterp (dom (byRemote m))) = dom (byRemote m) \<Longrightarrow> byRemote m p = Some f \<Longrightarrow> f \<in> set fs"
proof -
  show "forwarders d' k = Some m \<Longrightarrow> stopped m" using assms by (auto simp: stopResources_def stop_locked_def)
  assume it: "set (iterk (dom (forwarders d))) = dom (forwarders d)" and m: "forwarders d k = Some m" "\<not> stopped m"
    and ip: "set (iterp (dom (byRemote m))) = dom (byRemote m)" and f: "byRemote m p = Some f"
  have "p \<in> set (iterp (dom (byRemote m)))" using ip f by auto
  then have "f \<in> set (snd (stop_locked iterp m))" using m(2) f by (force simp: stop_locked_def)
  moreover have "k \<in> set (iterk (dom (forwarders d)))" using it m(1) by auto
  ultimately show "f \<in> set fs" using assms m(1) by (force simp: stopResources_def)
qed

end
