(* ===== verification/Lifecycle.thy ===== *)
theory Lifecycle
  imports Resources Serving BridgeClient
begin

text \<open>
  The small state machines around the services: functions that act once, contexts with the signal that ended
  them (\<open>internal/cli/signal.go\<close>), waiting with a deadline, the ssh process under a bridge
  (\<open>internal/cli/ssh_bridge.go\<close>), the responder's start and stop (\<open>internal/domain/domain.go\<close>), files that
  are written atomically (\<open>internal/identity/identity.go\<close>), and the run of a client and of one request as wholes
  (\<open>internal/bridge/client.go\<close>, \<open>bridge.go\<close>).
\<close>

subsection \<open>Acting once\<close>

text \<open>\<open>sync.Once\<close>: the flag tells that it ran; a later call does nothing and has no error.\<close>

definition onceDo :: "'e list \<Rightarrow> string option \<Rightarrow> bool \<Rightarrow> bool \<times> 'e list \<times> string option" where
  "onceDo effects err did = (if did then (True, [], None) else (True, effects, err))"

datatype close_effect = CloseTransport | CancelContext | CloseConn | AwaitDone | CloseDone | RunStop | CloseDNS

definition muxClose :: "string option \<Rightarrow> bool \<Rightarrow> bool \<times> close_effect list \<times> string option" where
  "muxClose err = onceDo [CloseTransport] err"

definition sessionClose :: "string option \<Rightarrow> bool \<Rightarrow> bool \<times> close_effect list \<times> string option" where
  "sessionClose err = onceDo [CancelContext, CloseConn, AwaitDone] err"

definition clientConnClose :: "bool \<Rightarrow> bool \<times> close_effect list \<times> string option" where
  "clientConnClose = onceDo [CloseConn, CloseDone] None"

text \<open>\<open>BridgeSession.Stop\<close>: the session may be nil and may have nothing to stop.\<close>

definition bridgeSessionStop :: "bool option \<Rightarrow> bool \<Rightarrow> bool \<times> close_effect list" where
  "bridgeSessionStop session did =
     (case session of
        None \<Rightarrow> (did, [])
      | Some hasStop \<Rightarrow> (case onceDo (if hasStop then [RunStop] else []) None did of (r, es, err) \<Rightarrow> (r, es)))"

fun calls :: "(bool \<Rightarrow> bool \<times> 'e list \<times> string option) \<Rightarrow> nat \<Rightarrow> bool \<Rightarrow> 'e list" where
  "calls f 0 did = []"
| "calls f (Suc n) did = (case f did of (did', es, err) \<Rightarrow> es @ calls f n did')"

lemma once_calls: "calls (onceDo es err) n did = (if did \<or> n = 0 then [] else es)"
  by (induction n arbitrary: did) (auto simp: onceDo_def)

lemma closes_once:
  "calls (muxClose err) (Suc n) False = [CloseTransport]"
  "calls (sessionClose err) (Suc n) False = [CancelContext, CloseConn, AwaitDone]"
  "calls clientConnClose (Suc n) False = [CloseConn, CloseDone]"
  unfolding muxClose_def sessionClose_def clientConnClose_def once_calls by simp_all

subsection \<open>Contexts and signals\<close>

text \<open>A context ends by the first of the things that cancel it and keeps that cause.\<close>

datatype cancel_cause = Signalled nat | Cancelled | TimedOut | ParentDone

definition cancelContext :: "cancel_cause \<Rightarrow> cancel_cause option \<Rightarrow> cancel_cause option" where
  "cancelContext c ctx = (case ctx of None \<Rightarrow> Some c | Some d \<Rightarrow> Some d)"

definition watchedSignals :: "nat list" where "watchedSignals = [2, 15, 1, 3]"

datatype signal_event = Signal nat | StopWatching

record signal_state =
  sgCause :: "cancel_cause option"
  sgWatching :: bool
  sgStopped :: bool

text \<open>\<open>NotifySignalContext\<close>: the goroutine takes one signal of the watched ones or the end; the stop function acts
  once.\<close>

definition signalStep :: "signal_event \<Rightarrow> signal_state \<Rightarrow> signal_state" where
  "signalStep e s =
     (case e of
        Signal n \<Rightarrow>
          (if n \<in> set watchedSignals \<and> sgWatching s
           then s\<lparr>sgCause := cancelContext (Signalled n) (sgCause s), sgWatching := False\<rparr> else s)
      | StopWatching \<Rightarrow>
          (if sgStopped s then s
           else s\<lparr>sgStopped := True, sgWatching := False, sgCause := cancelContext Cancelled (sgCause s)\<rparr>))"

definition NotifySignalContext :: "signal_event list \<Rightarrow> cancel_cause option" where
  "NotifySignalContext events = sgCause (fold signalStep events \<lparr>sgCause = None, sgWatching = True, sgStopped = False\<rparr>)"

text \<open>What the adapter sends to its client when the context ends (\<open>execAdapterCommand\<close>): the signal, or a kill (9).\<close>

definition forwardedSignal :: "cancel_cause \<Rightarrow> nat" where
  "forwardedSignal c = (case c of Signalled n \<Rightarrow> n | _ \<Rightarrow> 9)"

lemma signals_settled:
  "sgCause s \<noteq> None \<Longrightarrow> sgCause (fold signalStep events s) = sgCause s"
  by (induction events arbitrary: s) (auto simp: signalStep_def cancelContext_def split: signal_event.split)

fun first_cause :: "signal_event list \<Rightarrow> cancel_cause option" where
  "first_cause [] = None"
| "first_cause (Signal n # es) = (if n \<in> set watchedSignals then Some (Signalled n) else first_cause es)"
| "first_cause (StopWatching # es) = Some Cancelled"

text \<open>The cause is the first watched signal, unless the watching was stopped before: the adapter passes on that very
  signal.\<close>

lemma NotifySignalContext_first: "NotifySignalContext events = first_cause events"
proof -
  have "sgCause (fold signalStep events s) = first_cause events"
    if "sgCause s = None" "sgWatching s" "\<not> sgStopped s" for s
    using that
  proof (induction events arbitrary: s)
    case (Cons e es)
    show ?case
    proof (cases e)
      case (Signal n)
      show ?thesis
      proof (cases "n \<in> set watchedSignals")
        case True
        then have "sgCause (signalStep e s) = Some (Signalled n)"
          using Cons.prems Signal by (simp add: signalStep_def cancelContext_def)
        then show ?thesis using signals_settled [of "signalStep e s" es] True Signal by simp
      next
        case False
        then have "signalStep e s = s" using Signal by (simp add: signalStep_def)
        then show ?thesis using Cons Signal False by simp
      qed
    next
      case StopWatching
      then have "sgCause (signalStep e s) = Some Cancelled"
        using Cons.prems by (simp add: signalStep_def cancelContext_def)
      then show ?thesis using signals_settled [of "signalStep e s" es] StopWatching by simp
    qed
  qed simp
  then show ?thesis by (simp add: NotifySignalContext_def)
qed

text \<open>\<open>CommandContext\<close>: a command under a bridge ends with its parent, with its own cancel function, or with the
  bridge, which has a \<open>Done\<close> channel or not.\<close>

datatype command_event = ParentEnds | OwnCancel | BridgeDone

definition commandStep :: "bool \<Rightarrow> command_event \<Rightarrow> cancel_cause option \<Rightarrow> cancel_cause option" where
  "commandStep hasDone e ctx =
     (case e of
        ParentEnds \<Rightarrow> cancelContext ParentDone ctx
      | OwnCancel \<Rightarrow> cancelContext Cancelled ctx
      | BridgeDone \<Rightarrow> (if hasDone then cancelContext Cancelled ctx else ctx))"

definition CommandContext :: "bool \<Rightarrow> command_event list \<Rightarrow> cancel_cause option" where
  "CommandContext hasDone events = fold (commandStep hasDone) events None"

lemma CommandContext_ends:
  "CommandContext hasDone events \<noteq> None \<longleftrightarrow> (\<exists>e \<in> set events. e \<noteq> BridgeDone \<or> hasDone)"
proof -
  have "fold (commandStep hasDone) events ctx \<noteq> None \<longleftrightarrow> ctx \<noteq> None \<or> (\<exists>e \<in> set events. e \<noteq> BridgeDone \<or> hasDone)" for ctx
    by (induction events arbitrary: ctx) (auto simp: commandStep_def cancelContext_def split: command_event.split option.split)
  from this [of None] show ?thesis by (simp add: CommandContext_def)
qed

text \<open>\<open>withCommandTimeout\<close>: the deadline of a command that starts now, if any.\<close>

definition withCommandTimeout :: "int option \<Rightarrow> int \<Rightarrow> int \<Rightarrow> int option" where
  "withCommandTimeout parentDeadline now timeout =
     (if timeout \<le> 0 then parentDeadline
      else case parentDeadline of None \<Rightarrow> Some (now + timeout) | Some d \<Rightarrow> Some (min d (now + timeout)))"

lemma withCommandTimeout_bound:
  "0 < timeout \<Longrightarrow> \<exists>d. withCommandTimeout parent now timeout = Some d \<and> d \<le> now + timeout \<and> (parent = Some p \<longrightarrow> d \<le> p)"
  by (auto simp: withCommandTimeout_def split: option.split)

subsection \<open>Waiting\<close>

text \<open>\<open>waitForPath\<close>, over its polls: whether the socket is there, and whether the context ends before the next
  tick; \<open>None\<close> waits on.\<close>

fun waitForPath :: "(bool \<times> bool) list \<Rightarrow> bool option" where
  "waitForPath [] = None"
| "waitForPath ((there, ended) # polls) = (if there then Some True else if ended then Some False else waitForPath polls)"

lemma waitForPath_sound: "waitForPath polls = Some True \<Longrightarrow> \<exists>p \<in> set polls. fst p"
  by (induction polls rule: waitForPath.induct) (simp_all split: if_splits)

lemma waitForPath_found: "\<forall>p \<in> set ps. p = (False, False) \<Longrightarrow> waitForPath (ps @ (True, ended) # qs) = Some True"
  by (induction ps) auto

text \<open>\<open>waitForSocketRemoval\<close>: every round reads the clock, looks at the socket and its lock, and waits 25 milliseconds
  unless the context ends. Times are in milliseconds.\<close>

record removal_poll =
  rpNow :: int
  rpSocketGone :: bool
  rpLockGone :: bool
  rpEnded :: bool

fun waitForSocketRemoval :: "int \<Rightarrow> removal_poll list \<Rightarrow> bool option" where
  "waitForSocketRemoval deadline [] = None"
| "waitForSocketRemoval deadline (p # ps) =
     (if rpNow p \<ge> deadline then Some False
      else if rpSocketGone p \<and> rpLockGone p then Some True
      else if rpEnded p then Some False
      else waitForSocketRemoval deadline ps)"

text \<open>Rounds that take at least 25 milliseconds each.\<close>

fun paced :: "int \<Rightarrow> removal_poll list \<Rightarrow> bool" where
  "paced t [] = True"
| "paced t (p # ps) = (t \<le> rpNow p \<and> paced (rpNow p + 25) ps)"

text \<open>The wait ends after at most one round per 25 milliseconds of the timeout, and one more.\<close>

lemma waitForSocketRemoval_ends:
  "paced t ps \<Longrightarrow> ps \<noteq> [] \<Longrightarrow> deadline - t \<le> 25 * (int (length ps) - 1) \<Longrightarrow> waitForSocketRemoval deadline ps \<noteq> None"
proof (induction ps arbitrary: t)
  case (Cons p ps)
  show ?case
  proof (cases "ps = []")
    case True
    then show ?thesis using Cons.prems by simp
  next
    case False
    have "paced (rpNow p + 25) ps" "deadline - (rpNow p + 25) \<le> 25 * (int (length ps) - 1)" using Cons.prems by simp_all
    from Cons.IH [OF this(1) False this(2)] show ?thesis by (simp add: ex_bool_eq)
  qed
qed simp

lemma waitForSocketRemoval_gone:
  "waitForSocketRemoval deadline ps = Some True \<Longrightarrow> \<exists>p \<in> set ps. rpNow p < deadline \<and> rpSocketGone p \<and> rpLockGone p"
  by (induction deadline ps rule: waitForSocketRemoval.induct) (auto split: if_splits)

subsection \<open>The ssh process of a bridge\<close>

datatype proxy_resource = StdinPipe | SSHProcess
datatype proxy_effect = StartSSH "string list" | KillSSH

record proxy_calls =
  prStdin :: "string option"
  prStdout :: "string option"
  prStart :: "string option"

definition startSSHProxy ::
  "proxy_calls \<Rightarrow> string list \<Rightarrow> string option \<times> (proxy_resource, proxy_effect) trace_step list" where
  "startSSHProxy c command =
     (case prStdin c of
        Some err \<Rightarrow> (Some err, [])
      | None \<Rightarrow> (case prStdout c of
          Some err \<Rightarrow> (Some err, [Hold StdinPipe, Free StdinPipe])
        | None \<Rightarrow> (case prStart c of
            Some err \<Rightarrow> (Some err, [Hold StdinPipe, Effect (StartSSH command), Free StdinPipe])
          | None \<Rightarrow> (None, [Hold StdinPipe, Effect (StartSSH command), Hold SSHProcess]))))"

text \<open>\<open>stop\<close> closes the pipe and waits for the process a second, kills it and waits a second again; the arguments tell
  whether the process ended in each second. The second result is the longest time it may take (in seconds).\<close>

definition stopSSHProxy :: "bool \<Rightarrow> bool \<Rightarrow> (proxy_resource, proxy_effect) trace_step list \<times> nat" where
  "stopSSHProxy endsFirst endsKilled =
     (if endsFirst then ([Free StdinPipe, Free SSHProcess], 1)
      else (Free StdinPipe # Effect KillSSH # (if endsKilled then [Free SSHProcess] else []), 2))"

lemma startSSHProxy_holds:
  "still_held [] (snd (startSSHProxy c command)) = Some (if fst (startSSHProxy c command) = None then [SSHProcess, StdinPipe] else [])"
  by (simp add: startSSHProxy_def split: option.split)

lemma sshProxy_stops:
  assumes "fst (startSSHProxy c command) = None" "endsFirst \<or> endsKilled"
  shows "still_held [] (snd (startSSHProxy c command) @ fst (stopSSHProxy endsFirst endsKilled)) = Some [] \<and>
    snd (stopSSHProxy endsFirst endsKilled) \<le> 2"
  using assms by (auto simp: still_held_append startSSHProxy_holds stopSSHProxy_def)

text \<open>The placeholder that listens on a control path when ssh is replaced in tests.\<close>

definition listenPlaceholderControlPath :: "string option \<Rightarrow> string option \<Rightarrow> string \<Rightarrow> (string, (string, unit) trace_step list) result" where
  "listenPlaceholderControlPath mkdirErr listenErr controlPath =
     (case mkdirErr of
        Some err \<Rightarrow> Inl err
      | None \<Rightarrow> (case listenErr of Some err \<Rightarrow> Inl err | None \<Rightarrow> Inr [Hold controlPath]))"

subsection \<open>The responder\<close>

record responder =
  rsSuffix :: string
  rsConn :: "string option"
  rsStopped :: bool

text \<open>\<open>Start\<close>: \<open>resolved\<close> is the parsed address, \<open>listened\<close> the address the socket got.\<close>

definition startDNS :: "(string, string) result \<Rightarrow> (string \<Rightarrow> (string, string) result) \<Rightarrow> responder \<Rightarrow> string option \<times> responder" where
  "startDNS resolved listen m =
     (case resolved of
        Inl err \<Rightarrow> (Some err, m)
      | Inr addr \<Rightarrow> (case listen addr of Inl err \<Rightarrow> (Some err, m) | Inr bound \<Rightarrow> (None, m\<lparr>rsConn := Some bound\<rparr>)))"

definition responderStart :: "(string, string) result \<Rightarrow> (string \<Rightarrow> (string, string) result) \<Rightarrow> responder \<Rightarrow> string option \<times> responder" where
  "responderStart resolved listen m =
     (if rsSuffix m = [] then (Some ''domain suffix is required'', m) else startDNS resolved listen m)"

definition DNSAddr :: "responder \<Rightarrow> string" where
  "DNSAddr m = (case rsConn m of None \<Rightarrow> [] | Some addr \<Rightarrow> addr)"

definition responderStop :: "responder \<Rightarrow> responder \<times> close_effect list" where
  "responderStop m =
     (case onceDo (if rsConn m = None then [] else [CloseDNS]) None (rsStopped m) of (r, es, err) \<Rightarrow> (m\<lparr>rsStopped := r\<rparr>, es))"

lemma responderStart_addr:
  "responderStart resolved listen m = (None, m') \<Longrightarrow>
   rsSuffix m \<noteq> [] \<and> (\<exists>addr bound. resolved = Inr addr \<and> listen addr = Inr bound \<and> DNSAddr m' = bound)"
  by (auto simp: responderStart_def startDNS_def DNSAddr_def split: if_splits sum.splits)

text \<open>A responder stopped before it is started is never closed: the close has been spent.\<close>

lemma stopped_before_started:
  "\<not> rsStopped m \<Longrightarrow> rsConn m = None \<Longrightarrow> responderStart resolved listen (fst (responderStop m)) = (None, m') \<Longrightarrow>
   snd (responderStop m') = []"
  by (auto simp: responderStart_def startDNS_def responderStop_def onceDo_def split: if_splits sum.splits)

subsection \<open>Atomic files\<close>

text \<open>\<open>atomicWrite\<close> of the identity: the outcomes of its calls, the file before and after, and the temporary file's name
  and handle.\<close>

datatype temp_resource = TempName | TempHandle

record write_calls =
  wcMkdir :: "string option"
  wcCreate :: "string option"
  wcChmod :: "string option"
  wcWrite :: "string option"
  wcSync :: "string option"
  wcClose :: "string option"
  wcRename :: "string option"

definition identityAtomicWrite ::
  "write_calls \<Rightarrow> 'd \<Rightarrow> 'd option \<Rightarrow> string option \<times> 'd option \<times> (temp_resource, unit) trace_step list" where
  "identityAtomicWrite c data old =
     (let given_up = [Hold TempName, Hold TempHandle, Free TempHandle, Free TempName] in
      case wcMkdir c of Some err \<Rightarrow> (Some err, old, [])
      | None \<Rightarrow> (case wcCreate c of Some err \<Rightarrow> (Some err, old, [])
      | None \<Rightarrow> (case wcChmod c of Some err \<Rightarrow> (Some err, old, given_up)
      | None \<Rightarrow> (case wcWrite c of Some err \<Rightarrow> (Some err, old, given_up)
      | None \<Rightarrow> (case wcSync c of Some err \<Rightarrow> (Some err, old, given_up)
      | None \<Rightarrow> (case wcClose c of Some err \<Rightarrow> (Some err, old, given_up)
      | None \<Rightarrow> (case wcRename c of Some err \<Rightarrow> (Some err, old, given_up)
      | None \<Rightarrow> (None, Some data, given_up))))))))"

text \<open>The file is replaced completely or not at all, and nothing of the temporary file is left.\<close>

lemma identityAtomicWrite_spec:
  assumes "identityAtomicWrite c data old = (err, new, steps)"
  shows "(err = None \<longrightarrow> new = Some data) \<and> (err \<noteq> None \<longrightarrow> new = old) \<and> balanced steps"
  using assms by (auto simp: identityAtomicWrite_def Let_def balanced_def split: option.splits)

subsection \<open>Places\<close>

definition DefaultInstallPath :: "string option \<Rightarrow> string \<Rightarrow> string" where
  "DefaultInstallPath home tmp =
     (case home of
        Some h \<Rightarrow> (if h = [] then JoinPath tmp ''sshx-install.json'' else JoinPath (JoinPath h ''.sshx'') ''install.json'')
      | None \<Rightarrow> JoinPath tmp ''sshx-install.json'')"

text \<open>The configuration file of a new runner, and the programs it runs.\<close>

definition runnerConfigPath :: "string \<Rightarrow> string \<Rightarrow> string" where
  "runnerConfigPath defaultPath sshxConfig = (if sshxConfig \<noteq> [] then sshxConfig else defaultPath)"

text \<open>The log of an integration: its file, when every step to it succeeds (home, directory, its mode, the file, its
  mode); otherwise nothing is logged and nothing stays open.\<close>

definition integrationLogWriter ::
  "(string, string) result \<Rightarrow> (string \<Rightarrow> string) \<Rightarrow> string \<Rightarrow> bool list \<Rightarrow> (string, unit) trace_step list \<times> string option" where
  "integrationLogWriter home root profile steps =
     (case home of
        Inl err \<Rightarrow> ([], None)
      | Inr h \<Rightarrow>
          (let path = JoinPath (JoinPath (root h) profile) ''integration.log'' in
           case steps of
             [True, True, True, True] \<Rightarrow> ([Hold path], Some path)
           | [True, True, True, False] \<Rightarrow> ([Hold path, Free path], None)
           | _ \<Rightarrow> ([], None)))"

lemma integrationLogWriter_open:
  "still_held [] (fst (integrationLogWriter home root profile steps)) =
   Some (case snd (integrationLogWriter home root profile steps) of None \<Rightarrow> [] | Some p \<Rightarrow> [p])"
  by (auto simp: integrationLogWriter_def Let_def split: sum.split list.split bool.split)

subsection \<open>Small commands\<close>

text \<open>\<open>sshx socket-proxy\<close>: the socket of its flags (\<open>None\<close>: they cannot be parsed) and the outcome of the proxy.\<close>

definition runSocketProxy :: "string option \<Rightarrow> (string \<Rightarrow> string option) \<Rightarrow> int" where
  "runSocketProxy socket proxy =
     (case socket of
        None \<Rightarrow> 2
      | Some path \<Rightarrow> (if path = [] then 2 else case proxy path of Some err \<Rightarrow> 1 | None \<Rightarrow> 0))"

text \<open>The standard input of \<open>sshx local\<close>: nothing is read from a terminal.\<close>

definition readLocalBridgeStdin :: "bool \<Rightarrow> (string, byte list) result \<Rightarrow> (string, byte list) result" where
  "readLocalBridgeStdin terminal content = (if terminal then Inr [] else content)"

definition writeResolverFile :: "string option \<Rightarrow> string option \<Rightarrow> string \<Rightarrow> string option \<Rightarrow> string option \<times> string option" where
  "writeResolverFile mkdirErr writeErr content old =
     (case mkdirErr of
        Some err \<Rightarrow> (Some err, old)
      | None \<Rightarrow> (case writeErr of Some err \<Rightarrow> (Some err, old) | None \<Rightarrow> (None, Some content)))"

lemma runSocketProxy_zero: "runSocketProxy socket proxy = 0 \<longleftrightarrow> (\<exists>path. socket = Some path \<and> path \<noteq> [] \<and> proxy path = None)"
  by (auto simp: runSocketProxy_def split: option.splits)

subsection \<open>A client's run and a request\<close>

text \<open>\<open>RunClientConnWithOptions\<close> from its defaults to its end: \<open>sendErr\<close> is the outcome of sending the hello.\<close>

definition RunClientConn ::
  "string \<Rightarrow> (string, string) result \<Rightarrow> client_opts \<Rightarrow> string list \<Rightarrow> string option \<Rightarrow> string \<Rightarrow> bool \<Rightarrow> (Frame \<times> bool) list \<Rightarrow>
   action list \<times> string option" where
  "RunClientConn v uuid opts token sendErr decodeErr cancelled stream =
     (case defaultOpts v uuid opts of
        Inl err \<Rightarrow> ([Ready (Some err)], Some err)
      | Inr opts \<Rightarrow>
          (case sendErr of
             Some err \<Rightarrow> ([SendFrame (clientHello opts token), Ready (Some err)], Some err)
           | None \<Rightarrow>
               (case client_run opts decodeErr cancelled False stream of
                  (acts, err) \<Rightarrow> (SendFrame (clientHello opts token) # acts, err))))"

definition zeroOpts :: client_opts where
  "zeroOpts = \<lparr>coAllow = None, coHasObserved = False, coHasGone = False, coAppVersion = [], coRuntimeID = [], coTargetID = [],
     coContextID = [], coSessionID = [], coCapabilities = [], coHeartbeatInterval = 0, coHeartbeatTimeout = 0\<rparr>"

definition RunClient ::
  "string option \<Rightarrow> string \<Rightarrow> (string, string) result \<Rightarrow> string option \<Rightarrow> string \<Rightarrow> bool \<Rightarrow> (Frame \<times> bool) list \<Rightarrow> action list \<times> string option" where
  "RunClient dialErr v uuid sendErr decodeErr cancelled stream =
     (case dialErr of
        Some err \<Rightarrow> ([], Some err)
      | None \<Rightarrow> RunClientConn v uuid zeroOpts [] sendErr decodeErr cancelled stream)"

text \<open>A client introduces itself before it does anything else, under a session and the identity of this build.\<close>

lemma RunClient_hello:
  "Execute frame \<in> set (fst (RunClient dialErr v uuid sendErr decodeErr cancelled stream)) \<Longrightarrow>
   \<exists>sid rest. uuid = Inr sid \<and> fst (RunClient dialErr v uuid sendErr decodeErr cancelled stream) =
     SendFrame (clientHello (zeroOpts\<lparr>coAppVersion := v, coSessionID := sid, coRuntimeID := RuntimeID, coTargetID := ''default'',
       coContextID := ''default'', coCapabilities := defaultCapabilities, coHeartbeatInterval := DefaultHeartbeatInterval,
       coHeartbeatTimeout := DefaultHeartbeatTimeout\<rparr>) []) # rest"
  by (auto simp: RunClient_def RunClientConn_def defaultOpts_def zeroOpts_def split: option.splits sum.splits prod.splits)

text \<open>\<open>clientConn.request\<close>: the answer that was delivered, or the end of the connection when none came.\<close>

definition clientRequest :: "string option \<Rightarrow> Frame option \<Rightarrow> string \<Rightarrow> nat \<Rightarrow> pendings \<Rightarrow> (string, Frame) result \<times> pendings" where
  "clientRequest sendErr answer i ch p =
     (let p1 = requestBegin i ch p in
      (case sendErr of Some err \<Rightarrow> Inl err | None \<Rightarrow> (case answer of Some resp \<Rightarrow> Inr resp | None \<Rightarrow> Inl ''EOF''),
       requestEnd i p1))"

lemma clientRequest_forgets: "pnPending (snd (clientRequest sendErr answer i ch p)) i = None"
  by (simp add: clientRequest_def Let_def requestEnd_def requestBegin_def)

subsection \<open>The heartbeats of a client\<close>

text \<open>The goroutine over its ticks, each with the time, the last acknowledgement seen by then and the outcome of
  sending: the frames it sends, and whether it closed the connection.\<close>

fun heartbeats :: "client_opts \<Rightarrow> 64 word \<Rightarrow> (int \<times> int \<times> bool) list \<Rightarrow> Frame list \<times> bool" where
  "heartbeats opts sequence [] = ([], False)"
| "heartbeats opts sequence ((now, lastAck, sent) # ticks) =
     (case heartbeatTick opts now lastAck sequence of
        None \<Rightarrow> ([], True)
      | Some (frame, sequence') \<Rightarrow>
          (if sent then (case heartbeats opts sequence' ticks of (fs, closed) \<Rightarrow> (frame # fs, closed)) else ([], True)))"

text \<open>A server that answers in time gets one heartbeat a tick, numbered from one on; a server that is silent loses
  its client at the first tick after the timeout, and the numbers never jump.\<close>

lemma heartbeats_numbered:
  "map fSequence (fst (heartbeats opts sequence ticks)) =
   map (\<lambda>k. sequence + 1 + of_nat k) [0..<length (fst (heartbeats opts sequence ticks))]"
proof (induction opts sequence ticks rule: heartbeats.induct)
  case (2 opts sequence now lastAck sent ticks)
  show ?case
  proof (cases "now - lastAck \<ge> coHeartbeatTimeout opts \<or> \<not> sent")
    case False
    let ?n = "length (fst (heartbeats opts (sequence + 1) ticks))"
    have "map (\<lambda>k. sequence + 1 + of_nat k) [0..<Suc ?n] =
        (sequence + 1) # map (\<lambda>k. sequence + 1 + 1 + of_nat k) [0..<?n]"
      by (subst upt_conv_Cons) (simp_all add: map_Suc_upt [symmetric] algebra_simps del: upt_Suc)
    then show ?thesis using 2 False by (simp add: heartbeatTick_def case_prod_beta del: upt_Suc)
  qed (auto simp: heartbeatTick_def)
qed simp

lemma heartbeats_answered:
  assumes "\<And>now lastAck sent. (now, lastAck, sent) \<in> set ticks \<Longrightarrow> now - lastAck < coHeartbeatTimeout opts \<and> sent"
  shows "length (fst (heartbeats opts sequence ticks)) = length ticks \<and> \<not> snd (heartbeats opts sequence ticks)"
  using assms
proof (induction ticks arbitrary: sequence)
  case (Cons tick ticks)
  obtain now lastAck sent where t: "tick = (now, lastAck, sent)" by (cases tick)
  have here: "now - lastAck < coHeartbeatTimeout opts \<and> sent" using Cons.prems [of now lastAck sent] t by simp
  have "length (fst (heartbeats opts (sequence + 1) ticks)) = length ticks \<and> \<not> snd (heartbeats opts (sequence + 1) ticks)"
    by (rule Cons.IH, rule Cons.prems) simp
  then show ?case using here unfolding t by (simp add: heartbeatTick_def case_prod_beta)
qed simp

lemma heartbeats_silent:
  assumes "(now, lastAck, sent) \<in> set ticks" "now - lastAck \<ge> coHeartbeatTimeout opts"
  shows "snd (heartbeats opts sequence ticks)"
  using assms
proof (induction ticks arbitrary: sequence)
  case (Cons tick ticks)
  then show ?case by (cases tick) (auto simp: heartbeatTick_def case_prod_beta)
qed simp

end
