(* ===== verification/Systems.thy ===== *)
theory Systems
  imports RootBackend Ports
begin

text \<open>
  What differs between operating systems: the file attributes and file system statistics of
  \<open>remotefs/stat_linux.go\<close> and \<open>remotefs/stat_darwin.go\<close>, and the port scan of \<open>ports/scan_unsupported.go\<close>.
\<close>

subsection \<open>Darwin\<close>

text \<open>\<open>syscall.Stat_t\<close> on Darwin, whose link count has 16 bits.\<close>

record darwin_stat =
  dsIno :: "64 word"
  dsBlocks :: "64 word"
  dsNlink :: "16 word"
  dsAtimeSec :: "64 word"
  dsAtimeNsec :: "64 word"
  dsMtimeSec :: "64 word"
  dsMtimeNsec :: "64 word"
  dsCtimeSec :: "64 word"
  dsCtimeNsec :: "64 word"

record darwin_info =
  diSize :: "64 word"
  diMode :: "32 word"
  diModTime :: "64 word"
  diSys :: "darwin_stat option"

definition darwinFileInfoToAttr :: "darwin_info \<Rightarrow> Attr" where
  "darwinFileInfoToAttr info =
     (let attr = Attr0\<lparr>aSize := diSize info, aMode := fileMode (diMode info), aAtimeNano := diModTime info,
            aMtimeNano := diModTime info, aCtimeNano := diModTime info, aNlink := 1\<rparr> in
      case diSys info of
        None \<Rightarrow> attr
      | Some st \<Rightarrow> attr\<lparr>aIno := dsIno st, aBlocks := dsBlocks st, aNlink := ucast (dsNlink st),
          aAtimeNano := UnixNano (dsAtimeSec st) (dsAtimeNsec st), aMtimeNano := UnixNano (dsMtimeSec st) (dsMtimeNsec st),
          aCtimeNano := UnixNano (dsCtimeSec st) (dsCtimeNsec st)\<rparr>)"

text \<open>The Linux file that looks the same.\<close>

definition linux_stat :: "darwin_stat \<Rightarrow> stat_t" where
  "linux_stat st = \<lparr>stIno = dsIno st, stBlocks = dsBlocks st, stNlink = ucast (dsNlink st), stAtimSec = dsAtimeSec st,
     stAtimNsec = dsAtimeNsec st, stMtimSec = dsMtimeSec st, stMtimNsec = dsMtimeNsec st, stCtimSec = dsCtimeSec st,
     stCtimNsec = dsCtimeNsec st\<rparr>"

definition linux_info :: "darwin_info \<Rightarrow> fileinfo" where
  "linux_info info = \<lparr>fiSize = diSize info, fiMode = diMode info, fiModTime = diModTime info, fiSys = map_option linux_stat (diSys info)\<rparr>"

lemma nlink_widens: "(ucast (ucast (w :: 16 word) :: 64 word) :: 32 word) = ucast w"
  by (rule bit_word_eqI) (auto simp: bit_simps dest: bit_imp_le_length)

text \<open>Both systems describe the same file by the same attributes.\<close>

lemma attributes_portable: "darwinFileInfoToAttr info = fileInfoToAttr (linux_info info)"
  by (cases "diSys info") (simp_all add: darwinFileInfoToAttr_def fileInfoToAttr_def linux_info_def linux_stat_def Let_def Attr0_def nlink_widens)

subsection \<open>Statistics\<close>

record statfs_t =
  sxBlocks :: "64 word"
  sxBfree :: "64 word"
  sxBavail :: "64 word"
  sxFiles :: "64 word"
  sxFfree :: "64 word"
  sxBsize :: "64 word"
  sxNamelen :: "64 word"
  sxFrsize :: "64 word"

definition linuxStatFS :: "(goerr, statfs_t) result \<Rightarrow> (goerr, StatFS) result" where
  "linuxStatFS r =
     (case r of
        Inl err \<Rightarrow> Inl err
      | Inr st \<Rightarrow> Inr \<lparr>sfBlocks = sxBlocks st, sfBfree = sxBfree st, sfBavail = sxBavail st, sfFiles = sxFiles st,
          sfFfree = sxFfree st, sfBsize = ucast (sxBsize st), sfNameLen = ucast (sxNamelen st), sfFrsize = ucast (sxFrsize st)\<rparr>)"

text \<open>Darwin tells neither the length of names nor the size of fragments.\<close>

record darwin_statfs =
  dxBlocks :: "64 word"
  dxBfree :: "64 word"
  dxBavail :: "64 word"
  dxFiles :: "64 word"
  dxFfree :: "64 word"
  dxBsize :: "32 word"

definition darwinStatFS :: "(goerr, darwin_statfs) result \<Rightarrow> (goerr, StatFS) result" where
  "darwinStatFS r =
     (case r of
        Inl err \<Rightarrow> Inl err
      | Inr st \<Rightarrow> Inr \<lparr>sfBlocks = dxBlocks st, sfBfree = dxBfree st, sfBavail = dxBavail st, sfFiles = dxFiles st,
          sfFfree = dxFfree st, sfBsize = dxBsize st, sfNameLen = 255, sfFrsize = dxBsize st\<rparr>)"

lemma darwinStatFS_as_linux:
  "sxBsize st = ucast (dxBsize d) \<Longrightarrow> sxNamelen st = 255 \<Longrightarrow> sxFrsize st = ucast (dxBsize d) \<Longrightarrow>
   sxBlocks st = dxBlocks d \<Longrightarrow> sxBfree st = dxBfree d \<Longrightarrow> sxBavail st = dxBavail d \<Longrightarrow> sxFiles st = dxFiles d \<Longrightarrow>
   sxFfree st = dxFfree d \<Longrightarrow> darwinStatFS (Inr d) = linuxStatFS (Inr st)"
  by (simp add: darwinStatFS_def linuxStatFS_def ucast_up_ucast_id is_up)

subsection \<open>Ports\<close>

definition unsupportedScan :: "(string, Listener list) result" where
  "unsupportedScan = Inl ''port scanning is only supported on Linux servers''"

text \<open>A server without a scan announces nothing, however often it looks.\<close>

lemma unsupported_announces_nothing: "scanAndBroadcastPorts iter unsupportedScan s = (s, [])"
  by (simp add: unsupportedScan_def scanAndBroadcastPorts_def)

end
